(* ===== verification/Prelude.thy ===== *)
theory Prelude
  imports Main "HOL-Library.Word" "HOL-Library.AList"
begin

text \<open>
  Shared vocabulary of the Buffer Fabric development.

  Machine integers are words of their width; the invariants read them through
  \<^const>\<open>unat\<close>.  A fallible operation returns a value of a sum type (\<^const>\<open>Inl\<close> the
  error).  A stateful operation returns such a value together with the state it
  leaves behind: the runtime has no rollback, so an early return keeps every
  mutation made before it, and so does try_st (below).  Hash maps are association
  lists with distinct keys (the list order stands for the unspecified iteration
  order of the container), summed over by asum.
\<close>

unbundle bit_operations_syntax

type_synonym u8 = "8 word"
type_synonym u16 = "16 word"
type_synonym u32 = "32 word"
type_synonym u64 = "64 word"

named_theorems word_nat "readings of word operations through unat"
named_theorems asum_simps "sums over association lists"
named_theorems wp "rules that push a postcondition through the state combinators"

subsection \<open>Early return\<close>

definition try_r :: "('e + 'a) \<Rightarrow> ('a \<Rightarrow> 'e + 'b) \<Rightarrow> 'e + 'b" where
  "try_r r f = (case r of Inl e \<Rightarrow> Inl e | Inr x \<Rightarrow> f x)"

definition try_st ::
  "('e + 'a) \<times> 's \<Rightarrow> ('a \<Rightarrow> 's \<Rightarrow> ('e + 'b) \<times> 's) \<Rightarrow> ('e + 'b) \<times> 's" where
  "try_st m f = (case m of (Inl e, s) \<Rightarrow> (Inl e, s) | (Inr x, s) \<Rightarrow> f x s)"

text \<open>What holds of the state after an error and of value and state after a success.\<close>

definition outcome :: "('e \<Rightarrow> 's \<Rightarrow> bool) \<Rightarrow> ('a \<Rightarrow> 's \<Rightarrow> bool) \<Rightarrow> ('e + 'a) \<times> 's \<Rightarrow> bool" where
  "outcome E Q m = (case m of (Inl e, s) \<Rightarrow> E e s | (Inr x, s) \<Rightarrow> Q x s)"

lemma try_r_simps [simp]:
  "try_r (Inl e) f = Inl e"
  "try_r (Inr x) f = f x"
  by (simp_all add: try_r_def)

lemma try_st_simps [simp]:
  "try_st (Inl e, s) f = (Inl e, s)"
  "try_st (Inr x, s) f = f x s"
  by (simp_all add: try_st_def)

lemma try_r_eq_Inr: "try_r r f = Inr y \<longleftrightarrow> (\<exists>x. r = Inr x \<and> f x = Inr y)"
  by (cases r) simp_all

lemma try_r_eq_Inl:
  "try_r r f = Inl e \<longleftrightarrow> r = Inl e \<or> (\<exists>x. r = Inr x \<and> f x = Inl e)"
  by (cases r) simp_all

lemma try_st_eq_Inr:
  "try_st m f = (Inr y, s) \<longleftrightarrow> (\<exists>x t. m = (Inr x, t) \<and> f x t = (Inr y, s))"
  by (cases m; cases "fst m") (auto simp: try_st_def)

lemma try_st_eq_Inl:
  "try_st m f = (Inl e, s) \<longleftrightarrow> m = (Inl e, s) \<or> (\<exists>x t. m = (Inr x, t) \<and> f x t = (Inl e, s))"
  by (cases m; cases "fst m") (auto simp: try_st_def)

lemma outcome_simps [simp]:
  "outcome E Q (Inl e, s) = E e s"
  "outcome E Q (Inr x, s) = Q x s"
  by (simp_all add: outcome_def)

lemma outcome_try_st [wp]:
  assumes "outcome E P m"
    and "\<And>x s. P x s \<Longrightarrow> outcome E Q (f x s)"
  shows "outcome E Q (try_st m f)"
  using assms by (cases m; cases "fst m") (auto simp: outcome_def)

lemma outcome_mono:
  assumes "outcome E P m" "\<And>e s. E e s \<Longrightarrow> E' e s" "\<And>x s. P x s \<Longrightarrow> Q x s"
  shows "outcome E' Q m"
  using assms by (cases m; cases "fst m") (auto simp: outcome_def)

lemma outcome_if [wp]:
  assumes "b \<Longrightarrow> outcome E Q m" "\<not> b \<Longrightarrow> outcome E Q n"
  shows "outcome E Q (if b then m else n)"
  using assms by simp

lemma outcome_snd: "outcome (\<lambda>_ s. I s) (\<lambda>_ s. I s) m \<longleftrightarrow> I (snd m)"
  by (cases m; cases "fst m") auto

subsection \<open>Sums over association lists\<close>

definition asum :: "('v \<Rightarrow> nat) \<Rightarrow> ('k \<times> 'v) list \<Rightarrow> nat" where
  "asum f al = sum_list (map (f \<circ> snd) al)"

lemma asum_Nil [simp, asum_simps]: "asum f [] = 0"
  by (simp add: asum_def)

lemma asum_Cons [simp, asum_simps]: "asum f (p # al) = f (snd p) + asum f al"
  by (simp add: asum_def)

lemma asum_update_new [asum_simps]:
  "map_of al k = None \<Longrightarrow> asum f (AList.update k v al) = asum f al + f v"
  by (induction al) (auto split: if_splits)

lemma asum_update_old:
  "map_of al k = Some v0 \<Longrightarrow> asum f (AList.update k v al) + f v0 = asum f al + f v"
  by (induction al) (auto split: if_splits)

lemma asum_update_same [asum_simps]:
  "map_of al k = Some v0 \<Longrightarrow> f v = f v0 \<Longrightarrow> asum f (AList.update k v al) = asum f al"
  using asum_update_old[of al k v0 f v] by simp

lemma asum_delete_old:
  "map_of al k = Some v0 \<Longrightarrow> distinct (map fst al) \<Longrightarrow> asum f (AList.delete k al) + f v0 = asum f al"
proof (induction al)
  case (Cons p al)
  show ?case
  proof (cases "fst p = k")
    case True
    then have "k \<notin> fst ` set al" using Cons.prems by auto
    then have "AList.delete k al = al" by (simp add: AList.delete_idem)
    with True Cons.prems show ?thesis by (cases p) simp
  next
    case False
    with Cons show ?thesis by (cases p) auto
  qed
qed simp

lemma asum_delete_le: "asum f (AList.delete k al) \<le> asum f al"
  by (induction al) auto

lemma asum_ge_member: "map_of al k = Some v \<Longrightarrow> f v \<le> asum f al"
  by (induction al) (auto split: if_splits)

lemma asum_mono: "(\<And>k v. (k, v) \<in> set al \<Longrightarrow> f v \<le> g v) \<Longrightarrow> asum f al \<le> asum g al"
  unfolding asum_def by (rule sum_list_mono) auto

lemma asum_cong:
  "(\<And>k v. (k, v) \<in> set al \<Longrightarrow> f v = g v) \<Longrightarrow> asum f al = asum g al"
  unfolding asum_def by (rule arg_cong[where f = sum_list]) auto

lemma asum_zero: "(\<And>k v. (k, v) \<in> set al \<Longrightarrow> f v = 0) \<Longrightarrow> asum f al = 0"
  by (auto simp: asum_def sum_list_eq_0_iff)

lemma asum_plus: "asum (\<lambda>v. f v + g v) al = asum f al + asum g al"
  by (induction al) auto

lemma asum_eq_0D: "asum f al = 0 \<Longrightarrow> map_of al k = Some v \<Longrightarrow> f v = 0"
  using asum_ge_member[of al k v f] by simp

lemma map_of_update_alist [simp]:
  "map_of (AList.update k v al) = (map_of al)(k \<mapsto> v)"
  by (rule update_conv')

lemma map_of_delete_alist [simp]:
  "map_of (AList.delete k al) = (map_of al)(k := None)"
  by (rule delete_conv')

lemma distinct_keys_update [simp]:
  "distinct (map fst al) \<Longrightarrow> distinct (map fst (AList.update k v al))"
  by (rule distinct_update)

lemma distinct_keys_delete [simp]:
  "distinct (map fst al) \<Longrightarrow> distinct (map fst (AList.delete k al))"
  by (rule distinct_delete)

lemma length_update_new: "map_of al k = None \<Longrightarrow> length (AList.update k v al) = Suc (length al)"
  by (induction al) (auto split: if_splits)

lemma length_update_old:
  "map_of al k = Some v0 \<Longrightarrow> length (AList.update k v al) = length al"
  by (induction al) (auto split: if_splits)

lemma set_map_of:
  "distinct (map fst al) \<Longrightarrow> (k, v) \<in> set al \<longleftrightarrow> map_of al k = Some v"
  by (simp add: map_of_eq_Some_iff)

subsection \<open>Words read as naturals\<close>

lemma unat64_less: "unat (w :: u64) < 2 ^ 64"
  using unsigned_less[of w] by simp

lemma less_unat [word_nat]: "a < b \<longleftrightarrow> unat a < unat (b :: 'a::len word)"
  by (rule word_less_nat_alt)

lemma le_unat [word_nat]: "a \<le> b \<longleftrightarrow> unat a \<le> unat (b :: 'a::len word)"
  by (rule word_le_nat_alt)

lemma unat_minus_le: "b \<le> a \<Longrightarrow> unat (a - b) = unat a - unat (b :: 'a::len word)"
  by (rule unat_sub)

lemma unat_plus_small:
  "unat a + unat b < 2 ^ LENGTH('a) \<Longrightarrow> unat (a + b) = unat a + unat (b :: 'a::len word)"
  by (simp add: unat_word_ariths)

lemma unat_plus_small3:
  "unat a + unat b + unat c < 2 ^ LENGTH('a) \<Longrightarrow>
     unat (a + b + c) = unat a + unat b + unat (c :: 'a::len word)"
  using unat_plus_small[of a b] unat_plus_small[of "a + b" c] by simp

lemma unat_mult_small:
  "unat a * unat b < 2 ^ LENGTH('a) \<Longrightarrow> unat (a * b) = unat a * unat (b :: 'a::len word)"
  by (simp add: unat_word_ariths)

lemma unat_min [word_nat]: "unat (min a b) = min (unat a) (unat (b :: 'a::len word))"
  by (simp add: min_def word_le_nat_alt)

lemma unat_max [word_nat]: "unat (max a b) = max (unat a) (unat (b :: 'a::len word))"
  by (simp add: max_def word_le_nat_alt)

lemma unat_eq_iff: "unat a = unat b \<longleftrightarrow> a = (b :: 'a::len word)"
  by (rule word_unat_eq_iff [symmetric])

lemma unat_drop_bit_nat [word_nat]:
  "unat (drop_bit n (w :: 'a::len word)) = unat w div 2 ^ n"
  by (simp only: unat_drop_bit_eq) (simp only: drop_bit_eq_div)

lemma unat_take_bit_nat [word_nat]:
  "unat (take_bit n (w :: 'a::len word)) = unat w mod 2 ^ n"
  by (simp only: unsigned_take_bit_eq) (simp only: take_bit_eq_mod)

end

