(* ===== verification/Types.thy ===== *)
theory Types
  imports Prelude "HOL-Library.Product_Lexorder"
begin

text \<open>
  Identities, bounds, checked integer arithmetic, error codes and bounded text:
  include/buffer_fabric/types.hpp, status.hpp, time.hpp and src/status.cpp.

  A StrongId is its raw 64-bit value (the tag types only keep the compiler from
  mixing identities); raw 0 is the invalid identity.  A Status is its error code:
  messages are diagnostic text that no operation reads back.  A result is an error
  code or a value.
\<close>

subsection \<open>Hard bounds and identities\<close>

type_synonym pool_id = u64
type_synonym queue_id = u64
type_synonym tenant_id = u64
type_synonym class_id = u64
type_synonym resource_id = u64
type_synonym policy_id = u64
type_synonym allocation_id = u64
type_synonym backend_id = u64
type_synonym provenance_id = u64
type_synonym attempt_id = u64
type_synonym snapshot_id = u64
type_synonym request_id = u64
type_synonym worker_id = u64
type_synonym generation = u64
type_synonym epoch_id = u64
type_synonym sequence = u64
type_synonym tick = u64

definition kMaxPoolCount :: nat where "kMaxPoolCount = 4096"
definition kMaxQueueCount :: nat where "kMaxQueueCount = 2 ^ 20"
definition kMaxAllocationCount :: nat where "kMaxAllocationCount = 2 ^ 22"
definition kMaxPolicyCount :: nat where "kMaxPolicyCount = 4096"
definition kMaxPoolDepth :: nat where "kMaxPoolDepth = 16"
definition kMaxUnitsPerPool :: u64 where "kMaxUnitsPerPool = 1152921504606846976"
definition kMaxOvercommitUnits :: u64 where "kMaxOvercommitUnits = 1152921504606846976"
definition kMaxAttemptMemory :: nat where "kMaxAttemptMemory = 2 ^ 16"
definition kMaxAuthorityVectorEntries :: nat where "kMaxAuthorityVectorEntries = 16"
definition kMaxNameBytes :: nat where "kMaxNameBytes = 64"
definition kMaxStatusMessageBytes :: nat where "kMaxStatusMessageBytes = 512"
definition kMaxJournalRecordBytes :: nat where "kMaxJournalRecordBytes = 4 * 2 ^ 20"
definition kMaxSnapshotBytes :: nat where "kMaxSnapshotBytes = 256 * 2 ^ 20"
definition kMaxFrameBytes :: nat where "kMaxFrameBytes = 2 ^ 20"
definition kMaxReclaimVictims :: nat where "kMaxReclaimVictims = 2 ^ 20"
definition kMaxJournalRecordsPerOpen :: nat where "kMaxJournalRecordsPerOpen = 2 ^ 24"

definition valid :: "u64 \<Rightarrow> bool" where
  "valid raw = (raw \<noteq> 0)"

text \<open>BootIncarnation and Digest are pairs of 64-bit halves.\<close>

record boot_incarnation =
  bi_hi :: u64
  bi_lo :: u64

definition boot_valid :: "boot_incarnation \<Rightarrow> bool" where
  "boot_valid b = (bi_hi b \<noteq> 0 \<or> bi_lo b \<noteq> 0)"

definition boot_less :: "boot_incarnation \<Rightarrow> boot_incarnation \<Rightarrow> bool" where
  "boot_less a b = (if bi_hi a \<noteq> bi_hi b then bi_hi a < bi_hi b else bi_lo a < bi_lo b)"

record digest =
  dg_hi :: u64
  dg_lo :: u64

definition digest_valid :: "digest \<Rightarrow> bool" where
  "digest_valid d = (dg_hi d \<noteq> 0 \<or> dg_lo d \<noteq> 0)"

subsection \<open>Checked integer arithmetic\<close>

text \<open>Each helper returns the overflow flag and the value it stores through its out pointer.\<close>

definition add_overflow :: "u64 \<Rightarrow> u64 \<Rightarrow> bool \<times> u64" where
  "add_overflow a b = (let out = a + b in (out < a, out))"

definition sub_underflow :: "u64 \<Rightarrow> u64 \<Rightarrow> bool \<times> u64" where
  "sub_underflow a b = (if a < b then (True, 0) else (False, a - b))"

definition mul_overflow :: "u64 \<Rightarrow> u64 \<Rightarrow> bool \<times> u64" where
  "mul_overflow a b =
     (if a \<noteq> 0 \<and> b > 0xFFFFFFFFFFFFFFFF div a then (True, 0) else (False, a * b))"

text \<open>The high and the low half of a 64 by 64 bit product, from 32-bit partial products.\<close>

definition split_mul :: "u64 \<Rightarrow> u64 \<Rightarrow> u64 \<times> u64" where
  "split_mul x y =
     (let x0 = x AND 0xFFFFFFFF;
          x1 = drop_bit 32 x;
          y0 = y AND 0xFFFFFFFF;
          y1 = drop_bit 32 y;
          p00 = x0 * y0;
          p01 = x0 * y1;
          p10 = x1 * y0;
          p11 = x1 * y1;
          mid = drop_bit 32 p00 + (p01 AND 0xFFFFFFFF) + (p10 AND 0xFFFFFFFF);
          lo = (p00 AND 0xFFFFFFFF) OR push_bit 32 mid;
          hi = p11 + drop_bit 32 p01 + drop_bit 32 p10 + drop_bit 32 mid
      in (hi, lo))"

definition mul_compare :: "u64 \<Rightarrow> u64 \<Rightarrow> u64 \<Rightarrow> u64 \<Rightarrow> int" where
  "mul_compare a b c d =
     (let (hi1, lo1) = split_mul a b;
          (hi2, lo2) = split_mul c d
      in if hi1 \<noteq> hi2 then (if hi1 < hi2 then - 1 else 1)
         else if lo1 \<noteq> lo2 then (if lo1 < lo2 then - 1 else 1)
         else 0)"

definition div_ceil :: "u64 \<Rightarrow> u64 \<Rightarrow> u64" where
  "div_ceil a b = (if b = 0 then 0 else a div b + (if a mod b \<noteq> 0 then 1 else 0))"

subsection \<open>Error codes\<close>

text \<open>The enumerators of ErrorCode.  The enumeration has a fixed underlying type, so that a
  decoded value may also be one that no enumerator names.\<close>

datatype (plugins only: code) error_code =
    Ok | InvalidArgument | NotFound | AlreadyExists | NoChange | NameTooLong
    | BoundedResourceExhausted | Overflow | Underflow | Unsupported | NotImplemented
    | Cancelled | ShuttingDown | LifecycleViolation | WrongState | UnknownPool | UnknownQueue
    | UnknownAllocation | UnknownPolicy | UnknownBackend | UnknownResource | DuplicatePool
    | DuplicateAllocation | DuplicatePolicy | DuplicateQueue | PoolCycle | PoolDepthExceeded
    | DuplicateName | CapacityExceeded | ProtectedHeadroomViolation | OvercommitLimitExceeded
    | BorrowLimitExceeded | AccountingViolation | InvariantViolation | ShareExceeded
    | HardLimitExceeded | PolicyForbids | StaleGeneration | StaleEpoch | StaleAuthority
    | StaleEvidence | EvidenceUnknown | Fenced | AttemptConflict | EpochRegression
    | PersistenceError | CorruptRecord | VersionMismatch | IntegrityFailure | JournalTruncated
    | SnapshotOversized | BackendError | BackendNotReady | TransportError | ProtocolViolation
    | OversizedMessage | TruncatedMessage | PeerClosed | ProtocolVersionMismatch
    | OtherCode u16

text \<open>The numeric value of each code, which the wire protocol carries.\<close>

primrec error_code_raw :: "error_code \<Rightarrow> u16" where
  "error_code_raw Ok = 0"
| "error_code_raw InvalidArgument = 1"
| "error_code_raw NotFound = 2"
| "error_code_raw AlreadyExists = 3"
| "error_code_raw NoChange = 4"
| "error_code_raw NameTooLong = 5"
| "error_code_raw BoundedResourceExhausted = 6"
| "error_code_raw Overflow = 7"
| "error_code_raw Underflow = 8"
| "error_code_raw Unsupported = 9"
| "error_code_raw NotImplemented = 10"
| "error_code_raw Cancelled = 11"
| "error_code_raw ShuttingDown = 12"
| "error_code_raw LifecycleViolation = 13"
| "error_code_raw WrongState = 14"
| "error_code_raw UnknownPool = 20"
| "error_code_raw UnknownQueue = 21"
| "error_code_raw UnknownAllocation = 22"
| "error_code_raw UnknownPolicy = 23"
| "error_code_raw UnknownBackend = 24"
| "error_code_raw UnknownResource = 25"
| "error_code_raw DuplicatePool = 26"
| "error_code_raw DuplicateAllocation = 27"
| "error_code_raw DuplicatePolicy = 28"
| "error_code_raw DuplicateQueue = 29"
| "error_code_raw PoolCycle = 30"
| "error_code_raw PoolDepthExceeded = 31"
| "error_code_raw DuplicateName = 32"
| "error_code_raw CapacityExceeded = 40"
| "error_code_raw ProtectedHeadroomViolation = 41"
| "error_code_raw OvercommitLimitExceeded = 42"
| "error_code_raw BorrowLimitExceeded = 43"
| "error_code_raw AccountingViolation = 44"
| "error_code_raw InvariantViolation = 45"
| "error_code_raw ShareExceeded = 46"
| "error_code_raw HardLimitExceeded = 47"
| "error_code_raw PolicyForbids = 48"
| "error_code_raw StaleGeneration = 60"
| "error_code_raw StaleEpoch = 61"
| "error_code_raw StaleAuthority = 62"
| "error_code_raw StaleEvidence = 63"
| "error_code_raw EvidenceUnknown = 64"
| "error_code_raw Fenced = 65"
| "error_code_raw AttemptConflict = 66"
| "error_code_raw EpochRegression = 67"
| "error_code_raw PersistenceError = 80"
| "error_code_raw CorruptRecord = 81"
| "error_code_raw VersionMismatch = 82"
| "error_code_raw IntegrityFailure = 83"
| "error_code_raw JournalTruncated = 84"
| "error_code_raw SnapshotOversized = 85"
| "error_code_raw BackendError = 90"
| "error_code_raw BackendNotReady = 91"
| "error_code_raw TransportError = 100"
| "error_code_raw ProtocolViolation = 101"
| "error_code_raw OversizedMessage = 102"
| "error_code_raw TruncatedMessage = 103"
| "error_code_raw PeerClosed = 104"
| "error_code_raw ProtocolVersionMismatch = 105"
| "error_code_raw (OtherCode v) = v"

primrec to_string_error :: "error_code \<Rightarrow> string" where
  "to_string_error Ok = ''Ok''"
| "to_string_error InvalidArgument = ''InvalidArgument''"
| "to_string_error NotFound = ''NotFound''"
| "to_string_error AlreadyExists = ''AlreadyExists''"
| "to_string_error NoChange = ''NoChange''"
| "to_string_error NameTooLong = ''NameTooLong''"
| "to_string_error BoundedResourceExhausted = ''BoundedResourceExhausted''"
| "to_string_error Overflow = ''Overflow''"
| "to_string_error Underflow = ''Underflow''"
| "to_string_error Unsupported = ''Unsupported''"
| "to_string_error NotImplemented = ''NotImplemented''"
| "to_string_error Cancelled = ''Cancelled''"
| "to_string_error ShuttingDown = ''ShuttingDown''"
| "to_string_error LifecycleViolation = ''LifecycleViolation''"
| "to_string_error WrongState = ''WrongState''"
| "to_string_error UnknownPool = ''UnknownPool''"
| "to_string_error UnknownQueue = ''UnknownQueue''"
| "to_string_error UnknownAllocation = ''UnknownAllocation''"
| "to_string_error UnknownPolicy = ''UnknownPolicy''"
| "to_string_error UnknownBackend = ''UnknownBackend''"
| "to_string_error UnknownResource = ''UnknownResource''"
| "to_string_error DuplicatePool = ''DuplicatePool''"
| "to_string_error DuplicateAllocation = ''DuplicateAllocation''"
| "to_string_error DuplicatePolicy = ''DuplicatePolicy''"
| "to_string_error DuplicateQueue = ''DuplicateQueue''"
| "to_string_error PoolCycle = ''PoolCycle''"
| "to_string_error PoolDepthExceeded = ''PoolDepthExceeded''"
| "to_string_error DuplicateName = ''DuplicateName''"
| "to_string_error CapacityExceeded = ''CapacityExceeded''"
| "to_string_error ProtectedHeadroomViolation = ''ProtectedHeadroomViolation''"
| "to_string_error OvercommitLimitExceeded = ''OvercommitLimitExceeded''"
| "to_string_error BorrowLimitExceeded = ''BorrowLimitExceeded''"
| "to_string_error AccountingViolation = ''AccountingViolation''"
| "to_string_error InvariantViolation = ''InvariantViolation''"
| "to_string_error ShareExceeded = ''ShareExceeded''"
| "to_string_error HardLimitExceeded = ''HardLimitExceeded''"
| "to_string_error PolicyForbids = ''PolicyForbids''"
| "to_string_error StaleGeneration = ''StaleGeneration''"
| "to_string_error StaleEpoch = ''StaleEpoch''"
| "to_string_error StaleAuthority = ''StaleAuthority''"
| "to_string_error StaleEvidence = ''StaleEvidence''"
| "to_string_error EvidenceUnknown = ''EvidenceUnknown''"
| "to_string_error Fenced = ''Fenced''"
| "to_string_error AttemptConflict = ''AttemptConflict''"
| "to_string_error EpochRegression = ''EpochRegression''"
| "to_string_error PersistenceError = ''PersistenceError''"
| "to_string_error CorruptRecord = ''CorruptRecord''"
| "to_string_error VersionMismatch = ''VersionMismatch''"
| "to_string_error IntegrityFailure = ''IntegrityFailure''"
| "to_string_error JournalTruncated = ''JournalTruncated''"
| "to_string_error SnapshotOversized = ''SnapshotOversized''"
| "to_string_error BackendError = ''BackendError''"
| "to_string_error BackendNotReady = ''BackendNotReady''"
| "to_string_error TransportError = ''TransportError''"
| "to_string_error ProtocolViolation = ''ProtocolViolation''"
| "to_string_error OversizedMessage = ''OversizedMessage''"
| "to_string_error TruncatedMessage = ''TruncatedMessage''"
| "to_string_error PeerClosed = ''PeerClosed''"
| "to_string_error ProtocolVersionMismatch = ''ProtocolVersionMismatch''"
| "to_string_error (OtherCode v) = ''UnknownErrorCode''"

definition all_error_codes :: "error_code list" where
  "all_error_codes =
    [Ok, InvalidArgument, NotFound, AlreadyExists, NoChange, NameTooLong, 
     BoundedResourceExhausted, Overflow, Underflow, Unsupported, NotImplemented, Cancelled, 
     ShuttingDown, LifecycleViolation, WrongState, UnknownPool, UnknownQueue, 
     UnknownAllocation, UnknownPolicy, UnknownBackend, UnknownResource, DuplicatePool, 
     DuplicateAllocation, DuplicatePolicy, DuplicateQueue, PoolCycle, PoolDepthExceeded, 
     DuplicateName, CapacityExceeded, ProtectedHeadroomViolation, OvercommitLimitExceeded, 
     BorrowLimitExceeded, AccountingViolation, InvariantViolation, ShareExceeded, 
     HardLimitExceeded, PolicyForbids, StaleGeneration, StaleEpoch, StaleAuthority, 
     StaleEvidence, EvidenceUnknown, Fenced, AttemptConflict, EpochRegression, 
     PersistenceError, CorruptRecord, VersionMismatch, IntegrityFailure, JournalTruncated, 
     SnapshotOversized, BackendError, BackendNotReady, TransportError, ProtocolViolation, 
     OversizedMessage, TruncatedMessage, PeerClosed, ProtocolVersionMismatch]"

text \<open>The cast of a decoded number to the enumeration.\<close>

definition error_code_of_raw :: "u16 \<Rightarrow> error_code" where
  "error_code_of_raw v =
     (case find (\<lambda>c. error_code_raw c = v) all_error_codes of Some c \<Rightarrow> c | None \<Rightarrow> OtherCode v)"

definition is_ok :: "error_code \<Rightarrow> bool" where
  "is_ok code = (code = Ok)"

type_synonym 'a result = "error_code + 'a"
type_synonym void_result = "unit result"

text \<open>Status as a value of its own, where the code stores or sends one: success is \<^const>\<open>Ok\<close>.\<close>

definition status_of :: "'a result \<Rightarrow> error_code" where
  "status_of r = (case r of Inl e \<Rightarrow> e | Inr _ \<Rightarrow> Ok)"

subsection \<open>Bounded text\<close>

definition truncate_to :: "string \<Rightarrow> nat \<Rightarrow> string" where
  "truncate_to text max_bytes = (if length text \<le> max_bytes then text else take max_bytes text)"

definition name_char :: "char \<Rightarrow> bool" where
  "name_char c =
     (let n = of_char c :: nat in
      (97 \<le> n \<and> n \<le> 122) \<or> (65 \<le> n \<and> n \<le> 90) \<or> (48 \<le> n \<and> n \<le> 57) \<or>
      n = 95 \<or> n = 45 \<or> n = 46)"

definition is_valid_name :: "string \<Rightarrow> bool" where
  "is_valid_name name =
     (if name = [] \<or> length name > kMaxNameBytes then False else list_all name_char name)"

text \<open>A char of a C++ string as the byte it is.\<close>

definition byte_of_char :: "char \<Rightarrow> u8" where
  "byte_of_char c = of_nat (of_char c)"

definition char_of_byte :: "u8 \<Rightarrow> char" where
  "char_of_byte b = char_of (unat b)"

definition fnv1a64 :: "string \<Rightarrow> u64" where
  "fnv1a64 text =
     fold (\<lambda>c hash. (hash XOR ucast (byte_of_char c)) * 0x100000001b3) text 0xcbf29ce484222325"

subsection \<open>Freshness\<close>

definition is_fresh :: "tick \<Rightarrow> tick \<Rightarrow> tick \<Rightarrow> bool" where
  "is_fresh now observed_at ttl_ticks =
     (if ttl_ticks = 0 then False
      else if observed_at > now then False
      else now - observed_at \<le> ttl_ticks)"

subsection \<open>Error codes and their numbers\<close>

definition named :: "error_code \<Rightarrow> bool" where
  "named c \<longleftrightarrow> c \<in> set all_error_codes"

lemma error_code_raw_distinct: "distinct (map error_code_raw all_error_codes)"
  by (simp add: all_error_codes_def)

lemma find_distinct:
  "distinct (map f xs) \<Longrightarrow> x \<in> set xs \<Longrightarrow> find (\<lambda>y. f y = f x) xs = Some x"
  by (induction xs) auto

lemma error_code_of_raw_named [simp]: "named c \<Longrightarrow> error_code_of_raw (error_code_raw c) = c"
  by (simp add: error_code_of_raw_def named_def find_distinct[OF error_code_raw_distinct])

lemma error_code_raw_of_raw [simp]: "error_code_raw (error_code_of_raw v) = v"
  by (auto simp: error_code_of_raw_def find_Some_iff split: option.splits)

lemma named_raw_le: "named c \<Longrightarrow> error_code_raw c \<le> 105"
  by (auto simp: named_def all_error_codes_def)

lemma named_Ok [simp]: "named Ok"
  by (simp add: named_def all_error_codes_def)

subsection \<open>Laws of the checked arithmetic\<close>

lemma add_overflow_nat:
  "add_overflow a b = (2 ^ 64 \<le> unat a + unat b, a + b)"
proof -
  have "a + b < a \<longleftrightarrow> \<not> unat a + unat b < 2 ^ 64"
    using no_olen_add_nat[of a b] by (simp add: not_le [symmetric])
  then show ?thesis by (auto simp: add_overflow_def Let_def)
qed

lemma sub_underflow_nat:
  "sub_underflow a b = (unat a < unat b, if unat a < unat b then 0 else a - b)"
  by (simp add: sub_underflow_def word_less_nat_alt)

lemma mul_overflow_nat:
  "fst (mul_overflow a b) \<longleftrightarrow> 2 ^ 64 \<le> unat a * unat b"
proof (cases "a = 0")
  case False
  then have a: "0 < unat a" by (simp add: unat_gt_0)
  have "(0xFFFFFFFFFFFFFFFF div a < b) \<longleftrightarrow> (2 ^ 64 - 1) div unat a < unat b"
    by (simp add: word_less_nat_alt unat_div)
  also have "\<dots> \<longleftrightarrow> 2 ^ 64 - 1 < unat b * unat a"
    using a by (simp only: div_less_iff_less_mult)
  also have "\<dots> \<longleftrightarrow> 2 ^ 64 \<le> unat a * unat b"
    by (auto simp: mult.commute)
  finally show ?thesis using False by (simp add: mul_overflow_def)
qed (simp add: mul_overflow_def)

text \<open>Masking with 0xFFFFFFFF and combining disjoint halves, in arithmetic terms.\<close>

lemma and_low32 [word_nat]: "unat (x AND (0xFFFFFFFF :: u64)) = unat x mod 2 ^ 32"
proof -
  have "(0xFFFFFFFF :: u64) = mask 32" by (simp add: mask_eq_exp_minus_1)
  then have "x AND 0xFFFFFFFF = take_bit 32 x" by (simp add: take_bit_eq_mask)
  then show ?thesis by (simp only: unat_take_bit_nat)
qed

lemma or_halves:
  "unat ((x AND (0xFFFFFFFF :: u64)) OR push_bit 32 y) = unat x mod 2 ^ 32 + (unat y mod 2 ^ 32) * 2 ^ 32"
proof -
  have m: "(0xFFFFFFFF :: u64) = mask 32" by (simp add: mask_eq_exp_minus_1)
  have "(x AND 0xFFFFFFFF) OR push_bit 32 y = (x AND 0xFFFFFFFF) + push_bit 32 y"
    unfolding m by (rule disjunctive_add [symmetric]) (simp add: bit_simps)
  moreover have "unat (push_bit 32 y) = (unat y mod 2 ^ 32) * 2 ^ 32"
    by (simp only: unsigned_push_bit_eq) (simp add: take_bit_eq_mod push_bit_eq_mult mult_mod_left)
  ultimately show ?thesis
    by (simp add: unat_plus_small and_low32)
qed

text \<open>The carry bookkeeping behind the split multiplication, over any base.\<close>

lemma schoolbook_carry:
  fixes B :: nat
  assumes "p = p1 * B + p0" "q = q1 * B + q0" "r = r1 * B + r0" "m1 * B + m0 = p1 + q0 + r0"
  shows "(t + q1 + r1 + m1) * (B * B) + (p0 + m0 * B) = t * (B * B) + (q + r) * B + p"
proof -
  have "(m1 * B + m0) * B = (p1 + q0 + r0) * B" using assms(4) by simp
  then show ?thesis unfolding assms(1-3) by (simp add: algebra_simps)
qed

lemma split_mul_exact:
  assumes "split_mul x y = (hi, lo)"
  shows "unat hi * 2 ^ 64 + unat lo = unat x * unat y"
proof -
  define B :: nat where "B = 2 ^ 32"
  have BB: "B * B = 2 ^ 64" and B0: "0 < B" by (simp_all add: B_def)
  define x0 x1 y0 y1 where d: "x0 = unat x mod B" "x1 = unat x div B"
    "y0 = unat y mod B" "y1 = unat y div B"
  define mid where "mid = x0 * y0 div B + x0 * y1 mod B + x1 * y0 mod B"
  define h where "h = x1 * y1 + x0 * y1 div B + x1 * y0 div B + mid div B"
  define l where "l = x0 * y0 mod B + mid mod B * B"
  have lt: "x0 < B" "x1 < B" "y0 < B" "y1 < B"
    using unat64_less[of x] unat64_less[of y]
    by (simp_all add: d B_def less_mult_imp_div_less)
  have prod: "a * b < B * B" if "a < B" "b < B" for a b
    using that by (simp add: mult_strict_mono)
  let ?x0 = "x AND 0xFFFFFFFF" and ?x1 = "drop_bit 32 x"
  let ?y0 = "y AND 0xFFFFFFFF" and ?y1 = "drop_bit 32 y"
  have u: "unat ?x0 = x0" "unat ?x1 = x1" "unat ?y0 = y0" "unat ?y1 = y1"
    by (simp_all only: and_low32 unat_drop_bit_nat d B_def)
  have p: "unat (?x0 * ?y0) = x0 * y0" "unat (?x0 * ?y1) = x0 * y1"
    "unat (?x1 * ?y0) = x1 * y0" "unat (?x1 * ?y1) = x1 * y1"
    using prod lt BB by (simp_all add: unat_mult_small u)
  have parts: "unat (drop_bit 32 (?x0 * ?y0)) = x0 * y0 div B"
    "unat ((?x0 * ?y1) AND 0xFFFFFFFF) = x0 * y1 mod B"
    "unat ((?x1 * ?y0) AND 0xFFFFFFFF) = x1 * y0 mod B"
    "unat (drop_bit 32 (?x0 * ?y1)) = x0 * y1 div B"
    "unat (drop_bit 32 (?x1 * ?y0)) = x1 * y0 div B"
    by (simp_all only: unat_drop_bit_nat and_low32 p B_def)
  have "h * (B * B) + l = x1 * y1 * (B * B) + (x0 * y1 + x1 * y0) * B + x0 * y0"
    unfolding h_def l_def by (rule schoolbook_carry) (simp_all add: mid_def)
  also have "\<dots> = (x1 * B + x0) * (y1 * B + y0)" by (simp add: algebra_simps)
  finally have id: "h * (B * B) + l = unat x * unat y" by (simp add: d)
  have "x0 * y0 div B < B"
    using prod[OF lt(1) lt(3)] by (simp add: less_mult_imp_div_less)
  then have "mid < 3 * B"
    using B0 mod_less_divisor[of B "x0 * y1"] mod_less_divisor[of B "x1 * y0"]
    unfolding mid_def by linarith
  then have "mid < 2 ^ LENGTH(64)" by (simp add: B_def)
  then have m: "unat (drop_bit 32 (?x0 * ?y0) + ((?x0 * ?y1) AND 0xFFFFFFFF)
      + ((?x1 * ?y0) AND 0xFFFFFFFF)) = mid" (is "unat ?mid = _")
    unfolding mid_def parts [symmetric] by (intro unat_plus_small3) simp
  have "h * (B * B) < (B * B) * (B * B)"
    using id unat64_less[of x] unat64_less[of y] BB
    by (metis add_lessD1 mult_strict_mono' zero_le)
  then have h64: "h < 2 ^ LENGTH(64)" unfolding BB by simp
  have m2: "unat (drop_bit 32 ?mid) = mid div B" by (simp only: unat_drop_bit_nat m B_def)
  have "unat (?x1 * ?y1 + drop_bit 32 (?x0 * ?y1) + drop_bit 32 (?x1 * ?y0)
      + drop_bit 32 ?mid) = h"
    using h64 unfolding h_def
    by (subst unat_plus_small; (subst unat_plus_small3)?; simp only: parts p m2)
  moreover have "unat (((?x0 * ?y0) AND 0xFFFFFFFF) OR push_bit 32 ?mid) = l"
    by (simp only: or_halves p m l_def B_def)
  ultimately have "unat hi = h" "unat lo = l"
    using assms by (auto simp: split_mul_def Let_def)
  then show ?thesis using id BB by simp
qed

subsection \<open>Properties\<close>

lemma sgn_lex:
  fixes h1 h2 l1 l2 N :: nat
  assumes "l1 < N" "l2 < N"
  shows "sgn (int (h1 * N + l1) - int (h2 * N + l2)) =
    (if h1 \<noteq> h2 then (if h1 < h2 then - 1 else 1)
     else if l1 \<noteq> l2 then (if l1 < l2 then - 1 else 1) else 0)"
proof -
  have lt: "a * N + x < b * N + y" if "a < b" "x < N" for a b x y :: nat
  proof -
    have "a * N + x < Suc a * N" using that by simp
    also have "\<dots> \<le> b * N" using that by (intro mult_right_mono) auto
    finally show ?thesis by simp
  qed
  have sgn: "sgn (int x - int y) = (if x < y then - 1 else if y < x then 1 else 0)" for x y :: nat
    by (simp add: sgn_if)
  show ?thesis
    unfolding sgn using lt[of h1 h2 l1 l2] lt[of h2 h1 l2 l1] assms by (cases h1 h2 rule: linorder_cases) auto
qed

lemma mul_compare_sgn:
  "mul_compare a b c d = sgn (int (unat a * unat b) - int (unat c * unat d))"
proof -
  obtain hi1 lo1 hi2 lo2 where s: "split_mul a b = (hi1, lo1)" "split_mul c d = (hi2, lo2)"
    by (metis surj_pair)
  show ?thesis
    unfolding split_mul_exact[OF s(1), symmetric] split_mul_exact[OF s(2), symmetric]
    by (simp only: sgn_lex[OF unat64_less unat64_less])
       (simp add: mul_compare_def s word_less_nat_alt unat_eq_iff)
qed

text \<open>C25: the exact comparison of two products.  mul_compare never overflows: its result is
  the sign of the difference of the mathematical products, over the whole 64-bit range.\<close>

theorem mul_compare_exact:
  "mul_compare a b c d = sgn (int (unat a * unat b) - int (unat c * unat d))"
  by (rule mul_compare_sgn)

text \<open>C26: the checked arithmetic.  The flag of each helper is set exactly when the mathematical
  result does not fit (or is negative), and otherwise the stored value is that result.\<close>

theorem checked_arithmetic_exact:
  "fst (add_overflow a b) = (2 ^ 64 \<le> unat a + unat b) \<and>
   (\<not> fst (add_overflow a b) \<longrightarrow> unat (snd (add_overflow a b)) = unat a + unat b) \<and>
   fst (sub_underflow a b) = (unat a < unat b) \<and>
   unat (snd (sub_underflow a b)) = unat a - unat b \<and>
   fst (mul_overflow a b) = (2 ^ 64 \<le> unat a * unat b) \<and>
   (\<not> fst (mul_overflow a b) \<longrightarrow> unat (snd (mul_overflow a b)) = unat a * unat b)"
proof -
  have "\<not> fst (mul_overflow a b) \<longrightarrow> unat (snd (mul_overflow a b)) = unat a * unat b"
    using mul_overflow_nat[of a b] by (auto simp: mul_overflow_def unat_mult_small split: if_splits)
  then show ?thesis
    by (auto simp: add_overflow_nat sub_underflow_nat mul_overflow_nat unat_plus_small
        unat_sub word_le_nat_alt)
qed

theorem checked_arithmetic_exact_witness:
  "unat (snd (add_overflow 7 5)) = 12 \<and> unat (snd (mul_overflow 7 5)) = 35 \<and>
   fst (mul_overflow 0x100000000 0x100000000)"
  using checked_arithmetic_exact[of 7 5] checked_arithmetic_exact[of "0x100000000" "0x100000000"]
  by (simp add: add_overflow_def mul_overflow_def)

end
