(* ===== verification/Hash.thy ===== *)
theory Hash
  imports Types
begin

text \<open>
  Integrity and content digests: include/buffer_fabric/hash.hpp and digest_bytes of
  src/status.cpp.  CRC-32C is modelled with its 256-entry table, FNV-1a/128 with the
  two 64-bit halves and the hand-written 128-bit product of the code.  The lemmas
  relate the table to the bitwise shift register, show that the checksum separates
  any two messages of equal length that differ within four consecutive bytes, and
  that the digest is FNV-1a over 128-bit arithmetic.
\<close>

type_synonym bytes = "u8 list"

subsection \<open>CRC-32C\<close>

definition crc_bit :: "u32 \<Rightarrow> u32" where
  "crc_bit c = (if c AND 1 \<noteq> 0 then 0x82F63B78 XOR drop_bit 1 c else drop_bit 1 c)"

definition Crc32cTable :: "u32 list" where
  "Crc32cTable = map (\<lambda>i. (crc_bit ^^ 8) (of_nat i)) [0..<256]"

definition crc32c_step :: "u8 \<Rightarrow> u32 \<Rightarrow> u32" where
  "crc32c_step b c = Crc32cTable ! unat ((c XOR ucast b) AND 0xFF) XOR drop_bit 8 c"

definition crc32c_update :: "u32 \<Rightarrow> bytes \<Rightarrow> u32" where
  "crc32c_update crc data = fold crc32c_step data crc"

definition crc32c_seed :: "u32 \<Rightarrow> bytes \<Rightarrow> u32" where
  "crc32c_seed seed data = NOT (crc32c_update (NOT seed) data)"

definition crc32c :: "bytes \<Rightarrow> u32" where
  "crc32c data = crc32c_seed 0 data"

subsection \<open>FNV-1a over 128 bits\<close>

definition mul128 :: "u64 \<Rightarrow> u64 \<Rightarrow> u64 \<Rightarrow> u64 \<Rightarrow> u64 \<times> u64" where
  "mul128 alo ahi blo bhi =
     (let (p1hi, p1lo) = split_mul alo blo
      in (p1lo, p1hi + alo * bhi + ahi * blo))"

record fnv128 =
  f_hi :: u64
  f_lo :: u64

definition fnv128_init :: fnv128 where
  "fnv128_init = \<lparr>f_hi = 0x6c62272e07bb0142, f_lo = 0x62b821756295c58d\<rparr>"

definition fnv128_byte :: "u8 \<Rightarrow> fnv128 \<Rightarrow> fnv128" where
  "fnv128_byte b h =
     (let lo = f_lo h XOR ucast b;
          (nlo, nhi) = mul128 lo (f_hi h) 0x13B 0x1000000
      in \<lparr>f_hi = nhi, f_lo = nlo\<rparr>)"

definition fnv128_update :: "bytes \<Rightarrow> fnv128 \<Rightarrow> fnv128" where
  "fnv128_update data h = fold fnv128_byte data h"

definition fnv128_update_u64 :: "u64 \<Rightarrow> fnv128 \<Rightarrow> fnv128" where
  "fnv128_update_u64 value h =
     fnv128_update (map (\<lambda>i. ucast (drop_bit (8 * i) value AND 0xFF)) [0..<8]) h"

definition fnv128_digest :: "fnv128 \<Rightarrow> digest" where
  "fnv128_digest h = \<lparr>dg_hi = f_hi h, dg_lo = f_lo h\<rparr>"

definition digest_bytes :: "bytes \<Rightarrow> digest" where
  "digest_bytes data = fnv128_digest (fnv128_update data fnv128_init)"

subsection \<open>The shift register is linear and invertible\<close>

lemma xor_cancel_left: "(a XOR b = a XOR c) = (b = (c :: 'a::len word))"
  by (metis xor.left_neutral xor.assoc xor_self_eq)

lemma crc_bit_xor: "crc_bit (a XOR b) = crc_bit a XOR crc_bit b"
proof -
  have "(a XOR b) AND 1 = (a AND 1) XOR (b AND 1)"
    by (rule bit_eqI) (auto simp: bit_simps)
  moreover have "x AND 1 = (0 :: u32) \<or> x AND 1 = 1" for x
    by (simp add: and_one_eq mod2_eq_if)
  ultimately show ?thesis
    by (smt (verit) crc_bit_def drop_bit_xor xor.assoc xor.commute xor.left_commute
        xor.right_neutral xor_self_eq zero_neq_one)
qed

lemma xor_zero_eq: "a XOR b = 0 \<longleftrightarrow> a = (b :: 'a::len word)"
  by (metis xor.left_neutral xor.assoc xor_self_eq)

lemma crc_bit_top: "bit (crc_bit c) 31 = odd c"
  by (auto simp: crc_bit_def bit_simps and_one_eq odd_iff_mod_2_eq_one dest: bit_imp_le_length)

lemma crc_bit_zero:
  assumes "crc_bit c = 0"
  shows "c = 0"
proof (rule bit_eqI)
  fix n
  have e: "even c" using assms crc_bit_top[of c] by simp
  with assms have "drop_bit 1 c = 0" by (simp add: crc_bit_def and_one_eq even_iff_mod_2_eq_zero)
  then have "\<not> bit (drop_bit 1 c) m" for m by simp
  with e show "bit c n = bit 0 n" by (cases n) (simp_all add: bit_0 bit_drop_bit_eq)
qed

lemma crc_bit_inj: "crc_bit a = crc_bit b \<Longrightarrow> a = b"
  using crc_bit_zero[of "a XOR b"] by (simp add: crc_bit_xor xor_zero_eq)

lemma crc_pow_xor: "(crc_bit ^^ n) (a XOR b) = (crc_bit ^^ n) a XOR (crc_bit ^^ n) b"
  by (induction n) (simp_all add: crc_bit_xor)

lemma crc_pow_inj: "(crc_bit ^^ n) a = (crc_bit ^^ n) b \<Longrightarrow> a = b"
  by (induction n) (auto dest: crc_bit_inj)

lemma crc_pow_push:
  assumes "n \<le> k"
  shows "(crc_bit ^^ n) (push_bit k x) = drop_bit n (push_bit k x)"
  using assms
proof (induction n)
  case (Suc n)
  then have "\<not> bit (push_bit k x) n" by (simp add: bit_simps)
  then have "even (drop_bit n (push_bit k x))" by (simp add: bit_iff_odd_drop_bit)
  with Suc show ?case
    by (simp add: crc_bit_def and_one_eq even_iff_mod_2_eq_zero)
qed simp

text \<open>One table lookup is eight steps of the register on the byte xored in.\<close>

lemma and_FF: "(x :: u32) AND 0xFF = take_bit 8 x"
  by (simp add: take_bit_eq_mask mask_eq_exp_minus_1)

lemma unat_and_FF: "unat ((x :: u32) AND 0xFF) < 256"
  using take_bit_nat_less_exp[of 8 "unat x"] by (simp add: and_FF unsigned_take_bit_eq del: take_bit_nat_less_exp)

lemma split_low_byte: "(x :: u32) = take_bit 8 x XOR push_bit 8 (drop_bit 8 x)"
  by (rule bit_eqI) (auto simp: bit_simps)

lemma crc32c_step_bitwise: "crc32c_step b c = (crc_bit ^^ 8) (c XOR ucast b)"
proof -
  define x where "x = c XOR (ucast b :: u32)"
  have hi: "drop_bit 8 x = drop_bit 8 c"
    unfolding x_def by (rule bit_eqI) (auto simp: bit_simps dest: bit_imp_le_length)
  have tab: "Crc32cTable ! unat (x AND 0xFF) = (crc_bit ^^ 8) (x AND 0xFF)"
    using unat_and_FF[of x] by (simp add: Crc32cTable_def)
  have "drop_bit 8 (push_bit 8 (drop_bit 8 x)) = drop_bit 8 x"
    by (rule bit_eqI) (auto simp: bit_simps dest: bit_imp_le_length)
  then have "(crc_bit ^^ 8) x = (crc_bit ^^ 8) (take_bit 8 x) XOR drop_bit 8 x"
    by (subst split_low_byte[of x]) (simp only: crc_pow_xor crc_pow_push)
  then show ?thesis
    unfolding crc32c_step_def x_def[symmetric] tab by (simp add: hi and_FF)
qed

subsection \<open>Bursts of up to four bytes\<close>

fun le32 :: "bytes \<Rightarrow> u32" where
  "le32 [] = 0"
| "le32 (b # bs) = ucast b XOR push_bit 8 (le32 bs)"

lemma le32_bits: "bit (le32 bs) n \<Longrightarrow> n < 8 * length bs"
proof (induction bs arbitrary: n)
  case (Cons b bs)
  show ?case
  proof (cases "n < 8")
    case False
    with Cons.prems have "bit (le32 bs) (n - 8)" by (auto simp: bit_simps dest: bit_imp_le_length)
    from Cons.IH[OF this] False show ?thesis by simp
  qed simp
qed simp

lemma drop_push_le32:
  assumes "length bs \<le> 3"
  shows "drop_bit 8 (push_bit 8 (le32 bs)) = le32 bs"
proof (rule bit_eqI)
  fix n
  show "bit (drop_bit 8 (push_bit 8 (le32 bs))) n = bit (le32 bs) n"
    using le32_bits[of bs n] assms by (auto simp: bit_simps)
qed

lemma le32_Cons_low: "take_bit 8 (le32 (b # bs)) = ucast b"
  by (rule bit_eqI) (auto simp: bit_simps dest: bit_imp_le_length)

lemma le32_Cons_high: "length bs \<le> 3 \<Longrightarrow> drop_bit 8 (le32 (b # bs)) = le32 bs"
proof -
  assume "length bs \<le> 3"
  moreover have "drop_bit 8 (ucast b :: u32) = 0"
    by (rule bit_eqI) (auto simp: bit_simps dest: bit_imp_le_length)
  ultimately show ?thesis using drop_push_le32[of bs] by (simp add: drop_bit_xor)
qed

lemma ucast8_inj: "(ucast (x :: u8) :: u32) = ucast y \<Longrightarrow> x = y"
proof -
  assume "(ucast x :: u32) = ucast y"
  then have e: "bit (ucast x :: u32) n = bit (ucast y :: u32) n" for n by simp
  show "x = y"
  proof (rule bit_word_eqI)
    fix n assume "n < LENGTH(8)"
    with e[of n] show "bit x n = bit y n" by (simp add: bit_unsigned_iff)
  qed
qed

lemma le32_inj:
  "length xs = length ys \<Longrightarrow> length xs \<le> 4 \<Longrightarrow> le32 xs = le32 ys \<Longrightarrow> xs = ys"
proof (induction xs ys rule: list_induct2)
  case (Cons x xs y ys)
  have "(ucast x :: u32) = ucast y"
    using Cons.prems(2) le32_Cons_low[of x xs] le32_Cons_low[of y ys] by simp
  then have "x = y" by (rule ucast8_inj)
  moreover have "le32 xs = le32 ys"
    using Cons le32_Cons_high[of xs x] le32_Cons_high[of ys y] by simp
  ultimately show ?case using Cons by simp
qed simp

lemma crc_update_short:
  "length bs \<le> 4 \<Longrightarrow> crc32c_update c bs = (crc_bit ^^ (8 * length bs)) (c XOR le32 bs)"
proof (induction bs arbitrary: c)
  case (Cons b bs)
  have "(crc_bit ^^ 8) (push_bit 8 (le32 bs)) = le32 bs"
    using Cons.prems by (simp only: crc_pow_push drop_push_le32 length_Cons)
  then have "crc32c_step b c XOR le32 bs = (crc_bit ^^ 8) (c XOR le32 (b # bs))"
    by (simp only: crc32c_step_bitwise le32.simps crc_pow_xor xor.assoc [symmetric])
  moreover have "crc32c_update c (b # bs) = crc32c_update (crc32c_step b c) bs"
    by (simp add: crc32c_update_def)
  moreover have "(crc_bit ^^ (8 * length (b # bs))) x = (crc_bit ^^ (8 * length bs)) ((crc_bit ^^ 8) x)" for x
    by (simp only: funpow_add [symmetric, THEN fun_cong, unfolded o_def] length_Cons mult_Suc_right
        add.commute)
  ultimately show ?case using Cons by simp
qed (simp add: crc32c_update_def)

lemma crc_update_append: "crc32c_update c (xs @ ys) = crc32c_update (crc32c_update c xs) ys"
  by (simp add: crc32c_update_def)

lemma crc_update_inj: "crc32c_update c bs = crc32c_update d bs \<Longrightarrow> c = d"
proof (induction bs arbitrary: c d)
  case (Cons b bs)
  then have "crc32c_step b c = crc32c_step b d" by (simp add: crc32c_update_def)
  then have "c XOR ucast b = d XOR (ucast b :: u32)"
    unfolding crc32c_step_bitwise by (rule crc_pow_inj)
  then show ?case by (simp add: xor_cancel_left xor.commute[of _ "ucast b"])
qed (simp add: crc32c_update_def)

lemma crc32c_burst:
  assumes "length e = length e'" "length e \<le> 4" "e \<noteq> e'"
  shows "crc32c (pre @ e @ post) \<noteq> crc32c (pre @ e' @ post)"
proof
  assume "crc32c (pre @ e @ post) = crc32c (pre @ e' @ post)"
  then have "crc32c_update (crc32c_update (NOT 0) pre) e = crc32c_update (crc32c_update (NOT 0) pre) e'"
    by (auto simp: crc32c_def crc32c_seed_def crc_update_append dest: crc_update_inj)
  then have "le32 e = le32 e'"
    using assms by (auto simp: crc_update_short xor_cancel_left dest: crc_pow_inj)
  with assms le32_inj show False by blast
qed

text \<open>C27: burst detection of the checksum that guards frames, journal records and snapshots.
  Two messages of equal length that differ only within a window of at most four consecutive
  bytes, wherever it lies, have different CRC-32C values.\<close>

theorem crc32c_detects_burst:
  assumes "length e = length e'" "length e \<le> 4" "e \<noteq> e'"
  shows "crc32c (pre @ e @ post) \<noteq> crc32c (pre @ e' @ post)"
  using assms by (rule crc32c_burst)

theorem crc32c_detects_burst_witness:
  "crc32c ([1, 2] @ [3, 4] @ [5]) \<noteq> crc32c ([1, 2] @ [3, 7] @ [5])"
  by (rule crc32c_detects_burst) simp_all

subsection \<open>The digest is FNV-1a modulo two to the 128\<close>

definition fnv128_reference :: "bytes \<Rightarrow> 128 word" where
  "fnv128_reference data =
     fold (\<lambda>b h. (h XOR ucast b) * 0x1000000000000000000013B) data
       0x6c62272e07bb014262b821756295c58d"

definition join128 :: "u64 \<Rightarrow> u64 \<Rightarrow> 128 word" where
  "join128 hi lo = push_bit 64 (ucast hi) OR ucast lo"

definition digest_word :: "digest \<Rightarrow> 128 word" where
  "digest_word d = join128 (dg_hi d) (dg_lo d)"

lemma join128_arith: "join128 hi lo = of_nat (unat hi) * 2 ^ 64 + of_nat (unat lo)"
proof -
  have "join128 hi lo = push_bit 64 (ucast hi) + ucast lo"
    unfolding join128_def
    by (rule disjunctive_add [symmetric]) (auto simp: bit_simps dest: bit_imp_le_length)
  then show ?thesis
    by (simp add: push_bit_eq_mult)
qed

lemma join128_xor: "join128 hi lo XOR ucast b = join128 hi (lo XOR ucast (b :: u8))"
  unfolding join128_def
  by (rule bit_eqI) (auto simp: bit_simps dest: bit_imp_le_length)

lemma of_nat_mod_shift:
  "of_nat (k mod 2 ^ 64) * 2 ^ 64 = (of_nat k * 2 ^ 64 :: 128 word)"
proof -
  have z: "(2 ^ 64 * 2 ^ 64 :: 128 word) = 0" by simp
  have "(of_nat k :: 128 word) = of_nat (k div 2 ^ 64) * 2 ^ 64 + of_nat (k mod 2 ^ 64)"
    by (metis div_mult_mod_eq of_nat_add of_nat_mult of_nat_numeral of_nat_power)
  then have "(of_nat k * 2 ^ 64 :: 128 word) =
      of_nat (k div 2 ^ 64) * (2 ^ 64 * 2 ^ 64) + of_nat (k mod 2 ^ 64) * 2 ^ 64"
    by (simp only: distrib_right mult.assoc)
  then show ?thesis by (simp only: z) simp
qed

lemma nilpotent_product:
  fixes T :: "'a::comm_ring_1"
  assumes "R * T = (H + al * bh + ah * bl) * T" "H * T + L = al * bl" "T * T = 0"
  shows "R * T + L = (ah * T + al) * (bh * T + bl)"
proof -
  have "(ah * T + al) * (bh * T + bl) = ah * bh * (T * T) + al * bl + (al * bh + ah * bl) * T"
    by (simp add: algebra_simps)
  also have "\<dots> = H * T + L + (al * bh + ah * bl) * T" using assms(2,3) by simp
  finally show ?thesis using assms(1) by (simp add: algebra_simps)
qed

lemma mul128_join:
  assumes "mul128 alo ahi blo bhi = (rlo, rhi)"
  shows "join128 rhi rlo = join128 ahi alo * join128 bhi blo"
proof -
  obtain h l where s: "split_mul alo blo = (h, l)" by (metis surj_pair)
  let ?N = "\<lambda>w::u64. of_nat (unat w) :: 128 word" and ?T = "2 ^ 64 :: 128 word"
  have r: "rlo = l" "rhi = h + alo * bhi + ahi * blo"
    using assms s by (simp_all add: mul128_def)
  have "unat rhi = (unat h + unat alo * unat bhi + unat ahi * unat blo) mod 2 ^ 64"
    unfolding r by (simp add: unat_word_ariths mod_simps)
  then have "?N rhi * ?T = (?N h + ?N alo * ?N bhi + ?N ahi * ?N blo) * ?T"
    by (simp only: of_nat_mod_shift) simp
  moreover have "?N h * ?T + ?N l = ?N alo * ?N blo"
    using arg_cong[OF split_mul_exact[OF s], of "of_nat :: nat \<Rightarrow> 128 word"] by simp
  moreover have "?T * ?T = 0" by simp
  ultimately show ?thesis
    unfolding join128_arith r(1) by (rule nilpotent_product)
qed

text \<open>C28: the content digest.  digest_bytes, computed on two 64-bit halves with a hand-written
  128-bit product, is FNV-1a/128: xor in each byte, multiply by the prime modulo 2 to the 128.\<close>

theorem digest_bytes_is_fnv1a_128:
  "digest_word (digest_bytes data) = fnv128_reference data"
proof -
  have step: "join128 (f_hi (fnv128_byte b h)) (f_lo (fnv128_byte b h))
      = (join128 (f_hi h) (f_lo h) XOR ucast b) * 0x1000000000000000000013B" for b h
  proof -
    obtain nlo nhi where m: "mul128 (f_lo h XOR ucast b) (f_hi h) 0x13B 0x1000000 = (nlo, nhi)"
      by (metis surj_pair)
    have "join128 0x1000000 0x13B = 0x1000000000000000000013B" by (simp add: join128_arith)
    then show ?thesis
      using mul128_join[OF m] by (simp add: fnv128_byte_def m join128_xor)
  qed
  have "join128 (f_hi (fold fnv128_byte data h)) (f_lo (fold fnv128_byte data h))
      = fold (\<lambda>b h. (h XOR ucast b) * 0x1000000000000000000013B) data (join128 (f_hi h) (f_lo h))" for h
    by (induction data arbitrary: h) (simp_all add: step)
  moreover have "join128 0x6c62272e07bb0142 0x62b821756295c58d = 0x6c62272e07bb014262b821756295c58d"
    by (simp add: join128_arith)
  ultimately show ?thesis
    by (simp add: digest_word_def digest_bytes_def fnv128_digest_def fnv128_update_def
        fnv128_init_def fnv128_reference_def)
qed

end
