(* ===== verification/Codec.thy ===== *)
theory Codec
  imports Hash "HOL-Library.Monad_Syntax"
begin

text \<open>
  The canonical little-endian byte encoding and the record framing:
  include/buffer_fabric/codec.hpp and src/codec.cpp.

  A ByteWriter is its buffer and its latched failure flag.  A ByteReader is the bytes
  it has not consumed yet; a get operation that returns false in the code (every call
  site then abandons the reader) is \<^const>\<open>None\<close> here.  The locale wire_codec is the contract
  every encoder/decoder pair of the development meets; what follows from it (round
  trips in any context, injectivity, counted lists) is proved once inside it.
\<close>

subsection \<open>ByteWriter\<close>

record byte_writer =
  buffer :: bytes
  failed :: bool

definition writer0 :: byte_writer where
  "writer0 = \<lparr>buffer = [], failed = False\<rparr>"

definition le_bytes :: "nat \<Rightarrow> 'a::len word \<Rightarrow> bytes" where
  "le_bytes n v = map (\<lambda>i. ucast (drop_bit (8 * i) v AND 0xFF)) [0..<n]"

definition put_bytes :: "bytes \<Rightarrow> byte_writer \<Rightarrow> byte_writer" where
  "put_bytes data w = w\<lparr>buffer := buffer w @ data\<rparr>"

definition put_u8 :: "u8 \<Rightarrow> byte_writer \<Rightarrow> byte_writer" where
  "put_u8 v = put_bytes [v]"

definition put_bool :: "bool \<Rightarrow> byte_writer \<Rightarrow> byte_writer" where
  "put_bool v = put_bytes [if v then 1 else 0]"

definition put_u16 :: "u16 \<Rightarrow> byte_writer \<Rightarrow> byte_writer" where
  "put_u16 v = put_bytes (le_bytes 2 v)"

definition put_u32 :: "u32 \<Rightarrow> byte_writer \<Rightarrow> byte_writer" where
  "put_u32 v = put_bytes (le_bytes 4 v)"

definition put_u64 :: "u64 \<Rightarrow> byte_writer \<Rightarrow> byte_writer" where
  "put_u64 v = put_bytes (le_bytes 8 v)"

definition put_id :: "u64 \<Rightarrow> byte_writer \<Rightarrow> byte_writer" where
  "put_id raw = put_u64 raw"

definition kMaxEncodedStringBytes :: nat where
  "kMaxEncodedStringBytes = 4096"

definition put_blob :: "bytes \<Rightarrow> byte_writer \<Rightarrow> byte_writer" where
  "put_blob data w =
     (if failed w then w
      else if length data > 0xFFFFFFFF then w\<lparr>failed := True\<rparr>
      else put_bytes data (put_u32 (of_nat (length data)) w))"

definition put_str :: "string \<Rightarrow> nat \<Rightarrow> byte_writer \<Rightarrow> byte_writer" where
  "put_str text max_bytes w =
     (if failed w then w
      else let max_bytes = (if max_bytes > kMaxEncodedStringBytes then kMaxEncodedStringBytes
                            else max_bytes)
           in if length text > max_bytes then w\<lparr>failed := True\<rparr>
              else put_bytes (map byte_of_char text) (put_u32 (of_nat (length text)) w))"

text \<open>Successive puts, in the order the code issues them.\<close>

definition writes :: "(byte_writer \<Rightarrow> byte_writer) list \<Rightarrow> byte_writer \<Rightarrow> byte_writer" where
  "writes ps w = fold (\<lambda>p. p) ps w"

definition put_digest :: "digest \<Rightarrow> byte_writer \<Rightarrow> byte_writer" where
  "put_digest d = writes [put_u64 (dg_hi d), put_u64 (dg_lo d)]"

subsection \<open>ByteReader\<close>

type_synonym 'a decoder = "bytes \<Rightarrow> ('a \<times> bytes) option"

definition get_bytes :: "nat \<Rightarrow> bytes decoder" where
  "get_bytes count r = (if count > length r then None else Some (take count r, drop count r))"

definition le_word :: "bytes \<Rightarrow> 'a::len word" where
  "le_word bs = fold (\<lambda>i v. v OR push_bit (8 * i) (ucast (bs ! i))) [0..<length bs] 0"

definition get_u8 :: "u8 decoder" where
  "get_u8 r = do { (bs, r) \<leftarrow> get_bytes 1 r; Some (bs ! 0, r) }"

definition get_bool :: "bool decoder" where
  "get_bool r = do { (v, r) \<leftarrow> get_u8 r; if v > 1 then None else Some (v \<noteq> 0, r) }"

definition get_u16 :: "u16 decoder" where
  "get_u16 r = do { (bs, r) \<leftarrow> get_bytes 2 r; Some (le_word bs, r) }"

definition get_u32 :: "u32 decoder" where
  "get_u32 r = do { (bs, r) \<leftarrow> get_bytes 4 r; Some (le_word bs, r) }"

definition get_u64 :: "u64 decoder" where
  "get_u64 r = do { (bs, r) \<leftarrow> get_bytes 8 r; Some (le_word bs, r) }"

definition get_id :: "u64 decoder" where
  "get_id r = get_u64 r"

definition get_blob :: "nat \<Rightarrow> bytes decoder" where
  "get_blob max_bytes r = do {
     (len, r) \<leftarrow> get_u32 r;
     if unat len > max_bytes then None else get_bytes (unat len) r }"

definition get_str :: "nat \<Rightarrow> string decoder" where
  "get_str max_bytes r = do {
     (len, r) \<leftarrow> get_u32 r;
     let max_bytes = (if max_bytes > kMaxEncodedStringBytes then kMaxEncodedStringBytes
                      else max_bytes);
     if unat len > max_bytes then None
     else do { (bs, r) \<leftarrow> get_bytes (unat len) r; Some (map char_of_byte bs, r) } }"

definition get_digest :: "digest decoder" where
  "get_digest r = do {
     (hi, r) \<leftarrow> get_u64 r; (lo, r) \<leftarrow> get_u64 r; Some (\<lparr>dg_hi = hi, dg_lo = lo\<rparr>, r) }"

text \<open>A loop that reads a counted sequence of items.\<close>

fun get_many :: "'a decoder \<Rightarrow> nat \<Rightarrow> 'a list decoder" where
  "get_many get 0 r = Some ([], r)"
| "get_many get (Suc n) r = do {
     (x, r) \<leftarrow> get r; (xs, r) \<leftarrow> get_many get n r; Some (x # xs, r) }"

subsection \<open>Frames\<close>

definition kFrameHeaderBytes :: nat where
  "kFrameHeaderBytes = 16"

definition encode_frame :: "bytes \<Rightarrow> u32 \<Rightarrow> u32 \<Rightarrow> bytes" where
  "encode_frame payload magic version =
     buffer (writes [put_u32 magic, put_u32 version, put_u32 (of_nat (length payload)),
                     put_u32 (crc32c payload)] writer0) @ payload"

definition encode_frame_into ::
  "byte_writer \<Rightarrow> bytes \<Rightarrow> u32 \<Rightarrow> u32 \<Rightarrow> void_result \<times> byte_writer" where
  "encode_frame_into w payload magic version =
     (if length payload > 0xFFFFFFFF then (Inl OversizedMessage, w)
      else let w = writes [put_u32 magic, put_u32 version, put_u32 (of_nat (length payload)),
                           put_u32 (crc32c payload), put_bytes payload] w
           in (if failed w then Inl OversizedMessage else Inr (), w))"

text \<open>The payload and the number of bytes consumed.\<close>

definition decode_frame :: "bytes \<Rightarrow> u32 \<Rightarrow> u32 \<Rightarrow> nat \<Rightarrow> (bytes \<times> nat) result" where
  "decode_frame data magic version max_payload =
     (if length data < kFrameHeaderBytes then Inl TruncatedMessage
      else case (do { (got_magic, r) \<leftarrow> get_u32 (take kFrameHeaderBytes data);
                      (got_version, r) \<leftarrow> get_u32 r;
                      (payload_bytes, r) \<leftarrow> get_u32 r;
                      (expected_crc, r) \<leftarrow> get_u32 r;
                      Some (got_magic, got_version, payload_bytes, expected_crc) }) of
        None \<Rightarrow> Inl CorruptRecord
      | Some (got_magic, got_version, payload_bytes, expected_crc) \<Rightarrow>
          if got_magic \<noteq> magic then Inl CorruptRecord
          else if got_version \<noteq> version then Inl VersionMismatch
          else if unat payload_bytes > max_payload then Inl OversizedMessage
          else if length data - kFrameHeaderBytes < unat payload_bytes then Inl TruncatedMessage
          else let payload = take (unat payload_bytes) (drop kFrameHeaderBytes data)
               in if crc32c payload \<noteq> expected_crc then Inl IntegrityFailure
                  else Inr (payload, kFrameHeaderBytes + unat payload_bytes))"

subsection \<open>Field round trips\<close>

lemma length_le_bytes [simp]: "length (le_bytes n v) = n"
  by (simp add: le_bytes_def)

lemma bit_fold_or:
  "bit (fold (\<lambda>i v. v OR f i) [0..<n] (0 :: 'a::len word)) k \<longleftrightarrow> (\<exists>i<n. bit (f i) k)"
  by (induction n) (auto simp: bit_simps less_Suc_eq)

lemma and_FF_word: "(x :: 'a::len word) AND 0xFF = take_bit 8 x"
  by (simp add: take_bit_eq_mask mask_eq_exp_minus_1)

lemma bit_le_bytes:
  "i < n \<Longrightarrow> bit (le_bytes n v ! i) k \<longleftrightarrow> k < 8 \<and> bit (v :: 'a::len word) (8 * i + k)"
  unfolding le_bytes_def and_FF_word by (auto simp: bit_simps dest: bit_imp_le_length)

lemma le_word_le_bytes:
  assumes "LENGTH('a) = 8 * n"
  shows "le_word (le_bytes n v) = (v :: 'a::len word)"
proof (rule bit_word_eqI)
  fix k assume k: "k < LENGTH('a)"
  have "bit (le_word (le_bytes n v) :: 'a word) k \<longleftrightarrow>
      (\<exists>i<n. bit (push_bit (8 * i) (ucast (le_bytes n v ! i)) :: 'a word) k)"
    by (simp add: le_word_def bit_fold_or)
  also have "\<dots> \<longleftrightarrow> (\<exists>i<n. 8 * i \<le> k \<and> k - 8 * i < 8 \<and> bit v k)"
    using k assms by (auto simp: bit_simps bit_le_bytes)
  also have "\<dots> \<longleftrightarrow> bit v k"
    using k assms by (auto intro!: exI[of _ "k div 8"] simp: minus_mult_div_eq_mod)
  finally show "bit (le_word (le_bytes n v) :: 'a word) k = bit v k" .
qed

lemma get_bytes_append [simp]: "n = length bs \<Longrightarrow> get_bytes n (bs @ r) = Some (bs, r)"
  by (simp add: get_bytes_def)

lemma char_of_byte_of_char [simp]: "char_of_byte (byte_of_char c) = c"
  by (simp add: char_of_byte_def byte_of_char_def unat_of_nat)

lemma map_char_of_byte [simp]: "map (char_of_byte \<circ> byte_of_char) s = s"
  by (simp add: comp_def)

text \<open>An unfailed put appends bytes that do not depend on what the buffer holds already.\<close>

definition enc :: "(byte_writer \<Rightarrow> byte_writer) \<Rightarrow> bytes" where
  "enc p = buffer (p writer0)"

definition appends :: "(byte_writer \<Rightarrow> byte_writer) \<Rightarrow> bool" where
  "appends p \<longleftrightarrow> (\<forall>w. \<not> failed w \<longrightarrow> p w = w\<lparr>buffer := buffer w @ enc p\<rparr>)"

lemma appendsD: "appends p \<Longrightarrow> \<not> failed w \<Longrightarrow> p w = w\<lparr>buffer := buffer w @ enc p\<rparr>"
  by (simp add: appends_def)

lemma enc_put_bytes [simp]: "enc (put_bytes bs) = bs"
  by (simp add: enc_def put_bytes_def writer0_def)

lemma appends_put_bytes [simp]: "appends (put_bytes bs)"
  by (simp add: appends_def) (simp add: put_bytes_def)

lemma writes_Cons: "writes (p # ps) w = writes ps (p w)"
  by (simp add: writes_def)

lemma appends_Nil [simp]: "appends (writes [])"
  by (simp add: appends_def enc_def writes_def writer0_def)

lemma enc_Nil [simp]: "enc (writes []) = []"
  by (simp add: enc_def writes_def writer0_def)

lemma enc_Cons [simp]:
  "appends p \<Longrightarrow> appends (writes ps) \<Longrightarrow> enc (writes (p # ps)) = enc p @ enc (writes ps)"
proof -
  assume p: "appends p" and ps: "appends (writes ps)"
  have w0: "\<not> failed writer0" "buffer writer0 = []" by (simp_all add: writer0_def)
  have "p writer0 = writer0\<lparr>buffer := enc p\<rparr>"
    using appendsD[OF p w0(1)] w0 by simp
  then show ?thesis
    using appendsD[OF ps, of "p writer0"] w0 by (simp add: enc_def[of "writes (p # ps)"] writes_Cons)
qed

lemma appends_Cons [simp]:
  "appends p \<Longrightarrow> appends (writes ps) \<Longrightarrow> appends (writes (p # ps))"
proof -
  assume p: "appends p" and ps: "appends (writes ps)"
  have "writes (p # ps) w = w\<lparr>buffer := buffer w @ enc (writes (p # ps))\<rparr>" if "\<not> failed w" for w
    using appendsD[OF p that] appendsD[OF ps, of "p w"] that
    by (simp only: writes_Cons enc_Cons[OF p ps]) simp
  then show ?thesis by (simp only: appends_def) simp
qed

lemma enc_fixed [simp]:
  "enc (put_u8 a) = [a]"
  "enc (put_bool b) = [if b then 1 else 0]"
  "enc (put_u16 c) = le_bytes 2 c"
  "enc (put_u32 d) = le_bytes 4 d"
  "enc (put_u64 e) = le_bytes 8 e"
  "enc (put_id f) = le_bytes 8 f"
  by (simp_all add: put_u8_def put_bool_def put_u16_def put_u32_def put_u64_def put_id_def)

lemma appends_fixed [simp]:
  "appends (put_u8 a)" "appends (put_bool b)" "appends (put_u16 c)" "appends (put_u32 d)"
  "appends (put_u64 e)" "appends (put_id f)"
  by (simp_all add: put_u8_def put_bool_def put_u16_def put_u32_def put_u64_def put_id_def)

lemma appends_put_digest [simp]: "appends (put_digest d)"
  by (simp add: put_digest_def)

lemma enc_put_digest [simp]: "enc (put_digest d) = le_bytes 8 (dg_hi d) @ le_bytes 8 (dg_lo d)"
  by (simp add: put_digest_def)

definition str_fits :: "nat \<Rightarrow> string \<Rightarrow> bool" where
  "str_fits max_bytes text \<longleftrightarrow> length text \<le> min max_bytes kMaxEncodedStringBytes"

lemma put_str_conv:
  "str_fits m s \<Longrightarrow> \<not> failed w \<Longrightarrow>
     put_str s m w = put_bytes (le_bytes 4 (of_nat (length s) :: u32) @ map byte_of_char s) w"
  by (auto simp: put_str_def str_fits_def put_bytes_def put_u32_def)

lemma enc_put_str [simp]:
  "str_fits m s \<Longrightarrow> enc (put_str s m) = le_bytes 4 (of_nat (length s) :: u32) @ map byte_of_char s"
  by (simp add: enc_def put_str_conv) (simp add: writer0_def put_str_conv put_bytes_def)

lemma appends_put_str [simp]: "str_fits m s \<Longrightarrow> appends (put_str s m)"
  by (simp add: appends_def) (simp add: put_str_conv put_bytes_def)

lemma put_blob_conv:
  "length b \<le> 0xFFFFFFFF \<Longrightarrow> \<not> failed w \<Longrightarrow>
     put_blob b w = put_bytes (le_bytes 4 (of_nat (length b) :: u32) @ b) w"
  by (auto simp: put_blob_def put_bytes_def put_u32_def)

lemma enc_put_blob [simp]:
  "length b \<le> 0xFFFFFFFF \<Longrightarrow> enc (put_blob b) = le_bytes 4 (of_nat (length b) :: u32) @ b"
  by (simp add: enc_def put_blob_conv) (simp add: writer0_def put_blob_conv put_bytes_def)

lemma appends_put_blob [simp]: "length b \<le> 0xFFFFFFFF \<Longrightarrow> appends (put_blob b)"
  by (simp add: appends_def) (simp add: put_blob_conv put_bytes_def)

lemma get_fixed [simp]:
  "get_u8 (a # r) = Some (a, r)"
  "get_bool ((if b then 1 else 0) # r) = Some (b, r)"
  "get_u16 (le_bytes 2 c @ r) = Some (c, r)"
  "get_u32 (le_bytes 4 d @ r) = Some (d, r)"
  "get_u64 (le_bytes 8 e @ r) = Some (e, r)"
  "get_id (le_bytes 8 e @ r) = Some (e, r)"
  by (simp_all add: get_u8_def get_bool_def get_u16_def get_u32_def get_u64_def get_id_def
      le_word_le_bytes get_bytes_def)

lemmas get_fixed_end [simp] = get_fixed(3-6)[where r = "[]", simplified]

lemma get_digest_enc [simp]:
  "get_digest (le_bytes 8 (dg_hi d) @ le_bytes 8 (dg_lo d) @ r) = Some (d, r)"
  by (simp add: get_digest_def)

lemma unat_of_nat32: "n \<le> 0xFFFFFFFF \<Longrightarrow> unat (of_nat n :: u32) = n"
  by (simp add: unat_of_nat)

lemma get_str_enc [simp]:
  "str_fits m s \<Longrightarrow>
     get_str m (le_bytes 4 (of_nat (length s) :: u32) @ map byte_of_char s @ r) = Some (s, r)"
  by (auto simp: get_str_def str_fits_def Let_def unat_of_nat32 kMaxEncodedStringBytes_def)

lemma get_blob_enc [simp]:
  "length b \<le> m \<Longrightarrow> length b \<le> 0xFFFFFFFF \<Longrightarrow>
     get_blob m (le_bytes 4 (of_nat (length b) :: u32) @ b @ r) = Some (b, r)"
  by (simp add: get_blob_def unat_of_nat32)

subsection \<open>The contract of an encoder and its decoder\<close>

locale wire_codec =
  fixes put :: "'a \<Rightarrow> byte_writer \<Rightarrow> byte_writer"
    and get :: "'a decoder"
    and wf :: "'a \<Rightarrow> bool"
  assumes put_appends: "wf x \<Longrightarrow> appends (put x)"
    and get_put: "wf x \<Longrightarrow> get (enc (put x) @ r) = Some (x, r)"
begin

lemma put_unfailed: "wf x \<Longrightarrow> \<not> failed w \<Longrightarrow> \<not> failed (put x w)"
  using appendsD[OF put_appends] by simp

text \<open>What was written after any prefix is read back from that prefix on.\<close>

lemma round_trip:
  assumes "wf x" "\<not> failed w"
  shows "get (drop (length (buffer w)) (buffer (put x w)) @ r) = Some (x, r)"
  using appendsD[OF put_appends[OF assms(1)] assms(2)] get_put[OF assms(1)] by simp

text \<open>The encodings form a prefix code.\<close>

lemma prefix_free:
  assumes "wf x" "wf y" "enc (put x) @ r = enc (put y) @ s"
  shows "x = y \<and> r = s"
  using get_put[OF assms(1), of r] get_put[OF assms(2), of s]
  unfolding assms(3) by simp

lemma enc_inject: "wf x \<Longrightarrow> wf y \<Longrightarrow> enc (put x) = enc (put y) \<longleftrightarrow> x = y"
  using prefix_free[of x y "[]" "[]"] by auto

lemma many_appends: "list_all wf xs \<Longrightarrow> appends (writes (map put xs))"
  by (induction xs) (simp_all add: put_appends)

lemma many_round_trip:
  "list_all wf xs \<Longrightarrow> get_many get (length xs) (enc (writes (map put xs)) @ r) = Some (xs, r)"
  by (induction xs) (simp_all add: put_appends many_appends get_put)

end

interpretation u64_codec: wire_codec put_u64 get_u64 "\<lambda>_. True"
  by unfold_locales simp_all

interpretation digest_codec: wire_codec put_digest get_digest "\<lambda>_. True"
  by unfold_locales simp_all

interpretation blob_codec: wire_codec put_blob "get_blob m" "\<lambda>b. length b \<le> min m 0xFFFFFFFF" for m
  by unfold_locales simp_all

subsection \<open>Frames\<close>

lemma encode_frame_conv:
  "encode_frame payload magic version =
     le_bytes 4 magic @ le_bytes 4 version @ le_bytes 4 (of_nat (length payload) :: u32) @
     le_bytes 4 (crc32c payload) @ payload"
proof -
  have "encode_frame payload magic version =
      enc (writes [put_u32 magic, put_u32 version, put_u32 (of_nat (length payload)),
                   put_u32 (crc32c payload)]) @ payload"
    by (simp only: encode_frame_def enc_def)
  then show ?thesis by simp
qed

lemma length_encode_frame: "length (encode_frame p m v) = 16 + length p"
  by (simp add: encode_frame_conv)

lemma decode_frame_header:
  fixes m v n c :: u32
  shows
  "decode_frame (le_bytes 4 m @ le_bytes 4 v @ le_bytes 4 (n :: u32) @ le_bytes 4 c @ body) magic version mx =
     (if m \<noteq> magic then Inl CorruptRecord
      else if v \<noteq> version then Inl VersionMismatch
      else if unat n > mx then Inl OversizedMessage
      else if length body < unat n then Inl TruncatedMessage
      else if crc32c (take (unat n) body) \<noteq> c then Inl IntegrityFailure
      else Inr (take (unat n) body, 16 + unat n))"
proof -
  have t: "take 16 (le_bytes 4 m @ le_bytes 4 v @ le_bytes 4 n @ le_bytes 4 c @ body)
      = le_bytes 4 m @ le_bytes 4 v @ le_bytes 4 n @ le_bytes 4 c @ []" by simp
  show ?thesis
    unfolding decode_frame_def kFrameHeaderBytes_def t get_fixed
    by (simp add: Let_def)
qed

lemma decode_of_encode_frame:
  assumes "length payload \<le> max_payload" "length payload \<le> 0xFFFFFFFF"
  shows "decode_frame (encode_frame payload magic version @ rest) magic version max_payload
       = Inr (payload, 16 + length payload)"
  using assms by (simp add: encode_frame_conv decode_frame_header unat_of_nat32)

text \<open>C29: frames round trip.  A framed payload within the reader's bound is decoded, from any
  buffer that starts with the frame, to exactly that payload, consuming the header and the
  payload and nothing of what follows.\<close>

theorem decode_encode_frame:
  assumes "length payload \<le> max_payload" "length payload \<le> 0xFFFFFFFF"
  shows "decode_frame (encode_frame payload magic version @ rest) magic version max_payload
       = Inr (payload, 16 + length payload)"
  using assms by (rule decode_of_encode_frame)

theorem decode_encode_frame_witness:
  "decode_frame (encode_frame [7, 8, 9] 5 1 @ [1, 2]) 5 1 100 = Inr ([7, 8, 9], 19)"
  using decode_encode_frame[of "[7, 8, 9]" 100 5 1 "[1, 2]"] by simp

text \<open>C30: damaged payloads are refused.  A frame whose payload was changed within four
  consecutive bytes is reported as an integrity failure, never delivered.\<close>

theorem decode_frame_detects_burst:
  assumes "length e = length e'" "length e \<le> 4" "e \<noteq> e'"
    and "length (pre @ e @ post) \<le> max_payload" "length (pre @ e @ post) \<le> 0xFFFFFFFF"
    and "frame = encode_frame (pre @ e @ post) magic version"
  shows "decode_frame (take 16 frame @ pre @ e' @ post @ rest) magic version max_payload
       = Inl IntegrityFailure"
proof -
  let ?p = "pre @ e @ post" and ?q = "pre @ e' @ post"
  have n: "unat (of_nat (length ?p) :: u32) = length ?q"
    using assms(1,5) unat_of_nat32[of "length ?p"] by simp
  have "take 16 frame @ ?q @ rest = le_bytes 4 magic @ le_bytes 4 version @
      le_bytes 4 (of_nat (length ?p) :: u32) @ le_bytes 4 (crc32c ?p) @ ?q @ rest"
    unfolding assms(6) encode_frame_conv by simp
  moreover have "crc32c ?q \<noteq> crc32c ?p"
    using crc32c_burst[OF assms(1-3)] by metis
  ultimately show ?thesis
    using assms(1,4) n by (simp add: decode_frame_header)
qed

theorem decode_frame_detects_burst_witness:
  "decode_frame (take 16 (encode_frame [1, 2, 3] 5 1) @ [1, 9, 3]) 5 1 64 = Inl IntegrityFailure"
  using decode_frame_detects_burst[of "[2]" "[9]" "[1]" "[3]" 64 "encode_frame [1, 2, 3] 5 1" 5 1 "[]"]
  by simp

lemma le_bytes_le_word:
  assumes "LENGTH('a) = 8 * length bs"
  shows "le_bytes (length bs) (le_word bs :: 'a::len word) = bs"
proof (rule nth_equalityI)
  fix i assume "i < length (le_bytes (length bs) (le_word bs :: 'a word))"
  then have i: "i < length bs" by simp
  show "le_bytes (length bs) (le_word bs :: 'a word) ! i = bs ! i"
  proof (rule bit_word_eqI)
    fix k assume k: "k < LENGTH(8)"
    then have "bit (le_bytes (length bs) (le_word bs :: 'a word) ! i) k \<longleftrightarrow>
        (\<exists>j<length bs. bit (push_bit (8 * j) (ucast (bs ! j)) :: 'a word) (8 * i + k))"
      using i by (simp add: bit_le_bytes) (simp add: le_word_def bit_fold_or)
    also have "\<dots> \<longleftrightarrow> (\<exists>j<length bs. 8 * j \<le> 8 * i + k \<and> bit (bs ! j) (8 * i + k - 8 * j))"
      using i k assms by (auto simp: bit_simps)
    also have "\<dots> \<longleftrightarrow> bit (bs ! i) k"
    proof -
      have "j = i" if "8 * j \<le> 8 * i + k" "bit (bs ! j) (8 * i + k - 8 * j)" for j
        using that k bit_imp_le_length[OF that(2)] by simp
      then show ?thesis using i by (metis add_diff_cancel_left' le_add1)
    qed
    finally show "bit (le_bytes (length bs) (le_word bs :: 'a word) ! i) k = bit (bs ! i) k" .
  qed
qed simp

lemma header_words:
  assumes "16 \<le> length data"
  shows "\<exists>m v n c. data = le_bytes 4 (m :: u32) @ le_bytes 4 (v :: u32) @
    le_bytes 4 (n :: u32) @ le_bytes 4 (c :: u32) @ drop 16 data"
proof -
  have w: "le_bytes 4 (le_word (take 4 xs) :: u32) = take 4 xs" if "4 \<le> length xs" for xs :: bytes
    using le_bytes_le_word[of "take 4 xs", where 'a = 32] that by simp
  have "data = take 4 data @ take 4 (drop 4 data) @ take 4 (drop 8 data) @
      take 4 (drop 12 data) @ drop 16 data"
    using append_take_drop_id[of 4 data] append_take_drop_id[of 4 "drop 4 data"]
      append_take_drop_id[of 4 "drop 8 data"] append_take_drop_id[of 4 "drop 12 data"] by simp
  also have "\<dots> = le_bytes 4 (le_word (take 4 data) :: u32) @
      le_bytes 4 (le_word (take 4 (drop 4 data)) :: u32) @
      le_bytes 4 (le_word (take 4 (drop 8 data)) :: u32) @
      le_bytes 4 (le_word (take 4 (drop 12 data)) :: u32) @ drop 16 data"
    using assms by (simp only: w length_drop)
  finally show ?thesis by (intro exI, assumption)
qed

text \<open>The header guards.  decode_frame delivers a payload only if it lies within the bound,
  its bytes are present, and its checksum is the one the header carries.\<close>

theorem decode_frame_sound:
  assumes "decode_frame data magic version max_payload = Inr (payload, consumed)"
  shows "length payload \<le> max_payload \<and> consumed = 16 + length payload \<and>
         consumed \<le> length data \<and> payload = take (length payload) (drop 16 data) \<and>
         get_u32 (drop 12 data) = Some (crc32c payload, drop 16 data)"
proof -
  have "16 \<le> length data"
    using assms by (auto simp: decode_frame_def kFrameHeaderBytes_def split: if_splits)
  then obtain m v n c :: u32 where d: "data = le_bytes 4 m @ le_bytes 4 v @ le_bytes 4 n @ le_bytes 4 c @ drop 16 data"
    using header_words by blast
  show ?thesis
    using assms by (subst (asm) d, subst (3) d, subst (1) d) (auto simp: decode_frame_header split: if_splits)
qed

theorem decode_frame_sound_witness:
  "length [7, 8 :: u8] \<le> 64 \<and> get_u32 (drop 12 (encode_frame [7, 8] 5 1 @ [1])) =
     Some (crc32c [7, 8], [7, 8, 1])"
  using decode_frame_sound[of "encode_frame [7, 8] 5 1 @ [1]" 5 1 64 "[7, 8]" 18]
  by (simp add: decode_frame_header encode_frame_conv)

end
