(* ===== verification/Policy.thy ===== *)
theory Policy
  imports Codec
begin

text \<open>
  Pool policies and pressure classification: include/buffer_fabric/policy.hpp and
  src/policy.cpp.  The lemmas show that the classifier's bands are exact over the whole
  64-bit range and monotone, and what a validated policy guarantees.
\<close>

subsection \<open>Data\<close>

record thresholds =
  elevated_bp :: u32
  high_bp :: u32
  critical_bp :: u32

definition kScale :: u32 where
  "kScale = 10000"

datatype pressure_state = Unknown | Clear | Elevated | High | Critical | Stale

primrec pressure_state_raw :: "pressure_state \<Rightarrow> u8" where
  "pressure_state_raw Unknown = 0"
| "pressure_state_raw Clear = 1"
| "pressure_state_raw Elevated = 2"
| "pressure_state_raw High = 3"
| "pressure_state_raw Critical = 4"
| "pressure_state_raw Stale = 5"

primrec to_string_pressure :: "pressure_state \<Rightarrow> string" where
  "to_string_pressure Unknown = ''UNKNOWN''"
| "to_string_pressure Clear = ''CLEAR''"
| "to_string_pressure Elevated = ''ELEVATED''"
| "to_string_pressure High = ''HIGH''"
| "to_string_pressure Critical = ''CRITICAL''"
| "to_string_pressure Stale = ''STALE''"

definition pressure_is_known :: "pressure_state \<Rightarrow> bool" where
  "pressure_is_known st = (st = Clear \<or> st = Elevated \<or> st = High \<or> st = Critical)"

definition pressure_at_least :: "pressure_state \<Rightarrow> pressure_state \<Rightarrow> bool" where
  "pressure_at_least st floor =
     (if \<not> pressure_is_known st then False
      else pressure_state_raw floor \<le> pressure_state_raw st)"

record pressure_observation =
  ob_state :: pressure_state
  ob_utilization_bp :: u32
  ob_binding_bp :: u32
  ob_overcommitted :: bool

datatype overcommit_mode = OcForbid | OcBounded
datatype borrow_mode = BwForbid | FromAncestorFree

record overcommit_policy =
  oc_mode :: overcommit_mode
  oc_limit_units :: u64

record borrow_policy =
  bw_mode :: borrow_mode
  bw_limit_units :: u64

record pressure_policy =
  pr_thresholds :: thresholds
  evidence_ttl_ticks :: tick
  refuse_increase_on_unknown :: bool
  reduce_on_high :: bool
  reduce_on_critical :: bool
  refuse_new_grants_above_high :: bool

record reclaim_policy =
  rc_enabled :: bool
  min_hold_ticks :: tick
  max_units_per_operation :: u64
  reserve_units :: u64
  allow_protected_reclaim :: bool

record pool_policy =
  pol_id :: policy_id
  pol_generation :: generation
  pol_name :: string
  pol_provenance :: provenance_id
  overcommit :: overcommit_policy
  borrow :: borrow_policy
  max_single_allocation_units :: u64
  max_single_request_units :: u64
  soft_limit_bp :: u32
  allow_partial_grant :: bool
  pressure :: pressure_policy
  refuse_grants_at :: pressure_state
  reduce_at :: pressure_state
  reclaim :: reclaim_policy
  usable_floor_units :: u64
  fence_on_generation_change :: bool
  reservation_ttl_ticks :: tick
  max_pending_reservations :: u64

text \<open>The default member initialisers.\<close>

definition thresholds0 :: thresholds where
  "thresholds0 = \<lparr>elevated_bp = 7000, high_bp = 8500, critical_bp = 9500\<rparr>"

definition pool_policy0 :: pool_policy where
  "pool_policy0 = \<lparr>
     pol_id = 0, pol_generation = 0, pol_name = [], pol_provenance = 0,
     overcommit = \<lparr>oc_mode = OcForbid, oc_limit_units = 0\<rparr>,
     borrow = \<lparr>bw_mode = BwForbid, bw_limit_units = 0\<rparr>,
     max_single_allocation_units = 0, max_single_request_units = 0, soft_limit_bp = 0,
     allow_partial_grant = True,
     pressure = \<lparr>pr_thresholds = thresholds0, evidence_ttl_ticks = 2000000000,
       refuse_increase_on_unknown = True, reduce_on_high = True, reduce_on_critical = True,
       refuse_new_grants_above_high = False\<rparr>,
     refuse_grants_at = Critical, reduce_at = High,
     reclaim = \<lparr>rc_enabled = True, min_hold_ticks = 0, max_units_per_operation = 1099511627776,
       reserve_units = 0, allow_protected_reclaim = False\<rparr>,
     usable_floor_units = 0, fence_on_generation_change = True,
     reservation_ttl_ticks = 30000000000, max_pending_reservations = 4096\<rparr>"

subsection \<open>Operations\<close>

definition thresholds_validate :: "thresholds \<Rightarrow> void_result" where
  "thresholds_validate t =
     (if elevated_bp t = 0 then Inl InvalidArgument
      else if high_bp t \<le> elevated_bp t then Inl InvalidArgument
      else if critical_bp t \<le> high_bp t then Inl InvalidArgument
      else if critical_bp t > kScale then Inl InvalidArgument
      else Inr ())"

definition utilization_at_least :: "u64 \<Rightarrow> u64 \<Rightarrow> u32 \<Rightarrow> bool" where
  "utilization_at_least used usable band_bp =
     (if usable = 0 then used \<noteq> 0
      else mul_compare used (ucast kScale) (ucast band_bp) usable \<ge> 0)"

definition classify_pressure :: "thresholds \<Rightarrow> u64 \<Rightarrow> u64 \<Rightarrow> bool \<Rightarrow> pressure_observation" where
  "classify_pressure t used usable overcommitted =
     (if usable = 0 then
        if used = 0 \<and> \<not> overcommitted then
          \<lparr>ob_state = Clear, ob_utilization_bp = 0, ob_binding_bp = 0,
           ob_overcommitted = overcommitted\<rparr>
        else
          \<lparr>ob_state = Critical, ob_utilization_bp = kScale, ob_binding_bp = critical_bp t,
           ob_overcommitted = overcommitted\<rparr>
      else
        let (ov, scaled) = mul_overflow used (ucast kScale);
            utilization =
              (if ov then kScale
               else let basis_points = scaled div usable
                    in if basis_points \<ge> ucast kScale then kScale else ucast basis_points);
            (st, binding) =
              (if utilization_at_least used usable (critical_bp t) then (Critical, critical_bp t)
               else if utilization_at_least used usable (high_bp t) then (High, high_bp t)
               else if utilization_at_least used usable (elevated_bp t)
               then (Elevated, elevated_bp t)
               else (Clear, 0))
        in \<lparr>ob_state = st, ob_utilization_bp = utilization, ob_binding_bp = binding,
            ob_overcommitted = overcommitted\<rparr>)"

definition policy_validate :: "pool_policy \<Rightarrow> void_result" where
  "policy_validate p =
     (if pol_id p = 0 then Inl InvalidArgument
      else if pol_name p \<noteq> [] \<and> \<not> is_valid_name (pol_name p) then Inl NameTooLong
      else try_r (thresholds_validate (pr_thresholds (pressure p))) (\<lambda>_.
        if oc_mode (overcommit p) = OcBounded \<and> oc_limit_units (overcommit p) = 0
        then Inl InvalidArgument
        else if oc_mode (overcommit p) = OcBounded \<and>
                oc_limit_units (overcommit p) > kMaxOvercommitUnits
        then Inl Overflow
        else if oc_mode (overcommit p) \<noteq> OcBounded \<and> oc_limit_units (overcommit p) \<noteq> 0
        then Inl InvalidArgument
        else if bw_mode (borrow p) = BwForbid \<and> bw_limit_units (borrow p) \<noteq> 0
        then Inl InvalidArgument
        else if bw_mode (borrow p) = FromAncestorFree \<and> bw_limit_units (borrow p) = 0
        then Inl InvalidArgument
        else if bw_mode (borrow p) = FromAncestorFree \<and> bw_limit_units (borrow p) > kMaxUnitsPerPool
        then Inl Overflow
        else if max_single_allocation_units p > kMaxUnitsPerPool then Inl Overflow
        else if max_single_request_units p > kMaxUnitsPerPool then Inl Overflow
        else if soft_limit_bp p > kScale then Inl InvalidArgument
        else if usable_floor_units p > kMaxUnitsPerPool then Inl Overflow
        else if max_pending_reservations p > 1048576 then Inl BoundedResourceExhausted
        else if max_units_per_operation (reclaim p) > kMaxUnitsPerPool then Inl Overflow
        else if reserve_units (reclaim p) > kMaxUnitsPerPool then Inl Overflow
        else if refuse_increase_on_unknown (pressure p) \<and> refuse_grants_at p = Clear
        then Inl InvalidArgument
        else if refuse_grants_at p \<noteq> Unknown \<and> \<not> pressure_is_known (refuse_grants_at p) \<and>
                refuse_grants_at p \<noteq> Stale
        then Inl InvalidArgument
        else if \<not> pressure_is_known (reduce_at p) then Inl InvalidArgument
        else Inr ()))"

subsection \<open>Laws\<close>

lemma unat_ucast32 [simp]: "unat (ucast (b :: u32) :: u64) = unat b"
proof -
  have "unat b < 2 ^ 32" using unsigned_less[of b, where 'a = nat] by simp
  then have "unat b < 2 ^ 64" by simp
  then show ?thesis by (simp add: unsigned_ucast_eq take_bit_nat_eq_self_iff)
qed

lemma sgn_diff_nonneg: "0 \<le> sgn (int x - int y) \<longleftrightarrow> y \<le> x"
  by (simp add: sgn_if)

lemma utilization_at_least_nat:
  "usable \<noteq> 0 \<Longrightarrow>
     utilization_at_least used usable band \<longleftrightarrow> unat band * unat usable \<le> unat used * 10000"
  by (simp only: utilization_at_least_def mul_compare_sgn sgn_diff_nonneg unat_ucast32)
     (simp add: kScale_def)

text \<open>The band of a utilisation, as a specification over the naturals.\<close>

definition band_of :: "thresholds \<Rightarrow> nat \<Rightarrow> nat \<Rightarrow> pressure_state" where
  "band_of t used usable =
     (if unat (critical_bp t) * usable \<le> used * 10000 then Critical
      else if unat (high_bp t) * usable \<le> used * 10000 then High
      else if unat (elevated_bp t) * usable \<le> used * 10000 then Elevated
      else Clear)"

lemma classify_state:
  "usable \<noteq> 0 \<Longrightarrow> ob_state (classify_pressure t used usable oc) = band_of t (unat used) (unat usable)"
  by (simp add: classify_pressure_def band_of_def utilization_at_least_nat split: prod.splits)

lemma classify_utilization:
  assumes "usable \<noteq> 0" "unat used * 10000 < 2 ^ 64"
  shows "unat (ob_utilization_bp (classify_pressure t used usable oc)) =
    min 10000 (unat used * 10000 div unat usable)"
proof -
  have k: "unat (ucast kScale :: u64) = 10000" "unat kScale = 10000" by (simp_all add: kScale_def)
  have m: "mul_overflow used (ucast kScale) = (False, used * ucast kScale)"
    using mul_overflow_nat[of used "ucast kScale"] assms(2)
    by (auto simp: k mul_overflow_def split: if_splits)
  let ?b = "used * ucast kScale div usable"
  have b: "unat ?b = unat used * 10000 div unat usable"
    using assms(2) by (simp add: unat_div unat_mult_small k)
  have "unat (ucast ?b :: u32) = unat ?b" if "unat ?b < 10000"
    using that by (simp add: unsigned_ucast_eq take_bit_nat_eq_self_iff)
  then show ?thesis
    using assms(1) by (auto simp: classify_pressure_def m Let_def word_le_nat_alt k b split: prod.splits)
qed

text \<open>C31: pressure bands are exact.  For a non-empty usable capacity the classifier's state is
  the band of the exact ratio, compared without rounding or overflow over the whole 64-bit
  range; the reported utilisation is the truncated ratio in basis points as long as the scaled
  usage fits 64 bits; and an empty pool is critical exactly when something is charged to it.\<close>

theorem classify_pressure_exact:
  "(usable \<noteq> 0 \<longrightarrow>
      ob_state (classify_pressure t used usable oc) = band_of t (unat used) (unat usable)) \<and>
   (usable \<noteq> 0 \<and> unat used * 10000 < 2 ^ 64 \<longrightarrow>
      unat (ob_utilization_bp (classify_pressure t used usable oc)) =
        min 10000 (unat used * 10000 div unat usable)) \<and>
   (ob_state (classify_pressure t used 0 oc) = Critical \<longleftrightarrow> used \<noteq> 0 \<or> oc)"
proof -
  have "ob_state (classify_pressure t used 0 oc) = Critical \<longleftrightarrow> used \<noteq> 0 \<or> oc"
    by (simp add: classify_pressure_def)
  then show ?thesis by (simp add: classify_state classify_utilization)
qed

theorem classify_pressure_exact_witness:
  "ob_state (classify_pressure thresholds0 85 100 False) = High \<and>
   unat (ob_utilization_bp (classify_pressure thresholds0 85 100 False)) = 8500"
  using classify_pressure_exact[of 100 thresholds0 85 False]
  by (simp add: band_of_def thresholds0_def)

lemma thresholds_validD:
  assumes "thresholds_validate t = Inr ()"
  shows "0 < unat (elevated_bp t)" "unat (elevated_bp t) < unat (high_bp t)"
    "unat (high_bp t) < unat (critical_bp t)" "unat (critical_bp t) \<le> 10000"
  using assms
  by (auto simp: thresholds_validate_def kScale_def word_le_nat_alt unat_gt_0 not_le
      not_less split: if_splits)

lemma band_of_mono:
  assumes "used \<le> used'"
  shows "pressure_state_raw (band_of t used usable) \<le> pressure_state_raw (band_of t used' usable)"
  using assms by (auto simp: band_of_def dest: mult_le_mono1[of _ _ 10000] le_trans)

text \<open>Pressure is monotone in usage.  Under fixed thresholds and usable capacity, more
  usage never classifies as a lower band.\<close>

theorem classify_pressure_mono:
  assumes "used \<le> used'"
  shows "pressure_state_raw (ob_state (classify_pressure t used usable oc))
       \<le> pressure_state_raw (ob_state (classify_pressure t used' usable oc))"
proof (cases "usable = 0")
  case True
  with assms show ?thesis by (auto simp: classify_pressure_def word_le_nat_alt unat_eq_zero)
next
  case False
  moreover have "unat used \<le> unat used'" using assms by (simp add: word_le_nat_alt)
  ultimately show ?thesis by (simp add: classify_state band_of_mono)
qed

theorem classify_pressure_mono_witness:
  "pressure_state_raw (ob_state (classify_pressure thresholds0 10 100 False))
   \<le> pressure_state_raw (ob_state (classify_pressure thresholds0 96 100 False))"
  by (rule classify_pressure_mono) simp

text \<open>The reported utilisation saturates on large pools.  On a pool of the largest
  supported capacity that is 0.2 per cent full the state is the right one (clear), but the
  utilisation is reported as 100 per cent, because the scaled usage does not fit 64 bits.\<close>

theorem utilization_bp_saturates_early:
  "classify_pressure thresholds0 0x8000000000000 kMaxUnitsPerPool False =
     \<lparr>ob_state = Clear, ob_utilization_bp = 10000, ob_binding_bp = 0, ob_overcommitted = False\<rparr>"
proof -
  have "kMaxUnitsPerPool \<noteq> 0" by (simp add: kMaxUnitsPerPool_def)
  then show ?thesis
    by (simp add: classify_pressure_def utilization_at_least_nat mul_overflow_def thresholds0_def)
       (simp add: kMaxUnitsPerPool_def kScale_def)
qed

text \<open>What the other components rely on in a validated policy.\<close>

lemma policy_validD:
  assumes "policy_validate p = Inr ()"
  shows "pol_id p \<noteq> 0"
    "unat (oc_limit_units (overcommit p)) \<le> 2 ^ 60"
    "unat (bw_limit_units (borrow p)) \<le> 2 ^ 60"
    "unat (usable_floor_units p) \<le> 2 ^ 60"
    "unat (soft_limit_bp p) \<le> 10000"
    "length (pol_name p) \<le> 64"
    "oc_mode (overcommit p) = OcForbid \<Longrightarrow> oc_limit_units (overcommit p) = 0"
    "bw_mode (borrow p) = BwForbid \<Longrightarrow> bw_limit_units (borrow p) = 0"
    "thresholds_validate (pr_thresholds (pressure p)) = Inr ()"
    "pressure_is_known (reduce_at p)"
  using assms
  by (auto simp: policy_validate_def try_r_eq_Inr kMaxUnitsPerPool_def kMaxOvercommitUnits_def
      word_le_nat_alt kScale_def not_less is_valid_name_def kMaxNameBytes_def split: if_splits
      intro: overcommit_mode.exhaust borrow_mode.exhaust)

end
