(* ===== verification/Topology.thy ===== *)
theory Topology
  imports Policy
begin

text \<open>
  The domain objects: pools and queues (include/buffer_fabric/topology.hpp), allocation
  records, lineage, bound generations and attempts (allocation.hpp), pressure evidence
  (pressure.hpp), with their predicates and validation of src/topology.cpp.
\<close>

subsection \<open>Pools and queues\<close>

record pool_descriptor =
  pd_id :: pool_id
  pd_generation :: generation
  pd_name :: string
  pd_resource :: resource_id
  pd_backend :: backend_id
  raw_units :: u64
  protected_units :: u64
  pd_parent :: pool_id
  pd_policy :: policy_id
  pd_tenant :: tenant_id
  pd_provenance :: provenance_id
  pd_created_at :: tick
  pd_retired :: bool

definition usable_units :: "pool_descriptor \<Rightarrow> u64" where
  "usable_units p =
     (if raw_units p \<ge> protected_units p then raw_units p - protected_units p else 0)"

definition pool_validate :: "pool_descriptor \<Rightarrow> void_result" where
  "pool_validate p =
     (if pd_id p = 0 then Inl InvalidArgument
      else if \<not> is_valid_name (pd_name p) then Inl NameTooLong
      else if raw_units p = 0 then Inl InvalidArgument
      else if raw_units p > kMaxUnitsPerPool then Inl Overflow
      else if protected_units p > raw_units p then Inl ProtectedHeadroomViolation
      else if protected_units p = raw_units p then Inl ProtectedHeadroomViolation
      else if \<not> valid (pd_backend p) then Inl UnknownBackend
      else if \<not> valid (pd_policy p) then Inl UnknownPolicy
      else if pd_parent p = pd_id p then Inl PoolCycle
      else Inr ())"

record pool_runtime =
  borrowed_in :: u64
  lent_out :: u64
  overcommit_used :: u64
  free_units :: u64
  reserved_units :: u64
  committed_units :: u64
  pinned_units :: u64
  reclaimable_units :: u64
  grant_count :: u64
  refuse_count :: u64
  reclaim_count :: u64
  fenced_count :: u64
  peak_committed_units :: u64
  last_decision_at :: tick

definition pool_runtime0 :: pool_runtime where
  "pool_runtime0 = \<lparr>borrowed_in = 0, lent_out = 0, overcommit_used = 0, free_units = 0,
     reserved_units = 0, committed_units = 0, pinned_units = 0, reclaimable_units = 0,
     grant_count = 0, refuse_count = 0, reclaim_count = 0, fenced_count = 0,
     peak_committed_units = 0, last_decision_at = 0\<rparr>"

record queue_descriptor =
  qd_id :: queue_id
  qd_generation :: generation
  qd_name :: string
  qd_pool :: pool_id
  qd_tenant :: tenant_id
  qd_traffic_class :: class_id
  qd_demand_units :: u64
  qd_weight :: u64
  max_committed_units :: u64
  registered_at :: tick
  demand_updated_at :: tick
  qd_retired :: bool

record queue_usage =
  qu_queue :: queue_id
  qu_pool :: pool_id
  qu_generation :: generation
  qu_committed_units :: u64
  qu_reserved_units :: u64
  qu_allocation_count :: u64

subsection \<open>Allocations\<close>

datatype allocation_state =
  AReserved | ACommitted | AFenced | AReclaimed | AReleased | AExpired

primrec allocation_state_raw :: "allocation_state \<Rightarrow> u8" where
  "allocation_state_raw AReserved = 0"
| "allocation_state_raw ACommitted = 1"
| "allocation_state_raw AFenced = 2"
| "allocation_state_raw AReclaimed = 3"
| "allocation_state_raw AReleased = 4"
| "allocation_state_raw AExpired = 5"

primrec to_string_allocation_state :: "allocation_state \<Rightarrow> string" where
  "to_string_allocation_state AReserved = ''RESERVED''"
| "to_string_allocation_state ACommitted = ''COMMITTED''"
| "to_string_allocation_state AFenced = ''FENCED''"
| "to_string_allocation_state AReclaimed = ''RECLAIMED''"
| "to_string_allocation_state AReleased = ''RELEASED''"
| "to_string_allocation_state AExpired = ''EXPIRED''"

definition allocation_holds_units :: "allocation_state \<Rightarrow> bool" where
  "allocation_holds_units st = (st = AReserved \<or> st = ACommitted)"

definition allocation_is_terminal :: "allocation_state \<Rightarrow> bool" where
  "allocation_is_terminal st = (st = AReleased \<or> st = AReclaimed \<or> st = AExpired)"

datatype reclaim_class = Pinned | Reclaimable

primrec reclaim_class_raw :: "reclaim_class \<Rightarrow> u8" where
  "reclaim_class_raw Pinned = 0"
| "reclaim_class_raw Reclaimable = 1"

primrec to_string_reclaim_class :: "reclaim_class \<Rightarrow> string" where
  "to_string_reclaim_class Pinned = ''PINNED''"
| "to_string_reclaim_class Reclaimable = ''RECLAIMABLE''"

definition kMaxLineageDepth :: u32 where
  "kMaxLineageDepth = 32"

record lineage =
  ln_origin :: allocation_id
  ln_parent :: allocation_id
  ln_depth :: u32
  ln_chain_digest :: digest

record bound_generations =
  bg_pool_generation :: generation
  bg_queue_generation :: generation
  bg_policy_generation :: generation
  bg_capacity_generation :: generation
  bg_backend_generation :: generation
  bg_epoch :: epoch_id
  bg_boot :: boot_incarnation

record allocation_record =
  al_id :: allocation_id
  al_pool :: pool_id
  al_queue :: queue_id
  al_tenant :: tenant_id
  al_traffic_class :: class_id
  al_units :: u64
  al_state :: allocation_state
  al_reclaim_class :: reclaim_class
  al_reclaim_priority :: u64
  al_lineage :: lineage
  al_bound :: bound_generations
  al_attempt :: attempt_id
  al_provenance :: provenance_id
  borrow_units :: u64
  al_lender :: pool_id
  al_created_at :: tick
  last_touched :: tick
  expires_at :: tick
  al_revision :: u64

definition holds_units :: "allocation_record \<Rightarrow> bool" where
  "holds_units a = allocation_holds_units (al_state a)"

definition units_from_own_capacity :: "allocation_record \<Rightarrow> u64" where
  "units_from_own_capacity a =
     (if al_units a \<ge> borrow_units a then al_units a - borrow_units a else 0)"

subsection \<open>Attempts\<close>

datatype attempt_kind =
  AtAllocate | AtCommit | AtRelease | AtReclaim | AtFence | AtRevalidate | AtReserve

primrec attempt_kind_raw :: "attempt_kind \<Rightarrow> u8" where
  "attempt_kind_raw AtAllocate = 0"
| "attempt_kind_raw AtCommit = 1"
| "attempt_kind_raw AtRelease = 2"
| "attempt_kind_raw AtReclaim = 3"
| "attempt_kind_raw AtFence = 4"
| "attempt_kind_raw AtRevalidate = 5"
| "attempt_kind_raw AtReserve = 6"

primrec to_string_attempt_kind :: "attempt_kind \<Rightarrow> string" where
  "to_string_attempt_kind AtAllocate = ''ALLOCATE''"
| "to_string_attempt_kind AtCommit = ''COMMIT''"
| "to_string_attempt_kind AtRelease = ''RELEASE''"
| "to_string_attempt_kind AtReclaim = ''RECLAIM''"
| "to_string_attempt_kind AtFence = ''FENCE''"
| "to_string_attempt_kind AtRevalidate = ''REVALIDATE''"
| "to_string_attempt_kind AtReserve = ''RESERVE''"

record attempt_record =
  at_id :: attempt_id
  at_kind :: attempt_kind
  at_request_digest :: digest
  at_outcome :: error_code
  at_allocation :: allocation_id
  at_granted_units :: u64
  at_sequence :: u64
  at_recorded_at :: tick
  at_unfinished :: bool

subsection \<open>Pressure evidence\<close>

record pressure_snapshot =
  ps_id :: snapshot_id
  ps_pool :: pool_id
  ps_pool_generation :: generation
  ps_epoch :: epoch_id
  ps_boot :: boot_incarnation
  ps_observed_at :: tick
  ps_ttl_ticks :: tick
  ps_demand_units :: u64
  ps_committed_units :: u64
  ps_reclaimable_units :: u64
  ps_provenance :: provenance_id
  assert_committed :: bool
  evidence_digest :: digest

record pressure_evidence =
  pe_state :: pressure_state
  pe_utilization_bp :: u32
  pe_binding_bp :: u32
  pe_snapshot :: snapshot_id
  pe_pool_generation :: generation
  pe_epoch :: epoch_id
  pe_observed_at :: tick
  pe_age_ticks :: tick
  pe_overcommitted :: bool
  pe_epoch_match :: bool
  pe_generation_match :: bool
  pe_fresh :: bool
  pe_reason :: error_code

definition evidence_usable :: "pressure_evidence \<Rightarrow> bool" where
  "evidence_usable e = pressure_is_known (pe_state e)"

subsection \<open>Laws\<close>

lemma pool_validD:
  assumes "pool_validate p = Inr ()"
  shows "pd_id p \<noteq> 0" "is_valid_name (pd_name p)" "raw_units p \<noteq> 0"
    "unat (raw_units p) \<le> 2 ^ 60" "unat (protected_units p) < unat (raw_units p)"
    "valid (pd_backend p)" "valid (pd_policy p)" "pd_parent p \<noteq> pd_id p"
  using assms
  by (auto simp: pool_validate_def kMaxUnitsPerPool_def word_le_nat_alt word_less_nat_alt not_less
      unat_eq_iff le_less split: if_splits)

lemma usable_units_pos:
  "pool_validate p = Inr () \<Longrightarrow> 0 < unat (usable_units p) \<and> unat (usable_units p) \<le> 2 ^ 60"
  using pool_validD[of p]
  by (auto simp: usable_units_def word_le_nat_alt unat_sub)

lemma unat_usable_units:
  "unat (usable_units p) = unat (raw_units p) - unat (protected_units p)"
  by (simp add: usable_units_def word_le_nat_alt unat_sub)

lemma unat_own_units:
  "unat (units_from_own_capacity a) = unat (al_units a) - unat (borrow_units a)"
  by (simp add: units_from_own_capacity_def word_le_nat_alt unat_sub)

lemma terminal_holds_nothing: "allocation_is_terminal st \<Longrightarrow> \<not> allocation_holds_units st"
  by (auto simp: allocation_is_terminal_def allocation_holds_units_def)

end
