(* ===== verification/Wire.thy ===== *)
theory Wire
  imports Topology
begin

text \<open>
  The byte encodings of the domain objects: src/wire.hpp and the detail namespace of
  src/topology.cpp, with the content digests built on them (PoolPolicy::digest,
  BoundGenerations::digest).  Every pair is an interpretation of wire_codec, so that
  round trips in any context, injectivity and counted lists come from the locale.
\<close>

definition kWireMaxNameBytes :: nat where
  "kWireMaxNameBytes = kMaxNameBytes"

definition encode_string :: "string \<Rightarrow> nat \<Rightarrow> byte_writer \<Rightarrow> byte_writer" where
  "encode_string text max_bytes = put_str text max_bytes"

definition decode_string :: "nat \<Rightarrow> string decoder" where
  "decode_string max_bytes r = get_str max_bytes r"

text \<open>Enumerations are one byte; a byte beyond the last enumerator is refused.\<close>

definition pressure_state_of_raw :: "u8 \<Rightarrow> pressure_state" where
  "pressure_state_of_raw v =
     (if v = 0 then Unknown else if v = 1 then Clear else if v = 2 then Elevated
      else if v = 3 then High else if v = 4 then Critical else Stale)"

definition allocation_state_of_raw :: "u8 \<Rightarrow> allocation_state" where
  "allocation_state_of_raw v =
     (if v = 0 then AReserved else if v = 1 then ACommitted else if v = 2 then AFenced
      else if v = 3 then AReclaimed else if v = 4 then AReleased else AExpired)"

definition reclaim_class_of_raw :: "u8 \<Rightarrow> reclaim_class" where
  "reclaim_class_of_raw v = (if v = 0 then Pinned else Reclaimable)"

definition attempt_kind_of_raw :: "u8 \<Rightarrow> attempt_kind" where
  "attempt_kind_of_raw v =
     (if v = 0 then AtAllocate else if v = 1 then AtCommit else if v = 2 then AtRelease
      else if v = 3 then AtReclaim else if v = 4 then AtFence else if v = 5 then AtRevalidate
      else AtReserve)"

primrec overcommit_mode_raw :: "overcommit_mode \<Rightarrow> u8" where
  "overcommit_mode_raw OcForbid = 0"
| "overcommit_mode_raw OcBounded = 1"

primrec borrow_mode_raw :: "borrow_mode \<Rightarrow> u8" where
  "borrow_mode_raw BwForbid = 0"
| "borrow_mode_raw FromAncestorFree = 1"

subsection \<open>Encoders and decoders\<close>

definition encode_thresholds :: "thresholds \<Rightarrow> byte_writer \<Rightarrow> byte_writer" where
  "encode_thresholds t = writes [
     put_u32 (elevated_bp t),
     put_u32 (high_bp t),
     put_u32 (critical_bp t)]"

definition decode_thresholds :: "thresholds decoder" where
  "decode_thresholds r = do {
     (e, r) \<leftarrow> get_u32 r;
     (h, r) \<leftarrow> get_u32 r;
     (c, r) \<leftarrow> get_u32 r;
     Some (\<lparr>elevated_bp = e, high_bp = h, critical_bp = c\<rparr>, r) }"

definition encode_overcommit :: "overcommit_policy \<Rightarrow> byte_writer \<Rightarrow> byte_writer" where
  "encode_overcommit p = writes [
     put_u8 (overcommit_mode_raw (oc_mode p)),
     put_u64 (oc_limit_units p)]"

definition decode_overcommit :: "overcommit_policy decoder" where
  "decode_overcommit r = do {
     (mode, r) \<leftarrow> get_u8 r;
     if mode > 1 then None else do {
       (lim, r) \<leftarrow> get_u64 r;
       Some (\<lparr>oc_mode = (if mode = 0 then OcForbid else OcBounded), oc_limit_units = lim\<rparr>, r) } }"

definition encode_borrow :: "borrow_policy \<Rightarrow> byte_writer \<Rightarrow> byte_writer" where
  "encode_borrow p = writes [
     put_u8 (borrow_mode_raw (bw_mode p)),
     put_u64 (bw_limit_units p)]"

definition decode_borrow :: "borrow_policy decoder" where
  "decode_borrow r = do {
     (mode, r) \<leftarrow> get_u8 r;
     if mode > 1 then None else do {
       (lim, r) \<leftarrow> get_u64 r;
       Some (\<lparr>bw_mode = (if mode = 0 then BwForbid else FromAncestorFree),
              bw_limit_units = lim\<rparr>, r) } }"

definition encode_policy :: "pool_policy \<Rightarrow> byte_writer \<Rightarrow> byte_writer" where
  "encode_policy p = writes [
     put_id (pol_id p),
     put_id (pol_generation p),
     encode_string (pol_name p) kWireMaxNameBytes,
     put_id (pol_provenance p),
     encode_overcommit (overcommit p),
     encode_borrow (borrow p),
     put_u64 (max_single_allocation_units p),
     put_u64 (max_single_request_units p),
     put_u32 (soft_limit_bp p),
     put_bool (allow_partial_grant p),
     encode_thresholds (pr_thresholds (pressure p)),
     put_u64 (evidence_ttl_ticks (pressure p)),
     put_bool (refuse_increase_on_unknown (pressure p)),
     put_bool (reduce_on_high (pressure p)),
     put_bool (reduce_on_critical (pressure p)),
     put_bool (refuse_new_grants_above_high (pressure p)),
     put_u8 (pressure_state_raw (refuse_grants_at p)),
     put_u8 (pressure_state_raw (reduce_at p)),
     put_bool (rc_enabled (reclaim p)),
     put_u64 (min_hold_ticks (reclaim p)),
     put_u64 (max_units_per_operation (reclaim p)),
     put_u64 (reserve_units (reclaim p)),
     put_bool (allow_protected_reclaim (reclaim p)),
     put_u64 (usable_floor_units p),
     put_bool (fence_on_generation_change p),
     put_u64 (reservation_ttl_ticks p),
     put_u64 (max_pending_reservations p)]"

definition decode_policy :: "pool_policy decoder" where
  "decode_policy r = do {
     (id, r) \<leftarrow> get_id r;
     (gen, r) \<leftarrow> get_id r;
     (name, r) \<leftarrow> decode_string kWireMaxNameBytes r;
     (prov, r) \<leftarrow> get_id r;
     (oc, r) \<leftarrow> decode_overcommit r;
     (bw, r) \<leftarrow> decode_borrow r;
     (max_alloc, r) \<leftarrow> get_u64 r;
     (max_req, r) \<leftarrow> get_u64 r;
     (soft, r) \<leftarrow> get_u32 r;
     (partial, r) \<leftarrow> get_bool r;
     (th, r) \<leftarrow> decode_thresholds r;
     (ttl, r) \<leftarrow> get_u64 r;
     (refuse_unknown, r) \<leftarrow> get_bool r;
     (red_high, r) \<leftarrow> get_bool r;
     (red_critical, r) \<leftarrow> get_bool r;
     (refuse_high, r) \<leftarrow> get_bool r;
     (refuse_at, r) \<leftarrow> get_u8 r;
     (reduce, r) \<leftarrow> get_u8 r;
     if refuse_at > 5 then None else if reduce > 5 then None else do {
     (en, r) \<leftarrow> get_bool r;
     (hold, r) \<leftarrow> get_u64 r;
     (max_op, r) \<leftarrow> get_u64 r;
     (res, r) \<leftarrow> get_u64 r;
     (prot, r) \<leftarrow> get_bool r;
     (floor, r) \<leftarrow> get_u64 r;
     (fence, r) \<leftarrow> get_bool r;
     (rttl, r) \<leftarrow> get_u64 r;
     (pend, r) \<leftarrow> get_u64 r;
     Some (\<lparr>pol_id = id, pol_generation = gen, pol_name = name, pol_provenance = prov,
       overcommit = oc, borrow = bw, max_single_allocation_units = max_alloc,
       max_single_request_units = max_req, soft_limit_bp = soft, allow_partial_grant = partial,
       pressure = \<lparr>pr_thresholds = th, evidence_ttl_ticks = ttl,
         refuse_increase_on_unknown = refuse_unknown, reduce_on_high = red_high,
         reduce_on_critical = red_critical, refuse_new_grants_above_high = refuse_high\<rparr>,
       refuse_grants_at = pressure_state_of_raw refuse_at,
       reduce_at = pressure_state_of_raw reduce,
       reclaim = \<lparr>rc_enabled = en, min_hold_ticks = hold, max_units_per_operation = max_op,
         reserve_units = res, allow_protected_reclaim = prot\<rparr>,
       usable_floor_units = floor, fence_on_generation_change = fence,
       reservation_ttl_ticks = rttl, max_pending_reservations = pend\<rparr>, r) } }"

definition encode_pool :: "pool_descriptor \<Rightarrow> byte_writer \<Rightarrow> byte_writer" where
  "encode_pool p = writes [
     put_id (pd_id p),
     put_id (pd_generation p),
     encode_string (pd_name p) kWireMaxNameBytes,
     put_id (pd_resource p),
     put_id (pd_backend p),
     put_u64 (raw_units p),
     put_u64 (protected_units p),
     put_id (pd_parent p),
     put_id (pd_policy p),
     put_id (pd_tenant p),
     put_id (pd_provenance p),
     put_u64 (pd_created_at p),
     put_bool (pd_retired p)]"

definition decode_pool :: "pool_descriptor decoder" where
  "decode_pool r = do {
     (x0, r) \<leftarrow> get_id r;
     (x1, r) \<leftarrow> get_id r;
     (x2, r) \<leftarrow> decode_string kWireMaxNameBytes r;
     (x3, r) \<leftarrow> get_id r;
     (x4, r) \<leftarrow> get_id r;
     (x5, r) \<leftarrow> get_u64 r;
     (x6, r) \<leftarrow> get_u64 r;
     (x7, r) \<leftarrow> get_id r;
     (x8, r) \<leftarrow> get_id r;
     (x9, r) \<leftarrow> get_id r;
     (x10, r) \<leftarrow> get_id r;
     (x11, r) \<leftarrow> get_u64 r;
     (x12, r) \<leftarrow> get_bool r;
     Some (\<lparr>pd_id = x0, pd_generation = x1, pd_name = x2, pd_resource = x3, pd_backend = x4, 
       raw_units = x5, protected_units = x6, pd_parent = x7, pd_policy = x8, 
       pd_tenant = x9, pd_provenance = x10, pd_created_at = x11, pd_retired = x12\<rparr>, r) }"

definition encode_queue :: "queue_descriptor \<Rightarrow> byte_writer \<Rightarrow> byte_writer" where
  "encode_queue q = writes [
     put_id (qd_id q),
     put_id (qd_generation q),
     encode_string (qd_name q) kWireMaxNameBytes,
     put_id (qd_pool q),
     put_id (qd_tenant q),
     put_id (qd_traffic_class q),
     put_u64 (qd_demand_units q),
     put_u64 (qd_weight q),
     put_u64 (max_committed_units q),
     put_u64 (registered_at q),
     put_u64 (demand_updated_at q),
     put_bool (qd_retired q)]"

definition decode_queue :: "queue_descriptor decoder" where
  "decode_queue r = do {
     (x0, r) \<leftarrow> get_id r;
     (x1, r) \<leftarrow> get_id r;
     (x2, r) \<leftarrow> decode_string kWireMaxNameBytes r;
     (x3, r) \<leftarrow> get_id r;
     (x4, r) \<leftarrow> get_id r;
     (x5, r) \<leftarrow> get_id r;
     (x6, r) \<leftarrow> get_u64 r;
     (x7, r) \<leftarrow> get_u64 r;
     (x8, r) \<leftarrow> get_u64 r;
     (x9, r) \<leftarrow> get_u64 r;
     (x10, r) \<leftarrow> get_u64 r;
     (x11, r) \<leftarrow> get_bool r;
     Some (\<lparr>qd_id = x0, qd_generation = x1, qd_name = x2, qd_pool = x3, qd_tenant = x4, 
       qd_traffic_class = x5, qd_demand_units = x6, qd_weight = x7, 
       max_committed_units = x8, registered_at = x9, demand_updated_at = x10, 
       qd_retired = x11\<rparr>, r) }"

definition encode_lineage :: "lineage \<Rightarrow> byte_writer \<Rightarrow> byte_writer" where
  "encode_lineage l = writes [
     put_id (ln_origin l),
     put_id (ln_parent l),
     put_u32 (ln_depth l),
     put_digest (ln_chain_digest l)]"

definition decode_lineage :: "lineage decoder" where
  "decode_lineage r = do {
     (x0, r) \<leftarrow> get_id r;
     (x1, r) \<leftarrow> get_id r;
     (x2, r) \<leftarrow> get_u32 r;
     (x3, r) \<leftarrow> get_digest r;
     Some (\<lparr>ln_origin = x0, ln_parent = x1, ln_depth = x2, ln_chain_digest = x3\<rparr>, r) }"

definition encode_bound :: "bound_generations \<Rightarrow> byte_writer \<Rightarrow> byte_writer" where
  "encode_bound b = writes [
     put_id (bg_pool_generation b),
     put_id (bg_queue_generation b),
     put_id (bg_policy_generation b),
     put_id (bg_capacity_generation b),
     put_id (bg_backend_generation b),
     put_id (bg_epoch b),
     put_u64 (bi_hi (bg_boot b)),
     put_u64 (bi_lo (bg_boot b))]"

definition decode_bound :: "bound_generations decoder" where
  "decode_bound r = do {
     (x0, r) \<leftarrow> get_id r;
     (x1, r) \<leftarrow> get_id r;
     (x2, r) \<leftarrow> get_id r;
     (x3, r) \<leftarrow> get_id r;
     (x4, r) \<leftarrow> get_id r;
     (x5, r) \<leftarrow> get_id r;
     (hi, r) \<leftarrow> get_u64 r;
     (lo, r) \<leftarrow> get_u64 r;
     Some (\<lparr>bg_pool_generation = x0, bg_queue_generation = x1, bg_policy_generation = x2,
       bg_capacity_generation = x3, bg_backend_generation = x4, bg_epoch = x5,
       bg_boot = \<lparr>bi_hi = hi, bi_lo = lo\<rparr>\<rparr>, r) }"

definition encode_allocation :: "allocation_record \<Rightarrow> byte_writer \<Rightarrow> byte_writer" where
  "encode_allocation a = writes [
     put_id (al_id a),
     put_id (al_pool a),
     put_id (al_queue a),
     put_id (al_tenant a),
     put_id (al_traffic_class a),
     put_u64 (al_units a),
     put_u8 (allocation_state_raw (al_state a)),
     put_u8 (reclaim_class_raw (al_reclaim_class a)),
     put_u64 (al_reclaim_priority a),
     encode_lineage (al_lineage a),
     encode_bound (al_bound a),
     put_id (al_attempt a),
     put_id (al_provenance a),
     put_u64 (borrow_units a),
     put_id (al_lender a),
     put_u64 (al_created_at a),
     put_u64 (last_touched a),
     put_u64 (expires_at a),
     put_u64 (al_revision a)]"

definition decode_allocation :: "allocation_record decoder" where
  "decode_allocation r = do {
     (id, r) \<leftarrow> get_id r;
     (pool, r) \<leftarrow> get_id r;
     (queue, r) \<leftarrow> get_id r;
     (tenant, r) \<leftarrow> get_id r;
     (tc, r) \<leftarrow> get_id r;
     (units, r) \<leftarrow> get_u64 r;
     (state, r) \<leftarrow> get_u8 r;
     if state > 5 then None else do {
     (klass, r) \<leftarrow> get_u8 r;
     if klass > 1 then None else do {
     (prio, r) \<leftarrow> get_u64 r;
     (lin, r) \<leftarrow> decode_lineage r;
     (bnd, r) \<leftarrow> decode_bound r;
     (att, r) \<leftarrow> get_id r;
     (prov, r) \<leftarrow> get_id r;
     (bu, r) \<leftarrow> get_u64 r;
     (lend, r) \<leftarrow> get_id r;
     (created, r) \<leftarrow> get_u64 r;
     (touched, r) \<leftarrow> get_u64 r;
     (expires, r) \<leftarrow> get_u64 r;
     (rev, r) \<leftarrow> get_u64 r;
     Some (\<lparr>al_id = id, al_pool = pool, al_queue = queue, al_tenant = tenant,
       al_traffic_class = tc, al_units = units, al_state = allocation_state_of_raw state,
       al_reclaim_class = reclaim_class_of_raw klass, al_reclaim_priority = prio,
       al_lineage = lin, al_bound = bnd, al_attempt = att, al_provenance = prov,
       borrow_units = bu, al_lender = lend, al_created_at = created, last_touched = touched,
       expires_at = expires, al_revision = rev\<rparr>, r) } } }"

definition encode_pressure_snapshot :: "pressure_snapshot \<Rightarrow> byte_writer \<Rightarrow> byte_writer" where
  "encode_pressure_snapshot s = writes [
     put_id (ps_id s),
     put_id (ps_pool s),
     put_id (ps_pool_generation s),
     put_id (ps_epoch s),
     put_u64 (bi_hi (ps_boot s)),
     put_u64 (bi_lo (ps_boot s)),
     put_u64 (ps_observed_at s),
     put_u64 (ps_ttl_ticks s),
     put_u64 (ps_demand_units s),
     put_u64 (ps_committed_units s),
     put_u64 (ps_reclaimable_units s),
     put_id (ps_provenance s),
     put_bool (assert_committed s),
     put_digest (evidence_digest s)]"

definition decode_pressure_snapshot :: "pressure_snapshot decoder" where
  "decode_pressure_snapshot r = do {
     (id, r) \<leftarrow> get_id r;
     (pool, r) \<leftarrow> get_id r;
     (gen, r) \<leftarrow> get_id r;
     (ep, r) \<leftarrow> get_id r;
     (hi, r) \<leftarrow> get_u64 r;
     (lo, r) \<leftarrow> get_u64 r;
     (at, r) \<leftarrow> get_u64 r;
     (ttl, r) \<leftarrow> get_u64 r;
     (dem, r) \<leftarrow> get_u64 r;
     (com, r) \<leftarrow> get_u64 r;
     (rec, r) \<leftarrow> get_u64 r;
     (prov, r) \<leftarrow> get_id r;
     (asr, r) \<leftarrow> get_bool r;
     (dg, r) \<leftarrow> get_digest r;
     Some (\<lparr>ps_id = id, ps_pool = pool, ps_pool_generation = gen, ps_epoch = ep,
       ps_boot = \<lparr>bi_hi = hi, bi_lo = lo\<rparr>, ps_observed_at = at, ps_ttl_ticks = ttl,
       ps_demand_units = dem, ps_committed_units = com, ps_reclaimable_units = rec,
       ps_provenance = prov, assert_committed = asr, evidence_digest = dg\<rparr>, r) }"

definition encode_attempt :: "attempt_record \<Rightarrow> byte_writer \<Rightarrow> byte_writer" where
  "encode_attempt a = writes [
     put_id (at_id a),
     put_u8 (attempt_kind_raw (at_kind a)),
     put_digest (at_request_digest a),
     put_u16 (error_code_raw (at_outcome a)),
     put_id (at_allocation a),
     put_u64 (at_granted_units a),
     put_u64 (at_sequence a),
     put_u64 (at_recorded_at a),
     put_bool (at_unfinished a)]"

definition decode_attempt :: "attempt_record decoder" where
  "decode_attempt r = do {
     (id, r) \<leftarrow> get_id r;
     (kind, r) \<leftarrow> get_u8 r;
     if kind > 6 then None else do {
     (dg, r) \<leftarrow> get_digest r;
     (out, r) \<leftarrow> get_u16 r;
     if out > 105 then None else do {
     (al, r) \<leftarrow> get_id r;
     (granted, r) \<leftarrow> get_u64 r;
     (sq, r) \<leftarrow> get_u64 r;
     (at, r) \<leftarrow> get_u64 r;
     (unf, r) \<leftarrow> get_bool r;
     Some (\<lparr>at_id = id, at_kind = attempt_kind_of_raw kind, at_request_digest = dg,
       at_outcome = error_code_of_raw out, at_allocation = al, at_granted_units = granted,
       at_sequence = sq, at_recorded_at = at, at_unfinished = unf\<rparr>, r) } } }"

definition policy_digest :: "pool_policy \<Rightarrow> digest" where
  "policy_digest p = digest_bytes (buffer (encode_policy p writer0))"

definition bound_digest :: "bound_generations \<Rightarrow> digest" where
  "bound_digest b = digest_bytes (buffer (encode_bound b writer0))"

subsection \<open>Enumerations round trip\<close>

lemma enum_round_trip [simp]:
  "pressure_state_of_raw (pressure_state_raw p) = p"
  "allocation_state_of_raw (allocation_state_raw a) = a"
  "reclaim_class_of_raw (reclaim_class_raw c) = c"
  "attempt_kind_of_raw (attempt_kind_raw k) = k"
  subgoal by (cases p) (simp_all add: pressure_state_of_raw_def)
  subgoal by (cases a) (simp_all add: allocation_state_of_raw_def)
  subgoal by (cases c) (simp_all add: reclaim_class_of_raw_def)
  subgoal by (cases k) (simp_all add: attempt_kind_of_raw_def)
  done

lemma enum_in_range [simp]:
  "\<not> pressure_state_raw p > 5" "\<not> allocation_state_raw a > 5"
  "\<not> reclaim_class_raw c > 1" "\<not> attempt_kind_raw k > 6"
  "\<not> overcommit_mode_raw m > 1" "\<not> borrow_mode_raw b > 1"
  subgoal by (cases p) simp_all
  subgoal by (cases a) simp_all
  subgoal by (cases c) simp_all
  subgoal by (cases k) simp_all
  subgoal by (cases m) simp_all
  subgoal by (cases b) simp_all
  done

lemma mode_round_trip [simp]:
  "(if overcommit_mode_raw m = 0 then OcForbid else OcBounded) = m"
  "(if borrow_mode_raw b = 0 then BwForbid else FromAncestorFree) = b"
  subgoal by (cases m) simp_all
  subgoal by (cases b) simp_all
  done

subsection \<open>Every pair is a codec\<close>

definition name_fits :: "string \<Rightarrow> bool" where
  "name_fits s \<longleftrightarrow> length s \<le> 64"

lemma name_fits_str [simp]: "name_fits s \<Longrightarrow> str_fits kWireMaxNameBytes s"
  by (simp add: name_fits_def str_fits_def kWireMaxNameBytes_def kMaxNameBytes_def
      kMaxEncodedStringBytes_def)

interpretation thresholds_codec: wire_codec encode_thresholds decode_thresholds "\<lambda>_. True"
  by unfold_locales (simp_all add: encode_thresholds_def decode_thresholds_def)

interpretation overcommit_codec: wire_codec encode_overcommit decode_overcommit "\<lambda>_. True"
  by unfold_locales (simp_all add: encode_overcommit_def decode_overcommit_def)

interpretation borrow_codec: wire_codec encode_borrow decode_borrow "\<lambda>_. True"
  by unfold_locales (simp_all add: encode_borrow_def decode_borrow_def)

interpretation lineage_codec: wire_codec encode_lineage decode_lineage "\<lambda>_. True"
  by unfold_locales (simp_all add: encode_lineage_def decode_lineage_def)

interpretation bound_codec: wire_codec encode_bound decode_bound "\<lambda>_. True"
  by unfold_locales (simp_all add: encode_bound_def decode_bound_def)

interpretation policy_codec: wire_codec encode_policy decode_policy "\<lambda>p. name_fits (pol_name p)"
  by unfold_locales
    (simp_all add: encode_policy_def decode_policy_def encode_string_def decode_string_def
      overcommit_codec.put_appends borrow_codec.put_appends thresholds_codec.put_appends
      overcommit_codec.get_put borrow_codec.get_put thresholds_codec.get_put)

interpretation pool_codec: wire_codec encode_pool decode_pool "\<lambda>p. name_fits (pd_name p)"
  by unfold_locales
    (simp_all add: encode_pool_def decode_pool_def encode_string_def decode_string_def)

interpretation queue_codec: wire_codec encode_queue decode_queue "\<lambda>q. name_fits (qd_name q)"
  by unfold_locales
    (simp_all add: encode_queue_def decode_queue_def encode_string_def decode_string_def)

interpretation allocation_codec: wire_codec encode_allocation decode_allocation "\<lambda>_. True"
  by unfold_locales
    (simp_all add: encode_allocation_def decode_allocation_def lineage_codec.put_appends
      bound_codec.put_appends lineage_codec.get_put bound_codec.get_put)

interpretation pressure_codec: wire_codec encode_pressure_snapshot decode_pressure_snapshot "\<lambda>_. True"
  by unfold_locales (simp_all add: encode_pressure_snapshot_def decode_pressure_snapshot_def)

interpretation attempt_codec: wire_codec encode_attempt decode_attempt "\<lambda>a. named (at_outcome a)"
  by unfold_locales
    (simp_all add: encode_attempt_def decode_attempt_def named_raw_le not_less)

lemma valid_name_fits: "is_valid_name s \<Longrightarrow> name_fits s"
  by (auto simp: is_valid_name_def name_fits_def kMaxNameBytes_def split: if_splits)

text \<open>C32: the durable objects round trip.  Every policy, pool, queue, allocation record,
  pressure snapshot and attempt record that the runtime can hold (names within their bound,
  outcomes that are error codes) is decoded from its encoding, whatever bytes follow it.\<close>

theorem durable_objects_round_trip:
  "(name_fits (pol_name p) \<longrightarrow> decode_policy (buffer (encode_policy p writer0) @ r) = Some (p, r)) \<and>
   (name_fits (pd_name d) \<longrightarrow> decode_pool (buffer (encode_pool d writer0) @ r) = Some (d, r)) \<and>
   (name_fits (qd_name q) \<longrightarrow> decode_queue (buffer (encode_queue q writer0) @ r) = Some (q, r)) \<and>
   decode_allocation (buffer (encode_allocation a writer0) @ r) = Some (a, r) \<and>
   decode_pressure_snapshot (buffer (encode_pressure_snapshot s writer0) @ r) = Some (s, r) \<and>
   (named (at_outcome t) \<longrightarrow> decode_attempt (buffer (encode_attempt t writer0) @ r) = Some (t, r))"
  using policy_codec.get_put[of p r] pool_codec.get_put[of d r] queue_codec.get_put[of q r]
    allocation_codec.get_put[of a r] pressure_codec.get_put[of s r] attempt_codec.get_put[of t r]
  by (simp add: enc_def)

theorem durable_objects_round_trip_witness:
  "decode_policy (buffer (encode_policy (pool_policy0\<lparr>pol_name := ''gold''\<rparr>) writer0) @ [1]) =
     Some (pool_policy0\<lparr>pol_name := ''gold''\<rparr>, [1])"
  using durable_objects_round_trip[of "pool_policy0\<lparr>pol_name := ''gold''\<rparr>" "[1]"]
  by (simp add: name_fits_def)

text \<open>The digest of a policy is taken over a canonical encoding.  Two policies whose
  canonical bytes agree are equal, so policies are confused only if FNV-1a/128 itself collides.\<close>

theorem policy_encoding_canonical:
  assumes "name_fits (pol_name p)" "name_fits (pol_name q)"
    and "buffer (encode_policy p writer0) @ r = buffer (encode_policy q writer0) @ s"
  shows "p = q \<and> r = s"
  using policy_codec.prefix_free[of p q r s] assms by (simp add: enc_def)

theorem policy_encoding_canonical_witness:
  "buffer (encode_policy pool_policy0 writer0) \<noteq>
     buffer (encode_policy (pool_policy0\<lparr>pol_id := 1\<rparr>) writer0)"
  using policy_encoding_canonical[of pool_policy0 "pool_policy0\<lparr>pol_id := 1\<rparr>" "[]" "[]"]
  by (auto simp: name_fits_def pool_policy0_def)

end
