(* ===== verification/Accounting.thy ===== *)
theory Accounting
  imports Wire
begin

text \<open>
  The accounting identity and its checker: include/buffer_fabric/accounting.hpp and
  src/accounting.cpp.  A violation is its fault and pool (the detail text is not
  modelled).  The lemmas show that the checker, which works on saturating 64-bit
  arithmetic, accepts exactly the ledgers that satisfy the identity over the naturals,
  per pool and globally.
\<close>

subsection \<open>Data\<close>

record pool_accounting =
  ac_pool :: pool_id
  ac_pool_generation :: generation
  ac_raw :: u64
  ac_protected_units :: u64
  ac_usable :: u64
  ac_allocated :: u64
  ac_reserved :: u64
  ac_committed :: u64
  ac_pinned :: u64
  ac_reclaimable :: u64
  ac_borrowed_in :: u64
  ac_lent_out :: u64
  ac_overcommit_used :: u64
  ac_overcommit_limit :: u64
  ac_free :: u64

definition pool_accounting0 :: pool_accounting where
  "pool_accounting0 = \<lparr>ac_pool = 0, ac_pool_generation = 0, ac_raw = 0, ac_protected_units = 0,
     ac_usable = 0, ac_allocated = 0, ac_reserved = 0, ac_committed = 0, ac_pinned = 0,
     ac_reclaimable = 0, ac_borrowed_in = 0, ac_lent_out = 0, ac_overcommit_used = 0,
     ac_overcommit_limit = 0, ac_free = 0\<rparr>"

datatype accounting_fault =
  FaultNone | PoolClosureMismatch | FreeWithOvercommit | AllocationSplitMismatch
| PinnedReclaimableMismatch | OvercommitWithoutPolicy | OvercommitBeyondLimit
| ProtectedExceedsRaw | UsableMismatch | GlobalBorrowMismatch | GlobalClosureMismatch
| FreeAboveUsable | OwnUsageAboveAllowance | SaturatedField

primrec to_string_fault :: "accounting_fault \<Rightarrow> string" where
  "to_string_fault FaultNone = ''NONE''"
| "to_string_fault PoolClosureMismatch = ''POOL_CLOSURE_MISMATCH''"
| "to_string_fault FreeWithOvercommit = ''FREE_WITH_OVERCOMMIT''"
| "to_string_fault AllocationSplitMismatch = ''ALLOCATION_SPLIT_MISMATCH''"
| "to_string_fault PinnedReclaimableMismatch = ''PINNED_RECLAIMABLE_MISMATCH''"
| "to_string_fault OvercommitWithoutPolicy = ''OVERCOMMIT_WITHOUT_POLICY''"
| "to_string_fault OvercommitBeyondLimit = ''OVERCOMMIT_BEYOND_LIMIT''"
| "to_string_fault ProtectedExceedsRaw = ''PROTECTED_EXCEEDS_RAW''"
| "to_string_fault UsableMismatch = ''USABLE_MISMATCH''"
| "to_string_fault GlobalBorrowMismatch = ''GLOBAL_BORROW_MISMATCH''"
| "to_string_fault GlobalClosureMismatch = ''GLOBAL_CLOSURE_MISMATCH''"
| "to_string_fault FreeAboveUsable = ''FREE_ABOVE_USABLE''"
| "to_string_fault OwnUsageAboveAllowance = ''OWN_USAGE_ABOVE_ALLOWANCE''"
| "to_string_fault SaturatedField = ''SATURATED_FIELD''"

record accounting_report =
  rp_closed :: bool
  rp_pools_checked :: u64
  rp_raw_total :: u64
  rp_protected_total :: u64
  rp_allocated_total :: u64
  rp_free_total :: u64
  rp_borrowed_total :: u64
  rp_lent_total :: u64
  rp_overcommit_total :: u64
  rp_violations :: "(accounting_fault \<times> pool_id) list"

definition accounting_report0 :: accounting_report where
  "accounting_report0 = \<lparr>rp_closed = True, rp_pools_checked = 0, rp_raw_total = 0,
     rp_protected_total = 0, rp_allocated_total = 0, rp_free_total = 0, rp_borrowed_total = 0,
     rp_lent_total = 0, rp_overcommit_total = 0, rp_violations = []\<rparr>"

subsection \<open>Operations\<close>

definition u64_max :: u64 where
  "u64_max = 0xFFFFFFFFFFFFFFFF"

definition saturating_add :: "u64 \<Rightarrow> u64 \<Rightarrow> u64" where
  "saturating_add a b = (let (ov, out) = add_overflow a b in if ov then u64_max else out)"

definition ac_own_usage :: "pool_accounting \<Rightarrow> u64" where
  "ac_own_usage a =
     (let base = (if ac_allocated a \<ge> ac_borrowed_in a then ac_allocated a - ac_borrowed_in a else 0);
          (ov, sum) = add_overflow base (ac_lent_out a)
      in if ov then u64_max else sum)"

definition closure_lhs :: "pool_accounting \<Rightarrow> u64" where
  "closure_lhs a =
     (let (ov1, s1) = add_overflow (ac_raw a) (ac_borrowed_in a) in
      if ov1 then u64_max
      else let (ov2, s2) = add_overflow s1 (ac_overcommit_used a) in
           if ov2 then u64_max else s2)"

definition closure_rhs :: "pool_accounting \<Rightarrow> u64" where
  "closure_rhs a =
     (let (ov1, s1) = add_overflow (ac_protected_units a) (ac_allocated a) in
      if ov1 then u64_max
      else let (ov2, s2) = add_overflow s1 (ac_free a) in
           if ov2 then u64_max
           else let (ov3, s3) = add_overflow s2 (ac_lent_out a) in
                if ov3 then u64_max else s3)"

definition add_violation ::
  "accounting_fault \<Rightarrow> pool_id \<Rightarrow> accounting_report \<Rightarrow> accounting_report" where
  "add_violation fault pool r =
     r\<lparr>rp_closed := False,
       rp_violations := (if length (rp_violations r) < 64 then rp_violations r @ [(fault, pool)]
                         else rp_violations r)\<rparr>"

definition flag ::
  "bool \<Rightarrow> accounting_fault \<Rightarrow> pool_id \<Rightarrow> accounting_report \<Rightarrow> accounting_report" where
  "flag c fault pool r = (if c then add_violation fault pool r else r)"

definition report_status :: "accounting_report \<Rightarrow> void_result" where
  "report_status r = (if rp_closed r then Inr () else Inl AccountingViolation)"

definition check_pool_accounting ::
  "pool_accounting \<Rightarrow> overcommit_mode \<Rightarrow> u64 \<Rightarrow> accounting_report" where
  "check_pool_accounting a mode overcommit_limit =
     (let p = ac_pool a;
          r = accounting_report0\<lparr>rp_pools_checked := 1, rp_raw_total := ac_raw a,
                rp_protected_total := ac_protected_units a, rp_allocated_total := ac_allocated a,
                rp_free_total := ac_free a, rp_borrowed_total := ac_borrowed_in a,
                rp_lent_total := ac_lent_out a, rp_overcommit_total := ac_overcommit_used a\<rparr>;
          r = flag (ac_protected_units a > ac_raw a) ProtectedExceedsRaw p r;
          expected_usable = (if ac_raw a \<ge> ac_protected_units a
                             then ac_raw a - ac_protected_units a else 0);
          r = flag (ac_usable a \<noteq> expected_usable) UsableMismatch p r;
          (ovs, split) = add_overflow (ac_reserved a) (ac_committed a);
          r = (if ovs then add_violation SaturatedField p r
               else flag (split \<noteq> ac_allocated a) AllocationSplitMismatch p r);
          (ovc, classes) = add_overflow (ac_pinned a) (ac_reclaimable a);
          r = (if ovc then add_violation SaturatedField p r
               else flag (classes \<noteq> ac_allocated a) PinnedReclaimableMismatch p r);
          (ov1, lhs1) = add_overflow (ac_raw a) (ac_borrowed_in a);
          (ov2, lhs) = add_overflow lhs1 (ac_overcommit_used a);
          (ov3, rhs1) = add_overflow (ac_protected_units a) (ac_allocated a);
          (ov4, rhs2) = add_overflow rhs1 (ac_free a);
          (ov5, rhs) = add_overflow rhs2 (ac_lent_out a);
          saturated = (ov1 \<or> ov2 \<or> ov3 \<or> ov4 \<or> ov5);
          r = (if saturated then add_violation SaturatedField p r
               else flag (lhs \<noteq> rhs) PoolClosureMismatch p r);
          r = flag (ac_free a \<noteq> 0 \<and> ac_overcommit_used a \<noteq> 0) FreeWithOvercommit p r;
          r = flag (ac_overcommit_used a \<noteq> 0 \<and> mode \<noteq> OcBounded) OvercommitWithoutPolicy p r;
          r = flag (ac_overcommit_used a > overcommit_limit) OvercommitBeyondLimit p r;
          allowance = saturating_add (ac_usable a) (ac_overcommit_used a);
          r = flag (ac_free a > allowance) FreeAboveUsable p r;
          max_own = saturating_add (ac_usable a) overcommit_limit
      in flag (ac_own_usage a > max_own) OwnUsageAboveAllowance p r)"

text \<open>One accumulated total of the global check: once an earlier addition overflowed, the
  short-circuit of the code skips the later ones and stores the last sum computed.\<close>

definition total_step :: "bool \<times> u64 \<Rightarrow> u64 \<Rightarrow> u64 \<Rightarrow> bool \<times> u64" where
  "total_step acc tot x =
     (if fst acc then let (ov, s) = add_overflow tot x in (\<not> ov, s) else acc)"

definition global_step :: "pool_accounting \<Rightarrow> accounting_report \<Rightarrow> accounting_report" where
  "global_step pool report =
     (let single = check_pool_accounting pool OcBounded (ac_overcommit_limit pool);
          report = report\<lparr>rp_closed := rp_closed report \<and> rp_closed single,
                     rp_violations := rp_violations report @
                       take (64 - length (rp_violations report)) (rp_violations single),
                     rp_pools_checked := rp_pools_checked report + 1\<rparr>;
          t1 = total_step (True, 0) (rp_raw_total report) (ac_raw pool);
          report = report\<lparr>rp_raw_total := snd t1\<rparr>;
          t2 = total_step t1 (rp_protected_total report) (ac_protected_units pool);
          report = report\<lparr>rp_protected_total := snd t2\<rparr>;
          t3 = total_step t2 (rp_allocated_total report) (ac_allocated pool);
          report = report\<lparr>rp_allocated_total := snd t3\<rparr>;
          t4 = total_step t3 (rp_free_total report) (ac_free pool);
          report = report\<lparr>rp_free_total := snd t4\<rparr>;
          t5 = total_step t4 (rp_borrowed_total report) (ac_borrowed_in pool);
          report = report\<lparr>rp_borrowed_total := snd t5\<rparr>;
          t6 = total_step t5 (rp_lent_total report) (ac_lent_out pool);
          report = report\<lparr>rp_lent_total := snd t6\<rparr>;
          t7 = total_step t6 (rp_overcommit_total report) (ac_overcommit_used pool);
          report = report\<lparr>rp_overcommit_total := snd t7\<rparr>
      in flag (\<not> fst t7) SaturatedField (ac_pool pool) report)"

definition check_global_accounting :: "pool_accounting list \<Rightarrow> accounting_report" where
  "check_global_accounting pools =
     (let report = fold global_step pools accounting_report0;
          report = flag (rp_borrowed_total report \<noteq> rp_lent_total report)
                     GlobalBorrowMismatch 0 report;
          (ovl, lhs) = add_overflow (rp_raw_total report) (rp_overcommit_total report);
          (ov1, rhs1) = add_overflow (rp_protected_total report) (rp_allocated_total report);
          (ov2, rhs) = add_overflow rhs1 (rp_free_total report)
      in if ovl \<or> ov1 \<or> ov2 then add_violation SaturatedField 0 report
         else flag (lhs \<noteq> rhs) GlobalClosureMismatch 0 report)"

subsection \<open>What the checker accepts\<close>

text \<open>The identity over the naturals.\<close>

definition pool_identity :: "pool_accounting \<Rightarrow> bool" where
  "pool_identity a \<longleftrightarrow>
     unat (ac_raw a) + unat (ac_borrowed_in a) + unat (ac_overcommit_used a)
     = unat (ac_protected_units a) + unat (ac_allocated a) + unat (ac_free a) + unat (ac_lent_out a)"

definition ledger_closes :: "pool_accounting \<Rightarrow> overcommit_mode \<Rightarrow> u64 \<Rightarrow> bool" where
  "ledger_closes a mode limit \<longleftrightarrow>
     unat (ac_protected_units a) \<le> unat (ac_raw a) \<and>
     unat (ac_usable a) = unat (ac_raw a) - unat (ac_protected_units a) \<and>
     unat (ac_reserved a) + unat (ac_committed a) = unat (ac_allocated a) \<and>
     unat (ac_pinned a) + unat (ac_reclaimable a) = unat (ac_allocated a) \<and>
     pool_identity a \<and>
     unat (ac_raw a) + unat (ac_borrowed_in a) + unat (ac_overcommit_used a) < 2 ^ 64 \<and>
     (ac_free a = 0 \<or> ac_overcommit_used a = 0) \<and>
     (ac_overcommit_used a \<noteq> 0 \<longrightarrow> mode = OcBounded) \<and>
     unat (ac_overcommit_used a) \<le> unat limit \<and>
     unat (ac_free a) \<le> unat (ac_usable a) + unat (ac_overcommit_used a) \<and>
     unat (ac_allocated a) - unat (ac_borrowed_in a) + unat (ac_lent_out a)
       \<le> unat (ac_usable a) + unat limit"

lemma closed_add_violation [simp]: "rp_closed (add_violation f p r) = False"
  by (simp add: add_violation_def)

lemma closed_flag [simp]: "rp_closed (flag c f p r) \<longleftrightarrow> \<not> c \<and> rp_closed r"
  by (simp add: flag_def)

lemma closed_if [simp]:
  "rp_closed (if c then add_violation f p r else r') \<longleftrightarrow> \<not> c \<and> rp_closed r'"
  by simp

lemma unat_saturating_add: "unat (saturating_add a b) = min (2 ^ 64 - 1) (unat a + unat b)"
  by (auto simp: saturating_add_def add_overflow_nat u64_max_def unat_plus_small)

lemma unat_ac_own_usage:
  "unat (ac_own_usage a) =
     min (2 ^ 64 - 1) (unat (ac_allocated a) - unat (ac_borrowed_in a) + unat (ac_lent_out a))"
proof -
  have "ac_own_usage a = saturating_add
      (if ac_allocated a \<ge> ac_borrowed_in a then ac_allocated a - ac_borrowed_in a else 0)
      (ac_lent_out a)"
    by (simp add: ac_own_usage_def saturating_add_def Let_def)
  then show ?thesis
    by (simp add: unat_saturating_add word_le_nat_alt unat_sub)
qed

lemma checks_as_naturals:
  assumes "usable = unat (ac_usable a)" "limit = unat lim"
  shows "\<not> ac_free a > saturating_add (ac_usable a) (ac_overcommit_used a) \<longleftrightarrow>
      unat (ac_free a) \<le> usable + unat (ac_overcommit_used a)"
    "\<not> ac_own_usage a > saturating_add (ac_usable a) lim \<longleftrightarrow>
      min (2 ^ 64 - 1) (unat (ac_allocated a) - unat (ac_borrowed_in a) + unat (ac_lent_out a))
        \<le> usable + limit"
  using unat64_less[of "ac_free a"] assms
  by (simp_all add: word_less_nat_alt unat_saturating_add unat_ac_own_usage not_less
      min_le_iff_disj) linarith?

lemma len64: "LENGTH(64) = 64"
  by simp

lemma sum_eq_iff:
  "\<not> 2 ^ 64 \<le> unat a + unat b \<and> a + b = c \<longleftrightarrow> unat a + unat b = unat (c :: u64)"
proof
  assume "unat a + unat b = unat c"
  moreover from this have "unat a + unat b < 2 ^ 64" using unat64_less[of c] by simp
  ultimately show "\<not> 2 ^ 64 \<le> unat a + unat b \<and> a + b = c"
    by (simp add: unat_plus_small flip: unat_eq_iff)
qed (auto simp: unat_plus_small)

lemma closure_sides:
  fixes a b c d e f g :: u64
  shows "\<not> (2 ^ 64 \<le> unat a + unat b \<or> 2 ^ 64 \<le> unat (a + b) + unat c \<or>
        2 ^ 64 \<le> unat d + unat e \<or> 2 ^ 64 \<le> unat (d + e) + unat f \<or>
        2 ^ 64 \<le> unat (d + e + f) + unat g) \<and> a + b + c = d + e + f + g \<longleftrightarrow>
      unat a + unat b + unat c = unat d + unat e + unat f + unat g \<and>
      unat a + unat b + unat c < 2 ^ 64" (is "?L \<longleftrightarrow> ?R")
proof
  assume L: ?L
  have "unat (a + b) = unat a + unat b" "unat (d + e) = unat d + unat e"
    using L by (simp_all add: unat_plus_small not_le)
  moreover have "unat (a + b + c) = unat (a + b) + unat c"
    "unat (d + e + f) = unat (d + e) + unat f"
    "unat (d + e + f + g) = unat (d + e + f) + unat g"
    using L unat_plus_small[of "a + b" c] unat_plus_small[of "d + e" f]
      unat_plus_small[of "d + e + f" g] by (simp_all only: not_le len64 de_Morgan_disj)
  ultimately show ?R using L by (metis not_le)
next
  assume R: ?R
  have u: "unat (a + b) = unat a + unat b" "unat (a + b + c) = unat a + unat b + unat c"
    "unat (d + e) = unat d + unat e" "unat (d + e + f) = unat d + unat e + unat f"
    "unat (d + e + f + g) = unat d + unat e + unat f + unat g"
    using R by (simp_all add: unat_plus_small)
  have "a + b + c = d + e + f + g" using R u by (simp flip: unat_eq_iff)
  then show ?L using R unfolding u by simp
qed

lemma check_pool_closed:
  "rp_closed (check_pool_accounting a mode lim) \<longleftrightarrow> ledger_closes a mode lim"
proof -
  let ?own = "unat (ac_allocated a) - unat (ac_borrowed_in a) + unat (ac_lent_out a)"
  have usable: "\<not> ac_protected_units a > ac_raw a \<and>
      ac_usable a = (if ac_raw a \<ge> ac_protected_units a then ac_raw a - ac_protected_units a else 0)
    \<longleftrightarrow> unat (ac_protected_units a) \<le> unat (ac_raw a) \<and>
      unat (ac_usable a) = unat (ac_raw a) - unat (ac_protected_units a)"
    by (auto simp: not_less word_le_nat_alt unat_sub simp flip: unat_eq_iff)
  have own: "min (2 ^ 64 - 1) ?own = ?own"
    if "pool_identity a"
      "unat (ac_raw a) + unat (ac_borrowed_in a) + unat (ac_overcommit_used a) < 2 ^ 64"
    using that unfolding pool_identity_def by linarith
  show ?thesis
    using usable own
    unfolding check_pool_accounting_def Let_def case_prod_beta closed_flag closed_if
      add_overflow_nat fst_conv snd_conv
      checks_as_naturals[OF refl refl] ledger_closes_def pool_identity_def
    using sum_eq_iff[of "ac_reserved a" "ac_committed a" "ac_allocated a"]
      sum_eq_iff[of "ac_pinned a" "ac_reclaimable a" "ac_allocated a"]
      closure_sides[of "ac_raw a" "ac_borrowed_in a" "ac_overcommit_used a"
        "ac_protected_units a" "ac_allocated a" "ac_free a" "ac_lent_out a"]
    by (auto simp: not_less word_le_nat_alt accounting_report0_def)
qed

subsection \<open>The global check\<close>

text \<open>The seven totals, each with the field it accumulates.\<close>

definition totals :: "((accounting_report \<Rightarrow> u64) \<times> (pool_accounting \<Rightarrow> u64)) list" where
  "totals = [(rp_raw_total, ac_raw), (rp_protected_total, ac_protected_units),
     (rp_allocated_total, ac_allocated), (rp_free_total, ac_free),
     (rp_borrowed_total, ac_borrowed_in), (rp_lent_total, ac_lent_out),
     (rp_overcommit_total, ac_overcommit_used)]"

definition fits :: "accounting_report \<Rightarrow> pool_accounting \<Rightarrow> bool" where
  "fits r p \<longleftrightarrow> (\<forall>(t, v) \<in> set totals. unat (t r) + unat (v p) < 2 ^ 64)"

lemma total_step_fst: "fst (total_step acc t x) \<longleftrightarrow> fst acc \<and> unat t + unat x < 2 ^ 64"
  by (simp add: total_step_def add_overflow_nat not_le)

lemma total_step_snd: "fst acc \<Longrightarrow> snd (total_step acc t x) = t + x"
  by (simp add: total_step_def add_overflow_nat)

lemma report_add_violation [simp]:
  "rp_raw_total (add_violation f p r) = rp_raw_total r"
  "rp_protected_total (add_violation f p r) = rp_protected_total r"
  "rp_allocated_total (add_violation f p r) = rp_allocated_total r"
  "rp_free_total (add_violation f p r) = rp_free_total r"
  "rp_borrowed_total (add_violation f p r) = rp_borrowed_total r"
  "rp_lent_total (add_violation f p r) = rp_lent_total r"
  "rp_overcommit_total (add_violation f p r) = rp_overcommit_total r"
  by (simp_all add: add_violation_def)

lemma report_flag [simp]:
  "rp_raw_total (flag c f p r) = rp_raw_total r"
  "rp_protected_total (flag c f p r) = rp_protected_total r"
  "rp_allocated_total (flag c f p r) = rp_allocated_total r"
  "rp_free_total (flag c f p r) = rp_free_total r"
  "rp_borrowed_total (flag c f p r) = rp_borrowed_total r"
  "rp_lent_total (flag c f p r) = rp_lent_total r"
  "rp_overcommit_total (flag c f p r) = rp_overcommit_total r"
  by (simp_all add: flag_def)

lemma global_step_closed:
  "rp_closed (global_step p r) \<longleftrightarrow>
     rp_closed r \<and> ledger_closes p OcBounded (ac_overcommit_limit p) \<and> fits r p"
  by (auto simp: global_step_def Let_def check_pool_closed total_step_fst fits_def totals_def)

lemma global_step_totals:
  "fits r p \<Longrightarrow> (t, v) \<in> set totals \<Longrightarrow> unat (t (global_step p r)) = unat (t r) + unat (v p)"
  by (auto simp: global_step_def Let_def total_step_fst total_step_snd fits_def totals_def
      unat_plus_small)

definition total_of :: "(pool_accounting \<Rightarrow> u64) \<Rightarrow> pool_accounting list \<Rightarrow> nat" where
  "total_of v ps = (\<Sum>p\<leftarrow>ps. unat (v p))"

definition room :: "accounting_report \<Rightarrow> pool_accounting list \<Rightarrow> bool" where
  "room r ps \<longleftrightarrow> (\<forall>(t, v) \<in> set totals. unat (t r) + total_of v ps < 2 ^ 64)"

lemma total_of_Cons: "total_of v (p # ps) = unat (v p) + total_of v ps"
  by (simp add: total_of_def)

lemma room_Cons: "room r (p # ps) \<longleftrightarrow> fits r p \<and> room (global_step p r) ps"
proof
  assume R: "room r (p # ps)"
  then have f: "fits r p" by (fastforce simp: fits_def room_def total_of_Cons)
  with R show "fits r p \<and> room (global_step p r) ps"
    using global_step_totals[OF f] by (auto simp: room_def total_of_Cons add.assoc)
next
  assume "fits r p \<and> room (global_step p r) ps"
  then show "room r (p # ps)"
    using global_step_totals[of r p] by (auto simp: room_def total_of_Cons add.assoc)
qed

lemma fold_global_step:
  "rp_closed (fold global_step ps r) \<longleftrightarrow>
     rp_closed r \<and> (\<forall>p\<in>set ps. ledger_closes p OcBounded (ac_overcommit_limit p)) \<and> room r ps"
proof (induction ps arbitrary: r)
  case Nil
  show ?case using unat64_less by (fastforce simp: total_of_def room_def)
next
  case (Cons p ps)
  then show ?case by (auto simp: global_step_closed room_Cons)
qed

lemma fold_global_totals:
  "room r ps \<Longrightarrow> (t, v) \<in> set totals \<Longrightarrow>
     unat (t (fold global_step ps r)) = unat (t r) + total_of v ps"
proof (induction ps arbitrary: r)
  case Nil
  then show ?case by (simp add: total_of_def)
next
  case (Cons p ps)
  then show ?case by (simp add: room_Cons total_of_Cons global_step_totals)
qed

definition global_ledger_closes :: "pool_accounting list \<Rightarrow> bool" where
  "global_ledger_closes ps \<longleftrightarrow>
     (\<forall>p\<in>set ps. ledger_closes p OcBounded (ac_overcommit_limit p)) \<and>
     (\<forall>(t, v) \<in> set totals. total_of v ps < 2 ^ 64) \<and>
     total_of ac_borrowed_in ps = total_of ac_lent_out ps \<and>
     total_of ac_raw ps + total_of ac_overcommit_used ps
       = total_of ac_protected_units ps + total_of ac_allocated ps + total_of ac_free ps \<and>
     total_of ac_raw ps + total_of ac_overcommit_used ps < 2 ^ 64"

lemma global_sides:
  fixes a b d e f :: u64
  shows "\<not> (2 ^ 64 \<le> unat a + unat b \<or> 2 ^ 64 \<le> unat d + unat e \<or>
        2 ^ 64 \<le> unat (d + e) + unat f) \<and> a + b = d + e + f \<longleftrightarrow>
      unat a + unat b = unat d + unat e + unat f \<and> unat a + unat b < 2 ^ 64"
  using closure_sides[of a b 0 d e f 0] unat64_less[of "a + b"] unat64_less[of "d + e + f"]
  by auto

lemma check_global_closed:
  "rp_closed (check_global_accounting ps) \<longleftrightarrow> global_ledger_closes ps"
proof -
  let ?r = "fold global_step ps accounting_report0"
  have z: "unat (t accounting_report0) = 0" if "(t, v) \<in> set totals" for t v
    using that by (auto simp: totals_def accounting_report0_def)
  have closed: "rp_closed ?r \<longleftrightarrow> (\<forall>p\<in>set ps. ledger_closes p OcBounded (ac_overcommit_limit p)) \<and>
      (\<forall>(t, v) \<in> set totals. total_of v ps < 2 ^ 64)"
    using fold_global_step[of ps accounting_report0] z
    by (force simp: accounting_report0_def room_def)
  show ?thesis
  proof (cases "rp_closed ?r")
    case True
    with fold_global_step have "room accounting_report0 ps" by blast
    from fold_global_totals[OF this] z have tot: "(t, v) \<in> set totals \<Longrightarrow> unat (t ?r) = total_of v ps" for t v
      by force
    have t: "unat (rp_raw_total ?r) = total_of ac_raw ps"
      "unat (rp_protected_total ?r) = total_of ac_protected_units ps"
      "unat (rp_allocated_total ?r) = total_of ac_allocated ps"
      "unat (rp_free_total ?r) = total_of ac_free ps"
      "unat (rp_borrowed_total ?r) = total_of ac_borrowed_in ps"
      "unat (rp_lent_total ?r) = total_of ac_lent_out ps"
      "unat (rp_overcommit_total ?r) = total_of ac_overcommit_used ps"
      by (rule tot; simp add: totals_def)+
    show ?thesis
      unfolding check_global_accounting_def Let_def case_prod_beta closed_if closed_flag
        report_flag add_overflow_nat fst_conv snd_conv global_ledger_closes_def
      using True closed t
        global_sides[of "rp_raw_total ?r" "rp_overcommit_total ?r" "rp_protected_total ?r"
          "rp_allocated_total ?r" "rp_free_total ?r"]
      by (auto simp flip: unat_eq_iff)
  next
    case False
    with closed show ?thesis
      by (auto simp: check_global_accounting_def Let_def global_ledger_closes_def split: prod.splits)
  qed
qed

text \<open>C33: the pool checker decides the accounting identity.  It reports a closed ledger exactly
  when, over the naturals, usable is raw less protected, both splits of the allocated units
  add up, raw + borrowed + overcommit = protected + allocated + free + lent without overflow,
  free units and overcommit exclude each other, overcommit respects mode and limit, and the
  pool's own usage stays within its allowance.\<close>

theorem check_pool_accounting_exact:
  "rp_closed (check_pool_accounting a mode limit) \<longleftrightarrow> ledger_closes a mode limit"
  by (rule check_pool_closed)

text \<open>C34: the global checker decides global closure.  It reports closed exactly when every
  pool closes, no total overflows, the units borrowed equal the units lent, and raw + overcommit
  = protected + allocated + free over all pools.\<close>

theorem check_global_accounting_exact:
  "rp_closed (check_global_accounting ps) \<longleftrightarrow> global_ledger_closes ps"
  by (rule check_global_closed)

end
