(* ===== verification/Decision.thy ===== *)
theory Decision
  imports Accounting
begin

text \<open>
  Decisions, the authority vector they are bound to, and the requests: authority.hpp/.cpp,
  decision.hpp/.cpp and the data of reclaim.hpp.  Explanatory text (reasons) is not modelled.
  The lemmas show that the authority vector is bounded and append-only, and that request
  digests are taken over canonical encodings.
\<close>

subsection \<open>Authority\<close>

datatype authority_kind =
  AkCapacity | AkPool | AkQueue | AkPolicy | AkPressure | AkEpoch | AkBackend | AkProvenance
| AkAttempt | AkBootIncarnation | AkReservation

primrec authority_kind_raw :: "authority_kind \<Rightarrow> u8" where
  "authority_kind_raw AkCapacity = 0"
| "authority_kind_raw AkPool = 1"
| "authority_kind_raw AkQueue = 2"
| "authority_kind_raw AkPolicy = 3"
| "authority_kind_raw AkPressure = 4"
| "authority_kind_raw AkEpoch = 5"
| "authority_kind_raw AkBackend = 6"
| "authority_kind_raw AkProvenance = 7"
| "authority_kind_raw AkAttempt = 8"
| "authority_kind_raw AkBootIncarnation = 9"
| "authority_kind_raw AkReservation = 10"

primrec to_string_authority :: "authority_kind \<Rightarrow> string" where
  "to_string_authority AkCapacity = ''capacity''"
| "to_string_authority AkPool = ''pool''"
| "to_string_authority AkQueue = ''queue''"
| "to_string_authority AkPolicy = ''policy''"
| "to_string_authority AkPressure = ''pressure''"
| "to_string_authority AkEpoch = ''epoch''"
| "to_string_authority AkBackend = ''backend''"
| "to_string_authority AkProvenance = ''provenance''"
| "to_string_authority AkAttempt = ''attempt''"
| "to_string_authority AkBootIncarnation = ''boot''"
| "to_string_authority AkReservation = ''reservation''"

datatype binding_constraint =
  BcNone | BcCapacity | BcProtectedHeadroom | BcOvercommitLimit | BcBorrowLimit | BcPolicyMaxSingleAllocation
| BcPolicyMaxSingleRequest | BcPolicySoftLimit | BcQueueMaxCommitted | BcQueueShare | BcPressureRefuse | BcPressureReduce
| BcEvidenceUnknown | BcEvidenceStale | BcGenerationMismatch | BcPoolRetired | BcQueueRetired | BcReservationLimit
| BcReclaimReserve | BcRequestZero | BcBackendCapacity | BcShutdown

primrec to_string_binding :: "binding_constraint \<Rightarrow> string" where
  "to_string_binding BcNone = ''none''"
| "to_string_binding BcCapacity = ''capacity''"
| "to_string_binding BcProtectedHeadroom = ''protected_headroom''"
| "to_string_binding BcOvercommitLimit = ''overcommit_limit''"
| "to_string_binding BcBorrowLimit = ''borrow_limit''"
| "to_string_binding BcPolicyMaxSingleAllocation = ''policy_max_single_allocation''"
| "to_string_binding BcPolicyMaxSingleRequest = ''policy_max_single_request''"
| "to_string_binding BcPolicySoftLimit = ''policy_soft_limit''"
| "to_string_binding BcQueueMaxCommitted = ''queue_max_committed''"
| "to_string_binding BcQueueShare = ''queue_share''"
| "to_string_binding BcPressureRefuse = ''pressure_refuse''"
| "to_string_binding BcPressureReduce = ''pressure_reduce''"
| "to_string_binding BcEvidenceUnknown = ''evidence_unknown''"
| "to_string_binding BcEvidenceStale = ''evidence_stale''"
| "to_string_binding BcGenerationMismatch = ''generation_mismatch''"
| "to_string_binding BcPoolRetired = ''pool_retired''"
| "to_string_binding BcQueueRetired = ''queue_retired''"
| "to_string_binding BcReservationLimit = ''reservation_limit''"
| "to_string_binding BcReclaimReserve = ''reclaim_reserve''"
| "to_string_binding BcRequestZero = ''request_zero''"
| "to_string_binding BcBackendCapacity = ''backend_capacity''"
| "to_string_binding BcShutdown = ''shutdown''"

record authority_entry =
  ae_kind :: authority_kind
  ae_value :: u64
  ae_generation :: generation

record authority_vector =
  av_entries :: "authority_entry list"
  av_digest :: digest

definition authority0 :: authority_vector where
  "authority0 = \<lparr>av_entries = [], av_digest = \<lparr>dg_hi = 0, dg_lo = 0\<rparr>\<rparr>"

definition av_full :: "authority_vector \<Rightarrow> bool" where
  "av_full v = (length (av_entries v) \<ge> kMaxAuthorityVectorEntries)"

definition av_bind :: "authority_kind \<Rightarrow> u64 \<Rightarrow> generation \<Rightarrow> authority_vector \<Rightarrow> authority_vector" where
  "av_bind kind value gen v =
     (if av_full v then v
      else v\<lparr>av_entries := av_entries v @
                [\<lparr>ae_kind = kind, ae_value = value, ae_generation = gen\<rparr>]\<rparr>)"

definition bind_generation :: "authority_kind \<Rightarrow> generation \<Rightarrow> authority_vector \<Rightarrow> authority_vector" where
  "bind_generation kind gen = av_bind kind gen gen"

definition bind_id :: "authority_kind \<Rightarrow> u64 \<Rightarrow> authority_vector \<Rightarrow> authority_vector" where
  "bind_id kind i = av_bind kind i 0"

definition av_has :: "authority_kind \<Rightarrow> authority_vector \<Rightarrow> bool" where
  "av_has kind v = list_ex (\<lambda>e. ae_kind e = kind) (av_entries v)"

definition put_authority_entry :: "authority_entry \<Rightarrow> byte_writer \<Rightarrow> byte_writer" where
  "put_authority_entry e =
     writes [put_u8 (authority_kind_raw (ae_kind e)), put_u64 (ae_value e), put_u64 (ae_generation e)]"

definition seal :: "authority_vector \<Rightarrow> authority_vector" where
  "seal v = v\<lparr>av_digest := digest_bytes (buffer (writes
     [put_u8 (of_nat (length (av_entries v))),
      writes (map put_authority_entry (av_entries v))] writer0))\<rparr>"

definition bound_generations0 :: bound_generations where
  "bound_generations0 = \<lparr>bg_pool_generation = 0, bg_queue_generation = 0, bg_policy_generation = 0,
     bg_capacity_generation = 0, bg_backend_generation = 0, bg_epoch = 0,
     bg_boot = \<lparr>bi_hi = 0, bi_lo = 0\<rparr>\<rparr>"

definition bound_entry :: "authority_entry \<Rightarrow> bound_generations \<Rightarrow> bound_generations" where
  "bound_entry e b =
     (case ae_kind e of
        AkCapacity \<Rightarrow> b\<lparr>bg_capacity_generation := ae_generation e\<rparr>
      | AkPool \<Rightarrow> b\<lparr>bg_pool_generation := ae_generation e\<rparr>
      | AkQueue \<Rightarrow> b\<lparr>bg_queue_generation := ae_generation e\<rparr>
      | AkPolicy \<Rightarrow> b\<lparr>bg_policy_generation := ae_generation e\<rparr>
      | AkBackend \<Rightarrow> b\<lparr>bg_backend_generation := ae_generation e\<rparr>
      | AkEpoch \<Rightarrow> b\<lparr>bg_epoch := ae_value e\<rparr>
      | AkBootIncarnation \<Rightarrow> b\<lparr>bg_boot := \<lparr>bi_hi = ae_value e, bi_lo = ae_generation e\<rparr>\<rparr>
      | _ \<Rightarrow> b)"

definition av_bound :: "authority_vector \<Rightarrow> bound_generations" where
  "av_bound v = fold bound_entry (av_entries v) bound_generations0"

subsection \<open>Decisions\<close>

datatype decision_kind =
  Grant | GrantPartial | Refuse | Reduce | Fence | Revalidate | Reclaim | NoOp | IdempotentReplay

primrec to_string_decision :: "decision_kind \<Rightarrow> string" where
  "to_string_decision Grant = ''GRANT''"
| "to_string_decision GrantPartial = ''GRANT_PARTIAL''"
| "to_string_decision Refuse = ''REFUSE''"
| "to_string_decision Reduce = ''REDUCE''"
| "to_string_decision Fence = ''FENCE''"
| "to_string_decision Revalidate = ''REVALIDATE''"
| "to_string_decision Reclaim = ''RECLAIM''"
| "to_string_decision NoOp = ''NO_OP''"
| "to_string_decision IdempotentReplay = ''IDEMPOTENT_REPLAY''"

record corrective_intent =
  reduce_required :: bool
  reduce_to_units :: u64
  fence_required :: bool
  revalidate_required :: bool
  reclaim_target_units :: u64
  revalidate_by :: tick

definition intent0 :: corrective_intent where
  "intent0 = \<lparr>reduce_required = False, reduce_to_units = 0, fence_required = False,
     revalidate_required = False, reclaim_target_units = 0, revalidate_by = 0\<rparr>"

record decision =
  dc_kind :: decision_kind
  dc_status :: error_code
  dc_pool :: pool_id
  dc_queue :: queue_id
  dc_requested_units :: u64
  dc_granted_units :: u64
  dc_allocation :: allocation_id
  dc_binding :: binding_constraint
  dc_pressure :: pressure_state
  dc_utilization_bp :: u32
  dc_intent :: corrective_intent
  dc_authority :: authority_vector
  dc_accounting :: pool_accounting
  dc_decided_at :: tick
  dc_sequence :: u64

definition succeeded :: "decision \<Rightarrow> bool" where
  "succeeded d =
     (dc_status d = Ok \<and>
      (dc_kind d = Grant \<or> dc_kind d = GrantPartial \<or> dc_kind d = NoOp \<or>
       dc_kind d = IdempotentReplay))"

record decision_record =
  dr_sequence :: u64
  dr_at :: tick
  dr_kind :: decision_kind
  dr_status :: error_code
  dr_pool :: pool_id
  dr_queue :: queue_id
  dr_allocation :: allocation_id
  dr_requested_units :: u64
  dr_granted_units :: u64
  dr_binding :: binding_constraint
  dr_pressure :: pressure_state
  dr_authority_digest :: digest

subsection \<open>Requests\<close>

record allocate_request =
  ar_attempt :: attempt_id
  ar_pool :: pool_id
  ar_queue :: queue_id
  ar_requested_units :: u64
  ar_reclaim_class :: reclaim_class
  ar_reclaim_priority :: u64
  ar_ttl_ticks :: tick
  ar_commit_immediately :: bool
  ar_parent_allocation :: allocation_id
  ar_provenance :: provenance_id
  ar_expected_pool_generation :: generation
  ar_expected_policy_generation :: generation
  ar_expected_queue_generation :: generation
  ar_expected_capacity_generation :: generation
  ar_expected_epoch :: epoch_id

record commit_request =
  cr_attempt :: attempt_id
  cr_allocation :: allocation_id
  cr_commit_units :: u64
  cr_expected_pool_generation :: generation
  cr_expected_epoch :: epoch_id

record release_request =
  rr_attempt :: attempt_id
  rr_allocation :: allocation_id
  rr_units :: u64
  rr_release_all :: bool
  rr_expected_pool_generation :: generation
  rr_expected_epoch :: epoch_id

record revalidate_request =
  vr_attempt :: attempt_id
  vr_allocation :: allocation_id
  vr_expected_pool_generation :: generation
  vr_expected_epoch :: epoch_id

record evaluate_request =
  er_pool :: pool_id
  er_queue :: queue_id
  er_requested_units :: u64
  er_reclaim_class :: reclaim_class
  er_expected_epoch :: epoch_id

record reclaim_request =
  cl_attempt :: attempt_id
  cl_pool :: pool_id
  cl_target_units :: u64
  cl_dry_run :: bool
  cl_expected_pool_generation :: generation
  cl_expected_epoch :: epoch_id

definition put_allocate_request :: "allocate_request \<Rightarrow> byte_writer \<Rightarrow> byte_writer" where
  "put_allocate_request q = writes [
     put_u8 (attempt_kind_raw AtAllocate),
     put_id (ar_attempt q),
     put_id (ar_pool q),
     put_id (ar_queue q),
     put_u64 (ar_requested_units q),
     put_u8 (reclaim_class_raw (ar_reclaim_class q)),
     put_u64 (ar_reclaim_priority q),
     put_u64 (ar_ttl_ticks q),
     put_bool (ar_commit_immediately q),
     put_id (ar_parent_allocation q),
     put_id (ar_provenance q),
     put_id (ar_expected_pool_generation q),
     put_id (ar_expected_policy_generation q),
     put_id (ar_expected_queue_generation q),
     put_id (ar_expected_capacity_generation q),
     put_id (ar_expected_epoch q)]"

definition allocate_request_digest :: "allocate_request \<Rightarrow> digest" where
  "allocate_request_digest q = digest_bytes (buffer (put_allocate_request q writer0))"

definition put_commit_request :: "commit_request \<Rightarrow> byte_writer \<Rightarrow> byte_writer" where
  "put_commit_request q = writes [
     put_u8 (attempt_kind_raw AtCommit),
     put_id (cr_attempt q),
     put_id (cr_allocation q),
     put_u64 (cr_commit_units q),
     put_id (cr_expected_pool_generation q),
     put_id (cr_expected_epoch q)]"

definition commit_request_digest :: "commit_request \<Rightarrow> digest" where
  "commit_request_digest q = digest_bytes (buffer (put_commit_request q writer0))"

definition put_release_request :: "release_request \<Rightarrow> byte_writer \<Rightarrow> byte_writer" where
  "put_release_request q = writes [
     put_u8 (attempt_kind_raw AtRelease),
     put_id (rr_attempt q),
     put_id (rr_allocation q),
     put_u64 (rr_units q),
     put_bool (rr_release_all q),
     put_id (rr_expected_pool_generation q),
     put_id (rr_expected_epoch q)]"

definition release_request_digest :: "release_request \<Rightarrow> digest" where
  "release_request_digest q = digest_bytes (buffer (put_release_request q writer0))"

definition put_revalidate_request :: "revalidate_request \<Rightarrow> byte_writer \<Rightarrow> byte_writer" where
  "put_revalidate_request q = writes [
     put_u8 (attempt_kind_raw AtRevalidate),
     put_id (vr_attempt q),
     put_id (vr_allocation q),
     put_id (vr_expected_pool_generation q),
     put_id (vr_expected_epoch q)]"

definition revalidate_request_digest :: "revalidate_request \<Rightarrow> digest" where
  "revalidate_request_digest q = digest_bytes (buffer (put_revalidate_request q writer0))"

definition put_reclaim_request :: "reclaim_request \<Rightarrow> byte_writer \<Rightarrow> byte_writer" where
  "put_reclaim_request q = writes [
     put_u8 (attempt_kind_raw AtReclaim),
     put_id (cl_attempt q),
     put_id (cl_pool q),
     put_u64 (cl_target_units q),
     put_bool (cl_dry_run q),
     put_id (cl_expected_pool_generation q),
     put_id (cl_expected_epoch q)]"

definition reclaim_request_digest :: "reclaim_request \<Rightarrow> digest" where
  "reclaim_request_digest q = digest_bytes (buffer (put_reclaim_request q writer0))"

subsection \<open>Laws\<close>

lemma av_bind_entries [simp]:
  "length (av_entries v) < 16 \<Longrightarrow>
     av_entries (av_bind k x g v) =
       av_entries v @ [\<lparr>ae_kind = k, ae_value = x, ae_generation = g\<rparr>]"
  by (simp add: av_bind_def av_full_def kMaxAuthorityVectorEntries_def)

lemma av_bind_bounded: "length (av_entries v) \<le> 16 \<Longrightarrow> length (av_entries (av_bind k x g v)) \<le> 16"
  by (simp add: av_bind_def av_full_def kMaxAuthorityVectorEntries_def)

lemma av_entries_seal [simp]: "av_entries (seal v) = av_entries v"
  by (simp add: seal_def)

lemma le_bytes_inject:
  assumes "LENGTH('a) = 8 * n"
  shows "le_bytes n x = le_bytes n y \<longleftrightarrow> x = (y :: 'a::len word)"
  using le_word_le_bytes[OF assms, of x] le_word_le_bytes[OF assms, of y] by metis

lemmas le_bytes_eq = le_bytes_inject[where 'a = 64 and n = 8, simplified]

lemma enum_raw_inject [simp]:
  "reclaim_class_raw c = reclaim_class_raw d \<longleftrightarrow> c = d"
  "attempt_kind_raw k = attempt_kind_raw l \<longleftrightarrow> k = l"
  using enum_round_trip by metis+

lemma bool_byte_inject [simp]: "((if a then 1 else 0) = (if b then 1 else 0 :: u8)) \<longleftrightarrow> a = b"
  by simp

lemma enc_request_inject:
  "enc (put_allocate_request q) = enc (put_allocate_request q') \<longleftrightarrow> q = q'"
  "enc (put_commit_request c) = enc (put_commit_request c') \<longleftrightarrow> c = c'"
  "enc (put_release_request r) = enc (put_release_request r') \<longleftrightarrow> r = r'"
  "enc (put_revalidate_request v) = enc (put_revalidate_request v') \<longleftrightarrow> v = v'"
  "enc (put_reclaim_request l) = enc (put_reclaim_request l') \<longleftrightarrow> l = l'"
  subgoal by (auto simp: put_allocate_request_def append_eq_append_conv le_bytes_eq)
  subgoal by (auto simp: put_commit_request_def append_eq_append_conv le_bytes_eq)
  subgoal by (auto simp: put_release_request_def append_eq_append_conv le_bytes_eq)
  subgoal by (auto simp: put_revalidate_request_def append_eq_append_conv le_bytes_eq)
  subgoal by (auto simp: put_reclaim_request_def append_eq_append_conv le_bytes_eq)
  done

text \<open>Attempts are compared over canonical request encodings.  Two requests of one kind
  have the same canonical bytes only if all their fields agree, and requests of different kinds
  never share their bytes; an attempt can therefore be taken for another request only through a
  collision of the 128-bit digest itself.\<close>

theorem request_encodings_canonical:
  "(buffer (put_allocate_request q writer0) = buffer (put_allocate_request q' writer0) \<longleftrightarrow> q = q') \<and>
   (buffer (put_commit_request c writer0) = buffer (put_commit_request c' writer0) \<longleftrightarrow> c = c') \<and>
   (buffer (put_release_request r writer0) = buffer (put_release_request r' writer0) \<longleftrightarrow> r = r') \<and>
   (buffer (put_revalidate_request v writer0) = buffer (put_revalidate_request v' writer0) \<longleftrightarrow> v = v') \<and>
   (buffer (put_reclaim_request l writer0) = buffer (put_reclaim_request l' writer0) \<longleftrightarrow> l = l') \<and>
   distinct [hd (buffer (put_allocate_request q writer0)), hd (buffer (put_commit_request c writer0)),
     hd (buffer (put_release_request r writer0)), hd (buffer (put_revalidate_request v writer0)),
     hd (buffer (put_reclaim_request l writer0))]"
proof -
  have "distinct [hd (enc (put_allocate_request q)), hd (enc (put_commit_request c)),
     hd (enc (put_release_request r)), hd (enc (put_revalidate_request v)),
     hd (enc (put_reclaim_request l))]"
    by (simp add: put_allocate_request_def put_commit_request_def put_release_request_def
        put_revalidate_request_def put_reclaim_request_def)
  then show ?thesis
    by (simp only: enc_request_inject[unfolded enc_def] enc_def simp_thms)
qed

end
