(* ===== verification/Observation.thy ===== *)
theory Observation
  imports Decision
begin

text \<open>
  Events, the bounded event ring and the metric counters: include/buffer_fabric/observation.hpp
  and src/observation.cpp.  A bounded history is a contract (the locale bounded_history) that
  the event ring meets here and the decision history meets in the fabric state.
\<close>

datatype event_kind =
  EvPoolRegistered | EvPoolRemoved | EvPoolResized | EvPolicyPublished | EvQueueRegistered
| EvQueueRetired | EvAllocationReserved | EvAllocationCommitted | EvAllocationReleased | EvAllocationReclaimed
| EvAllocationFenced | EvAllocationRevalidated | EvAllocationExpired | EvPressureUpdated | EvPressureRejected
| EvDecisionRefused | EvEpochAdvanced | EvRecovered | EvAccountingViolation | EvShutdownStarted
| EvShutdownComplete | EvAttemptConflict | EvBackendEffectSkipped

primrec to_string_event :: "event_kind \<Rightarrow> string" where
  "to_string_event EvPoolRegistered = ''pool_registered''"
| "to_string_event EvPoolRemoved = ''pool_removed''"
| "to_string_event EvPoolResized = ''pool_resized''"
| "to_string_event EvPolicyPublished = ''policy_published''"
| "to_string_event EvQueueRegistered = ''queue_registered''"
| "to_string_event EvQueueRetired = ''queue_retired''"
| "to_string_event EvAllocationReserved = ''allocation_reserved''"
| "to_string_event EvAllocationCommitted = ''allocation_committed''"
| "to_string_event EvAllocationReleased = ''allocation_released''"
| "to_string_event EvAllocationReclaimed = ''allocation_reclaimed''"
| "to_string_event EvAllocationFenced = ''allocation_fenced''"
| "to_string_event EvAllocationRevalidated = ''allocation_revalidated''"
| "to_string_event EvAllocationExpired = ''allocation_expired''"
| "to_string_event EvPressureUpdated = ''pressure_updated''"
| "to_string_event EvPressureRejected = ''pressure_rejected''"
| "to_string_event EvDecisionRefused = ''decision_refused''"
| "to_string_event EvEpochAdvanced = ''epoch_advanced''"
| "to_string_event EvRecovered = ''recovered''"
| "to_string_event EvAccountingViolation = ''accounting_violation''"
| "to_string_event EvShutdownStarted = ''shutdown_started''"
| "to_string_event EvShutdownComplete = ''shutdown_complete''"
| "to_string_event EvAttemptConflict = ''attempt_conflict''"
| "to_string_event EvBackendEffectSkipped = ''backend_effect_skipped''"

record fabric_event =
  ev_kind :: event_kind
  ev_at :: tick
  ev_epoch :: epoch_id
  ev_sequence :: u64
  ev_pool :: pool_id
  ev_queue :: queue_id
  ev_allocation :: allocation_id
  ev_units :: u64
  ev_outcome :: error_code

subsection \<open>RingEventSink\<close>

record ring_sink =
  rs_events :: "fabric_event list"
  rs_next :: nat
  rs_capacity :: nat
  rs_emitted :: u64
  rs_dropped :: u64

definition ring_new :: "nat \<Rightarrow> ring_sink" where
  "ring_new capacity = \<lparr>rs_events = [], rs_next = 0,
     rs_capacity = (if capacity = 0 then 1 else capacity), rs_emitted = 0, rs_dropped = 0\<rparr>"

definition on_event :: "fabric_event \<Rightarrow> ring_sink \<Rightarrow> ring_sink" where
  "on_event e s =
     (let s = s\<lparr>rs_emitted := rs_emitted s + 1\<rparr> in
      if length (rs_events s) < rs_capacity s then s\<lparr>rs_events := rs_events s @ [e]\<rparr>
      else s\<lparr>rs_events := (rs_events s)[rs_next s := e],
             rs_next := (rs_next s + 1) mod rs_capacity s,
             rs_dropped := rs_dropped s + 1\<rparr>)"

definition retained :: "ring_sink \<Rightarrow> u64" where
  "retained s = of_nat (length (rs_events s))"

definition snapshot :: "ring_sink \<Rightarrow> fabric_event list" where
  "snapshot s =
     (if length (rs_events s) < rs_capacity s \<or> rs_next s = 0 then rs_events s
      else map (\<lambda>i. rs_events s ! ((rs_next s + i) mod length (rs_events s)))
             [0..<length (rs_events s)])"

definition ring_clear :: "ring_sink \<Rightarrow> ring_sink" where
  "ring_clear s = s\<lparr>rs_events := [], rs_next := 0\<rparr>"

subsection \<open>FabricMetrics\<close>

record fabric_metrics =
  mt_decisions :: u64
  mt_grants :: u64
  mt_partial_grants :: u64
  mt_refusals :: u64
  mt_reductions :: u64
  mt_fences :: u64
  mt_reclaims :: u64
  mt_revalidations :: u64
  mt_idempotent_replays :: u64
  mt_attempt_conflicts :: u64
  mt_allocations_created :: u64
  mt_allocations_committed :: u64
  mt_allocations_released :: u64
  mt_allocations_reclaimed :: u64
  mt_allocations_fenced :: u64
  mt_allocations_expired :: u64
  mt_pressure_snapshots_accepted :: u64
  mt_pressure_snapshots_rejected :: u64
  mt_journal_records_written :: u64
  mt_journal_bytes_written :: u64
  mt_journal_records_replayed :: u64
  mt_journal_tail_truncations :: u64
  mt_snapshots_written :: u64
  mt_recoveries :: u64
  mt_epoch_advances :: u64
  mt_backend_effects_attempted :: u64
  mt_backend_effects_unsupported :: u64
  mt_live_allocations :: u64
  mt_live_committed_units :: u64
  mt_peak_committed_units :: u64

definition metrics0 :: fabric_metrics where
  "metrics0 = \<lparr>mt_decisions = 0, mt_grants = 0, mt_partial_grants = 0, mt_refusals = 0,
     mt_reductions = 0, mt_fences = 0, mt_reclaims = 0, mt_revalidations = 0,
     mt_idempotent_replays = 0, mt_attempt_conflicts = 0,
     mt_allocations_created = 0, mt_allocations_committed = 0,
     mt_allocations_released = 0, mt_allocations_reclaimed = 0,
     mt_allocations_fenced = 0, mt_allocations_expired = 0,
     mt_pressure_snapshots_accepted = 0, mt_pressure_snapshots_rejected = 0,
     mt_journal_records_written = 0, mt_journal_bytes_written = 0,
     mt_journal_records_replayed = 0, mt_journal_tail_truncations = 0,
     mt_snapshots_written = 0, mt_recoveries = 0, mt_epoch_advances = 0,
     mt_backend_effects_attempted = 0, mt_backend_effects_unsupported = 0,
     mt_live_allocations = 0, mt_live_committed_units = 0,
     mt_peak_committed_units = 0\<rparr>"

subsection \<open>The contract of a bounded history\<close>

definition last_n :: "nat \<Rightarrow> 'a list \<Rightarrow> 'a list" where
  "last_n n xs = drop (length xs - n) xs"

lemma length_last_n: "length (last_n n xs) = min n (length xs)"
  by (simp add: last_n_def)

lemma last_n_all: "length xs \<le> n \<Longrightarrow> last_n n xs = xs"
  by (simp add: last_n_def)

lemma last_n_snoc: "last_n n (last_n n xs @ [x]) = last_n n (xs @ [x])"
  by (cases "length xs \<le> n") (auto simp: last_n_def Suc_diff_le)

locale bounded_history =
  fixes push :: "'e \<Rightarrow> 's \<Rightarrow> 's"
    and contents :: "'s \<Rightarrow> 'e list"
    and cap :: "'s \<Rightarrow> nat"
    and wf :: "'s \<Rightarrow> bool"
  assumes push_wf: "wf s \<Longrightarrow> wf (push e s)"
    and push_cap: "cap (push e s) = cap s"
    and push_contents: "wf s \<Longrightarrow> contents (push e s) = last_n (cap s) (contents s @ [e])"
begin

lemma fold_wf: "wf s \<Longrightarrow> wf (fold push es s)"
  by (induction es arbitrary: s) (simp_all add: push_wf)

lemma fold_cap: "cap (fold push es s) = cap s"
  by (induction es arbitrary: s) (simp_all add: push_cap)

lemma history_window:
  "wf s \<Longrightarrow> length (contents s) \<le> cap s \<Longrightarrow>
     contents (fold push es s) = last_n (cap s) (contents s @ es)"
proof (induction es rule: rev_induct)
  case Nil
  then show ?case by (simp add: last_n_all)
next
  case (snoc e es)
  then show ?case
    by (simp add: push_contents fold_wf fold_cap last_n_snoc)
qed

lemma history_bounded:
  "wf s \<Longrightarrow> length (contents s) \<le> cap s \<Longrightarrow> length (contents (fold push es s)) \<le> cap s"
  by (simp add: history_window length_last_n)

end

subsection \<open>The ring is a bounded history\<close>

definition ring_wf :: "ring_sink \<Rightarrow> bool" where
  "ring_wf s \<longleftrightarrow> 0 < rs_capacity s \<and> length (rs_events s) \<le> rs_capacity s \<and>
     rs_next s < rs_capacity s \<and> (length (rs_events s) < rs_capacity s \<longrightarrow> rs_next s = 0)"

lemma snapshot_rotate:
  assumes "ring_wf s"
  shows "snapshot s = drop (rs_next s) (rs_events s) @ take (rs_next s) (rs_events s)"
proof (cases "length (rs_events s) < rs_capacity s \<or> rs_next s = 0")
  case True
  with assms show ?thesis by (auto simp: snapshot_def ring_wf_def)
next
  case False
  then have n: "rs_next s < length (rs_events s)" using assms by (auto simp: ring_wf_def)
  have "snapshot s = rotate (rs_next s) (rs_events s)"
    using False by (intro nth_equalityI) (auto simp: snapshot_def nth_rotate)
  with n show ?thesis by (simp add: rotate_drop_take)
qed

lemma ring_wf_on_event: "ring_wf s \<Longrightarrow> ring_wf (on_event e s)"
  by (auto simp: ring_wf_def on_event_def Let_def)

lemma snapshot_on_event:
  assumes "ring_wf s"
  shows "snapshot (on_event e s) = last_n (rs_capacity s) (snapshot s @ [e])"
proof (cases "length (rs_events s) < rs_capacity s")
  case True
  then have "rs_next s = 0" using assms by (simp add: ring_wf_def)
  with True show ?thesis
    by (simp add: on_event_def snapshot_def last_n_def)
next
  case False
  let ?E = "rs_events s" and ?n = "rs_next s"
  have c: "length ?E = rs_capacity s" "?n < length ?E"
    using assms False by (auto simp: ring_wf_def)
  have tl: "last_n (rs_capacity s) (snapshot s @ [e]) = drop (Suc ?n) ?E @ take ?n ?E @ [e]"
    using c by (simp add: snapshot_rotate[OF assms] last_n_def)
  have "snapshot (on_event e s) = drop (Suc ?n mod rs_capacity s) (?E[?n := e]) @
      take (Suc ?n mod rs_capacity s) (?E[?n := e])"
    using snapshot_rotate[OF ring_wf_on_event[OF assms], of e] False
    by (simp add: on_event_def)
  also have "\<dots> = drop (Suc ?n) ?E @ take ?n ?E @ [e]"
  proof (cases "Suc ?n = rs_capacity s")
    case True
    with c show ?thesis by (simp add: upd_conv_take_nth_drop)
  next
    case False
    with c have "Suc ?n < rs_capacity s" by simp
    with c show ?thesis
      by (simp add: take_Suc_conv_app_nth drop_update_cancel take_update_cancel)
  qed
  finally show ?thesis using tl by simp
qed

interpretation ring: bounded_history on_event snapshot rs_capacity ring_wf
proof
  show "rs_capacity (on_event e s) = rs_capacity s" for e s by (simp add: on_event_def Let_def)
qed (simp_all add: ring_wf_on_event snapshot_on_event)

text \<open>C35: the event ring.  After any sequence of events a fresh ring of capacity n reports
  exactly the last n of them (all of them while there are no more), oldest first.\<close>

theorem ring_reports_last_events:
  "snapshot (fold on_event es (ring_new n)) = last_n (max 1 n) es"
proof -
  have "ring_wf (ring_new n)" "snapshot (ring_new n) = []" "rs_capacity (ring_new n) = max 1 n"
    by (auto simp: ring_wf_def ring_new_def snapshot_def)
  with ring.history_window[of "ring_new n" es] show ?thesis by simp
qed

end
