(* ===== verification/Persistence.thy ===== *)
theory Persistence
  imports Observation
begin

text \<open>
  The durable store: include/buffer_fabric/persistence.hpp, src/persistence.cpp and the
  file operations of src/fs.cpp it uses.

  The disk is the content of the two files.  The journal is written through a stdio
  buffer: disk_journal is the file as the writing process has it, buffered bytes included, and
  disk_synced what the last successful fflush and fsync brought to the medium.  A crash leaves
  of the journal anything between the two (crash_leaves).  What the operating system answers to each
  call (opening, writing, flushing, renaming) is the environment: a list of outcomes in
  the store, consumed one per call, an exhausted list meaning success; a short write
  leaves a proper prefix of the data in the file.  Nothing is assumed of that list.
  Counts of bytes of files that exist are naturals.

  The lemmas show that snapshots and journals round trip, that a torn journal tail is cut
  off at the last intact record, and what an append leaves on disk on every path.
\<close>

subsection \<open>Data\<close>

datatype durability_mode = DurNone | JournalSync

record persistence_config =
  pc_directory :: string
  pc_mode :: durability_mode
  compact_journal_bytes :: nat
  max_journal_bytes :: nat
  max_snapshot_bytes :: nat
  truncate_damaged_tail :: bool
  refuse_on_midfile_damage :: bool

definition persistence_config0 :: persistence_config where
  "persistence_config0 = \<lparr>pc_directory = [], pc_mode = DurNone, compact_journal_bytes = 64 * 2 ^ 20,
     max_journal_bytes = 512 * 2 ^ 20, max_snapshot_bytes = kMaxSnapshotBytes,
     truncate_damaged_tail = True, refuse_on_midfile_damage = True\<rparr>"

definition persistence_validate :: "persistence_config \<Rightarrow> void_result" where
  "persistence_validate c =
     (if pc_directory c = [] then Inl InvalidArgument
      else if length (pc_directory c) > 1024 then Inl InvalidArgument
      else if max_journal_bytes c = 0 \<or> max_journal_bytes c > 4 * 2 ^ 30 then Inl InvalidArgument
      else if compact_journal_bytes c = 0 \<or> compact_journal_bytes c > max_journal_bytes c
      then Inl InvalidArgument
      else if max_snapshot_bytes c = 0 \<or> max_snapshot_bytes c > kMaxSnapshotBytes
      then Inl InvalidArgument
      else Inr ())"

datatype journal_op =
  JEpochAdvance | JPoolUpsert | JPoolRemoved | JPolicyUpsert | JQueueUpsert | JQueueRetired
| JCapacitySet | JAllocationReserved | JAllocationCommitted | JAllocationReleased
| JAllocationReclaimed | JAllocationFenced | JAllocationRevalidated | JAllocationExpired
| JPressureObserved | JAttemptRecorded | JCheckpoint | JBackendRegistered

primrec journal_op_raw :: "journal_op \<Rightarrow> u8" where
  "journal_op_raw JEpochAdvance = 1"
| "journal_op_raw JPoolUpsert = 2"
| "journal_op_raw JPoolRemoved = 3"
| "journal_op_raw JPolicyUpsert = 4"
| "journal_op_raw JQueueUpsert = 5"
| "journal_op_raw JQueueRetired = 6"
| "journal_op_raw JCapacitySet = 7"
| "journal_op_raw JAllocationReserved = 8"
| "journal_op_raw JAllocationCommitted = 9"
| "journal_op_raw JAllocationReleased = 10"
| "journal_op_raw JAllocationReclaimed = 11"
| "journal_op_raw JAllocationFenced = 12"
| "journal_op_raw JAllocationRevalidated = 13"
| "journal_op_raw JAllocationExpired = 14"
| "journal_op_raw JPressureObserved = 15"
| "journal_op_raw JAttemptRecorded = 16"
| "journal_op_raw JCheckpoint = 17"
| "journal_op_raw JBackendRegistered = 18"

definition kJournalFrameMagic :: u32 where "kJournalFrameMagic = 0x42464A31"
definition kSnapshotFrameMagic :: u32 where "kSnapshotFrameMagic = 0x42465331"
definition kSnapshotEndMagic :: u32 where "kSnapshotEndMagic = 0x42465345"
definition kSnapshotHeaderBytes :: nat where "kSnapshotHeaderBytes = 48"
definition journal_format_version :: u32 where "journal_format_version = 1"
definition persistence_format_version :: u32 where "persistence_format_version = 1"

subsection \<open>Snapshot container\<close>

record snapshot_header =
  sh_format_version :: u32
  sh_flags :: u32
  sh_payload_bytes :: u32
  sh_epoch :: epoch_id
  sh_boot :: boot_incarnation
  sh_record_count :: u64

definition put_snapshot_header :: "snapshot_header \<Rightarrow> bytes \<Rightarrow> byte_writer \<Rightarrow> byte_writer" where
  "put_snapshot_header h payload = writes [
     put_u32 kSnapshotFrameMagic,
     put_u32 (sh_format_version h),
     put_u32 (sh_flags h),
     put_u32 (of_nat (length payload)),
     put_u64 (sh_epoch h),
     put_u64 (bi_hi (sh_boot h)),
     put_u64 (bi_lo (sh_boot h)),
     put_u64 (sh_record_count h)]"

definition encode_snapshot :: "snapshot_header \<Rightarrow> bytes \<Rightarrow> bytes" where
  "encode_snapshot h payload =
     (let w = put_snapshot_header h payload writer0;
          header_crc = crc32c (buffer w)
      in buffer (writes [put_bytes payload, put_u32 (crc32c payload), put_u32 header_crc,
                         put_u32 kSnapshotEndMagic] w))"

definition get_snapshot_header :: "(u32 \<times> snapshot_header) decoder" where
  "get_snapshot_header r = do {
     (magic, r) \<leftarrow> get_u32 r;
     (version, r) \<leftarrow> get_u32 r;
     (flags, r) \<leftarrow> get_u32 r;
     (payload_bytes, r) \<leftarrow> get_u32 r;
     (epoch, r) \<leftarrow> get_u64 r;
     (hi, r) \<leftarrow> get_u64 r;
     (lo, r) \<leftarrow> get_u64 r;
     (count, r) \<leftarrow> get_u64 r;
     Some ((magic, \<lparr>sh_format_version = version, sh_flags = flags, sh_payload_bytes = payload_bytes,
        sh_epoch = epoch, sh_boot = \<lparr>bi_hi = hi, bi_lo = lo\<rparr>, sh_record_count = count\<rparr>), r) }"

definition get_snapshot_trailer :: "(u32 \<times> u32 \<times> u32) decoder" where
  "get_snapshot_trailer r = do {
     (payload_crc, r) \<leftarrow> get_u32 r;
     (header_crc, r) \<leftarrow> get_u32 r;
     (end_magic, r) \<leftarrow> get_u32 r;
     Some ((payload_crc, header_crc, end_magic), r) }"

definition decode_snapshot :: "bytes \<Rightarrow> nat \<Rightarrow> (snapshot_header \<times> bytes) result" where
  "decode_snapshot data max_payload =
     (if length data < kSnapshotHeaderBytes + 12 then Inl CorruptRecord
      else case get_snapshot_header data of
        None \<Rightarrow> Inl CorruptRecord
      | Some ((magic, h), _) \<Rightarrow>
        if magic \<noteq> kSnapshotFrameMagic then Inl CorruptRecord
        else if sh_format_version h \<noteq> persistence_format_version then Inl VersionMismatch
        else let n = unat (sh_payload_bytes h) in
        if n > max_payload then Inl SnapshotOversized
        else if length data < kSnapshotHeaderBytes + n + 12 then Inl CorruptRecord
        else let payload = take n (drop kSnapshotHeaderBytes data) in
        case get_snapshot_trailer (drop (kSnapshotHeaderBytes + n) data) of
          None \<Rightarrow> Inl CorruptRecord
        | Some ((payload_crc, header_crc, end_magic), _) \<Rightarrow>
          if end_magic \<noteq> kSnapshotEndMagic then Inl CorruptRecord
          else if header_crc \<noteq> crc32c (take kSnapshotHeaderBytes data) then Inl IntegrityFailure
          else if crc32c payload \<noteq> payload_crc then Inl IntegrityFailure
          else Inr (h, payload))"

subsection \<open>The store and its environment\<close>

datatype io = IoOk | IoFail | IoShort nat

record store =
  st_config :: persistence_config
  st_configured :: bool
  st_writable :: bool
  st_max_bytes :: nat
  st_bytes_written :: nat
  st_records_written :: u64
  st_journal_bytes :: nat
  st_recovery_count :: u64
  disk_journal :: "bytes option"
  disk_snapshot :: "bytes option"
  disk_synced :: bytes
  io_script :: "io list"

definition store0 :: store where
  "store0 = \<lparr>st_config = persistence_config0, st_configured = False, st_writable = False,
     st_max_bytes = 0, st_bytes_written = 0, st_records_written = 0, st_journal_bytes = 0,
     st_recovery_count = 0, disk_journal = None, disk_snapshot = None, disk_synced = [], io_script = []\<rparr>"

type_synonym 'a io_result = "'a result \<times> store"

definition next_io :: "store \<Rightarrow> io \<times> store" where
  "next_io s = (case io_script s of [] \<Rightarrow> (IoOk, s) | x # xs \<Rightarrow> (x, s\<lparr>io_script := xs\<rparr>))"

text \<open>A call that either succeeds or fails with a persistence error and no other effect.\<close>

definition io_call :: "store \<Rightarrow> unit io_result" where
  "io_call s = (let (x, s) = next_io s in
     (case x of IoOk \<Rightarrow> Inr () | _ \<Rightarrow> Inl PersistenceError, s))"

subsection \<open>Journal\<close>

definition journal_content :: "store \<Rightarrow> bytes" where
  "journal_content s = (case disk_journal s of None \<Rightarrow> [] | Some f \<Rightarrow> f)"

text \<open>What a crash of the process or of the machine may leave of the journal: what was synced last, what the process
  had written, or any cut of what it had written that keeps what was synced.\<close>

definition crash_leaves :: "store \<Rightarrow> bytes \<Rightarrow> bool" where
  "crash_leaves s file \<longleftrightarrow> file = disk_synced s \<or> file = journal_content s \<or>
     (\<exists>k \<in> set [0..<length (journal_content s)]. file = take k (journal_content s) \<and>
        take (length (disk_synced s)) file = disk_synced s)"

definition journal_frame :: "bytes \<Rightarrow> bytes" where
  "journal_frame payload = encode_frame payload kJournalFrameMagic journal_format_version"

definition journal_close :: "store \<Rightarrow> store" where
  "journal_close s = s\<lparr>st_writable := False\<rparr>"

definition open_append :: "nat \<Rightarrow> store \<Rightarrow> unit io_result" where
  "open_append max_bytes s =
     (let s = (journal_close s)\<lparr>st_max_bytes := max_bytes\<rparr> in
      try_st (io_call s) (\<lambda>_ s.
        let file = (case disk_journal s of None \<Rightarrow> [] | Some f \<Rightarrow> f) in
        (Inr (), s\<lparr>disk_journal := Some file, st_writable := True,
                   st_bytes_written := length file\<rparr>)))"

definition journal_append :: "bytes \<Rightarrow> store \<Rightarrow> unit io_result" where
  "journal_append payload s =
     (if \<not> st_writable s then (Inl LifecycleViolation, s)
      else if length payload > kMaxJournalRecordBytes then (Inl OversizedMessage, s)
      else if st_max_bytes s \<noteq> 0 \<and>
              st_bytes_written s + kFrameHeaderBytes + length payload > st_max_bytes s
      then (Inl BoundedResourceExhausted, s)
      else let frame = journal_frame payload;
               file = (case disk_journal s of None \<Rightarrow> [] | Some f \<Rightarrow> f);
               (x, s) = next_io s
           in case x of
                IoOk \<Rightarrow> (Inr (), s\<lparr>disk_journal := Some (file @ frame),
                          st_bytes_written := st_bytes_written s + length frame,
                          st_records_written := st_records_written s + 1\<rparr>)
              | IoFail \<Rightarrow> (Inl PersistenceError, s)
              | IoShort n \<Rightarrow> (Inl PersistenceError,
                  s\<lparr>disk_journal := Some (file @ take (min n (length frame - 1)) frame)\<rparr>))"

definition journal_sync :: "store \<Rightarrow> unit io_result" where
  "journal_sync s =
     (if \<not> st_writable s then (Inl LifecycleViolation, s)
      else try_st (io_call s) (\<lambda>_ s. (Inr (), s\<lparr>disk_synced := journal_content s\<rparr>)))"

definition journal_truncate_to :: "nat \<Rightarrow> store \<Rightarrow> unit io_result" where
  "journal_truncate_to offset s =
     (if \<not> st_writable s then (Inl LifecycleViolation, s)
      else try_st (io_call s) (\<lambda>_ s.
        let file = (case disk_journal s of None \<Rightarrow> [] | Some f \<Rightarrow> f) in
        (Inr (), s\<lparr>disk_journal := Some (take offset (file @ replicate (offset - length file) 0)),
                   st_bytes_written := offset\<rparr>)))"

text \<open>The record at an offset of the journal file: None at the clean end, otherwise the payload
  and the offset of the next record.\<close>

definition read_next :: "bytes \<Rightarrow> nat \<Rightarrow> ((bytes \<times> nat) option) result" where
  "read_next data off =
     (if off \<ge> length data then Inr None
      else if length data - off < kFrameHeaderBytes then Inl JournalTruncated
      else case (do { (magic, r) \<leftarrow> get_u32 (take kFrameHeaderBytes (drop off data));
                      (version, r) \<leftarrow> get_u32 r;
                      (payload_bytes, r) \<leftarrow> get_u32 r;
                      (expected_crc, r) \<leftarrow> get_u32 r;
                      Some (magic, version, payload_bytes, expected_crc) }) of
        None \<Rightarrow> Inl CorruptRecord
      | Some (magic, version, payload_bytes, expected_crc) \<Rightarrow>
          if magic \<noteq> kJournalFrameMagic then Inl CorruptRecord
          else if version \<noteq> journal_format_version then Inl VersionMismatch
          else if unat payload_bytes > kMaxJournalRecordBytes then Inl OversizedMessage
          else if off + kFrameHeaderBytes + unat payload_bytes > length data
          then Inl JournalTruncated
          else let payload = take (unat payload_bytes) (drop (off + kFrameHeaderBytes) data)
               in if crc32c payload \<noteq> expected_crc then Inl IntegrityFailure
                  else Inr (Some (payload, off + kFrameHeaderBytes + unat payload_bytes)))"

definition is_damage :: "error_code \<Rightarrow> bool" where
  "is_damage e = (e = JournalTruncated \<or> e = CorruptRecord \<or> e = IntegrityFailure \<or>
     e = OversizedMessage \<or> e = VersionMismatch)"

lemma read_next_progress:
  "read_next data off = Inr (Some (payload, next)) \<Longrightarrow> off < next \<and> next \<le> length data"
  by (auto simp: read_next_def kFrameHeaderBytes_def Let_def split: if_splits option.splits prod.splits)

type_synonym 's visitor = "bytes \<Rightarrow> 's \<Rightarrow> void_result \<times> 's"

text \<open>The replay loop of recover: whether it ended at damage, the offset it reached, and the
  number of records applied.  A record the visitor rejects ends recovery with that error.\<close>

function replay ::
  "'s visitor \<Rightarrow> bytes \<Rightarrow> nat \<Rightarrow> nat \<Rightarrow> 's \<Rightarrow> (bool \<times> nat \<times> nat) result \<times> 's" where
  "replay visit data off n s =
     (case read_next data off of
        Inl e \<Rightarrow> (if is_damage e then Inr (True, off, n) else Inl e, s)
      | Inr None \<Rightarrow> (Inr (False, off, n), s)
      | Inr (Some (payload, next)) \<Rightarrow>
          (case visit payload s of
             (Inl e, s) \<Rightarrow> (Inl e, s)
           | (Inr _, s) \<Rightarrow> replay visit data next (n + 1) s))"
  by pat_completeness auto
termination
  by (relation "measure (\<lambda>(visit, data, off, n, s). length data - off)")
     (auto dest!: read_next_progress)

declare replay.simps [simp del]

text \<open>Whether an intact frame starts anywhere after the damage.\<close>

definition frame_at :: "bytes \<Rightarrow> nat \<Rightarrow> bool" where
  "frame_at raw probe =
     (case (do { (magic, r) \<leftarrow> get_u32 (take kFrameHeaderBytes (drop probe raw));
                 (version, r) \<leftarrow> get_u32 r;
                 (payload_bytes, r) \<leftarrow> get_u32 r;
                 (crc, r) \<leftarrow> get_u32 r;
                 Some (magic, version, payload_bytes, crc) }) of
        None \<Rightarrow> False
      | Some (magic, version, payload_bytes, crc) \<Rightarrow>
          magic = kJournalFrameMagic \<and> version = journal_format_version \<and>
          probe + kFrameHeaderBytes + unat payload_bytes \<le> length raw \<and>
          crc32c (take (unat payload_bytes) (drop (probe + kFrameHeaderBytes) raw)) = crc)"

definition intact_after :: "bytes \<Rightarrow> nat \<Rightarrow> bool" where
  "intact_after raw damage_offset =
     (damage_offset + 1 < length raw \<and>
      list_ex (\<lambda>probe. probe + kFrameHeaderBytes \<le> length raw \<and> frame_at raw probe)
        [damage_offset + 1 ..< length raw])"

subsection \<open>DurableStore\<close>

datatype recovery_outcome =
  RecCreated | RecSnapshotOnly | RecJournalReplayed | RecTailTruncated | RecJournalOnly

record recovery_report =
  rv_outcome :: recovery_outcome
  rv_durable_state_present :: bool
  rv_snapshot_loaded :: bool
  rv_snapshot_integrity_verified :: bool
  rv_journal_loaded :: bool
  rv_snapshot_format_version :: u32
  rv_journal_format_version :: u32
  rv_snapshot_payload_bytes :: nat
  rv_journal_records_read :: nat
  rv_journal_records_applied :: nat
  rv_journal_bytes_discarded :: nat
  rv_journal_records_discarded :: nat
  rv_durable_epoch :: epoch_id
  rv_new_epoch :: epoch_id
  rv_previous_boot :: boot_incarnation
  rv_boot :: boot_incarnation
  rv_pools_restored :: nat
  rv_policies_restored :: nat
  rv_queues_restored :: nat
  rv_allocations_restored :: nat
  rv_allocations_restored_as_uncommitted :: nat
  rv_pressure_snapshots_invalidated :: nat
  rv_fences_restored :: nat
  rv_unfinished_attempts :: "(attempt_id \<times> allocation_id \<times> u64 \<times> tick) list"

definition recovery_report0 :: recovery_report where
  "recovery_report0 = \<lparr>rv_outcome = RecCreated, rv_durable_state_present = False,
     rv_snapshot_loaded = False, rv_snapshot_integrity_verified = False, rv_journal_loaded = False,
     rv_snapshot_format_version = 0, rv_journal_format_version = 0, rv_snapshot_payload_bytes = 0,
     rv_journal_records_read = 0, rv_journal_records_applied = 0, rv_journal_bytes_discarded = 0,
     rv_journal_records_discarded = 0, rv_durable_epoch = 0, rv_new_epoch = 0,
     rv_previous_boot = \<lparr>bi_hi = 0, bi_lo = 0\<rparr>, rv_boot = \<lparr>bi_hi = 0, bi_lo = 0\<rparr>,
     rv_pools_restored = 0, rv_policies_restored = 0, rv_queues_restored = 0,
     rv_allocations_restored = 0, rv_allocations_restored_as_uncommitted = 0,
     rv_pressure_snapshots_invalidated = 0, rv_fences_restored = 0, rv_unfinished_attempts = []\<rparr>"

definition configure :: "persistence_config \<Rightarrow> store \<Rightarrow> unit io_result" where
  "configure c s =
     (case persistence_validate c of
        Inl e \<Rightarrow> (Inl e, s)
      | Inr _ \<Rightarrow> (Inr (), s\<lparr>st_config := c, st_configured := True\<rparr>))"

definition store_close :: "store \<Rightarrow> store" where
  "store_close s = (journal_close s)\<lparr>st_configured := False\<rparr>"

definition needs_compaction :: "store \<Rightarrow> bool" where
  "needs_compaction s = (st_journal_bytes s \<ge> compact_journal_bytes (st_config s))"

definition read_file_bounded :: "bytes option \<Rightarrow> nat \<Rightarrow> store \<Rightarrow> bytes option io_result" where
  "read_file_bounded file max_bytes s =
     (case file of
        None \<Rightarrow> (Inr None, s)
      | Some f \<Rightarrow> if length f > max_bytes then (Inl OversizedMessage, s)
                  else try_st (io_call s) (\<lambda>_ s. (Inr (Some f), s)))"

text \<open>Repair of a damaged tail: cut the file at the last intact record.\<close>

definition repair_tail :: "nat \<Rightarrow> store \<Rightarrow> unit io_result" where
  "repair_tail damage_offset s =
     try_st (open_append (max_journal_bytes (st_config s)) s) (\<lambda>_ s.
     try_st (journal_truncate_to damage_offset s) (\<lambda>_ s.
     try_st (journal_sync s) (\<lambda>_ s. (Inr (), journal_close s))))"

text \<open>The journal half of recover, on the bytes read and the report so far.\<close>

definition recover_journal ::
  "'s visitor \<Rightarrow> bytes \<Rightarrow> recovery_report \<Rightarrow> store \<times> 's \<Rightarrow> (recovery_report \<times> nat) result \<times> store \<times> 's" where
  "recover_journal visit raw report ss =
     (let report = report\<lparr>rv_journal_loaded := True, rv_journal_format_version := journal_format_version\<rparr>;
          (st, f) = ss;
          (o1, st) = io_call (journal_close st)
      in case o1 of Inl e \<Rightarrow> (Inl e, st, f)
      | Inr _ \<Rightarrow>
        if length raw > max_journal_bytes (st_config st) then (Inl OversizedMessage, st, f)
        else case replay visit raw 0 0 f of
          (Inl e, f) \<Rightarrow> (Inl e, st, f)
        | (Inr (damaged, off, n), f) \<Rightarrow>
          let report = report\<lparr>rv_journal_records_read := n, rv_journal_records_applied := n\<rparr>;
              damaged_bytes = length raw - off
          in if damaged then
               if intact_after raw off \<and> refuse_on_midfile_damage (st_config st)
               then (Inl CorruptRecord, st, f)
               else if \<not> truncate_damaged_tail (st_config st) then (Inl IntegrityFailure, st, f)
               else (case repair_tail off st of
                       (Inl e, st) \<Rightarrow> (Inl e, st, f)
                     | (Inr _, st) \<Rightarrow>
                         (Inr (report\<lparr>rv_journal_bytes_discarded := damaged_bytes,
                               rv_journal_records_discarded := (if damaged_bytes = 0 then 0 else 1),
                               rv_outcome := RecTailTruncated\<rparr>, off), st, f))
             else (Inr (report\<lparr>rv_outcome :=
                     (if rv_snapshot_loaded report then RecJournalReplayed else RecJournalOnly)\<rparr>,
                     length raw), st, f))"

definition recover ::
  "(snapshot_header \<Rightarrow> 's visitor) \<Rightarrow> 's visitor \<Rightarrow> store \<times> 's \<Rightarrow> recovery_report result \<times> store \<times> 's" where
  "recover snapshot_visitor record_visitor ss =
     (let (st, f) = ss in
      if \<not> st_configured st then (Inl LifecycleViolation, st, f)
      else case io_call st of (Inl e, st) \<Rightarrow> (Inl e, st, f)
      | (Inr _, st) \<Rightarrow>
      case read_file_bounded (disk_snapshot st) (max_snapshot_bytes (st_config st)) st of
        (Inl e, st) \<Rightarrow> (Inl e, st, f)
      | (Inr snapshot_bytes, st) \<Rightarrow>
      case read_file_bounded (disk_journal st) (max_journal_bytes (st_config st)) st of
        (Inl e, st) \<Rightarrow> (Inl e, st, f)
      | (Inr journal_bytes, st) \<Rightarrow>
      let report = recovery_report0\<lparr>rv_durable_state_present :=
                     (snapshot_bytes \<noteq> None \<or> journal_bytes \<noteq> None)\<rparr>
      in case (case snapshot_bytes of
                 Some (b # bs) \<Rightarrow>
                   (case decode_snapshot (b # bs) (max_snapshot_bytes (st_config st)) of
                      Inl e \<Rightarrow> (Inl e, f)
                    | Inr (h, payload) \<Rightarrow>
                        (case snapshot_visitor h payload f of
                           (Inl e, f) \<Rightarrow> (Inl e, f)
                         | (Inr _, f) \<Rightarrow>
                             (Inr (report\<lparr>rv_snapshot_loaded := True,
                                rv_snapshot_integrity_verified := True,
                                rv_snapshot_format_version := sh_format_version h,
                                rv_snapshot_payload_bytes := length payload,
                                rv_durable_epoch := sh_epoch h,
                                rv_previous_boot := sh_boot h\<rparr>), f)))
               | _ \<Rightarrow> (Inr report, f)) of
           (Inl e, f) \<Rightarrow> (Inl e, st, f)
         | (Inr report, f) \<Rightarrow>
             (case (case journal_bytes of
                      Some (b # bs) \<Rightarrow> recover_journal record_visitor (b # bs) report (st, f)
                    | _ \<Rightarrow> (Inr (report\<lparr>rv_outcome :=
                              (if rv_snapshot_loaded report then RecSnapshotOnly else RecCreated)\<rparr>,
                              0), st, f)) of
                (Inl e, st, f) \<Rightarrow> (Inl e, st, f)
              | (Inr (report, recovered), st, f) \<Rightarrow>
                  (Inr report, st\<lparr>st_journal_bytes := recovered,
                     st_recovery_count := st_recovery_count st + 1\<rparr>, f)))"

definition append_record :: "bytes \<Rightarrow> store \<Rightarrow> unit io_result" where
  "append_record payload s =
     (if \<not> st_configured s then (Inl LifecycleViolation, s)
      else try_st
        (if st_writable s then (Inr (), s)
         else try_st (open_append (max_journal_bytes (st_config s)) s)
                (\<lambda>_ s. (Inr (), s\<lparr>st_journal_bytes := st_bytes_written s\<rparr>)))
        (\<lambda>_ s. try_st (journal_append payload s) (\<lambda>_ s.
          try_st (if pc_mode (st_config s) = JournalSync then journal_sync s else (Inr (), s))
            (\<lambda>_ s. (Inr (), s\<lparr>st_journal_bytes := st_bytes_written s\<rparr>)))))"

definition write_snapshot :: "snapshot_header \<Rightarrow> bytes \<Rightarrow> store \<Rightarrow> unit io_result" where
  "write_snapshot header payload s =
     (if \<not> st_configured s then (Inl LifecycleViolation, s)
      else if length payload > max_snapshot_bytes (st_config s) then (Inl SnapshotOversized, s)
      else let effective = header\<lparr>sh_format_version := persistence_format_version\<rparr>;
               image = encode_snapshot effective payload
      in try_st (io_call s) (\<lambda>_ s.
           let s = s\<lparr>disk_snapshot := Some image\<rparr> in
           try_st (io_call s) (\<lambda>_ s.
           try_st (open_append (max_journal_bytes (st_config s)) (journal_close s)) (\<lambda>_ s.
           try_st (journal_truncate_to 0 s) (\<lambda>_ s.
           try_st (journal_sync s) (\<lambda>_ s.
             (Inr (), s\<lparr>st_journal_bytes := 0\<rparr>)))))))"

subsection \<open>Reading and writing frames of the journal\<close>

lemma read_next_decode_frame:
  assumes "off < length data"
  shows "read_next data off =
    (case decode_frame (drop off data) kJournalFrameMagic journal_format_version kMaxJournalRecordBytes of
       Inr (payload, n) \<Rightarrow> Inr (Some (payload, off + n))
     | Inl e \<Rightarrow> Inl (if e = TruncatedMessage then JournalTruncated else e))"
proof (cases "length data - off < 16")
  case True
  with assms show ?thesis
    by (simp add: read_next_def decode_frame_def kFrameHeaderBytes_def)
next
  case False
  then obtain m v n c :: u32 and body where d: "drop off data = le_bytes 4 m @ le_bytes 4 v @
      le_bytes 4 n @ le_bytes 4 c @ body"
    using header_words[of "drop off data"] by auto
  have t: "take 16 (drop off data) = le_bytes 4 m @ le_bytes 4 v @ le_bytes 4 n @ le_bytes 4 c"
    unfolding d by simp
  have b: "drop (off + 16) data = body"
    using arg_cong[OF d, of "drop 16"] by (simp add: add.commute)
  have l: "length data = off + 16 + length body"
    using False arg_cong[OF b, of length] by simp
  have "read_next data off =
     (if m \<noteq> kJournalFrameMagic then Inl CorruptRecord
      else if v \<noteq> journal_format_version then Inl VersionMismatch
      else if unat n > kMaxJournalRecordBytes then Inl OversizedMessage
      else if length body < unat n then Inl JournalTruncated
      else if crc32c (take (unat n) body) \<noteq> c then Inl IntegrityFailure
      else Inr (Some (take (unat n) body, off + (16 + unat n))))"
    unfolding read_next_def kFrameHeaderBytes_def t b using l by (simp add: Let_def)
  then show ?thesis
    unfolding d decode_frame_header
    by (cases "m = kJournalFrameMagic"; cases "v = journal_format_version";
        cases "unat n > kMaxJournalRecordBytes"; cases "length body < unat n";
        cases "crc32c (take (unat n) body) = c"; simp)
qed

lemma length_journal_frame [simp]: "length (journal_frame p) = 16 + length p"
  by (simp add: journal_frame_def length_encode_frame)

lemma read_next_frame:
  assumes "length p \<le> kMaxJournalRecordBytes"
  shows "read_next (pre @ journal_frame p @ post) (length pre) =
    Inr (Some (p, length pre + 16 + length p))"
  using assms decode_of_encode_frame[of p kMaxJournalRecordBytes kJournalFrameMagic
      journal_format_version post]
  by (subst read_next_decode_frame) (simp_all add: journal_frame_def[symmetric] kMaxJournalRecordBytes_def)

lemma read_next_end [simp]: "read_next data (length data) = Inr None"
  by (simp add: read_next_def)

text \<open>A frame cut anywhere reads as a truncated record.\<close>

lemma read_next_torn:
  assumes "length p \<le> kMaxJournalRecordBytes" "0 < k" "k < length (journal_frame p)"
  shows "read_next (pre @ take k (journal_frame p)) (length pre) = Inl JournalTruncated"
proof -
  have n: "unat (of_nat (length p) :: u32) = length p"
    using assms(1) unat_of_nat32[of "length p"] by (simp add: kMaxJournalRecordBytes_def)
  have "decode_frame (take k (journal_frame p)) kJournalFrameMagic journal_format_version
      kMaxJournalRecordBytes = Inl TruncatedMessage"
  proof (cases "k < 16")
    case True
    then show ?thesis by (simp add: decode_frame_def kFrameHeaderBytes_def)
  next
    case False
    then have "take k (journal_frame p) = le_bytes 4 kJournalFrameMagic @
        le_bytes 4 journal_format_version @ le_bytes 4 (of_nat (length p) :: u32) @
        le_bytes 4 (crc32c p) @ take (k - 16) p"
      by (simp add: journal_frame_def encode_frame_conv)
    moreover have "k - 16 < length p" using False assms by simp
    ultimately show ?thesis using assms n by (auto simp: decode_frame_header)
  qed
  with assms show ?thesis by (subst read_next_decode_frame) simp_all
qed

definition journal_image :: "bytes list \<Rightarrow> bytes" where
  "journal_image ps = concat (map journal_frame ps)"

definition record_fits :: "bytes \<Rightarrow> bool" where
  "record_fits p \<longleftrightarrow> length p \<le> kMaxJournalRecordBytes"

text \<open>Applying records one after the other until one is rejected.\<close>

fun visit_all :: "'s visitor \<Rightarrow> bytes list \<Rightarrow> 's \<Rightarrow> void_result \<times> 's" where
  "visit_all visit [] s = (Inr (), s)"
| "visit_all visit (p # ps) s = try_st (visit p s) (\<lambda>_ s. visit_all visit ps s)"

lemma replay_image:
  assumes "list_all record_fits ps"
    and tail: "\<And>n s. replay visit (pre @ journal_image ps @ rest) (length pre + length (journal_image ps)) n s
      = (Inr (dmg, length pre + length (journal_image ps), n), s)"
  shows "replay visit (pre @ journal_image ps @ rest) (length pre) n s =
    (case visit_all visit ps s of
       (Inl e, s) \<Rightarrow> (Inl e, s)
     | (Inr _, s) \<Rightarrow> (Inr (dmg, length pre + length (journal_image ps), n + length ps), s))"
  using assms
proof (induction ps arbitrary: pre n s)
  case Nil
  then show ?case by (simp add: journal_image_def)
next
  case (Cons p ps)
  let ?data = "pre @ journal_image (p # ps) @ rest"
  have d: "?data = (pre @ journal_frame p) @ journal_image ps @ rest"
    by (simp add: journal_image_def)
  have L: "length pre + length (journal_image (p # ps)) =
      length (pre @ journal_frame p) + length (journal_image ps)"
    by (simp add: journal_image_def)
  have "read_next ?data (length pre) = Inr (Some (p, length (pre @ journal_frame p)))"
    using Cons.prems(1) read_next_frame[of p pre "journal_image ps @ rest"]
    by (simp add: d record_fits_def add.assoc)
  moreover have "replay visit ?data (length (pre @ journal_frame p)) (n + 1) s' =
    (case visit_all visit ps s' of
       (Inl e, s) \<Rightarrow> (Inl e, s)
     | (Inr _, s) \<Rightarrow> (Inr (dmg, length pre + length (journal_image (p # ps)), n + 1 + length ps), s))" for s'
    using Cons.IH[of "pre @ journal_frame p" "n + 1" s'] Cons.prems
    by (simp only: d L list.pred_inject)
  ultimately show ?case
    by (subst replay.simps) (auto simp: try_st_def split: sum.splits prod.splits)
qed

subsection \<open>Snapshots\<close>

definition snapshot_head :: "snapshot_header \<Rightarrow> bytes \<Rightarrow> bytes" where
  "snapshot_head h payload = enc (put_snapshot_header h payload)"

lemma length_snapshot_head [simp]: "length (snapshot_head h payload) = 48"
  by (simp add: snapshot_head_def put_snapshot_header_def)

lemma encode_snapshot_conv:
  "encode_snapshot h payload = snapshot_head h payload @ payload @ le_bytes 4 (crc32c payload) @
     le_bytes 4 (crc32c (snapshot_head h payload)) @ le_bytes 4 kSnapshotEndMagic"
proof -
  let ?w = "put_snapshot_header h payload writer0"
  let ?ps = "[put_bytes payload, put_u32 (crc32c payload), put_u32 (crc32c (buffer ?w)),
      put_u32 kSnapshotEndMagic]"
  have w: "?w = writer0\<lparr>buffer := snapshot_head h payload\<rparr>"
    using appendsD[of "put_snapshot_header h payload" writer0]
    by (simp add: put_snapshot_header_def snapshot_head_def) (simp add: writer0_def)
  have "writes ?ps ?w = ?w\<lparr>buffer := buffer ?w @ enc (writes ?ps)\<rparr>"
    by (rule appendsD) (simp_all add: w, simp add: writer0_def)
  then show ?thesis by (simp add: encode_snapshot_def Let_def w)
qed

lemma length_encode_snapshot: "length (encode_snapshot h payload) = 60 + length payload"
  by (simp add: encode_snapshot_conv)

lemma get_snapshot_head:
  "get_snapshot_header (snapshot_head h payload @ r) =
     Some ((kSnapshotFrameMagic, h\<lparr>sh_payload_bytes := of_nat (length payload)\<rparr>), r)"
  by (simp add: snapshot_head_def put_snapshot_header_def get_snapshot_header_def)

lemma decode_snapshot_cases:
  fixes pc hc em :: u32
  assumes "length payload \<le> max_payload" "length payload \<le> 0xFFFFFFFF"
    and "sh_format_version h = persistence_format_version" "length body = length payload"
  shows "decode_snapshot (snapshot_head h payload @ body @ le_bytes 4 pc @ le_bytes 4 hc @
      le_bytes 4 em @ rest) max_payload =
    (if em \<noteq> kSnapshotEndMagic then Inl CorruptRecord
     else if hc \<noteq> crc32c (snapshot_head h payload) then Inl IntegrityFailure
     else if crc32c body \<noteq> pc then Inl IntegrityFailure
     else Inr (h\<lparr>sh_payload_bytes := of_nat (length payload)\<rparr>, body))"
  using assms unat_of_nat32[OF assms(2)]
  by (simp add: decode_snapshot_def get_snapshot_head kSnapshotHeaderBytes_def Let_def
      get_snapshot_trailer_def)

text \<open>C36: snapshots round trip.  A snapshot image of the supported version decodes, within the
  payload bound, to its header (with the payload length filled in) and its payload.\<close>

theorem snapshot_round_trip:
  assumes "length payload \<le> max_payload" "length payload \<le> 0xFFFFFFFF"
    and "sh_format_version h = persistence_format_version"
  shows "decode_snapshot (encode_snapshot h payload) max_payload =
    Inr (h\<lparr>sh_payload_bytes := of_nat (length payload)\<rparr>, payload)"
  using decode_snapshot_cases[OF assms refl, of "crc32c payload" "crc32c (snapshot_head h payload)"
      kSnapshotEndMagic "[]"]
  by (simp add: encode_snapshot_conv)

definition sample_header :: snapshot_header where
  "sample_header = \<lparr>sh_format_version = 1, sh_flags = 0, sh_payload_bytes = 0, sh_epoch = 7,
     sh_boot = \<lparr>bi_hi = 1, bi_lo = 2\<rparr>, sh_record_count = 3\<rparr>"

theorem snapshot_round_trip_witness:
  "decode_snapshot (encode_snapshot sample_header [255, 1, 2]) 64 =
     Inr (sample_header\<lparr>sh_payload_bytes := 3\<rparr>, [255, 1, 2])"
  using snapshot_round_trip[of "[255, 1, 2]" 64 sample_header]
  by (simp add: sample_header_def persistence_format_version_def)

subsection \<open>Replay\<close>

lemma replay_end: "replay visit data (length data) n s = (Inr (False, length data, n), s)"
  by (subst replay.simps) simp

lemma replay_damage:
  "read_next data off = Inl e \<Longrightarrow> is_damage e \<Longrightarrow> replay visit data off n s = (Inr (True, off, n), s)"
  by (subst replay.simps) simp

text \<open>A journal replays completely and in order.  Replaying the concatenated frames of any
  records within the record bound hands the visitor each payload once, in the order written,
  stops with the first error the visitor returns, and otherwise ends undamaged at the end.\<close>

theorem replay_journal_image:
  assumes "list_all record_fits ps"
  shows "replay visit (journal_image ps) 0 0 s =
    (case visit_all visit ps s of
       (Inl e, s) \<Rightarrow> (Inl e, s)
     | (Inr _, s) \<Rightarrow> (Inr (False, length (journal_image ps), length ps), s))"
  using replay_image[OF assms, of visit "[]" "[]" False 0 s] replay_end[of visit "journal_image ps"]
  by (simp split: prod.splits sum.splits)

theorem replay_journal_image_witness:
  "replay (\<lambda>p acc. (Inr (), acc @ [p])) (journal_image [[1], [2, 3]]) 0 0 [] =
     (Inr (False, length (journal_image [[1], [2, 3]]), 2), [[1], [2, 3]])"
  using replay_journal_image[of "[[1], [2, 3]]" "\<lambda>p acc. (Inr (), acc @ [p])" "[]"]
  by (simp add: record_fits_def kMaxJournalRecordBytes_def)

lemma replay_torn:
  assumes "list_all record_fits ps" "record_fits p" "0 < k" "k < length (journal_frame p)"
  shows "replay visit (journal_image ps @ take k (journal_frame p)) 0 0 s =
    (case visit_all visit ps s of
       (Inl e, s) \<Rightarrow> (Inl e, s)
     | (Inr _, s) \<Rightarrow> (Inr (True, length (journal_image ps), length ps), s))"
proof -
  have "read_next (journal_image ps @ take k (journal_frame p)) (length (journal_image ps))
      = Inl JournalTruncated"
    using assms by (intro read_next_torn) (simp_all add: record_fits_def)
  then have "replay visit (journal_image ps @ take k (journal_frame p)) (length (journal_image ps)) n s
      = (Inr (True, length (journal_image ps), n), s)" for n s
    by (rule replay_damage) (simp add: is_damage_def)
  then show ?thesis
    using replay_image[OF assms(1), of visit "[]" "take k (journal_frame p)" True 0 s]
    by (simp split: prod.splits sum.splits)
qed

subsection \<open>Repair and append\<close>

lemma io_call_ok [simp]: "io_script s = [] \<Longrightarrow> io_call s = (Inr (), s)"
  by (simp add: io_call_def next_io_def)

lemma repair_tail_ok:
  assumes "io_script s = []" "off \<le> length (journal_content s)"
  shows "\<exists>s'. repair_tail off s = (Inr (), s') \<and> disk_journal s' = Some (take off (journal_content s))"
  using assms
  by (auto simp: repair_tail_def open_append_def journal_close_def journal_truncate_to_def
      journal_sync_def Let_def journal_content_def split: option.splits)

text \<open>C37: a torn tail is discarded at the last intact record.  When the journal holds the
  records ps followed by a cut-off frame of an interrupted append, recovery (with tail truncation
  enabled, no intact frame hidden in the torn bytes, and a working file system) applies exactly
  ps and leaves exactly their frames on disk.\<close>

theorem torn_tail_recovers:
  assumes "list_all record_fits ps" "record_fits p" "0 < k" "k < length (journal_frame p)"
    and "raw = journal_image ps @ take k (journal_frame p)"
    and "\<not> intact_after raw (length (journal_image ps))"
    and "visit_all visit ps f = (Inr (), f')"
    and "disk_journal st = Some raw" "io_script st = []" "truncate_damaged_tail (st_config st)"
    and "length raw \<le> max_journal_bytes (st_config st)"
  shows "\<exists>report st'. recover_journal visit raw report0 (st, f) =
      (Inr (report, length (journal_image ps)), st', f') \<and>
    rv_outcome report = RecTailTruncated \<and> rv_journal_records_applied report = length ps \<and>
    rv_journal_bytes_discarded report = k \<and> disk_journal st' = Some (journal_image ps)"
proof -
  let ?st = "journal_close st"
  have rep: "replay visit raw 0 0 f = (Inr (True, length (journal_image ps), length ps), f')"
    using replay_torn[OF assms(1-4), of visit f] assms(5,7) by simp
  obtain st' where r: "repair_tail (length (journal_image ps)) ?st = (Inr (), st')"
    "disk_journal st' = Some (journal_image ps)"
    using repair_tail_ok[of ?st "length (journal_image ps)"] assms(5,8,9)
    by (auto simp: journal_content_def journal_close_def)
  have "min k (16 + length p) = k" using assms(4) by simp
  then show ?thesis
    using assms rep r by (simp add: recover_journal_def Let_def journal_close_def)
qed

theorem torn_tail_recovers_witness:
  "\<exists>report st'. recover_journal (\<lambda>p acc. (Inr (), acc @ [p])) (journal_image [[1]] @ take 3 (journal_frame [9]))
      recovery_report0 (store0\<lparr>disk_journal := Some (journal_image [[1]] @ take 3 (journal_frame [9]))\<rparr>, []) =
      (Inr (report, length (journal_image [[1]])), st', [[1]]) \<and>
    rv_outcome report = RecTailTruncated \<and> rv_journal_records_applied report = length [[1 :: u8]] \<and>
    rv_journal_bytes_discarded report = 3 \<and> disk_journal st' = Some (journal_image [[1]])"
  by (rule torn_tail_recovers[where p = "[9]"])
     (auto simp: record_fits_def kMaxJournalRecordBytes_def store0_def persistence_config0_def
       journal_image_def intact_after_def kFrameHeaderBytes_def)

lemma open_append_content:
  "open_append m s = (r, s') \<Longrightarrow> journal_content s' = journal_content s \<and>
     disk_snapshot s' = disk_snapshot s \<and> st_config s' = st_config s \<and> (r = Inr () \<longrightarrow> st_writable s')"
  by (auto simp: open_append_def journal_close_def io_call_def next_io_def Let_def journal_content_def
      split: io.splits list.splits option.splits)

lemma journal_append_content:
  assumes "journal_append p s = (r, s')"
  shows "\<exists>k. journal_content s' = journal_content s @ take k (journal_frame p) \<and>
     (r = Inr () \<longrightarrow> k = length (journal_frame p))"
    and "disk_snapshot s' = disk_snapshot s"
proof -
  have none: "\<exists>k. journal_content s' = journal_content s @ take k (journal_frame p) \<and>
     (r = Inr () \<longrightarrow> k = length (journal_frame p))"
    if "journal_content s' = journal_content s" "r \<noteq> Inr ()"
    using that by (intro exI[of _ 0]) simp
  show "\<exists>k. journal_content s' = journal_content s @ take k (journal_frame p) \<and>
     (r = Inr () \<longrightarrow> k = length (journal_frame p))"
    using assms none
    by (auto simp: journal_append_def next_io_def Let_def journal_content_def
        split: if_splits io.splits list.splits option.splits)
  show "disk_snapshot s' = disk_snapshot s"
    using assms by (auto simp: journal_append_def next_io_def Let_def
        split: if_splits io.splits list.splits)
qed

lemma journal_sync_content:
  "journal_sync s = (r, s') \<Longrightarrow> journal_content s' = journal_content s \<and> disk_snapshot s' = disk_snapshot s"
  by (auto simp: journal_sync_def io_call_def next_io_def journal_content_def try_st_def
      split: if_splits io.splits list.splits)

text \<open>How a call may change the journal while appending a frame: it may add a prefix of it, and
  success means all of it.\<close>

definition extends :: "bytes \<Rightarrow> store \<Rightarrow> void_result \<times> store \<Rightarrow> bool" where
  "extends frame s m \<longleftrightarrow>
     (\<exists>k. journal_content (snd m) = journal_content s @ take k frame \<and>
        disk_snapshot (snd m) = disk_snapshot s \<and> (fst m = Inr () \<longrightarrow> k \<ge> length frame))"

lemma extendsI_error:
  "journal_content s' = journal_content s \<Longrightarrow> disk_snapshot s' = disk_snapshot s \<Longrightarrow>
     extends frame s (Inl e, s')"
  by (auto simp: extends_def intro: exI[of _ 0])

lemma extends_append: "extends (journal_frame p) s (journal_append p s)"
proof -
  obtain r s' where a: "journal_append p s = (r, s')" by (metis surj_pair)
  from journal_append_content[OF this] show ?thesis by (auto simp: extends_def a)
qed

definition keeps_disk :: "store \<Rightarrow> void_result \<times> store \<Rightarrow> bool" where
  "keeps_disk s m \<longleftrightarrow> journal_content (snd m) = journal_content s \<and> disk_snapshot (snd m) = disk_snapshot s"

lemma keeps_disk_intros [intro]:
  "keeps_disk s (r, s)"
  "keeps_disk s (r, s\<lparr>st_journal_bytes := n\<rparr>)"
  "keeps_disk s (open_append k s)"
  "keeps_disk s (journal_sync s)"
  using open_append_content[of k s] journal_sync_content[of s]
  by (auto simp: keeps_disk_def journal_content_def) (metis prod.collapse)+

lemma keeps_disk_try [intro]:
  assumes "keeps_disk s m" "\<And>x t. keeps_disk t (f x t)"
  shows "keeps_disk s (try_st m f)"
proof (cases m)
  case (Pair r t)
  with assms show ?thesis by (cases r) (fastforce simp: keeps_disk_def)+
qed

lemma extends_then_keeping:
  assumes "extends frame s m" "\<And>x t. keeps_disk t (f x t)"
  shows "extends frame s (try_st m f)"
proof (cases m)
  case (Pair r t)
  with assms show ?thesis by (cases r) (auto simp: extends_def keeps_disk_def)
qed

lemma keeping_then_extends:
  assumes "keeps_disk s m" "\<And>x t. extends frame t (f x t)"
  shows "extends frame s (try_st m f)"
proof (cases m)
  case (Pair r t)
  show ?thesis
  proof (cases r)
    case (Inl e)
    with Pair assms(1) show ?thesis by (auto intro: extendsI_error simp: keeps_disk_def)
  next
    case (Inr x)
    with Pair assms(1) assms(2)[of t x] show ?thesis by (simp add: extends_def keeps_disk_def)
  qed
qed

lemma append_record_extends_frame:
  "extends (journal_frame p) s (append_record p s)"
proof (cases "st_configured s")
  case True
  show ?thesis
    unfolding append_record_def using True
    by (simp only: if_False simp_thms)
       (rule keeping_then_extends extends_then_keeping extends_append
         | (split if_split, intro conjI impI) | rule keeps_disk_intros keeps_disk_try)+
qed (simp add: append_record_def extendsI_error)

text \<open>The journal is append-only and acknowledges only complete records.  Whatever the file
  system answers, append_record leaves the previous bytes of the journal in place, followed by a
  prefix of the record's frame, leaves the snapshot alone, and returns success only if the whole
  frame was written.\<close>

theorem append_record_extends:
  "\<exists>k. journal_content (snd (append_record p s)) = journal_content s @ take k (journal_frame p) \<and>
     disk_snapshot (snd (append_record p s)) = disk_snapshot s \<and>
     (fst (append_record p s) = Inr () \<longrightarrow> k \<ge> length (journal_frame p))"
  using append_record_extends_frame[of p s] by (simp add: extends_def)

theorem append_record_extends_witness:
  "fst (append_record [5] (store0\<lparr>st_configured := True\<rparr>)) = Inr () \<and>
   journal_content (snd (append_record [5] (store0\<lparr>st_configured := True\<rparr>))) = journal_frame [5]"
proof -
  have "fst (append_record [5] (store0\<lparr>st_configured := True\<rparr>)) = Inr ()"
    by (simp add: append_record_def open_append_def journal_append_def journal_close_def store0_def
        persistence_config0_def next_io_def Let_def kMaxJournalRecordBytes_def kFrameHeaderBytes_def)
  with append_record_extends[of "[5]" "store0\<lparr>st_configured := True\<rparr>"] show ?thesis
    by (auto simp: journal_content_def store0_def)
qed

subsection \<open>Two ways to lose a journal or a snapshot\<close>

lemma magic_bytes: "le_bytes 4 kJournalFrameMagic = [0x31, 0x4A, 0x46, 0x42]"
  by (simp add: le_bytes_def kJournalFrameMagic_def upt_rec)

lemma frame_starts: "journal_frame p = [0x31, 0x4A, 0x46, 0x42] @ drop 4 (journal_frame p)"
  by (simp add: journal_frame_def encode_frame_conv magic_bytes)

lemma decode_frame_bad_magic:
  assumes "16 \<le> length data" "take 4 data \<noteq> le_bytes 4 magic"
  shows "decode_frame data magic version mx = Inl CorruptRecord"
proof -
  obtain m v n c :: u32 and body where d: "data = le_bytes 4 m @ le_bytes 4 v @ le_bytes 4 n @ le_bytes 4 c @ body"
    using header_words[OF assms(1)] by blast
  with assms(2) have "m \<noteq> magic" by auto
  then show ?thesis unfolding d decode_frame_header by simp
qed

lemma frame_at_frame:
  assumes "record_fits q"
  shows "frame_at (pre @ journal_frame q @ post) (length pre)"
proof -
  have n: "unat (of_nat (length q) :: u32) = length q"
    using assms unat_of_nat32[of "length q"] by (simp add: record_fits_def kMaxJournalRecordBytes_def)
  have t: "take 16 (journal_frame q) = le_bytes 4 kJournalFrameMagic @
      le_bytes 4 journal_format_version @ le_bytes 4 (of_nat (length q) :: u32) @ le_bytes 4 (crc32c q)"
    by (simp add: journal_frame_def encode_frame_conv)
  have b: "drop 16 (journal_frame q) = q" by (simp add: journal_frame_def encode_frame_conv)
  show ?thesis by (simp add: frame_at_def kFrameHeaderBytes_def t n b)
qed

lemma poisoned_journal:
  assumes "list_all record_fits ps" "record_fits q" "visit_all visit ps f = (Inr (), f')"
    and "raw = journal_image ps @ [0x31] @ journal_frame q"
  shows "replay visit raw 0 0 f = (Inr (True, length (journal_image ps), length ps), f')"
    and "intact_after raw (length (journal_image ps))"
proof -
  have "take 4 (drop (length (journal_image ps)) raw) = [0x31, 0x31, 0x4A, 0x46]"
    unfolding assms(4) by (subst frame_starts[of q]) simp
  then have "decode_frame (drop (length (journal_image ps)) raw) kJournalFrameMagic
      journal_format_version kMaxJournalRecordBytes = Inl CorruptRecord"
    by (intro decode_frame_bad_magic) (simp_all add: assms(4) magic_bytes)
  then have "read_next raw (length (journal_image ps)) = Inl CorruptRecord"
    by (subst read_next_decode_frame) (simp_all add: assms(4))
  then have tail: "replay visit raw (length (journal_image ps)) n s
      = (Inr (True, length (journal_image ps), n), s)" for n s
    by (rule replay_damage) (simp add: is_damage_def)
  have "replay visit raw 0 0 f = (case visit_all visit ps f of
       (Inl e, s) \<Rightarrow> (Inl e, s)
     | (Inr _, s) \<Rightarrow> (Inr (True, length ([] :: bytes) + length (journal_image ps), 0 + length ps), s))"
    using replay_image[OF assms(1), of visit "[]" "[0x31] @ journal_frame q" True 0 f] tail
    by (simp only: assms(4) append_Nil list.size add_0)
  then show "replay visit raw 0 0 f = (Inr (True, length (journal_image ps), length ps), f')"
    by (simp add: assms(3))
  show "intact_after raw (length (journal_image ps))"
    using frame_at_frame[OF assms(2), of "journal_image ps @ [0x31]" "[]"]
    by (auto simp: intact_after_def assms(4) list_ex_iff kFrameHeaderBytes_def
        intro!: bexI[of _ "Suc (length (journal_image ps))"])
qed

text \<open>C38: a short write poisons the journal.  An open journal holds the records ps and has room for two more.  If one append writes
  a single byte of its frame and fails (a full disk), the writer does not remove that byte; the next append is
  acknowledged as durable, yet recovery of the resulting journal is refused as mid-file corruption.\<close>

theorem short_write_poisons_journal:
  assumes "list_all record_fits ps" "record_fits p" "record_fits q"
    and "visit_all visit ps f = (Inr (), f')"
    and "st_configured s" "st_writable s" "st_max_bytes s = max_journal_bytes (st_config s)"
    and "disk_journal s = Some (journal_image ps)" "st_bytes_written s = length (journal_image ps)"
    and "io_script s = [IoShort 1]" "refuse_on_midfile_damage (st_config s)"
    and "length (journal_image ps) + 17 + max (length p) (length q) \<le> max_journal_bytes (st_config s)"
  shows "\<exists>s1 s2. append_record p s = (Inl PersistenceError, s1) \<and>
     append_record q s1 = (Inr (), s2) \<and>
     fst (recover_journal visit (journal_content s2) report (s2, f)) = Inl CorruptRecord"
proof -
  let ?raw = "journal_image ps @ [0x31] @ journal_frame q"
  have one: "take (min (Suc 0) (15 + length p)) (journal_frame p) = [0x31]"
    by (subst frame_starts) simp
  define s1 where "s1 = s\<lparr>io_script := [], disk_journal := Some (journal_image ps @ [0x31])\<rparr>"
  have a1: "append_record p s = (Inl PersistenceError, s1)"
    using assms(2,5-10,12) one
    by (simp add: append_record_def journal_append_def next_io_def record_fits_def Let_def s1_def kFrameHeaderBytes_def)
  have room: "\<not> max_journal_bytes (st_config s) < length (journal_image ps) + 16 + length q" using assms(12) by linarith
  obtain s2 where a2: "append_record q s1 = (Inr (), s2)" "journal_content s2 = ?raw"
    "io_script s2 = []" "st_config s2 = st_config s"
    using assms(3,5-10) room
    by (cases "pc_mode (st_config s) = JournalSync")
      (auto simp: append_record_def journal_append_def next_io_def record_fits_def Let_def s1_def kFrameHeaderBytes_def
        journal_sync_def journal_content_def)
  have "fst (recover_journal visit ?raw report (s2, f)) = Inl CorruptRecord"
    using poisoned_journal[OF assms(1,3,4) refl] a2 assms(11,12)
    by (simp add: recover_journal_def Let_def journal_close_def)
  with a1 a2 show ?thesis by (intro exI[of _ s1] exI[of _ s2]) simp
qed

text \<open>A store that was configured and has appended a record; the calls after it are answered by a short write and then by success.\<close>

definition short_config :: persistence_config where
  "short_config = persistence_config0\<lparr>pc_directory := ''state'', pc_mode := JournalSync\<rparr>"

definition short_store :: store where
  "short_store = snd (append_record [7] (snd (configure short_config (store0\<lparr>io_script := [IoOk, IoOk, IoOk, IoShort 1]\<rparr>))))"

lemma short_store_state:
  "st_configured short_store" "st_writable short_store" "st_max_bytes short_store = max_journal_bytes (st_config short_store)"
  "disk_journal short_store = Some (journal_image [[7]])" "st_bytes_written short_store = length (journal_image [[7]])"
  "io_script short_store = [IoShort 1]" "st_config short_store = short_config"
  by (simp_all add: short_store_def short_config_def configure_def persistence_validate_def append_record_def open_append_def journal_append_def journal_close_def store0_def
      persistence_config0_def io_call_def next_io_def Let_def kMaxJournalRecordBytes_def kFrameHeaderBytes_def kMaxSnapshotBytes_def journal_sync_def
      journal_image_def)

theorem short_write_poisons_journal_witness:
  "\<exists>s1 s2. append_record [1] short_store = (Inl PersistenceError, s1) \<and> append_record [2] s1 = (Inr (), s2) \<and>
     fst (recover_journal (\<lambda>p acc. (Inr (), acc @ [p])) (journal_content s2) recovery_report0 (s2, [])) =
       Inl CorruptRecord"
  by (rule short_write_poisons_journal[where ps = "[[7]]" and f' = "[[7]]"])
     (simp_all add: short_store_state record_fits_def kMaxJournalRecordBytes_def, simp_all add: short_config_def persistence_config0_def journal_image_def)

text \<open>C39: a snapshot that is accepted for writing may be refused when read.  write_snapshot
  bounds the payload, recover bounds the whole container, which is sixty bytes longer: a payload
  within the last sixty bytes of the bound is written durably, the journal it replaces is cut,
  and the next recovery refuses the file as oversized.\<close>

theorem oversized_snapshot_strands_store:
  assumes "st_configured s" "io_script s = []"
    and "length payload \<le> max_snapshot_bytes (st_config s)"
    and "max_snapshot_bytes (st_config s) < length payload + 60"
  shows "\<exists>s'. write_snapshot h payload s = (Inr (), s') \<and> disk_journal s' = Some [] \<and>
     fst (recover sv rv (s', f)) = Inl OversizedMessage"
proof -
  obtain s' where w: "write_snapshot h payload s = (Inr (), s')" "disk_journal s' = Some []"
    "disk_snapshot s' = Some (encode_snapshot (h\<lparr>sh_format_version := persistence_format_version\<rparr>) payload)"
    "io_script s' = []" "st_config s' = st_config s" "st_configured s'"
    using assms(1-3)
    by (auto simp: write_snapshot_def open_append_def journal_close_def journal_truncate_to_def
        journal_sync_def Let_def)
  then have "fst (recover sv rv (s', f)) = Inl OversizedMessage"
    using assms(4) by (simp add: recover_def read_file_bounded_def length_encode_snapshot)
  with w show ?thesis by blast
qed

theorem oversized_snapshot_strands_store_witness:
  "\<exists>s'. write_snapshot sample_header [255, 0] (store0\<lparr>st_configured := True,
       st_config := persistence_config0\<lparr>max_snapshot_bytes := 2\<rparr>\<rparr>) = (Inr (), s') \<and>
     disk_journal s' = Some [] \<and>
     fst (recover (\<lambda>h p acc. (Inr (), acc)) (\<lambda>p acc. (Inr (), acc @ [p])) (s', [])) = Inl OversizedMessage"
  by (rule oversized_snapshot_strands_store) (simp_all add: store0_def persistence_config0_def)

end
