(* ===== verification/Backend.thy ===== *)
theory Backend
  imports Types
begin

text \<open>
  Capacity authority and the backends that ship with the runtime: include/buffer_fabric/backend.hpp
  and src/backend.cpp.  A backend attached by an embedder is code outside the repository; the
  fabric model takes its answers as arguments.  The contract that the runtime relies on (an
  answered query is about the resource that was asked for, and programming hooks change no
  capacity) is the locale capacity_source, met by the null and by the synthetic backend.
\<close>

datatype backend_kind = NullKind | SyntheticKind | DeviceKind

primrec to_string_backend :: "backend_kind \<Rightarrow> string" where
  "to_string_backend NullKind = ''null''"
| "to_string_backend SyntheticKind = ''synthetic''"
| "to_string_backend DeviceKind = ''device''"

record capacity_authority =
  ca_resource :: resource_id
  ca_backend :: backend_id
  ca_generation :: generation
  ca_raw_units :: u64
  ca_observed_at :: tick
  authoritative :: bool

definition ca_usable :: "capacity_authority \<Rightarrow> bool" where
  "ca_usable a = (authoritative a \<and> valid (ca_resource a) \<and> valid (ca_generation a))"

subsection \<open>The defaults of IBackend and the null backend\<close>

definition default_program_reservation :: "resource_id \<Rightarrow> u64 \<Rightarrow> generation \<Rightarrow> 'b \<Rightarrow> void_result \<times> 'b" where
  "default_program_reservation resource units expected b = (Inl Unsupported, b)"

definition default_program_release :: "resource_id \<Rightarrow> u64 \<Rightarrow> 'b \<Rightarrow> void_result \<times> 'b" where
  "default_program_release resource units b = (Inl Unsupported, b)"

definition null_query_capacity :: "unit \<Rightarrow> resource_id \<Rightarrow> capacity_authority result" where
  "null_query_capacity b resource = Inl Unsupported"

subsection \<open>The synthetic backend\<close>

record resource_entry =
  re_raw_units :: u64
  re_generation :: generation
  re_ready :: bool

record effect_log =
  el_reservation_calls :: u64
  el_release_calls :: u64
  el_reservation_units :: u64
  el_release_units :: u64
  el_stale_generation_rejections :: u64
  el_unsupported_calls :: u64

definition effect_log0 :: effect_log where
  "effect_log0 = \<lparr>el_reservation_calls = 0, el_release_calls = 0, el_reservation_units = 0,
     el_release_units = 0, el_stale_generation_rejections = 0, el_unsupported_calls = 0\<rparr>"

record synthetic_backend =
  sb_id :: backend_id
  sb_generation :: generation
  sb_name :: string
  sb_ready :: bool
  sb_resources :: "(u64 \<times> resource_entry) list"
  sb_effects :: effect_log

definition synthetic_new :: "backend_id \<Rightarrow> generation \<Rightarrow> string \<Rightarrow> synthetic_backend" where
  "synthetic_new i g n = \<lparr>sb_id = i, sb_generation = g, sb_name = n, sb_ready = True,
     sb_resources = [], sb_effects = effect_log0\<rparr>"

definition set_resource :: "resource_id \<Rightarrow> u64 \<Rightarrow> generation \<Rightarrow> synthetic_backend \<Rightarrow> synthetic_backend" where
  "set_resource resource raw g b = b\<lparr>sb_resources := AList.update resource
     \<lparr>re_raw_units = raw, re_generation = g, re_ready = True\<rparr> (sb_resources b)\<rparr>"

definition remove_resource :: "resource_id \<Rightarrow> synthetic_backend \<Rightarrow> synthetic_backend" where
  "remove_resource resource b = b\<lparr>sb_resources := AList.delete resource (sb_resources b)\<rparr>"

definition synthetic_query_capacity :: "synthetic_backend \<Rightarrow> resource_id \<Rightarrow> capacity_authority result" where
  "synthetic_query_capacity b resource =
     (if \<not> sb_ready b then Inl BackendNotReady
      else if \<not> valid resource then Inl InvalidArgument
      else case map_of (sb_resources b) resource of
        None \<Rightarrow> Inl UnknownResource
      | Some r \<Rightarrow> Inr \<lparr>ca_resource = resource, ca_backend = sb_id b,
          ca_generation = re_generation r, ca_raw_units = re_raw_units r, ca_observed_at = 0,
          authoritative = (re_ready r \<and> valid (re_generation r))\<rparr>)"

definition synthetic_program_reservation ::
  "resource_id \<Rightarrow> u64 \<Rightarrow> generation \<Rightarrow> synthetic_backend \<Rightarrow> void_result \<times> synthetic_backend" where
  "synthetic_program_reservation resource units expected b =
     (let l = sb_effects b;
          l = l\<lparr>el_reservation_calls := el_reservation_calls l + 1,
                el_reservation_units := el_reservation_units l + units\<rparr>
      in if valid expected \<and> expected \<noteq> sb_generation b
         then (Inl StaleGeneration, b\<lparr>sb_effects :=
                 l\<lparr>el_stale_generation_rejections := el_stale_generation_rejections l + 1\<rparr>\<rparr>)
         else (Inl Unsupported, b\<lparr>sb_effects := l\<lparr>el_unsupported_calls := el_unsupported_calls l + 1\<rparr>\<rparr>))"

definition synthetic_program_release ::
  "resource_id \<Rightarrow> u64 \<Rightarrow> synthetic_backend \<Rightarrow> void_result \<times> synthetic_backend" where
  "synthetic_program_release resource units b =
     (let l = sb_effects b
      in (Inl Unsupported, b\<lparr>sb_effects := l\<lparr>el_release_calls := el_release_calls l + 1,
            el_release_units := el_release_units l + units,
            el_unsupported_calls := el_unsupported_calls l + 1\<rparr>\<rparr>))"

definition clear_effects :: "synthetic_backend \<Rightarrow> synthetic_backend" where
  "clear_effects b = b\<lparr>sb_effects := effect_log0\<rparr>"

subsection \<open>The contract of a capacity source\<close>

locale capacity_source =
  fixes query :: "'b \<Rightarrow> resource_id \<Rightarrow> capacity_authority result"
    and program :: "resource_id \<Rightarrow> u64 \<Rightarrow> generation \<Rightarrow> 'b \<Rightarrow> void_result \<times> 'b"
    and unprogram :: "resource_id \<Rightarrow> u64 \<Rightarrow> 'b \<Rightarrow> void_result \<times> 'b"
  assumes query_about: "query b r = Inr a \<Longrightarrow> ca_resource a = r"
    and program_keeps: "query (snd (program r u g b)) = query b"
    and unprogram_keeps: "query (snd (unprogram r u b)) = query b"
begin

text \<open>A sequence of programming calls, each a reservation or a release.\<close>

fun effects_run :: "(resource_id \<times> u64 \<times> generation option) list \<Rightarrow> 'b \<Rightarrow> 'b" where
  "effects_run [] b = b"
| "effects_run ((r, u, Some g) # es) b = effects_run es (snd (program r u g b))"
| "effects_run ((r, u, None) # es) b = effects_run es (snd (unprogram r u b))"

lemma effects_keep_capacity: "query (effects_run es b) = query b"
  by (induction es b rule: effects_run.induct) (simp_all add: program_keeps unprogram_keeps)

lemma usable_after_effects:
  "query (effects_run es b) r = Inr a \<Longrightarrow> query b r = Inr a \<and> ca_resource a = r"
  using query_about effects_keep_capacity by metis

end

interpretation null_source: capacity_source null_query_capacity default_program_reservation
  default_program_release
  by unfold_locales (simp_all add: null_query_capacity_def)

interpretation synthetic_source: capacity_source synthetic_query_capacity
  synthetic_program_reservation synthetic_program_release
proof unfold_locales
  fix b :: synthetic_backend and r a
  assume "synthetic_query_capacity b r = Inr a"
  then show "ca_resource a = r"
    by (auto simp: synthetic_query_capacity_def split: if_splits option.splits)
next
  fix b :: synthetic_backend and r u g
  have "synthetic_query_capacity (b\<lparr>sb_effects := l\<rparr>) = synthetic_query_capacity b" for l
    by (rule ext) (simp add: synthetic_query_capacity_def split: option.split)
  then show "synthetic_query_capacity (snd (synthetic_program_reservation r u g b)) =
      synthetic_query_capacity b"
    and "synthetic_query_capacity (snd (synthetic_program_release r u b)) = synthetic_query_capacity b"
    by (simp_all add: synthetic_program_reservation_def synthetic_program_release_def Let_def)
qed

text \<open>A synthetic backend vouches for exactly what was declared.  After any sequence of
  programming calls a query for a declared resource answers with the declared units and
  generation, usable when the generation is valid, and a removed resource is unknown.\<close>

theorem synthetic_capacity_as_declared:
  assumes "sb_ready b" "valid r"
  shows "synthetic_query_capacity (synthetic_source.effects_run es (set_resource r raw g b)) r =
      Inr \<lparr>ca_resource = r, ca_backend = sb_id b, ca_generation = g, ca_raw_units = raw,
           ca_observed_at = 0, authoritative = valid g\<rparr> \<and>
    synthetic_query_capacity (synthetic_source.effects_run es (remove_resource r b)) r = Inl UnknownResource"
  using assms
  by (simp add: synthetic_source.effects_keep_capacity synthetic_query_capacity_def
      set_resource_def remove_resource_def)

theorem synthetic_capacity_as_declared_witness:
  "synthetic_query_capacity (synthetic_source.effects_run [(7, 3, Some 9), (7, 3, None)]
       (set_resource 7 64 2 (synthetic_new 1 1 ''lab''))) 7 =
     Inr \<lparr>ca_resource = 7, ca_backend = 1, ca_generation = 2, ca_raw_units = 64,
          ca_observed_at = 0, authoritative = True\<rparr>"
  using synthetic_capacity_as_declared[of "synthetic_new 1 1 ''lab''" 7 "[(7, 3, Some 9), (7, 3, None)]" 64 2]
  by (simp add: synthetic_new_def valid_def)

end
