(* ===== verification/Fabric_State.thy ===== *)
theory Fabric_State
  imports Persistence Backend
begin

text \<open>
  The authoritative state of the runtime (src/fabric_impl.hpp) and the plumbing every operation
  shares (src/fabric.cpp and the head of src/fabric_topology.cpp): lookups, the accounting view,
  the recomputation of the aggregates, attempt de-duplication, the decision history, the event
  buffer, journaling, snapshots, recovery and the life cycle.

  The local vector of events that a public operation collects under the lock and publishes
  after it is the field fb_events; an attached sink is the list of the events it received
  (fb_sink).  The clock is an argument: its reading is stored by take_lock.  The pointer
  into the pool table that the code holds is the key of the pool, looked up again after each
  write, so that aliasing between a pool and its lender is the aliasing of the code.
\<close>

subsection \<open>State\<close>

record pool_entry =
  en_descriptor :: pool_descriptor
  en_capacity_generation :: generation
  en_runtime :: pool_runtime
  en_reserved_units :: u64
  en_committed_units :: u64
  en_pinned_units :: u64
  en_reclaimable_units :: u64
  en_own_usage :: u64
  en_borrowed_in :: u64
  en_lent_out :: u64
  en_queue_committed :: "(u64 \<times> u64) list"
  en_queue_reserved :: "(u64 \<times> u64) list"
  en_members :: "u64 list"

definition entry_of :: "pool_descriptor \<Rightarrow> generation \<Rightarrow> pool_entry" where
  "entry_of d g = \<lparr>en_descriptor = d, en_capacity_generation = g, en_runtime = pool_runtime0,
     en_reserved_units = 0, en_committed_units = 0, en_pinned_units = 0, en_reclaimable_units = 0,
     en_own_usage = 0, en_borrowed_in = 0, en_lent_out = 0, en_queue_committed = [],
     en_queue_reserved = [], en_members = []\<rparr>"

definition allocated :: "pool_entry \<Rightarrow> u64" where
  "allocated e = en_reserved_units e + en_committed_units e"

definition en_usable :: "pool_entry \<Rightarrow> u64" where
  "en_usable e = usable_units (en_descriptor e)"

definition en_overcommit_used :: "pool_entry \<Rightarrow> u64" where
  "en_overcommit_used e =
     (if en_own_usage e > en_usable e then en_own_usage e - en_usable e else 0)"

definition en_free_units :: "pool_entry \<Rightarrow> u64" where
  "en_free_units e = en_usable e + en_overcommit_used e - en_own_usage e"

record capacity_entry =
  ce_resource :: resource_id
  ce_backend :: backend_id
  ce_generation :: generation
  ce_raw_units :: u64
  ce_observed_at :: tick

record pressure_entry =
  px_history :: "pressure_snapshot list"
  px_latest :: "pressure_snapshot option"
  px_latest_revalidated :: bool

definition pressure_entry0 :: pressure_entry where
  "pressure_entry0 = \<lparr>px_history = [], px_latest = None, px_latest_revalidated = False\<rparr>"

record backend_entry =
  be_kind :: backend_kind
  be_generation :: generation
  be_ready :: bool

record fabric_config =
  cf_persistence :: persistence_config
  decision_history_capacity :: nat
  attempt_memory_capacity :: nat
  verify_accounting_on_mutation :: bool
  strict_generation_binding :: bool
  refuse_work_after_shutdown :: bool
  pressure_history_capacity :: nat
  max_inspection_rows :: nat
  auto_fence_on_queue_retirement :: bool
  program_backend_effects :: bool

definition fabric_config0 :: fabric_config where
  "fabric_config0 = \<lparr>cf_persistence = persistence_config0, decision_history_capacity = 4096,
     attempt_memory_capacity = kMaxAttemptMemory, verify_accounting_on_mutation = True,
     strict_generation_binding = True, refuse_work_after_shutdown = True,
     pressure_history_capacity = 64, max_inspection_rows = 65536,
     auto_fence_on_queue_retirement = True, program_backend_effects = False\<rparr>"

record fabric =
  fb_tick :: tick
  fb_config :: fabric_config
  fb_open :: bool
  fb_shutting_down :: bool
  fb_epoch :: epoch_id
  fb_boot :: boot_incarnation
  next_pool_id :: u64
  next_queue_id :: u64
  next_allocation_id :: u64
  next_policy_id :: u64
  next_snapshot_id :: u64
  next_attempt_sequence :: u64
  next_decision_sequence :: u64
  fb_backends :: "(u64 \<times> backend_entry) list"
  fb_capacities :: "(u64 \<times> capacity_entry) list"
  fb_policies :: "(u64 \<times> pool_policy) list"
  fb_policy_names :: "(string \<times> u64) list"
  fb_pools :: "(u64 \<times> pool_entry) list"
  fb_pool_names :: "(string \<times> u64) list"
  fb_queues :: "(u64 \<times> queue_descriptor) list"
  fb_queue_names :: "(string \<times> u64) list"
  fb_allocations :: "(u64 \<times> allocation_record) list"
  fb_pressure :: "(u64 \<times> pressure_entry) list"
  fb_attempts :: "(u64 \<times> attempt_record) list"
  fb_attempt_order :: "u64 list"
  fb_decisions :: "decision_record list"
  fb_recovery :: recovery_report
  fb_store :: store
  fb_metrics :: fabric_metrics
  allocations_total :: u64
  fb_events :: "fabric_event list"
  fb_local_sink :: ring_sink
  fb_sink :: "fabric_event list option"

definition fabric0 :: fabric where
  "fabric0 = \<lparr>fb_tick = 0, fb_config = fabric_config0, fb_open = False, fb_shutting_down = False,
     fb_epoch = 0, fb_boot = \<lparr>bi_hi = 0, bi_lo = 0\<rparr>,
     next_pool_id = 1, next_queue_id = 1, next_allocation_id = 1, next_policy_id = 1,
     next_snapshot_id = 1, next_attempt_sequence = 1, next_decision_sequence = 1,
     fb_backends = [], fb_capacities = [], fb_policies = [], fb_policy_names = [],
     fb_pools = [], fb_pool_names = [], fb_queues = [], fb_queue_names = [],
     fb_allocations = [], fb_pressure = [], fb_attempts = [], fb_attempt_order = [],
     fb_decisions = [], fb_recovery = recovery_report0, fb_store = store0, fb_metrics = metrics0,
     allocations_total = 0, fb_events = [], fb_local_sink = ring_new 256, fb_sink = None\<rparr>"

type_synonym 'a op = "fabric \<Rightarrow> 'a result \<times> fabric"

text \<open>Lock: the clock is sampled once and the sample is what now() reads.\<close>

definition take_lock :: "tick \<Rightarrow> fabric \<Rightarrow> fabric" where
  "take_lock sampled f = f\<lparr>fb_tick := sampled\<rparr>"

definition map_pool :: "u64 \<Rightarrow> (pool_entry \<Rightarrow> pool_entry) \<Rightarrow> fabric \<Rightarrow> fabric" where
  "map_pool p g f = (case map_of (fb_pools f) p of None \<Rightarrow> f
     | Some e \<Rightarrow> f\<lparr>fb_pools := AList.update p (g e) (fb_pools f)\<rparr>)"

definition put_allocation :: "allocation_record \<Rightarrow> fabric \<Rightarrow> fabric" where
  "put_allocation a f = f\<lparr>fb_allocations := AList.update (al_id a) a (fb_allocations f)\<rparr>"

definition bump :: "((u64 \<Rightarrow> u64) \<Rightarrow> fabric_metrics \<Rightarrow> fabric_metrics) \<Rightarrow> fabric \<Rightarrow> fabric" where
  "bump counter f = f\<lparr>fb_metrics := counter (\<lambda>n. n + 1) (fb_metrics f)\<rparr>"

subsection \<open>Lookups\<close>

definition require_pool :: "pool_id \<Rightarrow> fabric \<Rightarrow> pool_entry result" where
  "require_pool i f =
     (if \<not> valid i then Inl InvalidArgument
      else case map_of (fb_pools f) i of None \<Rightarrow> Inl UnknownPool | Some e \<Rightarrow> Inr e)"

definition require_queue :: "queue_id \<Rightarrow> fabric \<Rightarrow> queue_descriptor result" where
  "require_queue i f =
     (if \<not> valid i then Inl InvalidArgument
      else case map_of (fb_queues f) i of None \<Rightarrow> Inl UnknownQueue | Some q \<Rightarrow> Inr q)"

definition policy_of :: "pool_entry \<Rightarrow> fabric \<Rightarrow> pool_policy option" where
  "policy_of e f = map_of (fb_policies f) (pd_policy (en_descriptor e))"

definition require_policy :: "pool_entry \<Rightarrow> fabric \<Rightarrow> pool_policy result" where
  "require_policy e f = (case policy_of e f of None \<Rightarrow> Inl UnknownPolicy | Some p \<Rightarrow> Inr p)"

subsection \<open>The accounting view\<close>

definition accounting_of :: "pool_entry \<Rightarrow> fabric \<Rightarrow> pool_accounting" where
  "accounting_of e f = \<lparr>
     ac_pool = pd_id (en_descriptor e),
     ac_pool_generation = pd_generation (en_descriptor e),
     ac_raw = raw_units (en_descriptor e),
     ac_protected_units = protected_units (en_descriptor e),
     ac_usable = en_usable e,
     ac_allocated = allocated e,
     ac_reserved = en_reserved_units e,
     ac_committed = en_committed_units e,
     ac_pinned = en_pinned_units e,
     ac_reclaimable = en_reclaimable_units e,
     ac_borrowed_in = en_borrowed_in e,
     ac_lent_out = en_lent_out e,
     ac_overcommit_used = en_overcommit_used e,
     ac_overcommit_limit = (case policy_of e f of
         None \<Rightarrow> 0
       | Some p \<Rightarrow> (if oc_mode (overcommit p) = OcBounded then oc_limit_units (overcommit p) else 0)),
     ac_free = en_free_units e\<rparr>"

definition check_closure :: "pool_entry \<Rightarrow> fabric \<Rightarrow> void_result" where
  "check_closure e f =
     (case policy_of e f of
        None \<Rightarrow> report_status (check_pool_accounting (accounting_of e f) OcForbid 0)
      | Some p \<Rightarrow> report_status (check_pool_accounting (accounting_of e f)
          (oc_mode (overcommit p)) (oc_limit_units (overcommit p))))"

subsection \<open>Recomputing the aggregates\<close>

definition effective_borrow :: "allocation_record \<Rightarrow> u64" where
  "effective_borrow a = (if borrow_units a \<le> al_units a then borrow_units a else al_units a)"

definition clear_entry :: "pool_entry \<Rightarrow> pool_entry" where
  "clear_entry e = e\<lparr>en_reserved_units := 0, en_committed_units := 0, en_pinned_units := 0,
     en_reclaimable_units := 0, en_own_usage := 0, en_borrowed_in := 0, en_lent_out := 0,
     en_queue_committed := [], en_queue_reserved := [], en_members := []\<rparr>"

definition bucket_add :: "u64 \<Rightarrow> u64 \<Rightarrow> (u64 \<times> u64) list \<Rightarrow> (u64 \<times> u64) list" where
  "bucket_add q n b = AList.update q ((case map_of b q of None \<Rightarrow> 0 | Some v \<Rightarrow> v) + n) b"

definition charge_holder :: "allocation_record \<Rightarrow> pool_entry \<Rightarrow> pool_entry" where
  "charge_holder a e =
     (let e = (if al_reclaim_class a = Pinned
               then e\<lparr>en_pinned_units := en_pinned_units e + al_units a\<rparr>
               else e\<lparr>en_reclaimable_units := en_reclaimable_units e + al_units a\<rparr>);
          e = (if al_state a = AReserved
               then e\<lparr>en_reserved_units := en_reserved_units e + al_units a\<rparr>
               else e\<lparr>en_committed_units := en_committed_units e + al_units a\<rparr>);
          borrowed = effective_borrow a;
          e = e\<lparr>en_borrowed_in := en_borrowed_in e + borrowed,
                en_own_usage := en_own_usage e + (al_units a - borrowed),
                en_members := List.insert (al_id a) (en_members e)\<rparr>
      in if al_state a = AReserved
         then e\<lparr>en_queue_reserved := bucket_add (al_queue a) (al_units a) (en_queue_reserved e)\<rparr>
         else e\<lparr>en_queue_committed := bucket_add (al_queue a) (al_units a) (en_queue_committed e)\<rparr>)"

definition charge_lender :: "u64 \<Rightarrow> pool_entry \<Rightarrow> pool_entry" where
  "charge_lender borrowed e = e\<lparr>en_lent_out := en_lent_out e + borrowed,
     en_own_usage := en_own_usage e + borrowed\<rparr>"

definition charge_record :: "allocation_record \<Rightarrow> fabric \<Rightarrow> fabric" where
  "charge_record a f =
     (if \<not> holds_units a then f
      else if map_of (fb_pools f) (al_pool a) = None then f
      else let f = map_pool (al_pool a) (charge_holder a) f
           in if effective_borrow a \<noteq> 0 \<and> valid (al_lender a)
              then map_pool (al_lender a) (charge_lender (effective_borrow a)) f else f)"

definition refresh_runtime :: "pool_entry \<Rightarrow> pool_entry" where
  "refresh_runtime e = e\<lparr>en_runtime := (en_runtime e)\<lparr>
     borrowed_in := en_borrowed_in e, lent_out := en_lent_out e,
     overcommit_used := en_overcommit_used e, free_units := en_free_units e,
     reserved_units := en_reserved_units e, committed_units := en_committed_units e,
     pinned_units := en_pinned_units e, reclaimable_units := en_reclaimable_units e\<rparr>\<rparr>"

definition rebuild_aggregates :: "fabric \<Rightarrow> fabric" where
  "rebuild_aggregates f =
     (let f = f\<lparr>fb_pools := map (\<lambda>(p, e). (p, clear_entry e)) (fb_pools f)\<rparr>;
          f = fold (\<lambda>(_, a). charge_record a) (fb_allocations f) f
      in f\<lparr>fb_pools := map (\<lambda>(p, e). (p, refresh_runtime e)) (fb_pools f)\<rparr>)"

definition recomputed0 :: "pool_entry \<Rightarrow> fabric \<Rightarrow> pool_accounting" where
  "recomputed0 e f = pool_accounting0\<lparr>
     ac_pool := pd_id (en_descriptor e),
     ac_pool_generation := pd_generation (en_descriptor e),
     ac_raw := raw_units (en_descriptor e),
     ac_protected_units := protected_units (en_descriptor e),
     ac_usable := en_usable e,
     ac_overcommit_limit := (case policy_of e f of
         None \<Rightarrow> 0
       | Some p \<Rightarrow> (if oc_mode (overcommit p) = OcBounded then oc_limit_units (overcommit p) else 0))\<rparr>"

definition recompute_holder :: "allocation_record \<Rightarrow> pool_accounting \<Rightarrow> pool_accounting" where
  "recompute_holder a x =
     (let x = x\<lparr>ac_allocated := ac_allocated x + al_units a\<rparr>;
          x = (if al_reclaim_class a = Pinned
               then x\<lparr>ac_pinned := ac_pinned x + al_units a\<rparr>
               else x\<lparr>ac_reclaimable := ac_reclaimable x + al_units a\<rparr>);
          x = (if al_state a = AReserved
               then x\<lparr>ac_reserved := ac_reserved x + al_units a\<rparr>
               else x\<lparr>ac_committed := ac_committed x + al_units a\<rparr>)
      in x\<lparr>ac_borrowed_in := ac_borrowed_in x + effective_borrow a\<rparr>)"

definition map_key :: "u64 \<Rightarrow> ('v \<Rightarrow> 'v) \<Rightarrow> (u64 \<times> 'v) list \<Rightarrow> (u64 \<times> 'v) list" where
  "map_key k g al = (case map_of al k of None \<Rightarrow> al | Some v \<Rightarrow> AList.update k (g v) al)"

definition recompute_record ::
  "allocation_record \<Rightarrow> (u64 \<times> pool_accounting) list \<Rightarrow> (u64 \<times> pool_accounting) list" where
  "recompute_record a m =
     (if \<not> holds_units a then m
      else if map_of m (al_pool a) = None then m
      else let m = map_key (al_pool a) (recompute_holder a) m
           in if effective_borrow a \<noteq> 0 \<and> valid (al_lender a)
              then map_key (al_lender a)
                     (\<lambda>x. x\<lparr>ac_lent_out := ac_lent_out x + effective_borrow a\<rparr>) m
              else m)"

definition recompute_close :: "pool_accounting \<Rightarrow> pool_accounting" where
  "recompute_close x =
     (let own = saturating_add (if ac_allocated x \<ge> ac_borrowed_in x
                                then ac_allocated x - ac_borrowed_in x else 0) (ac_lent_out x);
          over = (if own > ac_usable x then own - ac_usable x else 0)
      in x\<lparr>ac_overcommit_used := over, ac_free := ac_usable x + over - own\<rparr>)"

definition recomputed :: "fabric \<Rightarrow> (u64 \<times> pool_accounting) list" where
  "recomputed f = map (\<lambda>(p, x). (p, recompute_close x))
     (fold (\<lambda>(_, a). recompute_record a) (fb_allocations f)
       (fold (\<lambda>(_, e) m. if map_of m (pd_id (en_descriptor e)) = None
                         then m @ [(pd_id (en_descriptor e), recomputed0 e f)] else m)
             (fb_pools f) []))"

definition deep_verify :: "fabric \<Rightarrow> accounting_report" where
  "deep_verify f = check_global_accounting (map snd (recomputed f))"

subsection \<open>Attempt de-duplication and the decision history\<close>

definition lookup_attempt :: "attempt_id \<Rightarrow> digest \<Rightarrow> fabric \<Rightarrow> attempt_record option result" where
  "lookup_attempt i d f =
     (if \<not> valid i then Inl InvalidArgument
      else case map_of (fb_attempts f) i of
        None \<Rightarrow> Inr None
      | Some a \<Rightarrow> if at_request_digest a \<noteq> d then Inl AttemptConflict else Inr (Some a))"

fun evict :: "nat \<Rightarrow> u64 list \<Rightarrow> (u64 \<times> attempt_record) list \<Rightarrow> u64 list \<times> (u64 \<times> attempt_record) list" where
  "evict capacity [] m = ([], m)"
| "evict capacity (oldest # order) m =
     (if length m > capacity then evict capacity order (AList.delete oldest m)
      else (oldest # order, m))"

definition evict_attempts :: "fabric \<Rightarrow> fabric" where
  "evict_attempts f =
     (let (order, m) = evict (attempt_memory_capacity (fb_config f)) (fb_attempt_order f) (fb_attempts f)
      in f\<lparr>fb_attempt_order := order, fb_attempts := m\<rparr>)"

definition record_attempt :: "attempt_record \<Rightarrow> fabric \<Rightarrow> fabric" where
  "record_attempt a f =
     (if attempt_memory_capacity (fb_config f) = 0 then f
      else let f = (if map_of (fb_attempts f) (at_id a) = None
                    then f\<lparr>fb_attempt_order := fb_attempt_order f @ [at_id a]\<rparr> else f)
           in evict_attempts (f\<lparr>fb_attempts := AList.update (at_id a) a (fb_attempts f)\<rparr>))"

definition decision_record_of :: "decision \<Rightarrow> decision_record" where
  "decision_record_of d = \<lparr>dr_sequence = dc_sequence d, dr_at = dc_decided_at d, dr_kind = dc_kind d,
     dr_status = dc_status d, dr_pool = dc_pool d, dr_queue = dc_queue d,
     dr_allocation = dc_allocation d, dr_requested_units = dc_requested_units d,
     dr_granted_units = dc_granted_units d, dr_binding = dc_binding d, dr_pressure = dc_pressure d,
     dr_authority_digest = av_digest (dc_authority d)\<rparr>"

fun trim_front :: "nat \<Rightarrow> 'a list \<Rightarrow> 'a list" where
  "trim_front n [] = []"
| "trim_front n (x # xs) = (if length (x # xs) > n then trim_front n xs else x # xs)"

definition record_decision :: "decision \<Rightarrow> fabric \<Rightarrow> fabric" where
  "record_decision d f = f\<lparr>fb_decisions :=
     trim_front (decision_history_capacity (fb_config f)) (fb_decisions f @ [decision_record_of d])\<rparr>"

subsection \<open>Events\<close>

definition push_event ::
  "event_kind \<Rightarrow> error_code \<Rightarrow> pool_id \<Rightarrow> queue_id \<Rightarrow> allocation_id \<Rightarrow> u64 \<Rightarrow> u64 \<Rightarrow> fabric \<Rightarrow> fabric" where
  "push_event kind outc pool queue allocation units sequence f =
     (if length (fb_events f) \<ge> 64 then f
      else f\<lparr>fb_events := fb_events f @ [\<lparr>ev_kind = kind, ev_at = fb_tick f, ev_epoch = fb_epoch f,
             ev_sequence = sequence, ev_pool = pool, ev_queue = queue, ev_allocation = allocation,
             ev_units = units, ev_outcome = outc\<rparr>]\<rparr>)"

definition publish :: "fabric \<Rightarrow> fabric" where
  "publish f =
     (if fb_events f = [] then f
      else f\<lparr>fb_local_sink := fold on_event (fb_events f) (fb_local_sink f),
             fb_sink := map_option (\<lambda>received. received @ fb_events f) (fb_sink f),
             fb_events := []\<rparr>)"

subsection \<open>Journaling and snapshots\<close>

definition kMaxSnapshotCount :: nat where "kMaxSnapshotCount = 2 ^ 16"

definition encode_capacity :: "capacity_entry \<Rightarrow> byte_writer \<Rightarrow> byte_writer" where
  "encode_capacity c = writes [put_id (ce_resource c), put_id (ce_backend c),
     put_id (ce_generation c), put_u64 (ce_raw_units c), put_u64 (ce_observed_at c)]"

definition decode_capacity :: "capacity_entry decoder" where
  "decode_capacity r = do {
     (resource, r) \<leftarrow> get_id r;
     (backend, r) \<leftarrow> get_id r;
     (generation, r) \<leftarrow> get_id r;
     (raw, r) \<leftarrow> get_u64 r;
     (observed, r) \<leftarrow> get_u64 r;
     Some (\<lparr>ce_resource = resource, ce_backend = backend, ce_generation = generation,
            ce_raw_units = raw, ce_observed_at = observed\<rparr>, r) }"

definition encode_entry :: "pool_entry \<Rightarrow> byte_writer \<Rightarrow> byte_writer" where
  "encode_entry e = writes [encode_pool (en_descriptor e), put_id (en_capacity_generation e)]"

definition decode_entry :: "(pool_descriptor \<times> generation) decoder" where
  "decode_entry r = do {
     (d, r) \<leftarrow> decode_pool r;
     (g, r) \<leftarrow> get_id r;
     Some ((d, g), r) }"

definition put_section :: "('a \<Rightarrow> byte_writer \<Rightarrow> byte_writer) \<Rightarrow> 'a list \<Rightarrow> byte_writer \<Rightarrow> byte_writer" where
  "put_section put xs = writes [put_u32 (of_nat (length xs)), writes (map put xs)]"

definition latest_snapshots :: "fabric \<Rightarrow> pressure_snapshot list" where
  "latest_snapshots f = List.map_filter (\<lambda>(_, e). px_latest e) (fb_pressure f)"

definition put_image :: "fabric \<Rightarrow> byte_writer \<Rightarrow> byte_writer" where
  "put_image f = writes [
     put_u8 0xFF,
     put_u64 (fb_epoch f),
     put_u64 (bi_hi (fb_boot f)),
     put_u64 (bi_lo (fb_boot f)),
     put_u64 (next_pool_id f),
     put_u64 (next_queue_id f),
     put_u64 (next_allocation_id f),
     put_u64 (next_policy_id f),
     put_u64 (next_snapshot_id f),
     put_u64 (next_decision_sequence f),
     put_u64 (next_attempt_sequence f),
     put_section encode_policy (map snd (fb_policies f)),
     put_section encode_entry (map snd (fb_pools f)),
     put_section encode_queue (map snd (fb_queues f)),
     put_section encode_allocation (map snd (fb_allocations f)),
     put_section encode_pressure_snapshot (latest_snapshots f),
     put_section encode_attempt (map snd (fb_attempts f)),
     put_section encode_capacity (map snd (fb_capacities f))]"

definition snapshot_header_of :: "fabric \<Rightarrow> snapshot_header" where
  "snapshot_header_of f = \<lparr>sh_format_version = persistence_format_version, sh_flags = 0,
     sh_payload_bytes = 0, sh_epoch = fb_epoch f, sh_boot = fb_boot f,
     sh_record_count = mt_journal_records_written (fb_metrics f)\<rparr>"

text \<open>Run an operation of the durable store inside the fabric.\<close>

definition on_store :: "(store \<Rightarrow> 'a result \<times> store) \<Rightarrow> 'a op" where
  "on_store io f = (let (r, s) = io (fb_store f) in (r, f\<lparr>fb_store := s\<rparr>))"

definition write_full_snapshot :: "unit op" where
  "write_full_snapshot f =
     (if pc_mode (st_config (fb_store f)) = DurNone then (Inr (), f)
      else let w = put_image f writer0 in
      if failed w then (Inl OversizedMessage, f)
      else try_st (on_store (write_snapshot (snapshot_header_of f) (buffer w)) f) (\<lambda>_ f.
        (Inr (), bump mt_snapshots_written_update f)))"

definition journal :: "journal_op \<Rightarrow> bytes \<Rightarrow> unit op" where
  "journal opc payload f =
     (if pc_mode (st_config (fb_store f)) = DurNone then (Inr (), f)
      else try_st (if needs_compaction (fb_store f) then write_full_snapshot f else (Inr (), f)) (\<lambda>_ f.
        let w = writes [put_u8 (journal_op_raw opc), put_bytes payload] writer0 in
        if failed w then (Inl OversizedMessage, f)
        else try_st (on_store (append_record (buffer w)) f) (\<lambda>_ f.
          (Inr (), f\<lparr>fb_metrics := (fb_metrics f)\<lparr>
             mt_journal_records_written := mt_journal_records_written (fb_metrics f) + 1,
             mt_journal_bytes_written :=
               mt_journal_bytes_written (fb_metrics f) + of_nat (length (buffer w))\<rparr>\<rparr>))))"

definition journal_writer :: "journal_op \<Rightarrow> (byte_writer \<Rightarrow> byte_writer) \<Rightarrow> unit op" where
  "journal_writer opc put f =
     (let w = put writer0 in if failed w then (Inl OversizedMessage, f) else journal opc (buffer w) f)"

definition journal_policy :: "pool_policy \<Rightarrow> unit op" where
  "journal_policy p = journal_writer JPolicyUpsert (encode_policy p)"

definition journal_pool :: "pool_entry \<Rightarrow> unit op" where
  "journal_pool e = journal_writer JPoolUpsert (encode_entry e)"

definition journal_queue :: "queue_descriptor \<Rightarrow> unit op" where
  "journal_queue q = journal_writer JQueueUpsert (encode_queue q)"

definition journal_allocation :: "journal_op \<Rightarrow> allocation_record \<Rightarrow> unit op" where
  "journal_allocation opc a = journal_writer opc (encode_allocation a)"

definition journal_capacity :: "capacity_entry \<Rightarrow> unit op" where
  "journal_capacity c = journal_writer JCapacitySet (encode_capacity c)"

definition journal_attempt :: "attempt_record \<Rightarrow> unit op" where
  "journal_attempt a = journal_writer JAttemptRecorded (encode_attempt a)"

definition journal_pressure :: "pressure_snapshot \<Rightarrow> unit op" where
  "journal_pressure s = journal_writer JPressureObserved (encode_pressure_snapshot s)"

definition ensure_alloc_capacity :: "fabric \<Rightarrow> void_result" where
  "ensure_alloc_capacity f =
     (if length (fb_allocations f) \<ge> kMaxAllocationCount then Inl BoundedResourceExhausted else Inr ())"

subsection \<open>Recovery\<close>

fun load_items ::
  "'a decoder \<Rightarrow> ('a \<Rightarrow> bool) \<Rightarrow> ('a \<Rightarrow> fabric \<Rightarrow> fabric) \<Rightarrow> nat \<Rightarrow> bytes \<Rightarrow> fabric \<Rightarrow> bytes result \<times> fabric" where
  "load_items get ok put 0 r f = (Inr r, f)"
| "load_items get ok put (Suc n) r f =
     (case get r of
        None \<Rightarrow> (Inl CorruptRecord, f)
      | Some (x, r) \<Rightarrow>
          if \<not> ok x then (Inl CorruptRecord, f) else load_items get ok put n r (put x f))"

definition load_section ::
  "'a decoder \<Rightarrow> ('a \<Rightarrow> bool) \<Rightarrow> ('a \<Rightarrow> fabric \<Rightarrow> fabric) \<Rightarrow> nat \<Rightarrow> bytes \<Rightarrow> fabric \<Rightarrow> bytes result \<times> fabric" where
  "load_section get ok put bound r f =
     (case get_u32 r of
        None \<Rightarrow> (Inl CorruptRecord, f)
      | Some (n, r) \<Rightarrow>
          if unat n > bound then (Inl CorruptRecord, f) else load_items get ok put (unat n) r f)"

definition restore_policy :: "pool_policy \<Rightarrow> fabric \<Rightarrow> fabric" where
  "restore_policy p f = f\<lparr>fb_policy_names := AList.update (pol_name p) (pol_id p) (fb_policy_names f),
     fb_policies := AList.update (pol_id p) p (fb_policies f)\<rparr>"

definition restore_entry :: "pool_entry \<Rightarrow> fabric \<Rightarrow> fabric" where
  "restore_entry e f = (let d = en_descriptor e in
     f\<lparr>fb_pool_names := AList.update (pd_name d) (pd_id d) (fb_pool_names f),
       fb_pools := AList.update (pd_id d) e (fb_pools f)\<rparr>)"

definition restore_queue :: "queue_descriptor \<Rightarrow> fabric \<Rightarrow> fabric" where
  "restore_queue q f = f\<lparr>fb_queue_names := AList.update (qd_name q) (qd_id q) (fb_queue_names f),
     fb_queues := AList.update (qd_id q) q (fb_queues f)\<rparr>"

definition restore_pressure :: "pressure_snapshot \<Rightarrow> fabric \<Rightarrow> fabric" where
  "restore_pressure s f =
     (let e = (case map_of (fb_pressure f) (ps_pool s) of None \<Rightarrow> pressure_entry0 | Some e \<Rightarrow> e)
      in f\<lparr>fb_pressure := AList.update (ps_pool s)
             \<lparr>px_history = px_history e @ [s], px_latest = Some s, px_latest_revalidated = False\<rparr>
             (fb_pressure f)\<rparr>)"

definition restore_capacity :: "capacity_entry \<Rightarrow> fabric \<Rightarrow> fabric" where
  "restore_capacity c f = f\<lparr>fb_capacities := AList.update (ce_resource c) c (fb_capacities f)\<rparr>"

definition restore_attempt_image :: "attempt_record \<Rightarrow> fabric \<Rightarrow> fabric" where
  "restore_attempt_image a f = f\<lparr>fb_attempt_order := fb_attempt_order f @ [at_id a],
     fb_attempts := AList.update (at_id a) a (fb_attempts f)\<rparr>"

definition counter_or_one :: "u64 \<Rightarrow> u64" where
  "counter_or_one c = (if c = 0 then 1 else c)"

definition restore_counters :: "u64 list \<Rightarrow> fabric \<Rightarrow> fabric" where
  "restore_counters c f = f\<lparr>
     next_pool_id := counter_or_one (c ! 0), next_queue_id := counter_or_one (c ! 1),
     next_allocation_id := counter_or_one (c ! 2), next_policy_id := counter_or_one (c ! 3),
     next_snapshot_id := counter_or_one (c ! 4), next_decision_sequence := counter_or_one (c ! 5),
     next_attempt_sequence := counter_or_one (c ! 6)\<rparr>"

definition corrupt :: "'a option \<Rightarrow> ('a \<Rightarrow> 'b result \<times> fabric) \<Rightarrow> fabric \<Rightarrow> 'b result \<times> fabric" where
  "corrupt r k f = (case r of None \<Rightarrow> (Inl CorruptRecord, f) | Some x \<Rightarrow> k x)"

definition apply_snapshot_header :: "bytes \<Rightarrow> bytes op" where
  "apply_snapshot_header payload f =
     corrupt (get_u8 payload) (\<lambda>(kind, r).
     if kind \<noteq> 0xFF then (Inl CorruptRecord, f) else
     corrupt (get_u64 r) (\<lambda>(value, r). let f = f\<lparr>fb_epoch := value\<rparr> in
     corrupt (get_u64 r) (\<lambda>(hi, r). let f = f\<lparr>fb_boot := (fb_boot f)\<lparr>bi_hi := hi\<rparr>\<rparr> in
     corrupt (get_u64 r) (\<lambda>(lo, r). let f = f\<lparr>fb_boot := (fb_boot f)\<lparr>bi_lo := lo\<rparr>\<rparr> in
     corrupt (get_many get_u64 7 r) (\<lambda>(counters, r). (Inr r, restore_counters counters f)) f) f) f) f) f"

definition apply_snapshot_payload :: "snapshot_header \<Rightarrow> bytes \<Rightarrow> unit op" where
  "apply_snapshot_payload header payload f =
     try_st (apply_snapshot_header payload f) (\<lambda>r f.
     try_st (load_section decode_policy (\<lambda>p. policy_validate p = Inr ()) restore_policy
               kMaxPolicyCount r f) (\<lambda>r f.
     try_st (load_section decode_entry (\<lambda>(d, g). pool_validate d = Inr ())
               (\<lambda>(d, g). restore_entry (entry_of d g)) kMaxPoolCount r f) (\<lambda>r f.
     try_st (load_section decode_queue (\<lambda>_. True) restore_queue kMaxQueueCount r f) (\<lambda>r f.
     try_st (load_section decode_allocation (\<lambda>a. al_units a \<le> kMaxUnitsPerPool) put_allocation
               kMaxAllocationCount r f) (\<lambda>r f.
     try_st (load_section decode_pressure_snapshot (\<lambda>_. True) restore_pressure
               kMaxSnapshotCount r f) (\<lambda>r f.
     try_st (load_section decode_attempt (\<lambda>_. True) restore_attempt_image kMaxAttemptMemory r f) (\<lambda>r f.
     try_st (load_section decode_capacity (\<lambda>_. True) restore_capacity kMaxPoolCount r f) (\<lambda>r f.
       (if r \<noteq> [] then Inl CorruptRecord else Inr (), f)))))))))"

definition all_journal_ops :: "journal_op list" where
  "all_journal_ops = [JEpochAdvance, JPoolUpsert, JPoolRemoved, JPolicyUpsert, JQueueUpsert,
     JQueueRetired, JCapacitySet, JAllocationReserved, JAllocationCommitted, JAllocationReleased,
     JAllocationReclaimed, JAllocationFenced, JAllocationRevalidated, JAllocationExpired,
     JPressureObserved, JAttemptRecorded, JCheckpoint, JBackendRegistered]"

definition journal_op_of_raw :: "u8 \<Rightarrow> journal_op option" where
  "journal_op_of_raw v = List.find (\<lambda>x. journal_op_raw x = v) all_journal_ops"

definition replay_epoch :: "bytes \<Rightarrow> unit op" where
  "replay_epoch r f =
     corrupt (get_u64 r) (\<lambda>(value, r).
     let f = (if value > fb_epoch f then f\<lparr>fb_epoch := value\<rparr> else f) in
     corrupt (do { (hi, r) \<leftarrow> get_u64 r; (lo, r) \<leftarrow> get_u64 r; Some (hi, lo) }) (\<lambda>(hi, lo).
       (Inr (), if hi \<noteq> 0 \<or> lo \<noteq> 0 then f\<lparr>fb_boot := \<lparr>bi_hi = hi, bi_lo = lo\<rparr>\<rparr> else f)) f) f"

definition replay_pool :: "bytes \<Rightarrow> unit op" where
  "replay_pool r f =
     corrupt (decode_entry r) (\<lambda>((d, g), _).
       if pool_validate d \<noteq> Inr () then (Inl CorruptRecord, f)
       else let e = entry_of d g;
                e = (case map_of (fb_pools f) (pd_id d) of
                       None \<Rightarrow> e
                     | Some x \<Rightarrow> e\<lparr>en_members := en_members x, en_runtime := en_runtime x\<rparr>)
            in (Inr (), restore_entry e f)) f"

definition replay_pool_removed :: "bytes \<Rightarrow> unit op" where
  "replay_pool_removed r f =
     corrupt (get_u64 r) (\<lambda>(raw_id, _).
       (Inr (), case map_of (fb_pools f) raw_id of
          None \<Rightarrow> f
        | Some e \<Rightarrow> f\<lparr>fb_pool_names := AList.delete (pd_name (en_descriptor e)) (fb_pool_names f),
                      fb_pools := AList.delete raw_id (fb_pools f)\<rparr>)) f"

definition replay_queue_retired :: "bytes \<Rightarrow> unit op" where
  "replay_queue_retired r f =
     corrupt (get_u64 r) (\<lambda>(raw_id, _).
       (Inr (), f\<lparr>fb_queues := map_key raw_id (\<lambda>q. q\<lparr>qd_retired := True\<rparr>) (fb_queues f)\<rparr>)) f"

definition replay_pressure :: "bytes \<Rightarrow> unit op" where
  "replay_pressure r f =
     corrupt (decode_pressure_snapshot r) (\<lambda>(s, _).
       (Inr (), let f = restore_pressure s f in
          f\<lparr>fb_pressure := map_key (ps_pool s)
              (\<lambda>e. e\<lparr>px_history := trim_front (pressure_history_capacity (fb_config f)) (px_history e)\<rparr>)
              (fb_pressure f)\<rparr>)) f"

definition replay_attempt :: "bytes \<Rightarrow> unit op" where
  "replay_attempt r f =
     corrupt (decode_attempt r) (\<lambda>(a, _).
       (Inr (), f\<lparr>fb_attempt_order := (if map_of (fb_attempts f) (at_id a) = None
                    then fb_attempt_order f @ [at_id a] else fb_attempt_order f),
                 fb_attempts := AList.update (at_id a) a (fb_attempts f)\<rparr>)) f"

definition replay_allocation :: "bytes \<Rightarrow> unit op" where
  "replay_allocation r f =
     corrupt (decode_allocation r) (\<lambda>(a, _).
       if al_units a > kMaxUnitsPerPool then (Inl CorruptRecord, f)
       else (Inr (), put_allocation a f)) f"

definition apply_journal_payload :: "bytes \<Rightarrow> unit op" where
  "apply_journal_payload payload f =
     corrupt (get_u8 payload) (\<lambda>(raw_op, r).
       case journal_op_of_raw raw_op of
         None \<Rightarrow> (Inl CorruptRecord, f)
       | Some opc \<Rightarrow> (case opc of
           JEpochAdvance \<Rightarrow> replay_epoch r f
         | JPolicyUpsert \<Rightarrow> corrupt (decode_policy r) (\<lambda>(p, _).
             if policy_validate p \<noteq> Inr () then (Inl CorruptRecord, f)
             else (Inr (), restore_policy p f)) f
         | JPoolUpsert \<Rightarrow> replay_pool r f
         | JPoolRemoved \<Rightarrow> replay_pool_removed r f
         | JQueueUpsert \<Rightarrow> corrupt (decode_queue r) (\<lambda>(q, _). (Inr (), restore_queue q f)) f
         | JQueueRetired \<Rightarrow> replay_queue_retired r f
         | JCapacitySet \<Rightarrow> corrupt (decode_capacity r) (\<lambda>(c, _). (Inr (), restore_capacity c f)) f
         | JPressureObserved \<Rightarrow> replay_pressure r f
         | JAttemptRecorded \<Rightarrow> replay_attempt r f
         | JCheckpoint \<Rightarrow> (Inr (), f)
         | JBackendRegistered \<Rightarrow> (Inr (), f)
         | _ \<Rightarrow> replay_allocation r f)) f"

text \<open>A reservation is a lease: recovery ends it and reports it as unfinished.\<close>

definition expire_lease :: "tick \<Rightarrow> allocation_record \<Rightarrow> allocation_record" where
  "expire_lease stamp a =
     (if al_state a \<noteq> AReserved then a
      else a\<lparr>al_state := AExpired, last_touched := stamp, al_revision := al_revision a + 1\<rparr>)"

definition count_if :: "('a \<Rightarrow> bool) \<Rightarrow> 'a list \<Rightarrow> nat" where
  "count_if P xs = length (filter P xs)"

definition load_from_store :: "unit op" where
  "load_from_store f =
     (case recover apply_snapshot_payload apply_journal_payload (fb_store f, f) of
        (Inl e, st, f) \<Rightarrow> (Inl e, f\<lparr>fb_store := st\<rparr>)
      | (Inr report, st, f) \<Rightarrow>
          let leases = filter (\<lambda>(_, a). al_state a = AReserved) (fb_allocations f);
              allocations = map (\<lambda>(i, a). (i, expire_lease (fb_tick f) a)) (fb_allocations f);
              report = report\<lparr>
                rv_pools_restored := length (fb_pools f),
                rv_policies_restored := length (fb_policies f),
                rv_queues_restored := length (fb_queues f),
                rv_unfinished_attempts := rv_unfinished_attempts report @
                  map (\<lambda>(_, a). (al_attempt a, al_id a, al_units a, al_created_at a)) leases,
                rv_allocations_restored_as_uncommitted := length leases,
                rv_allocations_restored := count_if (\<lambda>(_, a). al_state a = ACommitted) allocations,
                rv_fences_restored :=
                  count_if (\<lambda>(_, a). al_state a = AFenced \<or> al_state a = AReclaimed) allocations,
                rv_pressure_snapshots_invalidated :=
                  count_if (\<lambda>(_, e). px_latest e \<noteq> None) (fb_pressure f)\<rparr>
          in (Inr (), rebuild_aggregates
               (f\<lparr>fb_store := st, fb_allocations := allocations, fb_recovery := report\<rparr>)))"

subsection \<open>Life cycle\<close>

definition mix64 :: "u64 \<Rightarrow> u64" where
  "mix64 x =
     (let x = x XOR drop_bit 33 x;
          x = x * 0xff51afd7ed558ccd;
          x = x XOR drop_bit 33 x;
          x = x * 0xc4ceb9fe1a85ec53
      in x XOR drop_bit 33 x)"

text \<open>The boot counter, the clock readings and the address of the object are arguments.\<close>

definition mint_boot :: "u64 \<Rightarrow> u64 \<Rightarrow> u64 \<Rightarrow> u64 \<Rightarrow> boot_incarnation" where
  "mint_boot sequence ticks wall entropy =
     (let hi = mix64 (ticks XOR mix64 wall XOR mix64 entropy);
          lo = mix64 (sequence XOR mix64 (ticks + 0x9E3779B97F4A7C15) XOR entropy)
      in \<lparr>bi_hi = hi, bi_lo = (if hi = 0 \<and> lo = 0 then 1 else lo)\<rparr>)"

definition config_validate :: "fabric_config \<Rightarrow> void_result" where
  "config_validate c =
     (if decision_history_capacity c = 0 then Inl InvalidArgument
      else if attempt_memory_capacity c = 0 \<or> attempt_memory_capacity c > kMaxAttemptMemory
      then Inl InvalidArgument
      else if pressure_history_capacity c = 0 \<or> pressure_history_capacity c > kMaxSnapshotCount
      then Inl InvalidArgument
      else if max_inspection_rows c = 0 \<or> max_inspection_rows c > kMaxAllocationCount
      then Inl InvalidArgument
      else Inr ())"

text \<open>The durable part of open: configure the store and load it; on failure it is closed.\<close>

definition open_durable :: "fabric_config \<Rightarrow> epoch_id op" where
  "open_durable c f =
     (if pc_mode (cf_persistence c) = DurNone then (Inr 0, f)
      else try_st (on_store (configure (cf_persistence c)) f) (\<lambda>_ f.
        case load_from_store f of
          (Inl e, f) \<Rightarrow> (Inl e, f\<lparr>fb_store := store_close (fb_store f)\<rparr>)
        | (Inr _, f) \<Rightarrow>
            (Inr (fb_epoch f), f\<lparr>fb_metrics := (fb_metrics f)\<lparr>
               mt_recoveries := mt_recoveries (fb_metrics f) + 1,
               mt_journal_records_replayed := mt_journal_records_replayed (fb_metrics f) +
                 of_nat (rv_journal_records_applied (fb_recovery f)),
               mt_journal_tail_truncations := mt_journal_tail_truncations (fb_metrics f) +
                 (if rv_journal_bytes_discarded (fb_recovery f) = 0 then 0 else 1)\<rparr>\<rparr>)))"

definition open_epoch :: "epoch_id \<Rightarrow> boot_incarnation \<Rightarrow> unit op" where
  "open_epoch durable_epoch boot f =
     (let (overflowed, next_epoch) = add_overflow durable_epoch 1 in
      if overflowed \<or> next_epoch = 0
      then (Inl EpochRegression, f\<lparr>fb_store := store_close (fb_store f)\<rparr>)
      else (Inr (), f\<lparr>
        fb_epoch := next_epoch,
        fb_recovery := (fb_recovery f)\<lparr>rv_durable_epoch := durable_epoch, rv_new_epoch := next_epoch,
          rv_previous_boot := fb_boot f, rv_boot := boot\<rparr>,
        fb_boot := boot,
        fb_metrics := (fb_metrics f)\<lparr>mt_epoch_advances := mt_epoch_advances (fb_metrics f) + 1\<rparr>,
        fb_open := True,
        fb_shutting_down := False\<rparr>))"

definition fabric_open :: "tick \<Rightarrow> boot_incarnation \<Rightarrow> fabric_config \<Rightarrow> unit op" where
  "fabric_open sampled boot c f =
     (let f = (take_lock sampled f)\<lparr>fb_events := []\<rparr> in
      if fb_open f then (Inl LifecycleViolation, f)
      else case config_validate c of Inl e \<Rightarrow> (Inl e, f)
      | Inr _ \<Rightarrow>
        try_st (open_durable c (f\<lparr>fb_config := c\<rparr>)) (\<lambda>durable_epoch f.
        try_st (open_epoch durable_epoch boot f) (\<lambda>_ f.
        case (if pc_mode (cf_persistence c) = DurNone then (Inr (), f)
              else journal JEpochAdvance (buffer (writes [put_u64 (fb_epoch f),
                     put_u64 (bi_hi (fb_boot f)), put_u64 (bi_lo (fb_boot f))] writer0)) f) of
          (Inl e, f) \<Rightarrow> (Inl e, f\<lparr>fb_open := False, fb_store := store_close (fb_store f)\<rparr>)
        | (Inr _, f) \<Rightarrow>
            (Inr (), publish
               (push_event EvEpochAdvanced Ok 0 0 0 0 0 (push_event EvRecovered Ok 0 0 0 0 0 f))))))"

definition fabric_close :: "tick \<Rightarrow> unit op" where
  "fabric_close sampled f =
     (let f = (take_lock sampled f)\<lparr>fb_events := []\<rparr> in
      if \<not> fb_open f then (Inr (), f)
      else (Inr (), publish (push_event EvShutdownComplete Ok 0 0 0 0 0
        (f\<lparr>fb_store := store_close (fb_store f), fb_shutting_down := False, fb_open := False\<rparr>))))"

definition begin_shutdown :: "tick \<Rightarrow> fabric \<Rightarrow> fabric" where
  "begin_shutdown sampled f = (take_lock sampled f)\<lparr>fb_shutting_down := True\<rparr>"

definition set_event_sink :: "bool \<Rightarrow> fabric \<Rightarrow> fabric" where
  "set_event_sink attach f = f\<lparr>fb_sink := (if attach then Some [] else None)\<rparr>"

definition attach_backend :: "tick \<Rightarrow> backend_id \<Rightarrow> backend_entry \<Rightarrow> unit op" where
  "attach_backend sampled backend_id entry f =
     (if \<not> valid backend_id then (Inl InvalidArgument, f)
      else let f = take_lock sampled f in
      if \<not> fb_open f then (Inl LifecycleViolation, f)
      else (Inr (), f\<lparr>fb_backends := AList.update backend_id entry (fb_backends f)\<rparr>))"

definition sorted_members :: "pool_entry \<Rightarrow> u64 list" where
  "sorted_members e = sort (en_members e)"

definition bucket_adjust :: "u64 \<Rightarrow> int \<Rightarrow> (u64 \<times> u64) list \<Rightarrow> (u64 \<times> u64) list" where
  "bucket_adjust q delta b =
     (if delta \<ge> 0 then
        (case map_of b q of
           None \<Rightarrow> AList.update q (of_int delta) b
         | Some v \<Rightarrow> AList.update q (v + of_int delta) b)
      else
        (case map_of b q of
           None \<Rightarrow> b
         | Some v \<Rightarrow> if v \<le> of_int (- delta) then AList.delete q b
                     else AList.update q (v - of_int (- delta)) b))"

definition adjust_queue :: "queue_id \<Rightarrow> int \<Rightarrow> bool \<Rightarrow> pool_entry \<Rightarrow> pool_entry" where
  "adjust_queue q delta reserved e =
     (if reserved then e\<lparr>en_queue_reserved := bucket_adjust q delta (en_queue_reserved e)\<rparr>
      else e\<lparr>en_queue_committed := bucket_adjust q delta (en_queue_committed e)\<rparr>)"

end
