(* ===== verification/Ledger.thy ===== *)
theory Ledger
  imports Fabric_State
begin

text \<open>
  The abstract specification of the pool aggregates: a ledger.  Every holding allocation
  charges accounts of its own pool and of its lender; a pool's aggregates are the balances of
  its accounts.  The runtime maintains the balances incrementally; rebuild_aggregates and
  deep_verify recompute them.  This theory states the invariant that the operations keep
  (ledger_inv) and shows that the recomputation yields the specified balances.
\<close>

subsection \<open>Accounts\<close>

datatype account =
  AcReserved | AcCommitted | AcPinned | AcReclaimable | AcOwn | AcBorrowed | AcLent
| AcQueueReserved u64 | AcQueueCommitted u64

definition bucket_units :: "(u64 \<times> u64) list \<Rightarrow> u64 \<Rightarrow> nat" where
  "bucket_units b q = (case map_of b q of None \<Rightarrow> 0 | Some v \<Rightarrow> unat v)"

primrec balance :: "account \<Rightarrow> pool_entry \<Rightarrow> nat" where
  "balance AcReserved e = unat (en_reserved_units e)"
| "balance AcCommitted e = unat (en_committed_units e)"
| "balance AcPinned e = unat (en_pinned_units e)"
| "balance AcReclaimable e = unat (en_reclaimable_units e)"
| "balance AcOwn e = unat (en_own_usage e)"
| "balance AcBorrowed e = unat (en_borrowed_in e)"
| "balance AcLent e = unat (en_lent_out e)"
| "balance (AcQueueReserved q) e = bucket_units (en_queue_reserved e) q"
| "balance (AcQueueCommitted q) e = bucket_units (en_queue_committed e) q"

text \<open>What a record charges as the holder and as the borrower from a lender.\<close>

primrec held_charge :: "account \<Rightarrow> allocation_record \<Rightarrow> nat" where
  "held_charge AcReserved a = (if al_state a = AReserved then unat (al_units a) else 0)"
| "held_charge AcCommitted a = (if al_state a = AReserved then 0 else unat (al_units a))"
| "held_charge AcPinned a = (if al_reclaim_class a = Pinned then unat (al_units a) else 0)"
| "held_charge AcReclaimable a = (if al_reclaim_class a = Pinned then 0 else unat (al_units a))"
| "held_charge AcOwn a = unat (al_units a) - unat (effective_borrow a)"
| "held_charge AcBorrowed a = unat (effective_borrow a)"
| "held_charge AcLent a = 0"
| "held_charge (AcQueueReserved q) a =
     (if al_state a = AReserved \<and> al_queue a = q then unat (al_units a) else 0)"
| "held_charge (AcQueueCommitted q) a =
     (if al_state a \<noteq> AReserved \<and> al_queue a = q then unat (al_units a) else 0)"

definition lent_charge :: "account \<Rightarrow> allocation_record \<Rightarrow> nat" where
  "lent_charge acc a = (if acc = AcLent \<or> acc = AcOwn then unat (effective_borrow a) else 0)"

definition charge :: "account \<Rightarrow> pool_id \<Rightarrow> allocation_record \<Rightarrow> nat" where
  "charge acc p a =
     (if \<not> holds_units a then 0
      else (if al_pool a = p then held_charge acc a else 0) +
           (if al_lender a = p then lent_charge acc a else 0))"

definition books :: "account \<Rightarrow> pool_id \<Rightarrow> fabric \<Rightarrow> nat" where
  "books acc p f = asum (charge acc p) (fb_allocations f)"

definition books_balance :: "fabric \<Rightarrow> bool" where
  "books_balance f \<longleftrightarrow>
     (\<forall>p e acc. map_of (fb_pools f) p = Some e \<longrightarrow> balance acc e = books acc p f)"

lemma effective_borrow_le: "unat (effective_borrow a) \<le> unat (al_units a)"
  by (simp add: effective_borrow_def word_le_nat_alt)

lemma charge_split:
  "charge AcOwn p a + charge AcBorrowed p a = charge AcReserved p a + charge AcCommitted p a + charge AcLent p a"
  "charge AcPinned p a + charge AcReclaimable p a = charge AcReserved p a + charge AcCommitted p a"
  "charge (AcQueueReserved q) p a \<le> charge AcReserved p a"
  "charge (AcQueueCommitted q) p a \<le> charge AcCommitted p a"
  "charge AcLent p a \<le> charge AcOwn p a"
  using effective_borrow_le[of a] by (simp_all add: charge_def lent_charge_def)

lemma books_split:
  "books AcOwn p f + books AcBorrowed p f = books AcReserved p f + books AcCommitted p f + books AcLent p f"
  "books AcPinned p f + books AcReclaimable p f = books AcReserved p f + books AcCommitted p f"
  "books (AcQueueReserved q) p f \<le> books AcReserved p f"
  "books (AcQueueCommitted q) p f \<le> books AcCommitted p f"
  "books AcLent p f \<le> books AcOwn p f"
  unfolding books_def
  by (simp_all only: asum_plus[symmetric] charge_split) (intro asum_mono charge_split)+

subsection \<open>The invariant\<close>

definition entry_ok :: "fabric \<Rightarrow> u64 \<Rightarrow> pool_entry \<Rightarrow> bool" where
  "entry_ok f p e \<longleftrightarrow>
     pool_validate (en_descriptor e) = Inr () \<and> pd_id (en_descriptor e) = p \<and>
     unat (en_own_usage e) \<le> 2 ^ 61 \<and> unat (en_borrowed_in e) \<le> 2 ^ 60 \<and>
     (\<forall>i\<in>set (en_members e). \<exists>a. map_of (fb_allocations f) i = Some a \<and> holds_units a \<and> al_pool a = p)"

definition record_ok :: "fabric \<Rightarrow> u64 \<Rightarrow> allocation_record \<Rightarrow> bool" where
  "record_ok f i a \<longleftrightarrow> al_id a = i \<and>
     (holds_units a \<longrightarrow> al_units a \<noteq> 0 \<and> borrow_units a \<le> al_units a \<and>
        map_of (fb_pools f) (al_pool a) \<noteq> None \<and>
        (borrow_units a \<noteq> 0 \<longrightarrow> map_of (fb_pools f) (al_lender a) \<noteq> None))"

text \<open>The pools form a forest: a parent (0 is none) is registered and comes before its children in
  some order, so that the ancestor walk never returns to its start.\<close>

definition parent_of :: "fabric \<Rightarrow> u64 \<Rightarrow> pool_id option" where
  "parent_of f p = map_option (pd_parent \<circ> en_descriptor) (map_of (fb_pools f) p)"

definition ranks :: "fabric \<Rightarrow> (u64 \<Rightarrow> nat) \<Rightarrow> bool" where
  "ranks f rank \<longleftrightarrow> (\<forall>p q. parent_of f p = Some q \<longrightarrow> q \<noteq> 0 \<longrightarrow> rank q < rank p)"

definition tree_ok :: "fabric \<Rightarrow> bool" where
  "tree_ok f \<longleftrightarrow> (\<forall>p q. parent_of f p = Some q \<longrightarrow> q \<noteq> 0 \<longrightarrow> parent_of f q \<noteq> None) \<and> (\<exists>rank. ranks f rank)"

lemma tree_ok_cong: "parent_of g = parent_of f \<Longrightarrow> tree_ok g = tree_ok f"
  by (simp add: tree_ok_def ranks_def)

definition ledger_inv :: "fabric \<Rightarrow> bool" where
  "ledger_inv f \<longleftrightarrow>
     (\<forall>p e. map_of (fb_pools f) p = Some e \<longrightarrow> entry_ok f p e) \<and>
     (\<forall>i a. map_of (fb_allocations f) i = Some a \<longrightarrow> record_ok f i a) \<and>
     (\<forall>i p. map_of (fb_policies f) i = Some p \<longrightarrow> policy_validate p = Inr ()) \<and>
     books_balance f \<and> tree_ok f"

lemma ledger_invD:
  assumes "ledger_inv f"
  shows "map_of (fb_pools f) p = Some e \<Longrightarrow> entry_ok f p e"
    "map_of (fb_allocations f) i = Some a \<Longrightarrow> record_ok f i a"
    "map_of (fb_policies f) j = Some pol \<Longrightarrow> policy_validate pol = Inr ()"
    "map_of (fb_pools f) p = Some e \<Longrightarrow> balance acc e = books acc p f"
    "tree_ok f"
  using assms by (auto simp: ledger_inv_def books_balance_def)

text \<open>The part of the state that the invariant reads.\<close>

definition same_ledger :: "fabric \<Rightarrow> fabric \<Rightarrow> bool" where
  "same_ledger f g \<longleftrightarrow> fb_pools g = fb_pools f \<and> fb_allocations g = fb_allocations f \<and>
     fb_policies g = fb_policies f"

lemma same_ledger_refl [simp, intro]: "same_ledger f f"
  by (simp add: same_ledger_def)

lemma same_ledger_trans: "same_ledger f g \<Longrightarrow> same_ledger g h \<Longrightarrow> same_ledger f h"
  by (simp add: same_ledger_def)

lemma same_ledger_inv: "same_ledger f g \<Longrightarrow> ledger_inv g = ledger_inv f"
  by (simp add: same_ledger_def ledger_inv_def entry_ok_def record_ok_def books_balance_def books_def
      tree_ok_def ranks_def parent_of_def)

lemma ledger_inv_fabric0: "ledger_inv fabric0"
  by (simp add: ledger_inv_def fabric0_def books_balance_def tree_ok_def ranks_def parent_of_def)

subsection \<open>Bounds that follow from the books\<close>

lemma balance_bounds:
  assumes "ledger_inv f" "map_of (fb_pools f) p = Some e"
  shows "unat (en_reserved_units e) + unat (en_committed_units e) + unat (en_lent_out e) =
      unat (en_own_usage e) + unat (en_borrowed_in e)"
    and "unat (en_pinned_units e) + unat (en_reclaimable_units e) =
      unat (en_reserved_units e) + unat (en_committed_units e)"
    and "unat (en_own_usage e) \<le> 2 ^ 61" "unat (en_borrowed_in e) \<le> 2 ^ 60"
    and "unat (allocated e) = unat (en_reserved_units e) + unat (en_committed_units e)"
proof -
  have b: "balance acc e = books acc p f" for acc
    using ledger_invD(4)[OF assms] .
  show 1: "unat (en_reserved_units e) + unat (en_committed_units e) + unat (en_lent_out e) =
      unat (en_own_usage e) + unat (en_borrowed_in e)"
    using books_split(1)[of p f] by (simp flip: b)
  show "unat (en_pinned_units e) + unat (en_reclaimable_units e) =
      unat (en_reserved_units e) + unat (en_committed_units e)"
    using books_split(2)[of p f] by (simp flip: b)
  show 2: "unat (en_own_usage e) \<le> 2 ^ 61" "unat (en_borrowed_in e) \<le> 2 ^ 60"
    using ledger_invD(1)[OF assms] by (auto simp: entry_ok_def)
  show "unat (allocated e) = unat (en_reserved_units e) + unat (en_committed_units e)"
    unfolding allocated_def using 1 2 by (intro unat_plus_small) simp
qed

text \<open>An entry whose sums agree closes exactly when it is within its overcommit limit.\<close>

definition sums_ok :: "pool_entry \<Rightarrow> bool" where
  "sums_ok e \<longleftrightarrow> pool_validate (en_descriptor e) = Inr () \<and>
     unat (en_reserved_units e) + unat (en_committed_units e) + unat (en_lent_out e) =
       unat (en_own_usage e) + unat (en_borrowed_in e) \<and>
     unat (en_pinned_units e) + unat (en_reclaimable_units e) =
       unat (en_reserved_units e) + unat (en_committed_units e) \<and>
     unat (en_own_usage e) \<le> 2 ^ 61 \<and> unat (en_borrowed_in e) \<le> 2 ^ 60 \<and>
     unat (en_lent_out e) \<le> unat (en_own_usage e)"

lemma ledger_sums_ok:
  assumes "ledger_inv f" "map_of (fb_pools f) p = Some e"
  shows "sums_ok e"
  using balance_bounds[OF assms] ledger_invD(1)[OF assms] books_split(5)[of p f]
    ledger_invD(4)[OF assms, of AcOwn] ledger_invD(4)[OF assms, of AcLent]
  by (simp add: sums_ok_def entry_ok_def)

lemma unat_en_usable: "unat (en_usable e) =
    unat (raw_units (en_descriptor e)) - unat (protected_units (en_descriptor e))"
  by (simp add: en_usable_def unat_usable_units)

lemma unat_overcommit_used:
  "unat (en_overcommit_used e) = unat (en_own_usage e) - unat (en_usable e)"
  by (auto simp: en_overcommit_used_def word_less_nat_alt unat_sub word_le_nat_alt)

lemma unat_free_units: "unat (en_free_units e) = unat (en_usable e) - unat (en_own_usage e)"
proof (cases "en_own_usage e > en_usable e")
  case True
  then show ?thesis by (simp add: en_free_units_def en_overcommit_used_def word_less_nat_alt)
next
  case False
  then show ?thesis
    by (auto simp: en_free_units_def en_overcommit_used_def not_less unat_sub word_le_nat_alt
        word_less_nat_alt)
qed

lemma unat_allocated:
  "sums_ok e \<Longrightarrow> unat (allocated e) = unat (en_reserved_units e) + unat (en_committed_units e)"
  unfolding allocated_def by (intro unat_plus_small) (simp add: sums_ok_def)

lemma accounting_closes:
  assumes "sums_ok e"
  shows "ledger_closes (accounting_of e f) mode limit \<longleftrightarrow>
    unat (en_overcommit_used e) \<le> unat limit \<and> (en_overcommit_used e \<noteq> 0 \<longrightarrow> mode = OcBounded)"
proof -
  note v = pool_validD[of "en_descriptor e"] and facts = assms[unfolded sums_ok_def]
  have "unat (en_usable e) \<le> 2 ^ 60" using v facts by (simp add: unat_en_usable)
  moreover have "unat (en_overcommit_used e) \<le> 2 ^ 61" using facts by (auto simp: unat_overcommit_used)
  moreover have "en_free_units e = 0 \<or> en_overcommit_used e = 0"
    unfolding unat_eq_zero[symmetric] by (simp add: unat_free_units unat_overcommit_used) linarith
  moreover have "pool_identity (accounting_of e f)"
    using v facts
    by (auto simp: pool_identity_def accounting_of_def unat_free_units unat_overcommit_used unat_en_usable
        unat_allocated[OF assms])
  ultimately show ?thesis
    using v facts
    by (auto simp: ledger_closes_def accounting_of_def unat_free_units unat_overcommit_used unat_en_usable
        unat_allocated[OF assms])
qed

subsection \<open>Recomputation\<close>

lemma map_of_map_pool:
  "map_of (fb_pools (map_pool p g f)) q =
     (if q = p then map_option g (map_of (fb_pools f) p) else map_of (fb_pools f) q)"
  by (simp add: map_pool_def split: option.split)

lemma map_pool_allocations [simp]:
  "fb_allocations (map_pool p g f) = fb_allocations f" "fb_policies (map_pool p g f) = fb_policies f"
  by (simp_all add: map_pool_def split: option.split)

lemma unat_add_mod: "unat (a + b) = (unat a + unat (b :: u64)) mod 2 ^ 64"
  by (simp add: unat_word_ariths)

lemma balance_small: "balance acc e mod 2 ^ 64 = balance acc e"
proof -
  have "unat (w :: u64) mod 2 ^ 64 = unat w" for w using unat64_less[of w] by simp
  then show ?thesis by (cases acc) (simp_all add: bucket_units_def split: option.split)
qed

lemma bucket_units_add:
  "bucket_units (bucket_add q n b) r = (if r = q then (bucket_units b q + unat n) mod 2 ^ 64 else bucket_units b r)"
  by (simp add: bucket_units_def bucket_add_def unat_add_mod split: option.split)

lemma balance_charge_holder:
  "holds_units a \<Longrightarrow> balance acc (charge_holder a e) = (balance acc e + held_charge acc a) mod 2 ^ 64"
proof -
  have own: "unat (al_units a - effective_borrow a) = unat (al_units a) - unat (effective_borrow a)"
    using effective_borrow_le[of a] by (simp add: unat_sub word_le_nat_alt)
  have m: "unat (w :: u64) mod 18446744073709551616 = unat w" for w
    using unat64_less[of w] by simp
  have b: "bucket_units b q mod 18446744073709551616 = bucket_units b q" for b q
    by (simp add: bucket_units_def m split: option.split)
  assume "holds_units a"
  then show ?thesis
    by (cases acc) (auto simp: charge_holder_def Let_def unat_add_mod own bucket_units_add m b)
qed

lemma balance_charge_lender:
  "balance acc (charge_lender (effective_borrow a) e) = (balance acc e + lent_charge acc a) mod 2 ^ 64"
proof -
  have m: "unat (w :: u64) mod 18446744073709551616 = unat w" for w
    using unat64_less[of w] by simp
  have b: "bucket_units b q mod 18446744073709551616 = bucket_units b q" for b q
    by (simp add: bucket_units_def m split: option.split)
  show ?thesis by (cases acc) (simp_all add: charge_lender_def lent_charge_def unat_add_mod m b)
qed

definition keys_valid :: "fabric \<Rightarrow> bool" where
  "keys_valid f \<longleftrightarrow> map_of (fb_pools f) 0 = None"

definition holders_known :: "fabric \<Rightarrow> bool" where
  "holders_known f \<longleftrightarrow> (\<forall>(i, a) \<in> set (fb_allocations f).
     holds_units a \<longrightarrow> map_of (fb_pools f) (al_pool a) \<noteq> None)"

lemma charge_record_balance:
  assumes "holds_units a \<longrightarrow> map_of (fb_pools f) (al_pool a) \<noteq> None" "map_of (fb_pools f) 0 = None"
    and "map_of (fb_pools f) p = Some e"
  shows "\<exists>e'. map_of (fb_pools (charge_record a f)) p = Some e' \<and>
     en_descriptor e' = en_descriptor e \<and>
     (\<forall>acc. balance acc e' = (balance acc e + charge acc p a) mod 2 ^ 64)"
proof -
  have lent0: "lent_charge acc a = 0" if "effective_borrow a = 0" for acc
    using that by (simp add: lent_charge_def)
  have d: "en_descriptor (charge_holder a e) = en_descriptor e"
    "en_descriptor (charge_lender b e) = en_descriptor e" for b e
    by (simp_all add: charge_holder_def charge_lender_def Let_def)
  have p0: "p \<noteq> 0" using assms(2,3) by auto
  show ?thesis
    using assms p0 balance_small[where e = e]
    by (auto simp: charge_record_def map_of_map_pool charge_def balance_charge_holder
        balance_charge_lender lent0 valid_def d Let_def mod_simps add.assoc)
qed

lemma charge_record_keys:
  "(map_of (fb_pools (charge_record a f)) p = None) = (map_of (fb_pools f) p = None)"
  by (auto simp: charge_record_def map_of_map_pool Let_def)

lemma charge_records_balance:
  assumes "\<forall>(i, a) \<in> set al. holds_units a \<longrightarrow> map_of (fb_pools f) (al_pool a) \<noteq> None"
    and "map_of (fb_pools f) 0 = None" "map_of (fb_pools f) p = Some e"
  shows "\<exists>e'. map_of (fb_pools (fold (\<lambda>(_, a). charge_record a) al f)) p = Some e' \<and>
     en_descriptor e' = en_descriptor e \<and>
     (\<forall>acc. balance acc e' = (balance acc e + asum (charge acc p) al) mod 2 ^ 64)"
  using assms
proof (induction al arbitrary: f e)
  case Nil
  then show ?case using balance_small by auto
next
  case (Cons x al)
  obtain i a where x: "x = (i, a)" by (cases x)
  obtain e1 where e1: "map_of (fb_pools (charge_record a f)) p = Some e1"
    "en_descriptor e1 = en_descriptor e"
    "\<And>acc. balance acc e1 = (balance acc e + charge acc p a) mod 2 ^ 64"
    using charge_record_balance[of a f p e] Cons.prems x by auto
  from Cons.IH[OF _ _ e1(1)] Cons.prems x obtain e' where
    "map_of (fb_pools (fold (\<lambda>(_, a). charge_record a) al (charge_record a f))) p = Some e'"
    "en_descriptor e' = en_descriptor e1"
    "\<forall>acc. balance acc e' = (balance acc e1 + asum (charge acc p) al) mod 2 ^ 64"
    by (auto simp: charge_record_keys)
  with e1 x show ?case by (auto simp: mod_simps add.assoc)
qed

lemma map_of_map_snd: "map_of (map (\<lambda>(k, v). (k, g v)) al) k = map_option g (map_of al k)"
  by (induction al) auto

lemma balance_clear [simp]: "balance acc (clear_entry e) = 0"
  by (cases acc) (simp_all add: clear_entry_def bucket_units_def)

lemma balance_refresh [simp]: "balance acc (refresh_runtime e) = balance acc e"
  by (cases acc) (simp_all add: refresh_runtime_def)

lemma charge_record_allocations [simp]: "fb_allocations (charge_record a f) = fb_allocations f"
  by (simp add: charge_record_def Let_def)

lemma charge_records_allocations [simp]:
  "fb_allocations (fold (\<lambda>(_, a). charge_record a) al f) = fb_allocations f"
  by (induction al arbitrary: f) (auto split: prod.split)

lemma rebuild_balance:
  assumes "holders_known f" "keys_valid f" "map_of (fb_pools f) p = Some e"
  shows "\<exists>e'. map_of (fb_pools (rebuild_aggregates f)) p = Some e' \<and>
    en_descriptor e' = en_descriptor e \<and> (\<forall>acc. balance acc e' = books acc p f mod 2 ^ 64)"
proof -
  let ?f0 = "f\<lparr>fb_pools := map (\<lambda>(p, e). (p, clear_entry e)) (fb_pools f)\<rparr>"
  have c: "map_of (fb_pools ?f0) q = map_option clear_entry (map_of (fb_pools f) q)" for q
    by (simp add: map_of_map_snd)
  have "\<forall>(i, a) \<in> set (fb_allocations f).
      holds_units a \<longrightarrow> map_of (fb_pools ?f0) (al_pool a) \<noteq> None"
    using assms(1) by (fastforce simp: holders_known_def map_of_map_snd)
  moreover have "map_of (fb_pools ?f0) 0 = None" using assms(2) c by (simp add: keys_valid_def)
  moreover have "map_of (fb_pools ?f0) p = Some (clear_entry e)" using assms(3) c by simp
  ultimately obtain e' where e': "map_of (fb_pools (fold (\<lambda>(_, a). charge_record a) (fb_allocations f) ?f0)) p = Some e'"
    "en_descriptor e' = en_descriptor (clear_entry e)"
    "\<forall>acc. balance acc e' = (balance acc (clear_entry e) + asum (charge acc p) (fb_allocations f)) mod 2 ^ 64"
    using charge_records_balance by blast
  then have "map_of (fb_pools (rebuild_aggregates f)) p = Some (refresh_runtime e')"
    by (simp add: rebuild_aggregates_def Let_def map_of_map_snd)
  moreover have "en_descriptor (refresh_runtime e') = en_descriptor e"
    using e'(2) by (simp add: refresh_runtime_def clear_entry_def)
  ultimately show ?thesis using e'(3) by (simp add: books_def)
qed

text \<open>Recomputation agrees with the ledger.  After rebuild_aggregates every aggregate of
  every pool, the per-queue buckets included, is the sum of what the holding allocations charge to
  it, modulo the width of the counter; with sums below 2^64 the books balance.\<close>

theorem rebuild_aggregates_books:
  assumes "holders_known f" "keys_valid f" "map_of (fb_pools f) p = Some e"
  shows "\<exists>e'. map_of (fb_pools (rebuild_aggregates f)) p = Some e' \<and>
    en_descriptor e' = en_descriptor e \<and> (\<forall>acc. balance acc e' = books acc p f mod 2 ^ 64)"
  using rebuild_balance[OF assms] .

definition sample_pool :: pool_descriptor where
  "sample_pool = \<lparr>pd_id = 1, pd_generation = 1, pd_name = ''gpu0'', pd_resource = 1, pd_backend = 1,
     raw_units = 100, protected_units = 10, pd_parent = 0, pd_policy = 1, pd_tenant = 0,
     pd_provenance = 0, pd_created_at = 0, pd_retired = False\<rparr>"

definition sample_allocation :: allocation_record where
  "sample_allocation = \<lparr>al_id = 1, al_pool = 1, al_queue = 1, al_tenant = 0, al_traffic_class = 0,
     al_units = 40, al_state = ACommitted, al_reclaim_class = Reclaimable, al_reclaim_priority = 0,
     al_lineage = \<lparr>ln_origin = 1, ln_parent = 0, ln_depth = 0, ln_chain_digest = \<lparr>dg_hi = 0, dg_lo = 0\<rparr>\<rparr>,
     al_bound = bound_generations0, al_attempt = 1, al_provenance = 0, borrow_units = 0, al_lender = 0,
     al_created_at = 0, last_touched = 0, expires_at = 0, al_revision = 1\<rparr>"

definition sample_fabric :: fabric where
  "sample_fabric = fabric0\<lparr>fb_pools := [(1, entry_of sample_pool 1)], fb_allocations := [(1, sample_allocation)]\<rparr>"

theorem rebuild_aggregates_books_witness:
  "\<exists>e'. map_of (fb_pools (rebuild_aggregates sample_fabric)) 1 = Some e' \<and>
    en_descriptor e' = sample_pool \<and> balance AcCommitted e' = 40"
proof -
  have "holders_known sample_fabric" "keys_valid sample_fabric"
    "map_of (fb_pools sample_fabric) 1 = Some (entry_of sample_pool 1)"
    by (simp_all add: holders_known_def keys_valid_def sample_fabric_def fabric0_def sample_allocation_def)
  from rebuild_aggregates_books[OF this] obtain e' where
    e': "map_of (fb_pools (rebuild_aggregates sample_fabric)) 1 = Some e'" "en_descriptor e' = sample_pool"
    and b: "\<forall>acc. balance acc e' = books acc 1 sample_fabric mod 2 ^ 64"
    by (auto simp: entry_of_def)
  have "books AcCommitted 1 sample_fabric = 40"
    by (simp add: books_def sample_fabric_def fabric0_def sample_allocation_def charge_def
        holds_units_def allocation_holds_units_def lent_charge_def)
  with b[rule_format, of AcCommitted] have "balance AcCommitted e' = 40" by simp
  with e' show ?thesis by blast
qed

end
