(* ===== verification/Fabric_Alloc.thy ===== *)
theory Fabric_Alloc
  imports Ledger
begin

text \<open>
  Allocation: src/fabric_alloc.cpp.  Evidence resolution, the grant computation, the unit
  arithmetic, and the operations allocate, commit, release, revalidate, fence_stale and
  expire_reservations, each with every early return and with the mutations that precede it.
  A C++ reference to a pool entry or to a record is the key under which the table holds it.
\<close>

subsection \<open>Helpers\<close>

definition sat_add :: "u64 \<Rightarrow> u64 \<Rightarrow> u64" where
  "sat_add a b = (let (overflowed, out) = add_overflow a b in if overflowed then u64_max else out)"

definition sat_mul :: "u64 \<Rightarrow> u64 \<Rightarrow> u64" where
  "sat_mul a b = (let (overflowed, out) = mul_overflow a b in if overflowed then u64_max else out)"

primrec journal_op_for :: "allocation_state \<Rightarrow> journal_op" where
  "journal_op_for AReserved = JAllocationReserved"
| "journal_op_for ACommitted = JAllocationCommitted"
| "journal_op_for AFenced = JAllocationFenced"
| "journal_op_for AReclaimed = JAllocationReclaimed"
| "journal_op_for AReleased = JAllocationReleased"
| "journal_op_for AExpired = JAllocationExpired"

primrec event_for :: "allocation_state \<Rightarrow> event_kind" where
  "event_for AReserved = EvAllocationReserved"
| "event_for ACommitted = EvAllocationCommitted"
| "event_for AFenced = EvAllocationFenced"
| "event_for AReclaimed = EvAllocationReclaimed"
| "event_for AReleased = EvAllocationReleased"
| "event_for AExpired = EvAllocationExpired"

definition is_stale_binding :: "allocation_record \<Rightarrow> pool_entry \<Rightarrow> pool_policy \<Rightarrow> epoch_id \<Rightarrow> bool" where
  "is_stale_binding a e policy epoch =
     (bg_pool_generation (al_bound a) \<noteq> pd_generation (en_descriptor e) \<or>
      bg_capacity_generation (al_bound a) \<noteq> en_capacity_generation e \<or>
      bg_policy_generation (al_bound a) \<noteq> pol_generation policy \<or>
      bg_epoch (al_bound a) \<noteq> epoch)"

subsection \<open>Evidence resolution\<close>

definition observation_of :: "pool_entry \<Rightarrow> fabric \<Rightarrow> pressure_observation" where
  "observation_of e f =
     classify_pressure (case policy_of e f of None \<Rightarrow> thresholds0 | Some p \<Rightarrow> pr_thresholds (pressure p))
       (en_own_usage e) (en_usable e) (en_overcommit_used e \<noteq> 0)"

definition unknown_evidence :: "pool_entry \<Rightarrow> fabric \<Rightarrow> pressure_evidence" where
  "unknown_evidence e f = (let ob = observation_of e f in
     \<lparr>pe_state = Unknown, pe_utilization_bp = ob_utilization_bp ob, pe_binding_bp = ob_binding_bp ob,
      pe_snapshot = 0, pe_pool_generation = pd_generation (en_descriptor e), pe_epoch = fb_epoch f,
      pe_observed_at = 0, pe_age_ticks = 0, pe_overcommitted = ob_overcommitted ob,
      pe_epoch_match = False, pe_generation_match = False, pe_fresh = False,
      pe_reason = EvidenceUnknown\<rparr>)"

definition resolve_evidence :: "pool_entry \<Rightarrow> fabric \<Rightarrow> pressure_evidence" where
  "resolve_evidence e f =
     (let evidence = unknown_evidence e f; stamp = fb_tick f in
      case map_of (fb_pressure f) (pd_id (en_descriptor e)) of
        None \<Rightarrow> evidence
      | Some x \<Rightarrow> (case px_latest x of
          None \<Rightarrow> evidence
        | Some s \<Rightarrow>
          let evidence = evidence\<lparr>
                pe_snapshot := ps_id s,
                pe_observed_at := ps_observed_at s,
                pe_age_ticks := (if stamp \<ge> ps_observed_at s then stamp - ps_observed_at s else 0),
                pe_epoch_match := (ps_epoch s = fb_epoch f),
                pe_generation_match := (ps_pool_generation s = pd_generation (en_descriptor e)),
                pe_fresh := is_fresh stamp (ps_observed_at s) (ps_ttl_ticks s)\<rparr>
          in if \<not> pe_epoch_match evidence
             then evidence\<lparr>pe_state := Stale, pe_reason := StaleEpoch\<rparr>
             else if \<not> pe_generation_match evidence
             then evidence\<lparr>pe_state := Stale, pe_reason := StaleGeneration\<rparr>
             else if \<not> pe_fresh evidence
             then evidence\<lparr>pe_state := Stale, pe_reason := StaleEvidence\<rparr>
             else if assert_committed s \<and> ps_committed_units s \<noteq> en_own_usage e
             then evidence\<lparr>pe_state := Stale, pe_reason := StaleEvidence\<rparr>
             else evidence\<lparr>pe_state := ob_state (observation_of e f), pe_reason := Ok\<rparr>))"

subsection \<open>Capacity arithmetic\<close>

record grant_computation =
  gc_own_free :: u64
  gc_own_overcommit_headroom :: u64
  gc_borrowable :: u64
  gc_borrow_limit_remaining :: u64
  gc_lender :: pool_id
  gc_lender_free :: u64
  gc_max_grant :: u64
  gc_binding :: binding_constraint

text \<open>The walk up the ancestors, bounded by kMaxPoolDepth.\<close>

fun find_lender :: "nat \<Rightarrow> pool_id \<Rightarrow> fabric \<Rightarrow> pool_id \<times> u64" where
  "find_lender 0 cursor f = (0, 0)"
| "find_lender (Suc n) cursor f =
     (if \<not> valid cursor then (0, 0)
      else case map_of (fb_pools f) cursor of
        None \<Rightarrow> (0, 0)
      | Some ancestor \<Rightarrow>
          if \<not> pd_retired (en_descriptor ancestor) \<and> en_free_units ancestor \<noteq> 0
          then (pd_id (en_descriptor ancestor), en_free_units ancestor)
          else find_lender n (pd_parent (en_descriptor ancestor)) f)"

definition compute_grant :: "pool_entry \<Rightarrow> pool_policy \<Rightarrow> fabric \<Rightarrow> grant_computation" where
  "compute_grant e policy f =
     (let own_free = en_free_units e;
          headroom = (if oc_mode (overcommit policy) = OcBounded \<and>
                         oc_limit_units (overcommit policy) > en_overcommit_used e
                      then oc_limit_units (overcommit policy) - en_overcommit_used e else 0);
          own_allowance = sat_add own_free headroom;
          borrowing = (bw_mode (borrow policy) = FromAncestorFree);
          remaining = (if borrowing \<and> bw_limit_units (borrow policy) > en_borrowed_in e
                       then bw_limit_units (borrow policy) - en_borrowed_in e else 0);
          (lender, lender_free) = (if borrowing
                       then find_lender kMaxPoolDepth (pd_parent (en_descriptor e)) f else (0, 0));
          borrowable = (if borrowing then min lender_free remaining else 0);
          max_grant = sat_add own_allowance borrowable
      in \<lparr>gc_own_free = own_free, gc_own_overcommit_headroom = headroom, gc_borrowable = borrowable,
          gc_borrow_limit_remaining = remaining, gc_lender = lender, gc_lender_free = lender_free,
          gc_max_grant = max_grant,
          gc_binding = (if max_grant = 0 \<and> oc_mode (overcommit policy) = OcBounded
                        then BcOvercommitLimit else BcCapacity)\<rparr>)"

definition apply_commit_units :: "u64 \<Rightarrow> u64 \<Rightarrow> u64 \<Rightarrow> pool_id \<Rightarrow> unit op" where
  "apply_commit_units p units borrowed lender f =
     (if borrowed > units then (Inl InvariantViolation, f)
      else case map_of (fb_pools f) p of None \<Rightarrow> (Inl UnknownPool, f)
      | Some e \<Rightarrow>
        let (own_overflow, next_own) = add_overflow (en_own_usage e) (units - borrowed);
            (borrow_overflow, next_borrowed) = add_overflow (en_borrowed_in e) borrowed in
        if own_overflow then (Inl Overflow, f)
        else if borrow_overflow then (Inl Overflow, f)
        else let f = map_pool p (\<lambda>e. e\<lparr>en_own_usage := next_own, en_borrowed_in := next_borrowed\<rparr>) f in
        if borrowed = 0 then (Inr (), f)
        else if \<not> valid lender then (Inl InvariantViolation, f)
        else case map_of (fb_pools f) lender of
          None \<Rightarrow> (Inl UnknownPool, f)
        | Some l \<Rightarrow>
          let (lent_overflow, next_lent) = add_overflow (en_lent_out l) borrowed;
              (lender_overflow, next_lender_own) = add_overflow (en_own_usage l) borrowed in
          if lent_overflow then (Inl Overflow, f)
          else if lender_overflow then (Inl Overflow, f)
          else if next_lender_own > sat_add (en_usable l) kMaxOvercommitUnits
          then (Inl CapacityExceeded, f)
          else (Inr (), map_pool lender
                  (\<lambda>l. l\<lparr>en_lent_out := next_lent, en_own_usage := next_lender_own\<rparr>) f))"

text \<open>The debits of apply_release_units, each after its underflow check.\<close>

definition debit_state :: "u64 \<Rightarrow> u64 \<Rightarrow> bool \<Rightarrow> unit op" where
  "debit_state p units reserved f =
     (case map_of (fb_pools f) p of None \<Rightarrow> (Inl UnknownPool, f)
      | Some e \<Rightarrow>
        if reserved then
          if en_reserved_units e < units then (Inl InvariantViolation, f)
          else (Inr (), map_pool p (\<lambda>e. e\<lparr>en_reserved_units := en_reserved_units e - units\<rparr>) f)
        else
          if en_committed_units e < units then (Inl InvariantViolation, f)
          else (Inr (), map_pool p (\<lambda>e. e\<lparr>en_committed_units := en_committed_units e - units\<rparr>) f))"

definition debit_class :: "u64 \<Rightarrow> u64 \<Rightarrow> bool \<Rightarrow> unit op" where
  "debit_class p units pinned f =
     (case map_of (fb_pools f) p of None \<Rightarrow> (Inl UnknownPool, f)
      | Some e \<Rightarrow>
        if pinned then
          if en_pinned_units e < units then (Inl InvariantViolation, f)
          else (Inr (), map_pool p (\<lambda>e. e\<lparr>en_pinned_units := en_pinned_units e - units\<rparr>) f)
        else
          if en_reclaimable_units e < units then (Inl InvariantViolation, f)
          else (Inr (), map_pool p (\<lambda>e. e\<lparr>en_reclaimable_units := en_reclaimable_units e - units\<rparr>) f))"

definition debit_lender :: "u64 \<Rightarrow> pool_id \<Rightarrow> unit op" where
  "debit_lender borrowed lender f =
     (case (if valid lender then map_of (fb_pools f) lender else None) of
        None \<Rightarrow> (Inl InvariantViolation, f)
      | Some l \<Rightarrow>
          if en_lent_out l < borrowed \<or> en_own_usage l < borrowed then (Inl InvariantViolation, f)
          else (Inr (), map_pool lender (\<lambda>l. l\<lparr>en_lent_out := en_lent_out l - borrowed,
                  en_own_usage := en_own_usage l - borrowed\<rparr>) f))"

definition apply_release_units :: "u64 \<Rightarrow> allocation_record \<Rightarrow> unit op" where
  "apply_release_units p a f =
     (if \<not> allocation_holds_units (al_state a) then (Inl InvariantViolation, f)
      else let units = al_units a; borrowed = effective_borrow a; own = units - borrowed in
      case map_of (fb_pools f) p of None \<Rightarrow> (Inl UnknownPool, f)
      | Some e \<Rightarrow>
        if en_own_usage e < own then (Inl InvariantViolation, f)
        else if en_borrowed_in e < borrowed then (Inl InvariantViolation, f)
        else try_st (debit_state p units (al_state a = AReserved) f) (\<lambda>_ f.
             try_st (debit_class p units (al_reclaim_class a = Pinned) f) (\<lambda>_ f.
             let f = map_pool p (\<lambda>e. e\<lparr>en_own_usage := en_own_usage e - own,
                                      en_borrowed_in := en_borrowed_in e - borrowed\<rparr>) f in
             try_st (if borrowed \<noteq> 0 then debit_lender borrowed (al_lender a) f else (Inr (), f)) (\<lambda>_ f.
               (Inr (), map_pool p (\<lambda>e.
                  (adjust_queue (al_queue a) (- sint units) (al_state a = AReserved) e)
                    \<lparr>en_members := removeAll (al_id a) (en_members e)\<rparr>) f)))))"

text \<open>A record held by reference is written back under its key.\<close>

definition set_record :: "u64 \<Rightarrow> allocation_record \<Rightarrow> fabric \<Rightarrow> fabric" where
  "set_record i a f = f\<lparr>fb_allocations := AList.update i a (fb_allocations f)\<rparr>"

definition count_fence :: "allocation_state \<Rightarrow> pool_id \<Rightarrow> fabric \<Rightarrow> fabric" where
  "count_fence st p f =
     (case st of
        AFenced \<Rightarrow> map_pool p (\<lambda>e. e\<lparr>en_runtime := (en_runtime e)\<lparr>fenced_count := fenced_count (en_runtime e) + 1\<rparr>\<rparr>)
          (bump mt_allocations_fenced_update f)
      | AReclaimed \<Rightarrow> map_pool p (\<lambda>e. e\<lparr>en_runtime := (en_runtime e)\<lparr>reclaim_count := reclaim_count (en_runtime e) + 1\<rparr>\<rparr>)
          (bump mt_allocations_reclaimed_update f)
      | AReleased \<Rightarrow> bump mt_allocations_released_update f
      | AExpired \<Rightarrow> bump mt_allocations_expired_update f
      | _ \<Rightarrow> f)"

definition fence_allocation_locked :: "u64 \<Rightarrow> allocation_record \<Rightarrow> allocation_state \<Rightarrow> unit op" where
  "fence_allocation_locked i a new_state f =
     (if map_of (fb_pools f) (al_pool a) = None then (Inl UnknownPool, f)
      else if \<not> allocation_holds_units (al_state a) then (Inl NoChange, f)
      else try_st (apply_release_units (al_pool a) a f) (\<lambda>_ f.
        let a = a\<lparr>al_state := new_state, last_touched := fb_tick f, al_revision := al_revision a + 1\<rparr>;
            f = set_record i a f
        in try_st (journal_allocation (journal_op_for new_state) a f) (\<lambda>_ f.
             (Inr (), count_fence new_state (al_pool a)
                (push_event (event_for new_state) Ok (al_pool a) (al_queue a) (al_id a) (al_units a) 0 f)))))"

subsection \<open>Decision assembly\<close>

definition bind_authority ::
  "pool_entry \<Rightarrow> generation \<Rightarrow> pool_policy \<Rightarrow> attempt_id \<Rightarrow> provenance_id \<Rightarrow> snapshot_id \<Rightarrow> epoch_id \<Rightarrow>
     boot_incarnation \<Rightarrow> pool_id \<Rightarrow> authority_vector \<Rightarrow> authority_vector" where
  "bind_authority e queue_generation policy attempt provenance snap epoch boot lender v =
     (let v = av_bind AkCapacity (en_capacity_generation e) (en_capacity_generation e) v;
          v = bind_generation AkPool (pd_generation (en_descriptor e)) v;
          v = bind_generation AkQueue queue_generation v;
          v = bind_generation AkPolicy (pol_generation policy) v;
          v = bind_id AkPressure snap v;
          v = bind_id AkEpoch epoch v;
          v = bind_id AkBackend (pd_backend (en_descriptor e)) v;
          v = bind_id AkProvenance provenance v;
          v = bind_id AkAttempt attempt v;
          v = av_bind AkBootIncarnation (bi_hi boot) (bi_lo boot) v;
          v = (if valid lender then bind_id AkReservation lender v else v)
      in seal v)"

definition make_decision ::
  "decision_kind \<Rightarrow> error_code \<Rightarrow> pool_entry \<Rightarrow> queue_id \<Rightarrow> u64 \<Rightarrow> u64 \<Rightarrow> allocation_id \<Rightarrow>
     binding_constraint \<Rightarrow> pressure_evidence \<Rightarrow> pool_accounting \<Rightarrow> tick \<Rightarrow> u64 \<Rightarrow> decision" where
  "make_decision kind code e queue requested granted allocation binding evidence accounting stamp sequence =
     \<lparr>dc_kind = kind, dc_status = code, dc_pool = pd_id (en_descriptor e), dc_queue = queue,
      dc_requested_units = requested, dc_granted_units = granted, dc_allocation = allocation,
      dc_binding = binding, dc_pressure = pe_state evidence,
      dc_utilization_bp = pe_utilization_bp evidence, dc_intent = intent0, dc_authority = authority0,
      dc_accounting = accounting, dc_decided_at = stamp, dc_sequence = sequence\<rparr>"

text \<open>The answer to a repeated attempt: built from the recorded one, nothing is applied.\<close>

definition replay_decision ::
  "attempt_record \<Rightarrow> attempt_id \<Rightarrow> pool_entry \<Rightarrow> queue_id \<Rightarrow> u64 \<Rightarrow> allocation_id \<Rightarrow> decision op" where
  "replay_decision previous attempt e queue requested allocation f =
     (let f = bump mt_idempotent_replays_update f;
          d = make_decision IdempotentReplay (at_outcome previous) e queue requested
                (at_granted_units previous) allocation BcNone (resolve_evidence e f)
                (accounting_of e f) (fb_tick f) (next_decision_sequence f)
      in (Inr (d\<lparr>dc_authority := seal (bind_id AkAttempt attempt (dc_authority d))\<rparr>), f))"

definition map_runtime :: "u64 \<Rightarrow> (pool_runtime \<Rightarrow> pool_runtime) \<Rightarrow> fabric \<Rightarrow> fabric" where
  "map_runtime p g = map_pool p (\<lambda>e. e\<lparr>en_runtime := g (en_runtime e)\<rparr>)"

definition advance_sequence :: "fabric \<Rightarrow> fabric" where
  "advance_sequence f = f\<lparr>next_decision_sequence := next_decision_sequence f + 1\<rparr>"

text \<open>record_decision, the sequence, record_attempt and the decision counter, in this order.\<close>

definition conclude :: "attempt_kind \<Rightarrow> attempt_id \<Rightarrow> digest \<Rightarrow> decision \<Rightarrow> fabric \<Rightarrow> fabric" where
  "conclude kind attempt d decision f =
     (let f = advance_sequence (record_decision decision f)
      in record_attempt \<lparr>at_id = attempt, at_kind = kind, at_request_digest = d,
           at_outcome = dc_status decision, at_allocation = dc_allocation decision,
           at_granted_units = dc_granted_units decision, at_sequence = dc_sequence decision,
           at_recorded_at = fb_tick f, at_unfinished = False\<rparr> f)"

subsection \<open>Allocate\<close>

definition allocate_finish ::
  "allocate_request \<Rightarrow> queue_descriptor \<Rightarrow> pool_policy \<Rightarrow> pressure_evidence \<Rightarrow> decision_kind \<Rightarrow> error_code \<Rightarrow>
     u64 \<Rightarrow> allocation_id \<Rightarrow> binding_constraint \<Rightarrow> corrective_intent \<Rightarrow> pool_id \<Rightarrow> decision op" where
  "allocate_finish q queue policy evidence kind code granted allocation binding intent lender f =
     (case map_of (fb_pools f) (ar_pool q) of None \<Rightarrow> (Inl UnknownPool, f)
      | Some e \<Rightarrow>
        let d = (make_decision kind code e (qd_id queue) (ar_requested_units q) granted allocation
                   binding evidence (accounting_of e f) (fb_tick f) (next_decision_sequence f))
                \<lparr>dc_intent := intent,
                 dc_authority := bind_authority e (qd_generation queue) policy (ar_attempt q)
                   (ar_provenance q) (pe_snapshot evidence) (fb_epoch f) (fb_boot f) lender authority0\<rparr>;
            f = (if code \<noteq> Ok
                 then map_runtime (ar_pool q) (\<lambda>r. r\<lparr>refuse_count := refuse_count r + 1\<rparr>)
                        (bump mt_refusals_update f)
                 else f);
            f = conclude AtAllocate (ar_attempt q) (allocate_request_digest q) d f;
            f = map_runtime (ar_pool q) (\<lambda>r. r\<lparr>last_decision_at := fb_tick f\<rparr>) f;
            f = bump mt_decisions_update f;
            f = (if granted = 0 \<and> code \<noteq> Ok
                 then push_event EvDecisionRefused code (ar_pool q) (ar_queue q) allocation
                        (ar_requested_units q) (dc_sequence d) f
                 else f)
        in (Inr d, f))"

definition apply_cap :: "u64 \<Rightarrow> binding_constraint \<Rightarrow> u64 \<times> binding_constraint \<Rightarrow> u64 \<times> binding_constraint" where
  "apply_cap cap constraint lb = (if cap < fst lb then (cap, constraint) else lb)"

definition queue_held :: "pool_entry \<Rightarrow> queue_id \<Rightarrow> u64" where
  "queue_held e q =
     (case map_of (en_queue_committed e) q of None \<Rightarrow> 0 | Some v \<Rightarrow> v) +
     (case map_of (en_queue_reserved e) q of None \<Rightarrow> 0 | Some v \<Rightarrow> v)"

definition queue_cap :: "pool_entry \<Rightarrow> queue_descriptor \<Rightarrow> u64 \<times> binding_constraint \<Rightarrow> u64 \<times> binding_constraint" where
  "queue_cap e queue lb =
     (let held = queue_held e (qd_id queue) in
      if max_committed_units queue \<noteq> 0
      then apply_cap (if max_committed_units queue > held then max_committed_units queue - held else 0)
             BcQueueMaxCommitted lb
      else if qd_demand_units queue \<noteq> 0
      then apply_cap (if qd_demand_units queue > held then qd_demand_units queue - held else 0)
             BcQueueShare lb
      else lb)"

definition soft_cap ::
  "pool_entry \<Rightarrow> pool_policy \<Rightarrow> pressure_state \<Rightarrow> u64 \<times> binding_constraint \<Rightarrow> u64 \<times> binding_constraint" where
  "soft_cap e policy st lb =
     (if soft_limit_bp policy \<noteq> 0 \<and> en_usable e \<noteq> 0 then
        let soft_units = sat_mul (en_usable e) (ucast (soft_limit_bp policy)) div ucast kScale;
            allowance = (if soft_units > en_own_usage e then soft_units - en_own_usage e else 0)
        in if pressure_at_least st High then apply_cap allowance BcPolicySoftLimit lb else lb
      else lb)"

definition grant_limit ::
  "pool_entry \<Rightarrow> queue_descriptor \<Rightarrow> pool_policy \<Rightarrow> pressure_state \<Rightarrow> grant_computation \<Rightarrow> u64 \<times> binding_constraint" where
  "grant_limit e queue policy st c =
     (let lb = (gc_max_grant c, gc_binding c);
          lb = (if max_single_request_units policy \<noteq> 0
                then apply_cap (max_single_request_units policy) BcPolicyMaxSingleRequest lb else lb);
          lb = (if max_single_allocation_units policy \<noteq> 0
                then apply_cap (max_single_allocation_units policy) BcPolicyMaxSingleAllocation lb else lb)
      in soft_cap e policy st (queue_cap e queue lb))"

text \<open>The units granted and the constraint that bound them.\<close>

definition decide_grant ::
  "allocate_request \<Rightarrow> pool_entry \<Rightarrow> queue_descriptor \<Rightarrow> pool_policy \<Rightarrow> pressure_state \<Rightarrow>
     grant_computation \<Rightarrow> u64 \<times> binding_constraint" where
  "decide_grant q e queue policy st c =
     (let (limit, binding) = grant_limit e queue policy st c;
          grant = min (ar_requested_units q) limit
      in if \<not> allow_partial_grant policy \<and> grant < ar_requested_units q
         then (0, if binding = BcNone then BcCapacity else binding)
         else (grant, binding))"

definition chain_digest_root :: "allocation_id \<Rightarrow> u64 \<Rightarrow> pool_id \<Rightarrow> queue_id \<Rightarrow> digest" where
  "chain_digest_root i grant pool queue = digest_bytes (buffer (writes
     [put_id i, put_u64 grant, put_id pool, put_id queue] writer0))"

definition chain_digest_child ::
  "allocation_id \<Rightarrow> allocation_id \<Rightarrow> u32 \<Rightarrow> u64 \<Rightarrow> pool_id \<Rightarrow> queue_id \<Rightarrow> digest \<Rightarrow> digest" where
  "chain_digest_child origin parent depth grant pool queue d = digest_bytes (buffer (writes
     [put_id origin, put_id parent, put_u32 depth, put_u64 grant, put_id pool, put_id queue,
      put_digest d] writer0))"

definition lineage_for :: "allocate_request \<Rightarrow> allocation_id \<Rightarrow> u64 \<Rightarrow> pool_id \<Rightarrow> queue_id \<Rightarrow> fabric \<Rightarrow> lineage result" where
  "lineage_for q i grant pool queue f =
     (if valid (ar_parent_allocation q) then
        (case map_of (fb_allocations f) (ar_parent_allocation q) of
           None \<Rightarrow> Inl UnknownAllocation
         | Some parent \<Rightarrow>
             if ln_depth (al_lineage parent) + 1 > kMaxLineageDepth then Inl BoundedResourceExhausted
             else let origin = (if valid (ln_origin (al_lineage parent))
                                then ln_origin (al_lineage parent) else al_id parent);
                      depth = ln_depth (al_lineage parent) + 1
                  in Inr \<lparr>ln_origin = origin, ln_parent = al_id parent, ln_depth = depth,
                          ln_chain_digest = chain_digest_child origin (al_id parent) depth grant pool
                            queue (ln_chain_digest (al_lineage parent))\<rparr>)
      else Inr \<lparr>ln_origin = i, ln_parent = 0, ln_depth = 0,
                ln_chain_digest = chain_digest_root i grant pool queue\<rparr>)"

definition borrow_for :: "u64 \<Rightarrow> grant_computation \<Rightarrow> u64" where
  "borrow_for grant c =
     (if grant > gc_own_free c then min (grant - gc_own_free c) (gc_borrowable c) else 0)"

definition build_record ::
  "allocate_request \<Rightarrow> pool_entry \<Rightarrow> queue_descriptor \<Rightarrow> pool_policy \<Rightarrow> grant_computation \<Rightarrow> u64 \<Rightarrow>
     fabric \<Rightarrow> allocation_record result" where
  "build_record q e queue policy c grant f =
     (let i = next_allocation_id f; stamp = fb_tick f; borrowed = borrow_for grant c;
          (id_overflow, _) = add_overflow i 1;
          (expiry_overflow, expiry) =
            (if ar_ttl_ticks q \<noteq> 0 then add_overflow stamp (ar_ttl_ticks q) else (False, 0)) in
      if id_overflow then Inl Overflow
      else if expiry_overflow then Inl Overflow
      else try_r (lineage_for q i grant (pd_id (en_descriptor e)) (qd_id queue) f) (\<lambda>l.
        Inr \<lparr>al_id = i, al_pool = pd_id (en_descriptor e), al_queue = qd_id queue,
             al_tenant = qd_tenant queue, al_traffic_class = qd_traffic_class queue,
             al_units = grant,
             al_state = (if ar_commit_immediately q then ACommitted else AReserved),
             al_reclaim_class = ar_reclaim_class q, al_reclaim_priority = ar_reclaim_priority q,
             al_lineage = l,
             al_bound = \<lparr>bg_pool_generation = pd_generation (en_descriptor e),
               bg_queue_generation = qd_generation queue, bg_policy_generation = pol_generation policy,
               bg_capacity_generation = en_capacity_generation e,
               bg_backend_generation = (case map_of (fb_backends f) (pd_backend (en_descriptor e)) of
                   None \<Rightarrow> 0 | Some b \<Rightarrow> be_generation b),
               bg_epoch = fb_epoch f, bg_boot = fb_boot f\<rparr>,
             al_attempt = ar_attempt q, al_provenance = ar_provenance q,
             borrow_units = borrowed, al_lender = (if borrowed \<noteq> 0 then gc_lender c else 0),
             al_created_at = stamp, last_touched = stamp, expires_at = expiry, al_revision = 1\<rparr>))"

text \<open>The state that the plan is checked on and the one that the grant leaves.\<close>

definition credit_state :: "allocation_record \<Rightarrow> pool_entry \<Rightarrow> pool_entry" where
  "credit_state a e =
     (let e = (if al_state a = ACommitted
               then e\<lparr>en_committed_units := en_committed_units e + al_units a\<rparr>
               else e\<lparr>en_reserved_units := en_reserved_units e + al_units a\<rparr>)
      in if al_reclaim_class a = Pinned
         then e\<lparr>en_pinned_units := en_pinned_units e + al_units a\<rparr>
         else e\<lparr>en_reclaimable_units := en_reclaimable_units e + al_units a\<rparr>)"

definition planned_entry :: "allocation_record \<Rightarrow> pool_entry \<Rightarrow> pool_entry" where
  "planned_entry a e =
     (let e = e\<lparr>en_own_usage := en_own_usage e + (al_units a - borrow_units a),
                en_borrowed_in := en_borrowed_in e + borrow_units a\<rparr>;
          e = credit_state a e
      in e\<lparr>en_members := List.insert (al_id a) (en_members e)\<rparr>)"

definition credit_holder :: "allocation_record \<Rightarrow> pool_entry \<Rightarrow> pool_entry" where
  "credit_holder a e =
     (let e = credit_state a e;
          e = adjust_queue (al_queue a) (sint (al_units a)) (al_state a \<noteq> ACommitted) e
      in e\<lparr>en_members := List.insert (al_id a) (en_members e)\<rparr>)"

definition count_grant :: "allocation_record \<Rightarrow> fabric \<Rightarrow> fabric" where
  "count_grant a f =
     (let m = fb_metrics f;
          m = m\<lparr>mt_allocations_created := mt_allocations_created m + 1\<rparr>;
          m = (if al_state a = ACommitted
               then m\<lparr>mt_allocations_committed := mt_allocations_committed m + 1\<rparr> else m);
          m = m\<lparr>mt_live_allocations := of_nat (length (fb_allocations f)),
                mt_live_committed_units := mt_live_committed_units m + al_units a\<rparr>;
          m = (if mt_live_committed_units m > mt_peak_committed_units m
               then m\<lparr>mt_peak_committed_units := mt_live_committed_units m\<rparr> else m)
      in f\<lparr>fb_metrics := m, allocations_total := allocations_total f + 1\<rparr>)"

text \<open>plan, journal, apply: everything between the plan verification and the closure check.\<close>

definition allocate_apply :: "allocation_record \<Rightarrow> pool_policy \<Rightarrow> unit op" where
  "allocate_apply a policy f =
     (case map_of (fb_pools f) (al_pool a) of None \<Rightarrow> (Inl UnknownPool, f)
      | Some e \<Rightarrow>
        if \<not> rp_closed (check_pool_accounting (accounting_of (planned_entry a e) f)
                 (oc_mode (overcommit policy)) (oc_limit_units (overcommit policy)))
        then (Inl InvariantViolation, f)
        else try_st (journal_allocation (journal_op_for (al_state a)) a f) (\<lambda>_ f.
             try_st (apply_commit_units (al_pool a) (al_units a) (borrow_units a) (al_lender a) f) (\<lambda>_ f.
             let f = map_pool (al_pool a) (credit_holder a) f;
                 f = f\<lparr>next_allocation_id := al_id a + 1\<rparr>;
                 f = count_grant a (put_allocation a f);
                 f = map_pool (al_pool a) (\<lambda>e. e\<lparr>en_runtime := (en_runtime e)\<lparr>
                       grant_count := grant_count (en_runtime e) + 1,
                       peak_committed_units := max (peak_committed_units (en_runtime e))
                                                   (en_committed_units e)\<rparr>\<rparr>) f
             in (Inr (), f))))"

text \<open>After an apply the closure is checked; a violation shuts the fabric down.\<close>

definition verify_closure :: "u64 \<Rightarrow> bool \<Rightarrow> unit op" where
  "verify_closure p report f =
     (case map_of (fb_pools f) p of None \<Rightarrow> (Inl UnknownPool, f)
      | Some e \<Rightarrow>
        (case check_closure e f of
           Inr _ \<Rightarrow> (Inr (), f)
         | Inl code \<Rightarrow>
             let f = f\<lparr>fb_shutting_down := True\<rparr> in
             (Inl code, if report then push_event EvAccountingViolation code (pd_id (en_descriptor e)) 0 0 0 0 f
                        else f)))"

definition allocate_grant ::
  "allocate_request \<Rightarrow> pool_entry \<Rightarrow> queue_descriptor \<Rightarrow> pool_policy \<Rightarrow> pressure_evidence \<Rightarrow> grant_computation \<Rightarrow>
     u64 \<Rightarrow> binding_constraint \<Rightarrow> decision op" where
  "allocate_grant q e queue policy evidence c grant binding f =
     (case build_record q e queue policy c grant f of Inl code \<Rightarrow> (Inl code, f)
      | Inr a \<Rightarrow>
        try_st (allocate_apply a policy f) (\<lambda>_ f.
        try_st (verify_closure (al_pool a) True f) (\<lambda>_ f.
        let kind = (if grant = ar_requested_units q then Grant else GrantPartial) in
        try_st (allocate_finish q queue policy evidence kind Ok grant (al_id a) binding intent0
                  (al_lender a) f) (\<lambda>d f.
        let f = (if kind = Grant then bump mt_grants_update f else bump mt_partial_grants_update f) in
        case map_of (fb_pools f) (al_pool a) of None \<Rightarrow> (Inr d, f)
        | Some e \<Rightarrow>
          (Inr (if rc_enabled (reclaim policy) \<and> en_free_units e = 0
                then d\<lparr>dc_intent := (dc_intent d)\<lparr>reclaim_target_units :=
                       (if reserve_units (reclaim policy) > en_free_units e
                        then reserve_units (reclaim policy) - en_free_units e else 0)\<rparr>\<rparr>
                else d), f)))))"

text \<open>The decision proper: retirement, evidence, pressure, capacity, in this order.\<close>

definition allocate_decide ::
  "allocate_request \<Rightarrow> pool_entry \<Rightarrow> queue_descriptor \<Rightarrow> pool_policy \<Rightarrow> decision op" where
  "allocate_decide q e queue policy f =
     (let evidence = resolve_evidence e f;
          finish = allocate_finish q queue policy evidence in
      if pd_retired (en_descriptor e) then finish Refuse WrongState 0 0 BcPoolRetired intent0 0 f
      else if qd_retired queue then finish Refuse WrongState 0 0 BcQueueRetired intent0 0 f
      else if \<not> evidence_usable evidence \<and> refuse_increase_on_unknown (pressure policy)
      then finish Revalidate (pe_reason evidence) 0 0
             (if pe_state evidence = Unknown then BcEvidenceUnknown else BcEvidenceStale)
             (intent0\<lparr>revalidate_required := True\<rparr>) 0 f
      else if pressure_is_known (pe_state evidence) \<and> refuse_grants_at policy \<noteq> Unknown \<and>
              pressure_at_least (pe_state evidence) (refuse_grants_at policy)
      then finish Reduce PolicyForbids 0 0 BcPressureRefuse
             (intent0\<lparr>reduce_required := True, reduce_to_units := en_usable e\<rparr>) 0 f
      else let c = compute_grant e policy f;
               (grant, binding) = decide_grant q e queue policy (pe_state evidence) c in
      if grant = 0 then
        if pressure_is_known (pe_state evidence) \<and> pressure_at_least (pe_state evidence) (reduce_at policy)
        then finish Reduce PolicyForbids 0 0 binding
               (intent0\<lparr>reduce_required := True, reduce_to_units := en_usable e\<rparr>) 0 f
        else finish Refuse CapacityExceeded 0 0 binding intent0 0 f
      else allocate_grant q e queue policy evidence c grant binding f)"

definition stale_request :: "u64 \<Rightarrow> u64 \<Rightarrow> bool" where
  "stale_request expected current = (valid expected \<and> expected \<noteq> current)"

definition allocate_locked :: "allocate_request \<Rightarrow> decision op" where
  "allocate_locked q f =
     (if \<not> fb_open f then (Inl LifecycleViolation, f)
      else if fb_shutting_down f \<and> refuse_work_after_shutdown (fb_config f) then (Inl ShuttingDown, f)
      else if \<not> valid (ar_attempt q) then (Inl InvalidArgument, f)
      else if ar_requested_units q = 0 then (Inl InvalidArgument, f)
      else if ar_requested_units q > kMaxUnitsPerPool then (Inl Overflow, f)
      else case
          try_r (ensure_alloc_capacity f) (\<lambda>_.
          try_r (lookup_attempt (ar_attempt q) (allocate_request_digest q) f) (\<lambda>previous.
          try_r (require_pool (ar_pool q) f) (\<lambda>e.
          try_r (require_queue (ar_queue q) f) (\<lambda>queue.
          try_r (require_policy e f) (\<lambda>policy.
            Inr (previous, e, queue, policy)))))) of
        Inl code \<Rightarrow> (Inl code, f)
      | Inr (Some previous, e, queue, policy) \<Rightarrow>
          replay_decision previous (ar_attempt q) e (qd_id queue) (ar_requested_units q)
            (at_allocation previous) f
      | Inr (None, e, queue, policy) \<Rightarrow>
        if stale_request (ar_expected_epoch q) (fb_epoch f) then (Inl StaleEpoch, f)
        else if stale_request (ar_expected_pool_generation q) (pd_generation (en_descriptor e))
        then (Inl StaleGeneration, f)
        else if stale_request (ar_expected_policy_generation q) (pol_generation policy)
        then (Inl StaleGeneration, f)
        else if stale_request (ar_expected_capacity_generation q) (en_capacity_generation e)
        then (Inl StaleGeneration, f)
        else if stale_request (ar_expected_queue_generation q) (qd_generation queue)
        then (Inl StaleGeneration, f)
        else if qd_pool queue \<noteq> pd_id (en_descriptor e) then (Inl InvalidArgument, f)
        else allocate_decide q e queue policy f)"

text \<open>What commit, release and revalidate look up first: attempt, record, pool, policy, queue.\<close>

definition locate ::
  "attempt_id \<Rightarrow> digest \<Rightarrow> allocation_id \<Rightarrow> fabric \<Rightarrow>
     (attempt_record option \<times> allocation_record \<times> pool_entry \<times> pool_policy \<times> queue_descriptor) result" where
  "locate attempt d allocation f =
     try_r (lookup_attempt attempt d f) (\<lambda>previous.
     case map_of (fb_allocations f) allocation of None \<Rightarrow> Inl UnknownAllocation
     | Some a \<Rightarrow>
       try_r (require_pool (al_pool a) f) (\<lambda>e.
       try_r (require_policy e f) (\<lambda>policy.
       try_r (require_queue (al_queue a) f) (\<lambda>queue.
         Inr (previous, a, e, policy, queue)))))"

text \<open>The decision of an operation on one record, bound to authority and concluded.\<close>

definition record_outcome ::
  "attempt_kind \<Rightarrow> attempt_id \<Rightarrow> digest \<Rightarrow> allocation_record \<Rightarrow> pool_policy \<Rightarrow> queue_descriptor \<Rightarrow>
     pressure_evidence \<Rightarrow> u64 \<Rightarrow> u64 \<Rightarrow> decision op" where
  "record_outcome kind attempt d a policy queue evidence requested granted f =
     (case map_of (fb_pools f) (al_pool a) of None \<Rightarrow> (Inl UnknownPool, f)
      | Some e \<Rightarrow>
        let dec = make_decision NoOp Ok e (qd_id queue) requested granted (al_id a) BcNone evidence
                    (accounting_of e f) (fb_tick f) (next_decision_sequence f);
            dec = dec\<lparr>dc_authority := bind_authority e (qd_generation queue) policy attempt
                    (al_provenance a) (pe_snapshot evidence) (fb_epoch f) (fb_boot f) 0 (dc_authority dec)\<rparr>
        in (Inr dec, bump mt_decisions_update (conclude kind attempt d dec f)))"

subsection \<open>Commit\<close>

definition commit_units :: "allocation_record \<Rightarrow> pool_entry \<Rightarrow> pool_entry" where
  "commit_units a e =
     adjust_queue (al_queue a) (sint (al_units a)) False
       (adjust_queue (al_queue a) (- sint (al_units a)) True
          (e\<lparr>en_reserved_units := en_reserved_units e - al_units a,
             en_committed_units := en_committed_units e + al_units a\<rparr>))"

definition commit_apply ::
  "commit_request \<Rightarrow> allocation_record \<Rightarrow> pool_policy \<Rightarrow> queue_descriptor \<Rightarrow> pressure_evidence \<Rightarrow> decision op" where
  "commit_apply q a policy queue evidence f =
     (let n = a\<lparr>al_state := ACommitted, last_touched := fb_tick f, al_revision := al_revision a + 1\<rparr> in
      try_st (journal_allocation JAllocationCommitted n f) (\<lambda>_ f.
      let f = map_pool (al_pool a) (commit_units a) f;
          f = set_record (cr_allocation q) n f;
          f = bump mt_allocations_committed_update f;
          f = push_event EvAllocationCommitted Ok (al_pool n) (al_queue n) (al_id n) (al_units n) 0 f in
      try_st (verify_closure (al_pool a) False f) (\<lambda>_ f.
        record_outcome AtCommit (cr_attempt q) (commit_request_digest q) n policy queue evidence
          (al_units n) (al_units n) f)))"

definition commit_locked :: "commit_request \<Rightarrow> decision op" where
  "commit_locked q f =
     (if \<not> fb_open f then (Inl LifecycleViolation, f)
      else if \<not> valid (cr_attempt q) then (Inl InvalidArgument, f)
      else case locate (cr_attempt q) (commit_request_digest q) (cr_allocation q) f of
        Inl code \<Rightarrow> (Inl code, f)
      | Inr (Some previous, a, e, policy, queue) \<Rightarrow>
          replay_decision previous (cr_attempt q) e (qd_id queue) 0 (al_id a) f
      | Inr (None, a, e, policy, queue) \<Rightarrow>
        if stale_request (cr_expected_epoch q) (fb_epoch f) then (Inl StaleEpoch, f)
        else if stale_request (cr_expected_pool_generation q) (pd_generation (en_descriptor e))
        then (Inl StaleGeneration, f)
        else if al_state a \<noteq> AReserved then (Inl WrongState, f)
        else if is_stale_binding a e policy (fb_epoch f) then (Inl StaleGeneration, f)
        else commit_apply q a policy queue (resolve_evidence e f) f)"

subsection \<open>Release\<close>

definition released_part :: "allocation_record \<Rightarrow> u64 \<Rightarrow> u64" where
  "released_part a release_units =
     (let previous_borrow = effective_borrow a in
      if release_units = al_units a then previous_borrow
      else (previous_borrow * release_units) div al_units a)"

definition remainder_of :: "allocation_record \<Rightarrow> u64 \<Rightarrow> tick \<Rightarrow> allocation_record" where
  "remainder_of a release_units stamp =
     (let rest = a\<lparr>al_units := al_units a - release_units,
                  borrow_units := effective_borrow a - released_part a release_units,
                  last_touched := stamp, al_revision := al_revision a + 1\<rparr>
      in if al_units rest = 0
         then rest\<lparr>al_state := AReleased, borrow_units := 0, al_lender := 0\<rparr> else rest)"

definition release_apply ::
  "release_request \<Rightarrow> allocation_record \<Rightarrow> pool_policy \<Rightarrow> queue_descriptor \<Rightarrow> pressure_evidence \<Rightarrow> u64 \<Rightarrow> decision op" where
  "release_apply q a policy queue evidence release_units f =
     (let n = a\<lparr>al_units := release_units, borrow_units := released_part a release_units,
                al_revision := al_revision a + 1, last_touched := fb_tick f\<rparr> in
      try_st (apply_release_units (al_pool a) n f) (\<lambda>_ f.
      let rest = remainder_of a release_units (fb_tick f) in
      try_st (journal_allocation JAllocationReleased rest f) (\<lambda>_ f.
      let f = set_record (rr_allocation q) rest f;
          f = bump mt_allocations_released_update f;
          f = f\<lparr>fb_metrics := (fb_metrics f)\<lparr>mt_live_committed_units :=
                (if mt_live_committed_units (fb_metrics f) \<ge> release_units
                 then mt_live_committed_units (fb_metrics f) - release_units else 0)\<rparr>\<rparr>;
          f = push_event EvAllocationReleased Ok (al_pool rest) (al_queue rest) (al_id rest) release_units 0 f in
      try_st (verify_closure (al_pool a) False f) (\<lambda>_ f.
        record_outcome AtRelease (rr_attempt q) (release_request_digest q) rest policy queue evidence
          release_units release_units f))))"

definition release_locked :: "release_request \<Rightarrow> decision op" where
  "release_locked q f =
     (if \<not> fb_open f then (Inl LifecycleViolation, f)
      else if \<not> valid (rr_attempt q) then (Inl InvalidArgument, f)
      else case locate (rr_attempt q) (release_request_digest q) (rr_allocation q) f of
        Inl code \<Rightarrow> (Inl code, f)
      | Inr (Some previous, a, e, policy, queue) \<Rightarrow>
          replay_decision previous (rr_attempt q) e (qd_id queue) 0 (al_id a) f
      | Inr (None, a, e, policy, queue) \<Rightarrow>
        if stale_request (rr_expected_epoch q) (fb_epoch f) then (Inl StaleEpoch, f)
        else if allocation_is_terminal (al_state a) \<or> al_state a = AFenced
        then record_outcome AtRelease (rr_attempt q) (release_request_digest q) a policy queue
               (resolve_evidence e f) 0 0 f
        else if \<not> rr_release_all q \<and> rr_units q = 0 then (Inl InvalidArgument, f)
        else if \<not> rr_release_all q \<and> rr_units q > al_units a then (Inl InvalidArgument, f)
        else release_apply q a policy queue (resolve_evidence e f)
               (if rr_release_all q then al_units a else rr_units q) f)"

subsection \<open>Revalidate\<close>

definition rebound :: "allocation_record \<Rightarrow> pool_entry \<Rightarrow> pool_policy \<Rightarrow> queue_descriptor \<Rightarrow> fabric \<Rightarrow> allocation_record" where
  "rebound a e policy queue f = a\<lparr>
     al_bound := (al_bound a)\<lparr>bg_pool_generation := pd_generation (en_descriptor e),
       bg_queue_generation := qd_generation queue, bg_policy_generation := pol_generation policy,
       bg_capacity_generation := en_capacity_generation e, bg_epoch := fb_epoch f, bg_boot := fb_boot f\<rparr>,
     last_touched := fb_tick f, al_revision := al_revision a + 1\<rparr>"

definition revalidate_locked :: "revalidate_request \<Rightarrow> decision op" where
  "revalidate_locked q f =
     (if \<not> fb_open f then (Inl LifecycleViolation, f)
      else if \<not> valid (vr_attempt q) then (Inl InvalidArgument, f)
      else case locate (vr_attempt q) (revalidate_request_digest q) (vr_allocation q) f of
        Inl code \<Rightarrow> (Inl code, f)
      | Inr (Some previous, a, e, policy, queue) \<Rightarrow>
          replay_decision previous (vr_attempt q) e (qd_id queue) 0 (al_id a) f
      | Inr (None, a, e, policy, queue) \<Rightarrow>
        let evidence = resolve_evidence e f in
        if stale_request (vr_expected_epoch q) (fb_epoch f) then (Inl StaleEpoch, f)
        else if \<not> allocation_holds_units (al_state a) then (Inl Fenced, f)
        else if qd_pool queue \<noteq> pd_id (en_descriptor e) then (Inl StaleGeneration, f)
        else if is_stale_binding a e policy (fb_epoch f) then
          (let d = (make_decision Fence StaleGeneration e (qd_id queue) 0 0 (al_id a) BcGenerationMismatch
                     evidence (accounting_of e f) (fb_tick f) (next_decision_sequence f))
                   \<lparr>dc_intent := intent0\<lparr>fence_required := True\<rparr>,
                    dc_authority := bind_authority e (qd_generation queue) policy (vr_attempt q)
                      (al_provenance a) (pe_snapshot evidence) (fb_epoch f) (fb_boot f) 0 authority0\<rparr>
           in (Inr d, advance_sequence (record_decision d f)))
        else let n = rebound a e policy queue f in
          try_st (journal_allocation JAllocationRevalidated n f) (\<lambda>_ f.
          let f = set_record (vr_allocation q) n f;
              f = bump mt_revalidations_update f;
              f = push_event EvAllocationRevalidated Ok (al_pool n) (al_queue n) (al_id n) (al_units n) 0 f
          in record_outcome AtRevalidate (vr_attempt q) (revalidate_request_digest q) n policy queue
               evidence 0 (al_units n) f))"

subsection \<open>Fence and expiry\<close>

text \<open>The loop of a whole-pool operation: the members, in the order of the snapshot taken before
  it, each looked up afresh; the ones that are due are fenced, with the count and the units.\<close>

fun fence_members ::
  "(allocation_record \<Rightarrow> fabric \<Rightarrow> bool) \<Rightarrow> allocation_state \<Rightarrow> u64 list \<Rightarrow> u64 \<Rightarrow> u64 \<Rightarrow> (u64 \<times> u64) op" where
  "fence_members due new_state [] n units f = (Inr (n, units), f)"
| "fence_members due new_state (i # ids) n units f =
     (case map_of (fb_allocations f) i of
        None \<Rightarrow> fence_members due new_state ids n units f
      | Some a \<Rightarrow>
          if \<not> due a f then fence_members due new_state ids n units f
          else try_st (fence_allocation_locked i a new_state f) (\<lambda>_ f.
            fence_members due new_state ids (n + 1) (units + al_units a) f))"

definition due_stale :: "pool_id \<Rightarrow> pool_policy \<Rightarrow> allocation_record \<Rightarrow> fabric \<Rightarrow> bool" where
  "due_stale p policy a f =
     (allocation_holds_units (al_state a) \<and>
      (case map_of (fb_pools f) p of None \<Rightarrow> False
       | Some e \<Rightarrow> is_stale_binding a e policy (fb_epoch f)))"

definition reservation_expiry :: "pool_policy \<Rightarrow> allocation_record \<Rightarrow> tick" where
  "reservation_expiry policy a =
     (if expires_at a = 0 \<and> reservation_ttl_ticks policy \<noteq> 0
      then let (overflowed, t) = add_overflow (al_created_at a) (reservation_ttl_ticks policy)
           in if overflowed then u64_max else t
      else expires_at a)"

definition due_expiry :: "pool_policy \<Rightarrow> allocation_record \<Rightarrow> fabric \<Rightarrow> bool" where
  "due_expiry policy a f =
     (al_state a = AReserved \<and>
      (let expiry = reservation_expiry policy a in \<not> (expiry = 0 \<or> fb_tick f < expiry)))"

text \<open>The decision of a whole-pool operation carries no queue and no attempt.\<close>

definition pool_outcome ::
  "decision_kind \<Rightarrow> u64 \<Rightarrow> binding_constraint \<Rightarrow> bool \<Rightarrow> pool_id \<Rightarrow> pool_policy \<Rightarrow> pressure_evidence \<Rightarrow> decision op" where
  "pool_outcome kind units binding fence p policy evidence f =
     (case map_of (fb_pools f) p of None \<Rightarrow> (Inl UnknownPool, f)
      | Some e \<Rightarrow>
        let d = (make_decision kind Ok e 0 0 units 0 binding evidence (accounting_of e f) (fb_tick f)
                   (next_decision_sequence f))
                \<lparr>dc_intent := intent0\<lparr>fence_required := fence\<rparr>,
                 dc_authority := bind_authority e 0 policy 0 0 (pe_snapshot evidence) (fb_epoch f)
                   (fb_boot f) 0 authority0\<rparr>
        in (Inr d, bump mt_decisions_update (advance_sequence (record_decision d f))))"

definition fence_stale_locked :: "pool_id \<Rightarrow> decision op" where
  "fence_stale_locked p f =
     (if \<not> fb_open f then (Inl LifecycleViolation, f)
      else case try_r (require_pool p f) (\<lambda>e. try_r (require_policy e f) (\<lambda>policy. Inr (e, policy))) of
        Inl code \<Rightarrow> (Inl code, f)
      | Inr (e, policy) \<Rightarrow>
        let evidence = resolve_evidence e f in
        try_st (fence_members (due_stale p policy) AFenced (sorted_members e) 0 0 f) (\<lambda>(n, units) f.
          pool_outcome (if n = 0 then NoOp else Fence) units BcGenerationMismatch (n \<noteq> 0) p policy
            evidence (bump mt_fences_update f)))"

definition expire_reservations_locked :: "pool_id \<Rightarrow> decision op" where
  "expire_reservations_locked p f =
     (if \<not> fb_open f then (Inl LifecycleViolation, f)
      else case try_r (require_pool p f) (\<lambda>e. try_r (require_policy e f) (\<lambda>policy. Inr (e, policy))) of
        Inl code \<Rightarrow> (Inl code, f)
      | Inr (e, policy) \<Rightarrow>
        let evidence = resolve_evidence e f in
        try_st (fence_members (due_expiry policy) AExpired (sorted_members e) 0 0 f) (\<lambda>(n, units) f.
          pool_outcome (if n = 0 then NoOp else Reclaim) units BcNone False p policy evidence f))"

subsection \<open>The public operations\<close>

text \<open>Sample the clock, take the lock, run, release, publish.\<close>

definition locked :: "tick \<Rightarrow> 'a op \<Rightarrow> 'a op" where
  "locked sampled op f = (let (r, f) = op ((take_lock sampled f)\<lparr>fb_events := []\<rparr>) in (r, publish f))"

definition fabric_allocate :: "tick \<Rightarrow> allocate_request \<Rightarrow> decision op" where
  "fabric_allocate sampled q = locked sampled (allocate_locked q)"

definition fabric_commit :: "tick \<Rightarrow> commit_request \<Rightarrow> decision op" where
  "fabric_commit sampled q = locked sampled (commit_locked q)"

definition fabric_release :: "tick \<Rightarrow> release_request \<Rightarrow> decision op" where
  "fabric_release sampled q = locked sampled (release_locked q)"

definition fabric_revalidate :: "tick \<Rightarrow> revalidate_request \<Rightarrow> decision op" where
  "fabric_revalidate sampled q = locked sampled (revalidate_locked q)"

definition unless_shutdown :: "'a op \<Rightarrow> 'a op" where
  "unless_shutdown op f =
     (if fb_shutting_down f \<and> refuse_work_after_shutdown (fb_config f) then (Inl ShuttingDown, f) else op f)"

definition fabric_fence_stale :: "tick \<Rightarrow> pool_id \<Rightarrow> decision op" where
  "fabric_fence_stale sampled p = locked sampled (unless_shutdown (fence_stale_locked p))"

definition fabric_expire_reservations :: "tick \<Rightarrow> pool_id \<Rightarrow> decision op" where
  "fabric_expire_reservations sampled p = locked sampled (unless_shutdown (expire_reservations_locked p))"

end
