(* ===== verification/Alloc_Safety.thy ===== *)
theory Alloc_Safety
  imports Fabric_Alloc
begin

text \<open>
  The allocation operations keep the ledger.  A state change is described by what it moves
  between accounts (shifted); the operations' effects are composed from the effects of the
  credits and debits they make.
\<close>

subsection \<open>Shifts\<close>

definition shifted :: "(account \<Rightarrow> pool_id \<Rightarrow> nat) \<Rightarrow> (account \<Rightarrow> pool_id \<Rightarrow> nat) \<Rightarrow> fabric \<Rightarrow> fabric \<Rightarrow> bool" where
  "shifted out into f f' \<longleftrightarrow>
     fb_policies f' = fb_policies f \<and>
     (\<forall>p. rel_option (\<lambda>e e'. en_descriptor e' = en_descriptor e \<and>
            (\<forall>acc. balance acc e' + out acc p = balance acc e + into acc p))
          (map_of (fb_pools f) p) (map_of (fb_pools f') p))"

lemma shifted_refl [simp]: "shifted c c f f"
  by (simp add: shifted_def option.rel_refl)

lemma shifted_none: "same_ledger f g \<Longrightarrow> shifted (\<lambda>_ _. 0) (\<lambda>_ _. 0) f g"
  by (simp add: shifted_def same_ledger_def option.rel_refl)

lemma shifted_trans:
  assumes "shifted o1 i1 f g" "shifted o2 i2 g h"
    and "\<And>acc p. o1 acc p + o2 acc p + i3 acc p = o3 acc p + i1 acc p + i2 acc p"
  shows "shifted o3 i3 f h"
  unfolding shifted_def
proof (intro conjI allI)
  show "fb_policies h = fb_policies f" using assms(1,2) by (simp add: shifted_def)
  fix p
  have r: "rel_option (\<lambda>e e'. en_descriptor e' = en_descriptor e \<and>
            (\<forall>acc. balance acc e' + o1 acc p = balance acc e + i1 acc p))
          (map_of (fb_pools f) p) (map_of (fb_pools g) p)"
    "rel_option (\<lambda>e e'. en_descriptor e' = en_descriptor e \<and>
            (\<forall>acc. balance acc e' + o2 acc p = balance acc e + i2 acc p))
          (map_of (fb_pools g) p) (map_of (fb_pools h) p)"
    using assms(1,2) by (simp_all add: shifted_def)
  have step: "b3 + o3 acc p = b1 + i3 acc p"
    if "b2 + o1 acc p = b1 + i1 acc p" "b3 + o2 acc p = b2 + i2 acc p" for b1 b2 b3 :: nat and acc
    using that assms(3)[of acc p] by linarith
  show "rel_option (\<lambda>e e'. en_descriptor e' = en_descriptor e \<and>
            (\<forall>acc. balance acc e' + o3 acc p = balance acc e + i3 acc p))
          (map_of (fb_pools f) p) (map_of (fb_pools h) p)"
    using r by (auto simp: option_rel_Some1 option_rel_Some2 elim!: option.rel_cases)
      (blast intro: step)
qed

lemma shiftedD:
  assumes "shifted out into f f'" "map_of (fb_pools f') p = Some e'"
  obtains e where "map_of (fb_pools f) p = Some e" "en_descriptor e' = en_descriptor e"
    "\<And>acc. balance acc e' + out acc p = balance acc e + into acc p"
  using assms by (auto simp: shifted_def option_rel_Some2 dest!: spec[of _ p])

lemma shifted_at:
  assumes "shifted out into f f'" "map_of (fb_pools f') p = Some e'"
  shows "\<exists>e. map_of (fb_pools f) p = Some e \<and> en_descriptor e' = en_descriptor e \<and>
    balance acc e' + out acc p = balance acc e + into acc p"
  using shiftedD[OF assms] by metis

lemma shifted_keys:
  "shifted out into f f' \<Longrightarrow> (map_of (fb_pools f') p = None) = (map_of (fb_pools f) p = None)"
  by (auto simp: shifted_def dest!: spec[of _ p] elim: option.rel_cases)

lemma shifted_parent_of: "shifted out into f f' \<Longrightarrow> parent_of f' = parent_of f"
proof
  fix p assume "shifted out into f f'"
  then have "rel_option (\<lambda>e e'. en_descriptor e' = en_descriptor e \<and>
      (\<forall>acc. balance acc e' + out acc p = balance acc e + into acc p))
    (map_of (fb_pools f) p) (map_of (fb_pools f') p)" by (simp add: shifted_def)
  then show "parent_of f' p = parent_of f p" by cases (simp_all add: parent_of_def)
qed

lemma ledger_inv_shift:
  assumes inv: "ledger_inv f" and sh: "shifted out into f f'"
    and books: "\<And>acc p. books acc p f' + out acc p = books acc p f + into acc p"
    and entries: "\<And>p e e'. map_of (fb_pools f) p = Some e \<Longrightarrow> map_of (fb_pools f') p = Some e' \<Longrightarrow>
        unat (en_own_usage e') \<le> 2 ^ 61 \<and> unat (en_borrowed_in e') \<le> 2 ^ 60 \<and>
        (\<forall>i\<in>set (en_members e'). \<exists>a. map_of (fb_allocations f') i = Some a \<and> holds_units a \<and> al_pool a = p)"
    and records: "\<And>i a. map_of (fb_allocations f') i = Some a \<Longrightarrow> record_ok f' i a"
  shows "ledger_inv f'"
  unfolding ledger_inv_def books_balance_def
proof (intro conjI allI impI)
  fix p e' assume e': "map_of (fb_pools f') p = Some e'"
  obtain e where e: "map_of (fb_pools f) p = Some e" "en_descriptor e' = en_descriptor e"
    "\<And>acc. balance acc e' + out acc p = balance acc e + into acc p"
    using shiftedD[OF sh e'] by blast
  show "entry_ok f' p e'"
    using entries[OF e(1) e'] ledger_invD(1)[OF inv e(1)] e(2) by (simp add: entry_ok_def)
  fix acc show "balance acc e' = books acc p f'"
    using e(3)[of acc] ledger_invD(4)[OF inv e(1), of acc] books[of acc p] by linarith
next
  fix i a assume "map_of (fb_allocations f') i = Some a" then show "record_ok f' i a" by (rule records)
next
  fix i p assume "map_of (fb_policies f') i = Some p"
  then show "policy_validate p = Inr ()"
    using sh ledger_invD(3)[OF inv] by (simp add: shifted_def)
next
  show "tree_ok f'" using ledger_invD(5)[OF inv] tree_ok_cong[OF shifted_parent_of[OF sh]] by simp
qed

subsection \<open>What journaling and bookkeeping leave alone\<close>

lemma same_ledger_record [simp]:
  "same_ledger f (f\<lparr>fb_store := s\<rparr>)" "same_ledger f (f\<lparr>fb_metrics := m\<rparr>)"
  "same_ledger f (f\<lparr>fb_shutting_down := b\<rparr>)" "same_ledger f (f\<lparr>fb_tick := t\<rparr>)"
  "same_ledger f (f\<lparr>fb_events := ev\<rparr>)" "same_ledger f (f\<lparr>fb_decisions := d\<rparr>)"
  "same_ledger f (f\<lparr>next_decision_sequence := n\<rparr>)"
  "same_ledger f (f\<lparr>fb_attempts := at\<rparr>)" "same_ledger f (f\<lparr>fb_attempt_order := ao\<rparr>)"
  by (simp_all add: same_ledger_def)

definition only_journals :: "fabric \<Rightarrow> fabric \<Rightarrow> bool" where
  "only_journals f g \<longleftrightarrow>
     f\<lparr>fb_store := store0, fb_metrics := metrics0\<rparr> = g\<lparr>fb_store := store0, fb_metrics := metrics0\<rparr>"

lemma only_journals_refl [intro]: "only_journals f f"
  by (simp add: only_journals_def)

lemma only_journals_store: "only_journals f g \<Longrightarrow> only_journals f (g\<lparr>fb_store := s\<rparr>)"
  by (simp add: only_journals_def)

lemma only_journals_metrics: "only_journals f g \<Longrightarrow> only_journals f (g\<lparr>fb_metrics := m\<rparr>)"
  by (simp add: only_journals_def)

lemma only_journals_on_store: "only_journals f g \<Longrightarrow> only_journals f (snd (on_store io g))"
  by (auto simp: on_store_def split: prod.split intro: only_journals_store)

lemma only_journals_bump: "only_journals f g \<Longrightarrow> only_journals f (bump c g)"
  by (auto simp: bump_def intro: only_journals_metrics)

lemma only_journals_try:
  assumes "only_journals f (snd m)" "\<And>x g. only_journals f g \<Longrightarrow> only_journals f (snd (k x g))"
  shows "only_journals f (snd (try_st m k))"
  using assms by (cases m; cases "fst m") auto

lemma only_journals_snapshot: "only_journals f g \<Longrightarrow> only_journals f (snd (write_full_snapshot g))"
  by (auto simp: write_full_snapshot_def Let_def
      intro!: only_journals_try only_journals_on_store only_journals_bump)

lemma only_journals_journal: "only_journals f g \<Longrightarrow> only_journals f (snd (journal opc payload g))"
  by (auto simp: journal_def Let_def
      intro!: only_journals_try only_journals_on_store only_journals_metrics only_journals_snapshot)

lemma only_journals_writer: "only_journals f (snd (journal_writer opc put f))"
  by (simp add: journal_writer_def Let_def only_journals_refl only_journals_journal)

lemma journal_allocation_only: "journal_allocation opc a f = (r, g) \<Longrightarrow> only_journals f g"
  using only_journals_writer[of f opc "encode_allocation a"] by (simp add: journal_allocation_def)

lemma only_journals_fields [simp]:
  assumes "only_journals f g"
  shows "fb_pools g = fb_pools f" "fb_allocations g = fb_allocations f" "fb_policies g = fb_policies f"
    "next_allocation_id g = next_allocation_id f" "fb_tick g = fb_tick f" "fb_queues g = fb_queues f"
    "fb_epoch g = fb_epoch f" "fb_config g = fb_config f" "fb_open g = fb_open f"
    "fb_shutting_down g = fb_shutting_down f" "fb_attempts g = fb_attempts f"
    "fb_attempt_order g = fb_attempt_order f" "fb_decisions g = fb_decisions f"
  using arg_cong[OF assms[unfolded only_journals_def], of fb_pools]
    arg_cong[OF assms[unfolded only_journals_def], of fb_allocations]
    arg_cong[OF assms[unfolded only_journals_def], of fb_policies]
    arg_cong[OF assms[unfolded only_journals_def], of next_allocation_id]
    arg_cong[OF assms[unfolded only_journals_def], of fb_tick]
    arg_cong[OF assms[unfolded only_journals_def], of fb_queues]
    arg_cong[OF assms[unfolded only_journals_def], of fb_epoch]
    arg_cong[OF assms[unfolded only_journals_def], of fb_config]
    arg_cong[OF assms[unfolded only_journals_def], of fb_open]
    arg_cong[OF assms[unfolded only_journals_def], of fb_shutting_down]
    arg_cong[OF assms[unfolded only_journals_def], of fb_attempts]
    arg_cong[OF assms[unfolded only_journals_def], of fb_attempt_order]
    arg_cong[OF assms[unfolded only_journals_def], of fb_decisions]
  by simp_all

lemma only_journals_same: "only_journals f g \<Longrightarrow> same_ledger f g"
  by (simp add: same_ledger_def)

subsection \<open>Changing one entry\<close>

definition only_pools :: "fabric \<Rightarrow> fabric \<Rightarrow> bool" where
  "only_pools f g \<longleftrightarrow> f\<lparr>fb_pools := []\<rparr> = g\<lparr>fb_pools := []\<rparr>"

lemma only_pools_refl [simp, intro]: "only_pools f f"
  by (simp add: only_pools_def)

lemma only_pools_trans: "only_pools f g \<Longrightarrow> only_pools g h \<Longrightarrow> only_pools f h"
  by (simp add: only_pools_def)

lemma only_pools_map_pool [simp, intro]: "only_pools f (map_pool p g f)"
  by (simp add: only_pools_def map_pool_def split: option.split)

lemma only_pools_fields:
  assumes "only_pools f g"
  shows "fb_allocations g = fb_allocations f" "fb_policies g = fb_policies f"
    "next_allocation_id g = next_allocation_id f" "fb_tick g = fb_tick f" "fb_queues g = fb_queues f"
  using arg_cong[OF assms[unfolded only_pools_def], of fb_allocations]
    arg_cong[OF assms[unfolded only_pools_def], of fb_policies]
    arg_cong[OF assms[unfolded only_pools_def], of next_allocation_id]
    arg_cong[OF assms[unfolded only_pools_def], of fb_tick]
    arg_cong[OF assms[unfolded only_pools_def], of fb_queues]
  by simp_all

lemma map_pool_compose: "map_pool p g (map_pool p h f) = map_pool p (g \<circ> h) f"
  by (auto simp: map_pool_def update_last split: option.split)

lemma map_pool_id: "map_of (fb_pools f) p = Some e \<Longrightarrow> g e = e \<Longrightarrow>
    shifted (\<lambda>_ _. 0) (\<lambda>_ _. 0) f (map_pool p g f)"
  by (simp add: shifted_def map_of_map_pool option.rel_refl)

lemma shifted_map_pool:
  assumes "\<And>e. map_of (fb_pools f) p = Some e \<Longrightarrow> en_descriptor (g e) = en_descriptor e \<and>
      (\<forall>acc. balance acc (g e) + out acc = balance acc e + into acc)"
  shows "shifted (\<lambda>acc q. if q = p then out acc else 0) (\<lambda>acc q. if q = p then into acc else 0)
           f (map_pool p g f)"
  using assms
  by (auto simp: shifted_def map_of_map_pool option.rel_map intro!: option.rel_refl_strong)

lemma shifted_map_pool_keep:
  assumes "\<And>e. en_descriptor (g e) = en_descriptor e" "\<And>acc e. balance acc (g e) = balance acc e"
  shows "shifted (\<lambda>_ _. 0) (\<lambda>_ _. 0) f (map_pool p g f)"
  using assms by (auto simp: shifted_def map_of_map_pool option.rel_map intro!: option.rel_refl_strong)

subsection \<open>Queue buckets\<close>

lemma sint_small:
  assumes "unat (w :: u64) < 2 ^ 63"
  shows "sint w = int (unat w)"
proof -
  have u: "uint w = int (unat w)" by simp
  have "int (unat w) < int (2 ^ 63)" using assms by (simp only: of_nat_less_iff)
  then have "uint w < 2 ^ 63" by simp
  moreover have "- (2 ^ 63) \<le> uint w" by (rule order_trans[OF _ uint_nonnegative]) simp
  ultimately have "signed_take_bit 63 (uint w) = uint w"
    by (intro signed_take_bit_int_eq_self)
  then have "sint w = uint w" unfolding sint_uint by (simp only: len_of_numeral_defs) simp
  then show ?thesis unfolding u .
qed

lemma bucket_adjust_other [simp]: "q \<noteq> r \<Longrightarrow> bucket_units (bucket_adjust q d b) r = bucket_units b r"
  by (simp add: bucket_adjust_def bucket_units_def split: option.split)

lemma bucket_adjust_credit:
  fixes u :: u64
  assumes "unat u < 2 ^ 63" "bucket_units b q + unat u < 2 ^ 64"
  shows "bucket_units (bucket_adjust q (sint u) b) q = bucket_units b q + unat u"
proof -
  have "sint u = int (unat u)" by (rule sint_small[OF assms(1)])
  then show ?thesis
    using assms(2)
    by (auto simp: bucket_adjust_def bucket_units_def unat_plus_small split: option.split)
qed

lemma bucket_adjust_debit:
  fixes u :: u64
  assumes "unat u < 2 ^ 63" "unat u \<le> bucket_units b q"
  shows "bucket_units (bucket_adjust q (- sint u) b) q + unat u = bucket_units b q"
proof -
  have s: "sint u = int (unat u)" by (rule sint_small[OF assms(1)])
  show ?thesis
  proof (cases "u = 0")
    case True
    then show ?thesis by (auto simp: bucket_adjust_def bucket_units_def split: option.split)
  next
    case False
    then have "\<not> - sint u \<ge> 0" using s by (simp add: uint_0_iff)
    then show ?thesis
      using assms(2) s False
      by (auto simp: bucket_adjust_def bucket_units_def unat_sub word_le_nat_alt split: option.split)
  qed
qed

subsection \<open>Releasing units\<close>

text \<open>A record is covered when every account it charges holds at least its charge.\<close>

definition covered :: "allocation_record \<Rightarrow> fabric \<Rightarrow> bool" where
  "covered a f \<longleftrightarrow>
     (\<forall>acc p e. map_of (fb_pools f) p = Some e \<longrightarrow> charge acc p a \<le> balance acc e) \<and>
     map_of (fb_pools f) (al_pool a) \<noteq> None \<and> map_of (fb_pools f) 0 = None \<and>
     (effective_borrow a \<noteq> 0 \<longrightarrow> map_of (fb_pools f) (al_lender a) \<noteq> None) \<and>
     unat (al_units a) < 2 ^ 63"

definition holder_debit :: "allocation_record \<Rightarrow> pool_entry \<Rightarrow> pool_entry" where
  "holder_debit a e =
     (let e = (if al_state a = AReserved then e\<lparr>en_reserved_units := en_reserved_units e - al_units a\<rparr>
               else e\<lparr>en_committed_units := en_committed_units e - al_units a\<rparr>);
          e = (if al_reclaim_class a = Pinned then e\<lparr>en_pinned_units := en_pinned_units e - al_units a\<rparr>
               else e\<lparr>en_reclaimable_units := en_reclaimable_units e - al_units a\<rparr>)
      in e\<lparr>en_own_usage := en_own_usage e - (al_units a - effective_borrow a),
           en_borrowed_in := en_borrowed_in e - effective_borrow a\<rparr>)"

definition lender_debit :: "allocation_record \<Rightarrow> pool_entry \<Rightarrow> pool_entry" where
  "lender_debit a l = l\<lparr>en_lent_out := en_lent_out l - effective_borrow a,
     en_own_usage := en_own_usage l - effective_borrow a\<rparr>"

definition queue_debit :: "allocation_record \<Rightarrow> pool_entry \<Rightarrow> pool_entry" where
  "queue_debit a e = (adjust_queue (al_queue a) (- sint (al_units a)) (al_state a = AReserved) e)
     \<lparr>en_members := removeAll (al_id a) (en_members e)\<rparr>"

definition queue_account :: "account \<Rightarrow> bool" where
  "queue_account acc = (case acc of AcQueueReserved _ \<Rightarrow> True | AcQueueCommitted _ \<Rightarrow> True | _ \<Rightarrow> False)"

lemma holder_debit_balance:
  assumes "\<And>acc. held_charge acc a \<le> balance acc e"
  shows "balance acc (holder_debit a e) + (if queue_account acc then 0 else held_charge acc a) = balance acc e"
    "en_descriptor (holder_debit a e) = en_descriptor e" "en_members (holder_debit a e) = en_members e"
proof -
  have own: "unat (al_units a - effective_borrow a) = unat (al_units a) - unat (effective_borrow a)"
    using effective_borrow_le[of a] by (simp add: unat_sub word_le_nat_alt)
  show "balance acc (holder_debit a e) + (if queue_account acc then 0 else held_charge acc a) = balance acc e"
    using assms[of acc]
    by (cases acc)
       (auto simp: holder_debit_def Let_def unat_sub word_le_nat_alt own queue_account_def)
qed (simp_all add: holder_debit_def Let_def)

lemma lender_debit_balance:
  assumes "\<And>acc. lent_charge acc a \<le> balance acc e"
  shows "balance acc (lender_debit a e) + lent_charge acc a = balance acc e"
    "en_descriptor (lender_debit a e) = en_descriptor e" "en_members (lender_debit a e) = en_members e"
  using assms[of acc]
  by (cases acc; auto simp: lender_debit_def lent_charge_def unat_sub word_le_nat_alt)+

lemma queue_debit_balance:
  assumes "\<And>acc. queue_account acc \<Longrightarrow> held_charge acc a \<le> balance acc e" "unat (al_units a) < 2 ^ 63"
  shows "balance acc (queue_debit a e) + (if queue_account acc then held_charge acc a else 0) = balance acc e"
    "en_descriptor (queue_debit a e) = en_descriptor e"
proof -
  show "en_descriptor (queue_debit a e) = en_descriptor e"
    by (simp add: queue_debit_def adjust_queue_def)
  have "unat (al_units a) \<le> bucket_units (en_queue_reserved e) (al_queue a)" if "al_state a = AReserved"
    using assms(1)[of "AcQueueReserved (al_queue a)"] that by (simp add: queue_account_def)
  moreover have "unat (al_units a) \<le> bucket_units (en_queue_committed e) (al_queue a)" if "al_state a \<noteq> AReserved"
    using assms(1)[of "AcQueueCommitted (al_queue a)"] that by (simp add: queue_account_def)
  ultimately show "balance acc (queue_debit a e) + (if queue_account acc then held_charge acc a else 0) = balance acc e"
    using bucket_adjust_debit[OF assms(2)]
    by (cases acc) (auto simp: queue_debit_def adjust_queue_def queue_account_def)
qed

text \<open>On a covered record every check of apply_release_units passes.\<close>

lemma apply_release_units_eq:
  assumes "covered a f" "holds_units a"
  shows "apply_release_units (al_pool a) a f = (Inr (),
    map_pool (al_pool a) (queue_debit a)
      (if effective_borrow a \<noteq> 0 then map_pool (al_lender a) (lender_debit a)
           (map_pool (al_pool a) (holder_debit a) f)
       else map_pool (al_pool a) (holder_debit a) f))"
proof -
  let ?u = "al_units a" and ?b = "effective_borrow a"
  obtain e where e: "map_of (fb_pools f) (al_pool a) = Some e" using assms(1) by (auto simp: covered_def)
  have cov: "charge acc p a \<le> balance acc x" if "map_of (fb_pools f) p = Some x" for acc p x
    using assms(1) that by (auto simp: covered_def)
  have own: "unat (?u - ?b) = unat ?u - unat ?b"
    using effective_borrow_le[of a] by (simp add: unat_sub word_le_nat_alt)
  have ch: "charge acc (al_pool a) a \<ge> held_charge acc a" for acc
    using assms(2) by (simp add: charge_def)
  have h: "held_charge acc a \<le> balance acc e" for acc
    using cov[OF e, of acc] ch[of acc] by linarith
  have n1: "\<not> en_own_usage e < ?u - ?b" "\<not> en_borrowed_in e < ?b"
    using h[of AcOwn] h[of AcBorrowed] own by (simp_all add: not_less word_le_nat_alt)
  have n2: "al_state a = AReserved \<Longrightarrow> \<not> en_reserved_units e < ?u"
    "al_state a \<noteq> AReserved \<Longrightarrow> \<not> en_committed_units e < ?u"
    "al_reclaim_class a = Pinned \<Longrightarrow> \<not> en_pinned_units e < ?u"
    "al_reclaim_class a \<noteq> Pinned \<Longrightarrow> \<not> en_reclaimable_units e < ?u"
    using h[of AcReserved] h[of AcCommitted] h[of AcPinned] h[of AcReclaimable]
    by (simp_all add: not_less word_le_nat_alt)
  let ?g = "map_pool (al_pool a) (holder_debit a) f"
  have debit: "debit_lender ?b (al_lender a) ?g = (Inr (), map_pool (al_lender a) (lender_debit a) ?g)"
    if nz: "?b \<noteq> 0"
  proof -
    obtain l where l: "map_of (fb_pools f) (al_lender a) = Some l"
      using assms(1) nz by (auto simp: covered_def)
    have v: "valid (al_lender a)" using l assms(1) by (auto simp: covered_def valid_def)
    obtain l' where l': "map_of (fb_pools ?g) (al_lender a) = Some l'"
      "unat ?b \<le> unat (en_lent_out l')" "unat ?b \<le> unat (en_own_usage l')"
    proof (cases "al_lender a = al_pool a")
      case False
      with l cov[OF l, of AcLent] cov[OF l, of AcOwn] assms(2) that show ?thesis
        by (simp add: map_of_map_pool charge_def lent_charge_def)
    next
      case True
      then have "unat ?u \<le> unat (en_own_usage e)" "unat ?b \<le> unat (en_lent_out e)"
        using cov[OF e, of AcOwn] cov[OF e, of AcLent] assms(2) effective_borrow_le[of a]
        by (simp_all add: charge_def lent_charge_def)
      with True e that n1 own effective_borrow_le[of a] show ?thesis
        by (simp add: map_of_map_pool holder_debit_def Let_def unat_sub not_less)
    qed
    with v show ?thesis
      by (simp add: debit_lender_def not_less word_le_nat_alt lender_debit_def[abs_def]
          less_unat not_le)
  qed
  have d1: "debit_state (al_pool a) ?u (al_state a = AReserved) f = (Inr (), map_pool (al_pool a)
      (\<lambda>e. if al_state a = AReserved then e\<lparr>en_reserved_units := en_reserved_units e - ?u\<rparr>
           else e\<lparr>en_committed_units := en_committed_units e - ?u\<rparr>) f)" (is "_ = (_, ?f1)")
    using e n2 by (auto simp: debit_state_def)
  have d2: "debit_class (al_pool a) ?u (al_reclaim_class a = Pinned) ?f1 = (Inr (), map_pool (al_pool a)
      (\<lambda>e. if al_reclaim_class a = Pinned then e\<lparr>en_pinned_units := en_pinned_units e - ?u\<rparr>
           else e\<lparr>en_reclaimable_units := en_reclaimable_units e - ?u\<rparr>) ?f1)" (is "_ = (_, ?f2)")
    using e n2 by (auto simp: debit_class_def map_of_map_pool)
  have g: "map_pool (al_pool a) (\<lambda>e. e\<lparr>en_own_usage := en_own_usage e - (?u - ?b),
      en_borrowed_in := en_borrowed_in e - ?b\<rparr>) ?f2 = ?g"
    by (simp add: map_pool_compose comp_def holder_debit_def[abs_def] Let_def)
  show ?thesis
  proof (cases "?b = 0")
    case True
    then show ?thesis
      using assms(2) e n1 g
      by (simp add: apply_release_units_def holds_units_def d1 d2 Let_def queue_debit_def[abs_def])
  next
    case False
    then show ?thesis
      using assms(2) e n1
      by (simp add: apply_release_units_def holds_units_def d1 d2 g debit Let_def queue_debit_def[abs_def])
  qed
qed

lemma apply_release_units_ok:
  assumes "covered a f" "holds_units a"
  obtains f' where "apply_release_units (al_pool a) a f = (Inr (), f')"
    "shifted (\<lambda>acc p. charge acc p a) (\<lambda>_ _. 0) f f'" "only_pools f f'"
    "\<And>p e e'. map_of (fb_pools f) p = Some e \<Longrightarrow> map_of (fb_pools f') p = Some e' \<Longrightarrow>
       set (en_members e') = set (en_members e) - (if p = al_pool a then {al_id a} else {})"
proof -
  let ?b = "effective_borrow a"
  let ?g = "map_pool (al_pool a) (holder_debit a) f"
  let ?h = "if ?b \<noteq> 0 then map_pool (al_lender a) (lender_debit a) ?g else ?g"
  let ?k = "map_pool (al_pool a) (queue_debit a) ?h"
  have cov: "charge acc p a \<le> balance acc e" if "map_of (fb_pools f) p = Some e" for acc p e
    using assms(1) that by (auto simp: covered_def)
  have u: "unat (al_units a) < 2 ^ 63" using assms(1) by (simp add: covered_def)
  have held: "held_charge acc a \<le> balance acc e" if "map_of (fb_pools f) (al_pool a) = Some e" for acc e
    using cov[OF that, of acc] assms(2) by (simp add: charge_def)
  have s1: "shifted (\<lambda>acc p. if p = al_pool a then (if queue_account acc then 0 else held_charge acc a) else 0)
      (\<lambda>acc p. if p = al_pool a then 0 else 0) f ?g"
    by (rule shifted_map_pool) (use held holder_debit_balance in auto)
  have lent: "lent_charge acc a \<le> balance acc l" if l: "map_of (fb_pools ?g) (al_lender a) = Some l" for acc l
  proof -
    obtain l0 where l0: "map_of (fb_pools f) (al_lender a) = Some l0"
      "balance acc l + (if al_lender a = al_pool a then (if queue_account acc then 0 else held_charge acc a) else 0)
        = balance acc l0"
      using shifted_at[OF s1 l, of acc] by (auto split: if_splits)
    then show ?thesis
      using cov[OF l0(1), of acc] assms(2)
      by (cases "queue_account acc") (auto simp: charge_def lent_charge_def queue_account_def split: if_splits)
  qed
  have s2: "shifted (\<lambda>acc p. if p = al_lender a then lent_charge acc a else 0)
      (\<lambda>acc p. if p = al_lender a then 0 else 0) ?g ?h"
  proof (cases "?b = 0")
    case True
    then show ?thesis by (simp add: lent_charge_def shifted_def option.rel_refl)
  next
    case False
    then have "?h = map_pool (al_lender a) (lender_debit a) ?g" by simp
    moreover have "shifted (\<lambda>acc p. if p = al_lender a then lent_charge acc a else 0)
      (\<lambda>acc p. if p = al_lender a then 0 else 0) ?g (map_pool (al_lender a) (lender_debit a) ?g)"
      by (rule shifted_map_pool) (use lent lender_debit_balance in auto)
    ultimately show ?thesis by simp
  qed
  have q: "queue_account acc \<Longrightarrow> held_charge acc a \<le> balance acc e"
    if e: "map_of (fb_pools ?h) (al_pool a) = Some e" for acc e
  proof -
    assume qa: "queue_account acc"
    obtain e1 where e1: "map_of (fb_pools ?g) (al_pool a) = Some e1"
      "balance acc e + (if al_pool a = al_lender a then lent_charge acc a else 0) = balance acc e1"
      using shifted_at[OF s2 e, of acc] by (auto split: if_splits)
    obtain e0 where e0: "map_of (fb_pools f) (al_pool a) = Some e0" "balance acc e1 = balance acc e0"
      using shifted_at[OF s1 e1(1), of acc] qa by auto
    from qa have "lent_charge acc a = 0" by (auto simp: lent_charge_def queue_account_def)
    with e1(2) e0(2) held[OF e0(1), of acc] show ?thesis by (simp split: if_splits)
  qed
  have s3: "shifted (\<lambda>acc p. if p = al_pool a then (if queue_account acc then held_charge acc a else 0) else 0)
      (\<lambda>acc p. if p = al_pool a then 0 else 0) ?h ?k"
    by (rule shifted_map_pool) (use q queue_debit_balance[OF _ u] in auto)
  have s: "shifted (\<lambda>acc p. charge acc p a) (\<lambda>_ _. 0) f ?k"
    by (rule shifted_trans[OF shifted_trans[OF s1 s2] s3])
       (use assms(2) in \<open>auto simp: charge_def\<close>)
  have "apply_release_units (al_pool a) a f = (Inr (), ?k)"
    using apply_release_units_eq[OF assms] by simp
  moreover have "only_pools f ?k"
    by (auto intro!: only_pools_trans[OF _ only_pools_map_pool])
  moreover have "set (en_members e') = set (en_members e) - (if p = al_pool a then {al_id a} else {})"
    if "map_of (fb_pools f) p = Some e" "map_of (fb_pools ?k) p = Some e'" for p e e'
    using that by (auto simp: map_of_map_pool holder_debit_def lender_debit_def queue_debit_def
        adjust_queue_def Let_def split: if_splits)
  ultimately show thesis using that s by blast
qed

lemma pool_key_nonzero: "ledger_inv f \<Longrightarrow> map_of (fb_pools f) 0 = None"
  using ledger_invD(1)[of f 0] pool_validD(1) by (cases "map_of (fb_pools f) 0") (auto simp: entry_ok_def)

lemma charge_le_books: "map_of (fb_allocations f) i = Some a \<Longrightarrow> charge acc p a \<le> books acc p f"
  unfolding books_def by (rule asum_ge_member)

lemma covered_member:
  assumes "ledger_inv f" "map_of (fb_allocations f) i = Some a" "holds_units a"
  shows "covered a f"
proof -
  obtain e where e: "map_of (fb_pools f) (al_pool a) = Some e"
    and r: "borrow_units a \<le> al_units a" "borrow_units a \<noteq> 0 \<longrightarrow> map_of (fb_pools f) (al_lender a) \<noteq> None"
    using ledger_invD(2)[OF assms(1,2)] assms(3) by (auto simp: record_ok_def)
  have le: "charge acc p a \<le> balance acc x" if "map_of (fb_pools f) p = Some x" for acc p x
    using charge_le_books[OF assms(2)] ledger_invD(4)[OF assms(1) that] by simp
  have h: "held_charge acc a \<le> balance acc e" for acc
    using le[OF e, of acc] assms(3) by (simp add: charge_def)
  then have "unat (al_units a) \<le> unat (en_reserved_units e) + unat (en_committed_units e)"
    using h[of AcReserved] h[of AcCommitted] by (cases "al_state a = AReserved") simp_all
  then have "unat (al_units a) < 2 ^ 63" using balance_bounds[OF assms(1) e] by simp
  moreover have "effective_borrow a = borrow_units a" using r by (simp add: effective_borrow_def)
  ultimately show ?thesis
    using le e r pool_key_nonzero[OF assms(1)] by (simp add: covered_def)
qed

lemma record_ok_fields:
  assumes "record_ok f i a" "\<And>p. map_of (fb_pools f) p \<noteq> None \<Longrightarrow> map_of (fb_pools g) p \<noteq> None"
  shows "record_ok g i a"
  using assms by (auto simp: record_ok_def)

text \<open>A record is replaced by what a release of its part n leaves of it.\<close>

lemma ledger_inv_settle:
  assumes inv: "ledger_inv f" and a: "map_of (fb_allocations f) i = Some a"
    and n: "covered n f" "holds_units n" "al_pool n = al_pool a" "al_id n = al_id a" "holds_units a"
    and rest: "\<And>acc p. charge acc p n + charge acc p a' = charge acc p a" "record_ok f i a'"
    and f1: "apply_release_units (al_pool a) n f = (Inr (), f1)"
  shows "ledger_inv (set_record i a' f1) \<and> only_pools f f1"
proof -
  obtain f2 where f2: "apply_release_units (al_pool n) n f = (Inr (), f2)"
    "shifted (\<lambda>acc p. charge acc p n) (\<lambda>_ _. 0) f f2" "only_pools f f2"
    "\<And>p e e'. map_of (fb_pools f) p = Some e \<Longrightarrow> map_of (fb_pools f2) p = Some e' \<Longrightarrow>
       set (en_members e') = set (en_members e) - (if p = al_pool n then {al_id n} else {})"
    using apply_release_units_ok[OF n(1,2)] by metis
  then have [simp]: "f2 = f1" using f1 n(3) by simp
  have allocs: "fb_allocations f1 = fb_allocations f" using only_pools_fields[OF f2(3)] by simp
  have i: "al_id a = i" using ledger_invD(2)[OF inv a] by (simp add: record_ok_def)
  let ?g = "set_record i a' f1"
  have sh: "shifted (\<lambda>acc p. charge acc p n) (\<lambda>_ _. 0) f ?g"
    using f2(2) by (simp add: shifted_def set_record_def)
  have "ledger_inv ?g"
  proof (rule ledger_inv_shift[OF inv sh])
    show "books acc p ?g + charge acc p n = books acc p f + 0" for acc p
      using asum_update_old[OF a, of "charge acc p" a'] rest(1)[of acc p]
      by (simp add: books_def set_record_def allocs)
  next
    fix p e e' assume e: "map_of (fb_pools f) p = Some e" and e': "map_of (fb_pools ?g) p = Some e'"
    then have e2: "map_of (fb_pools f2) p = Some e'" by (simp add: set_record_def)
    have b: "balance acc e' + charge acc p n = balance acc e" for acc
      using shifted_at[OF f2(2) e2, of acc] e by simp
    have members: "set (en_members e') = set (en_members e) - (if p = al_pool a then {i} else {})"
      using f2(4)[OF e e2] n(3,4) i by simp
    have "\<exists>x. map_of (fb_allocations ?g) j = Some x \<and> holds_units x \<and> al_pool x = p"
      if "j \<in> set (en_members e')" for j
    proof -
      have j: "j \<in> set (en_members e)" "p = al_pool a \<Longrightarrow> j \<noteq> i" using that members by (auto split: if_splits)
      then obtain x where "map_of (fb_allocations f) j = Some x" "holds_units x" "al_pool x = p"
        using ledger_invD(1)[OF inv e] by (auto simp: entry_ok_def)
      with j(2) a show ?thesis by (auto simp: set_record_def allocs)
    qed
    then show "unat (en_own_usage e') \<le> 2 ^ 61 \<and> unat (en_borrowed_in e') \<le> 2 ^ 60 \<and>
        (\<forall>j\<in>set (en_members e'). \<exists>x. map_of (fb_allocations ?g) j = Some x \<and> holds_units x \<and> al_pool x = p)"
      using b[of AcOwn] b[of AcBorrowed] balance_bounds(3,4)[OF inv e] by simp
  next
    fix j x assume x: "map_of (fb_allocations ?g) j = Some x"
    have keys: "map_of (fb_pools f) p \<noteq> None \<Longrightarrow> map_of (fb_pools ?g) p \<noteq> None" for p
      using shifted_keys[OF sh, of p] by simp
    have "record_ok f j x"
      using x rest(2) ledger_invD(2)[OF inv, of j x] by (auto simp: set_record_def allocs split: if_splits)
    then show "record_ok ?g j x" by (rule record_ok_fields) (rule keys)
  qed
  with f2(3) show ?thesis by simp
qed

subsection \<open>Bookkeeping\<close>

text \<open>The ledger as an observer sees it: everything but the runtime statistics of a pool.\<close>

definition plain :: "pool_entry \<Rightarrow> pool_entry" where
  "plain e = e\<lparr>en_runtime := pool_runtime0\<rparr>"

definition ledger_view ::
  "fabric \<Rightarrow> (u64 \<times> pool_entry) list \<times> (u64 \<times> allocation_record) list \<times> (u64 \<times> pool_policy) list \<times> u64" where
  "ledger_view f = (map (\<lambda>(p, e). (p, plain e)) (fb_pools f), fb_allocations f, fb_policies f, next_allocation_id f)"

lemma balance_plain [simp]: "balance acc (plain e) = balance acc e"
  by (cases acc) (simp_all add: plain_def)

lemma plain_fields [simp]:
  "en_descriptor (plain e) = en_descriptor e" "en_members (plain e) = en_members e"
  "en_own_usage (plain e) = en_own_usage e" "en_borrowed_in (plain e) = en_borrowed_in e"
  "plain (plain e) = plain e"
  by (simp_all add: plain_def)

lemma ledger_inv_plain: "ledger_inv (f\<lparr>fb_pools := map (\<lambda>(p, e). (p, plain e)) (fb_pools f)\<rparr>) = ledger_inv f"
  (is "ledger_inv ?g = _")
proof -
  have m: "map_of (fb_pools ?g) p = map_option plain (map_of (fb_pools f) p)" for p
    by (simp add: map_of_map_snd)
  have q: "(\<forall>p e. map_option plain (m p) = Some e \<longrightarrow> Q p e) = (\<forall>p e. m p = Some e \<longrightarrow> Q p (plain e))"
    for m :: "u64 \<Rightarrow> pool_entry option" and Q
    by auto
  have e: "entry_ok ?g p (plain x) = entry_ok f p x" for p x by (simp add: entry_ok_def)
  have r: "record_ok ?g i a = record_ok f i a" for i a by (simp only: record_ok_def m) simp
  have q3: "(\<forall>p e acc. map_option plain (m p) = Some e \<longrightarrow> R p e acc) = (\<forall>p e acc. m p = Some e \<longrightarrow> R p (plain e) acc)"
    for m :: "u64 \<Rightarrow> pool_entry option" and R :: "u64 \<Rightarrow> pool_entry \<Rightarrow> account \<Rightarrow> bool"
    by auto
  have b: "books_balance ?g = books_balance f"
    unfolding books_balance_def m q3 by (simp add: books_def)
  have "tree_ok ?g = tree_ok f"
    by (rule tree_ok_cong) (simp add: parent_of_def fun_eq_iff map_of_map_snd option.map_comp comp_def)
  then show ?thesis unfolding ledger_inv_def m q e r b by simp
qed

lemma ledger_view_inv: "ledger_view g = ledger_view f \<Longrightarrow> ledger_inv g = ledger_inv f"
  using ledger_inv_plain[of f] ledger_inv_plain[of g]
    same_ledger_inv[of "f\<lparr>fb_pools := map (\<lambda>(p, e). (p, plain e)) (fb_pools f)\<rparr>"
      "g\<lparr>fb_pools := map (\<lambda>(p, e). (p, plain e)) (fb_pools g)\<rparr>"]
  by (simp add: ledger_view_def same_ledger_def)

lemma map_snd_update:
  "map (\<lambda>(k, v). (k, h v)) (AList.update k v al) = AList.update k (h v) (map (\<lambda>(k, v). (k, h v)) al)"
  by (induction al) auto

lemma map_pool_view:
  assumes "\<And>e. plain (g e) = plain e"
  shows "ledger_view (map_pool p g f) = ledger_view f"
proof (cases "map_of (fb_pools f) p")
  case (Some e)
  then have "map_of (map (\<lambda>(p, e). (p, plain e)) (fb_pools f)) p = Some (plain (g e))"
    by (simp add: map_of_map_snd assms)
  with Some show ?thesis
    by (simp add: ledger_view_def map_pool_def map_snd_update update_triv)
qed (simp add: map_pool_def)

lemma record_view [simp]:
  "ledger_view (f\<lparr>fb_shutting_down := b\<rparr>) = ledger_view f" "ledger_view (f\<lparr>fb_metrics := m\<rparr>) = ledger_view f"
  "ledger_view (f\<lparr>fb_events := ev\<rparr>) = ledger_view f"
  by (simp_all add: ledger_view_def)

lemma bump_view [simp]: "ledger_view (bump c f) = ledger_view f"
  by (simp add: bump_def)

lemma bookkeeping_view [simp]:
  "ledger_view (map_runtime p r f) = ledger_view f"
  "ledger_view (push_event k oc pl qu al un sq f) = ledger_view f"
  "ledger_view (record_decision d f) = ledger_view f"
  "ledger_view (advance_sequence f) = ledger_view f"
  "ledger_view (record_attempt att f) = ledger_view f"
  "ledger_view (count_fence st p f) = ledger_view f"
  "ledger_view (publish f) = ledger_view f"
  "ledger_view (take_lock t f) = ledger_view f"
  "ledger_view (count_grant a f) = ledger_view f"
  subgoal by (simp add: map_runtime_def map_pool_view plain_def)
  subgoal by (simp add: push_event_def ledger_view_def)
  subgoal by (simp add: record_decision_def ledger_view_def)
  subgoal by (simp add: advance_sequence_def ledger_view_def)
  subgoal by (simp add: record_attempt_def evict_attempts_def ledger_view_def Let_def split: prod.split)
  subgoal by (cases st) (simp_all add: count_fence_def map_pool_view plain_def)
  subgoal by (simp add: publish_def ledger_view_def)
  subgoal by (simp add: take_lock_def ledger_view_def)
  subgoal by (simp add: count_grant_def ledger_view_def Let_def)
  done

lemma conclude_view [simp]: "ledger_view (conclude kind att d dec f) = ledger_view f"
  by (simp add: conclude_def Let_def)

lemma only_journals_view: "only_journals f g \<Longrightarrow> ledger_view g = ledger_view f"
  by (simp add: ledger_view_def)

lemma outcome_view:
  "ledger_view (snd (verify_closure p report f)) = ledger_view f"
  "ledger_view (snd (record_outcome kind att d a policy queue evidence requested granted f)) = ledger_view f"
  "ledger_view (snd (pool_outcome dk units binding fence p policy evidence f)) = ledger_view f"
  "ledger_view (snd (replay_decision previous att e qi requested ai f)) = ledger_view f"
  "ledger_view (snd (allocate_finish q queue policy evidence dk code granted ai binding intent lender f)) = ledger_view f"
  by (simp_all add: verify_closure_def record_outcome_def pool_outcome_def replay_decision_def
      allocate_finish_def Let_def split: option.split sum.split)

lemma inv_try_st:
  assumes "ledger_inv (snd m)" "\<And>x g. m = (Inr x, g) \<Longrightarrow> ledger_inv g \<Longrightarrow> ledger_inv (snd (k x g))"
  shows "ledger_inv (snd (try_st m k))"
  using assms by (cases m; cases "fst m") auto

lemmas outcome_inv = outcome_view[THEN ledger_view_inv]
lemmas view_inv [simp] = bookkeeping_view[THEN ledger_view_inv] bump_view[THEN ledger_view_inv]
  conclude_view[THEN ledger_view_inv] record_view[THEN ledger_view_inv]

lemma journal_allocation_view: "ledger_view (snd (journal_allocation opc a f)) = ledger_view f"
  using only_journals_view[OF only_journals_writer[of f opc "encode_allocation a"]]
  by (simp add: journal_allocation_def)

lemmas journal_allocation_inv = journal_allocation_view[THEN ledger_view_inv]

subsection \<open>Fencing and expiry\<close>

lemma charge_not_holding: "\<not> holds_units a \<Longrightarrow> charge acc p a = 0"
  by (simp add: charge_def)

lemma fence_allocation_inv:
  assumes "ledger_inv f" "map_of (fb_allocations f) i = Some a" "\<not> allocation_holds_units st"
  shows "ledger_inv (snd (fence_allocation_locked i a st f))"
proof (cases "map_of (fb_pools f) (al_pool a) = None \<or> \<not> allocation_holds_units (al_state a)")
  case True
  then show ?thesis using assms(1) by (auto simp: fence_allocation_locked_def)
next
  case False
  then have h: "holds_units a" by (simp add: holds_units_def)
  note cov = covered_member[OF assms(1,2) h]
  obtain f1 where f1: "apply_release_units (al_pool a) a f = (Inr (), f1)"
    using apply_release_units_ok[OF cov h] by metis
  define b where "b = a\<lparr>al_state := st, last_touched := fb_tick f1, al_revision := al_revision a + 1\<rparr>"
  have nb: "\<not> holds_units b" using assms(3) by (simp add: b_def holds_units_def)
  have "al_id a = i" using ledger_invD(2)[OF assms(1,2)] by (simp add: record_ok_def)
  then have "record_ok f i b" using nb by (simp add: record_ok_def) (simp add: b_def)
  then have "ledger_inv (set_record i b f1)"
    using ledger_inv_settle[OF assms(1,2) cov h refl refl h _ _ f1, of b] charge_not_holding[OF nb] by simp
  then show ?thesis
    using False f1
    by (auto simp: fence_allocation_locked_def Let_def journal_allocation_inv
        simp flip: b_def intro!: inv_try_st)
qed

lemma fence_members_inv:
  assumes "ledger_inv f" "\<not> allocation_holds_units st"
  shows "ledger_inv (snd (fence_members due st ids n units f))"
  using assms(1)
proof (induction ids arbitrary: n units f)
  case (Cons i ids)
  show ?case
    using Cons fence_allocation_inv[OF Cons.prems _ assms(2)]
    by (auto split: option.split intro!: inv_try_st)
qed simp

lemma whole_pool_inv:
  "ledger_inv f \<Longrightarrow> ledger_inv (snd (fence_stale_locked p f))"
  "ledger_inv f \<Longrightarrow> ledger_inv (snd (expire_reservations_locked p f))"
  by (auto simp: fence_stale_locked_def expire_reservations_locked_def Let_def outcome_inv
      allocation_holds_units_def split: sum.split prod.split
      intro!: inv_try_st fence_members_inv)

subsection \<open>Revalidation and commit\<close>

lemma ledger_inv_rebind:
  assumes "ledger_inv f" "map_of (fb_allocations f) i = Some a"
    and "\<And>acc p. charge acc p b = charge acc p a" "record_ok f i b"
    and "holds_units b = holds_units a" "al_pool b = al_pool a"
  shows "ledger_inv (set_record i b f)"
proof (rule ledger_inv_shift[OF assms(1)])
  show "shifted (\<lambda>_ _. 0) (\<lambda>_ _. 0) f (set_record i b f)"
    by (simp add: shifted_def set_record_def option.rel_refl)
  show "books acc p (set_record i b f) + 0 = books acc p f + 0" for acc p
    using asum_update_same[OF assms(2), of "charge acc p" b] assms(3)
    by (simp add: books_def set_record_def)
  show "record_ok (set_record i b f) j x" if "map_of (fb_allocations (set_record i b f)) j = Some x" for j x
    using that assms(4) ledger_invD(2)[OF assms(1), of j x]
    by (auto simp: set_record_def record_ok_def split: if_splits)
  fix p e e' assume "map_of (fb_pools f) p = Some e" "map_of (fb_pools (set_record i b f)) p = Some e'"
  then show "unat (en_own_usage e') \<le> 2 ^ 61 \<and> unat (en_borrowed_in e') \<le> 2 ^ 60 \<and>
      (\<forall>j\<in>set (en_members e'). \<exists>x. map_of (fb_allocations (set_record i b f)) j = Some x \<and> holds_units x \<and> al_pool x = p)"
    using ledger_invD(1)[OF assms(1)] assms(2,5,6) by (fastforce simp: set_record_def entry_ok_def)
qed

lemma require_Inr:
  "require_pool p f = Inr e \<longleftrightarrow> valid p \<and> map_of (fb_pools f) p = Some e"
  "require_policy e f = Inr policy \<longleftrightarrow> policy_of e f = Some policy"
  "require_queue q f = Inr queue \<longleftrightarrow> valid q \<and> map_of (fb_queues f) q = Some queue"
  by (simp_all add: require_pool_def require_policy_def require_queue_def split: option.split)

lemma locate_found:
  assumes "locate att d i f = Inr (previous, a, e, policy, queue)"
  shows "map_of (fb_allocations f) i = Some a" "map_of (fb_pools f) (al_pool a) = Some e"
    "policy_of e f = Some policy" "map_of (fb_queues f) (al_queue a) = Some queue"
    "lookup_attempt att d f = Inr previous"
  using assms
  by (auto simp: locate_def require_Inr try_r_eq_Inr split: option.split_asm)

lemma charge_same:
  assumes "al_units b = al_units a" "al_state b = al_state a" "al_reclaim_class b = al_reclaim_class a"
    "borrow_units b = borrow_units a" "al_pool b = al_pool a" "al_lender b = al_lender a" "al_queue b = al_queue a"
  shows "charge acc p b = charge acc p a"
  using assms by (cases acc) (simp_all add: charge_def holds_units_def lent_charge_def effective_borrow_def)

lemma revalidate_inv:
  assumes "ledger_inv f"
  shows "ledger_inv (snd (revalidate_locked q f))"
proof -
  have "ledger_inv (set_record i (rebound a e policy queue f) g)"
    if "map_of (fb_allocations f) i = Some a" "ledger_view g = ledger_view f" for i a e policy queue g
  proof -
    have g: "ledger_inv g" "map_of (fb_allocations g) i = Some a"
      using that assms ledger_view_inv[OF that(2)] by (simp_all add: ledger_view_def)
    show ?thesis
      using ledger_invD(2)[OF g] g
      by (intro ledger_inv_rebind[OF g] charge_same)
        (simp_all add: rebound_def holds_units_def record_ok_def)
  qed
  then show ?thesis
    using assms
    by (auto simp: revalidate_locked_def Let_def outcome_inv journal_allocation_inv
        dest!: locate_found(1) split: sum.split prod.split option.split
        intro!: inv_try_st) (metis journal_allocation_view snd_conv)+
qed

end
