(* ===== verification/Alloc_Ops.thy ===== *)
theory Alloc_Ops
  imports Alloc_Safety
begin

text \<open>
  The operations on single records and their effect on the ledger: commit, release and
  allocate keep the invariant, a grant stays within the capacity of the pool and of its lender,
  and the plan that allocate checks is always sound.
\<close>

subsection \<open>Commit\<close>

lemma covered_held:
  assumes "covered a f" "holds_units a" "map_of (fb_pools f) (al_pool a) = Some e"
  shows "held_charge acc a \<le> balance acc e"
proof -
  have "charge acc (al_pool a) a \<le> balance acc e" using assms(1,3) unfolding covered_def by blast
  then show ?thesis using assms(2) by (simp add: charge_def)
qed

lemma shifted_conv:
  assumes "shifted o1 i1 f g" "fb_pools h = fb_pools g" "fb_policies h = fb_policies g"
    and "\<And>acc p. o1 acc p + i3 acc p = o3 acc p + i1 acc p"
  shows "shifted o3 i3 f h"
proof -
  have "shifted (\<lambda>_ _. 0) (\<lambda>_ _. 0) g h" using assms(2,3) by (simp add: shifted_def option.rel_refl)
  then show ?thesis by (rule shifted_trans[OF assms(1)]) (use assms(4) in simp)
qed

definition committed :: "allocation_record \<Rightarrow> tick \<Rightarrow> allocation_record" where
  "committed a stamp = a\<lparr>al_state := ACommitted, last_touched := stamp, al_revision := al_revision a + 1\<rparr>"

lemma commit_units_balance:
  assumes "\<And>acc. held_charge acc a \<le> balance acc e" "al_state a = AReserved" "sums_ok e"
    and "bucket_units (en_queue_committed e) (al_queue a) \<le> unat (en_committed_units e)"
  shows "balance acc (commit_units a e) + held_charge acc a = balance acc e + held_charge acc (committed a t)"
    "en_descriptor (commit_units a e) = en_descriptor e" "en_members (commit_units a e) = en_members e"
proof -
  let ?u = "al_units a"
  have r: "unat ?u \<le> unat (en_reserved_units e)" using assms(1)[of AcReserved] assms(2) by simp
  have s: "unat (en_committed_units e) + unat ?u < 2 ^ 64" "unat ?u < 2 ^ 63"
    using assms(3) r by (auto simp: sums_ok_def)
  have q: "unat ?u \<le> bucket_units (en_queue_reserved e) (al_queue a)"
    using assms(1)[of "AcQueueReserved (al_queue a)"] assms(2) by simp
  have b: "bucket_units (en_queue_committed e) (al_queue a) + unat ?u < 2 ^ 64" using assms(4) s by linarith
  show "balance acc (commit_units a e) + held_charge acc a = balance acc e + held_charge acc (committed a t)"
    using r s assms(2) bucket_adjust_debit[OF s(2) q] bucket_adjust_credit[OF s(2) b]
    by (cases acc)
       (auto simp: commit_units_def adjust_queue_def committed_def effective_borrow_def unat_sub
          word_le_nat_alt unat_plus_small)
  show "en_descriptor (commit_units a e) = en_descriptor e" "en_members (commit_units a e) = en_members e"
    by (simp_all add: commit_units_def adjust_queue_def)
qed

lemma ledger_inv_commit:
  assumes inv: "ledger_inv f" and a: "map_of (fb_allocations f) i = Some a" "al_state a = AReserved"
  shows "ledger_inv (set_record i (committed a t) (map_pool (al_pool a) (commit_units a) f))"
    (is "ledger_inv (set_record i ?n ?g)")
proof -
  have h: "holds_units a" "holds_units ?n" using a by (simp_all add: holds_units_def allocation_holds_units_def committed_def)
  have r: "record_ok f i a" using ledger_invD(2)[OF inv a(1)] .
  have lent: "lent_charge acc ?n = lent_charge acc a" for acc
    by (simp add: lent_charge_def committed_def effective_borrow_def)
  have bal: "en_descriptor (commit_units a e) = en_descriptor e \<and>
      (\<forall>acc. balance acc (commit_units a e) + held_charge acc a = balance acc e + held_charge acc ?n)"
    if e: "map_of (fb_pools f) (al_pool a) = Some e" for e
  proof -
    have "held_charge acc a \<le> balance acc e" for acc
      using covered_held[OF covered_member[OF inv a(1) h(1)] h(1) e] .
    moreover have "bucket_units (en_queue_committed e) (al_queue a) \<le> unat (en_committed_units e)"
      using books_split(4)[of "al_queue a" "al_pool a" f]
        ledger_invD(4)[OF inv e, of "AcQueueCommitted (al_queue a)"] ledger_invD(4)[OF inv e, of AcCommitted]
      by simp
    ultimately show ?thesis
      using commit_units_balance[OF _ a(2) ledger_sums_ok[OF inv e]] by simp
  qed
  have "shifted (\<lambda>acc p. if p = al_pool a then held_charge acc a else 0)
      (\<lambda>acc p. if p = al_pool a then held_charge acc ?n else 0) f ?g"
    by (rule shifted_map_pool) (rule bal)
  then have sh: "shifted (\<lambda>acc p. charge acc p a) (\<lambda>acc p. charge acc p ?n) f (set_record i ?n ?g)"
    by (rule shifted_conv)
      (use h lent in \<open>simp_all add: set_record_def charge_def committed_def\<close>)
  show ?thesis
  proof (rule ledger_inv_shift[OF inv sh])
    show "books acc p (set_record i ?n ?g) + charge acc p a = books acc p f + charge acc p ?n" for acc p
      using asum_update_old[OF a(1), of "charge acc p" ?n] by (simp add: books_def set_record_def)
    show "record_ok (set_record i ?n ?g) j x"
      if "map_of (fb_allocations (set_record i ?n ?g)) j = Some x" for j x
      using that r h ledger_invD(2)[OF inv, of j x]
      by (auto simp: set_record_def record_ok_def map_of_map_pool committed_def split: if_splits)
    fix p e e' assume e: "map_of (fb_pools f) p = Some e" and e': "map_of (fb_pools (set_record i ?n ?g)) p = Some e'"
    then have "en_members e' = en_members e" "en_own_usage e' = en_own_usage e" "en_borrowed_in e' = en_borrowed_in e"
      by (auto simp: set_record_def map_of_map_pool commit_units_def adjust_queue_def split: if_splits)
    then show "unat (en_own_usage e') \<le> 2 ^ 61 \<and> unat (en_borrowed_in e') \<le> 2 ^ 60 \<and>
        (\<forall>j\<in>set (en_members e'). \<exists>x. map_of (fb_allocations (set_record i ?n ?g)) j = Some x \<and> holds_units x \<and> al_pool x = p)"
      using ledger_invD(1)[OF inv e] a(1) h by (fastforce simp: set_record_def entry_ok_def committed_def)
  qed
qed

lemma commit_inv:
  assumes "ledger_inv f"
  shows "ledger_inv (snd (commit_locked q f))"
proof -
  have "ledger_inv (set_record i (committed a t) (map_pool (al_pool a) (commit_units a) g))"
    if "map_of (fb_allocations f) i = Some a" "al_state a = AReserved" "ledger_view g = ledger_view f" for i a t g
    using that assms ledger_view_inv[OF that(3)]
    by (intro ledger_inv_commit) (simp_all add: ledger_view_def)
  then show ?thesis
    using assms
    by (auto simp: commit_locked_def commit_apply_def Let_def outcome_inv journal_allocation_inv
        committed_def[symmetric] dest!: locate_found(1) split: sum.split prod.split option.split
        intro!: inv_try_st) (metis journal_allocation_view snd_conv)
qed

subsection \<open>Release\<close>

text \<open>The proportional share of a loan, over the naturals: never more than the loan or than what
  is released, and what remains of the loan fits in what remains of the allocation.\<close>

lemma share_bounds:
  fixes b r u :: nat
  assumes "b \<le> u" "r \<le> u"
  shows "b * r div u \<le> b" "b * r div u \<le> r" "b - b * r div u \<le> u - r"
proof -
  show "b * r div u \<le> b"
    using assms(2) by (cases "u = 0") (simp_all add: div_le_mono less_mult_imp_div_less div_le_dividend
        order_trans[OF div_le_mono[OF mult_le_mono2[OF assms(2)]]])
  show "b * r div u \<le> r"
    using order_trans[OF div_le_mono[OF mult_le_mono1[OF assms(1)], of r u]] by (cases "u = 0") simp_all
  show "b - b * r div u \<le> u - r"
  proof (cases "u = 0 \<or> b + r \<le> u")
    case True
    then show ?thesis using assms by auto
  next
    case False
    define k x y where "k = b + r - u" "x = u - b" "y = u - r"
    then have "b = k + y" "r = k + x" "u = k + x + y" using False assms by auto
    then have "u * k \<le> b * r" by (simp add: algebra_simps)
    then have "u * (b + r - u) \<le> b * r" by (simp add: k_x_y_def)
    then have "b + r - u \<le> b * r div u" using False by (simp add: less_eq_div_iff_mult_less_eq mult.commute)
    then show ?thesis by linarith
  qed
qed

definition release_part :: "allocation_record \<Rightarrow> u64 \<Rightarrow> tick \<Rightarrow> allocation_record" where
  "release_part a r stamp = a\<lparr>al_units := r, borrow_units := released_part a r,
     al_revision := al_revision a + 1, last_touched := stamp\<rparr>"

text \<open>The product that the code forms in 64 bits does not wrap.\<close>

definition release_fits :: "allocation_record \<Rightarrow> u64 \<Rightarrow> bool" where
  "release_fits a r \<longleftrightarrow> r = al_units a \<or> unat (borrow_units a) * unat r < 2 ^ 64"

lemma released_part_bounds:
  assumes "borrow_units a \<le> al_units a" "r \<le> al_units a" "release_fits a r"
  shows "unat (released_part a r) \<le> unat r" "unat (released_part a r) \<le> unat (borrow_units a)"
    "unat (borrow_units a) - unat (released_part a r) \<le> unat (al_units a) - unat r"
proof -
  have e: "effective_borrow a = borrow_units a" using assms(1) by (simp add: effective_borrow_def)
  have b: "unat (borrow_units a) \<le> unat (al_units a)" "unat r \<le> unat (al_units a)"
    using assms by (simp_all add: word_le_nat_alt)
  have "unat (released_part a r) = (if r = al_units a then unat (borrow_units a)
      else unat (borrow_units a) * unat r div unat (al_units a))"
    using assms(3) e by (auto simp: released_part_def Let_def release_fits_def unat_div unat_mult_small)
  then show "unat (released_part a r) \<le> unat r" "unat (released_part a r) \<le> unat (borrow_units a)"
    "unat (borrow_units a) - unat (released_part a r) \<le> unat (al_units a) - unat r"
    using share_bounds[OF b] b by auto
qed

lemma release_splits:
  assumes "borrow_units a \<le> al_units a" "r \<le> al_units a" "release_fits a r" "holds_units a"
  shows "charge acc p (release_part a r t) + charge acc p (remainder_of a r t') = charge acc p a"
    "borrow_units (remainder_of a r t') \<le> al_units (remainder_of a r t')"
proof -
  let ?n = "release_part a r t" and ?m = "remainder_of a r t'"
  note b = released_part_bounds[OF assms(1-3)]
  have e: "effective_borrow a = borrow_units a" using assms(1) by (simp add: effective_borrow_def)
  have en: "effective_borrow ?n = released_part a r"
    using b(1) by (simp add: effective_borrow_def release_part_def word_le_nat_alt)
  have un: "unat (al_units a - r) = unat (al_units a) - unat r"
    "unat (borrow_units a - released_part a r) = unat (borrow_units a) - unat (released_part a r)"
    using assms(2) b(2) by (simp_all add: unat_sub word_le_nat_alt)
  show ok: "borrow_units ?m \<le> al_units ?m"
    using b(3) un by (simp add: remainder_of_def Let_def e word_le_nat_alt)
  have le: "unat r \<le> unat (al_units a)" using assms(2) by (simp add: word_le_nat_alt)
  show "charge acc p ?n + charge acc p ?m = charge acc p a"
  proof (cases "r = al_units a")
    case True
    then have "\<not> holds_units ?m" by (simp add: remainder_of_def Let_def holds_units_def allocation_holds_units_def)
    moreover have "charge acc p ?n = charge acc p a"
      using True by (intro charge_same) (simp_all add: release_part_def released_part_def e)
    ultimately show ?thesis by (simp add: charge_not_holding)
  next
    case False
    then have m: "?m = a\<lparr>al_units := al_units a - r, borrow_units := borrow_units a - released_part a r,
        last_touched := t', al_revision := al_revision a + 1\<rparr>"
      by (simp add: remainder_of_def Let_def e)
    have em: "effective_borrow ?m = borrow_units a - released_part a r"
      using ok by (simp add: effective_borrow_def m)
    have fn: "al_units ?n = r" "al_state ?n = al_state a" "al_reclaim_class ?n = al_reclaim_class a"
      "al_queue ?n = al_queue a" "al_pool ?n = al_pool a" "al_lender ?n = al_lender a"
      by (simp_all add: release_part_def)
    have fm: "al_units ?m = al_units a - r" "al_state ?m = al_state a" "al_reclaim_class ?m = al_reclaim_class a"
      "al_queue ?m = al_queue a" "al_pool ?m = al_pool a" "al_lender ?m = al_lender a"
      by (simp_all add: m)
    have "charge acc p ?n = (if al_pool a = p then held_charge acc ?n else 0) + (if al_lender a = p then lent_charge acc ?n else 0)"
      "charge acc p ?m = (if al_pool a = p then held_charge acc ?m else 0) + (if al_lender a = p then lent_charge acc ?m else 0)"
      "charge acc p a = (if al_pool a = p then held_charge acc a else 0) + (if al_lender a = p then lent_charge acc a else 0)"
      using assms(4) by (simp_all add: charge_def holds_units_def fn fm)
    moreover have "held_charge acc ?n + held_charge acc ?m = held_charge acc a"
      using b le un by (cases acc) (auto simp: en em e fn fm)
    moreover have "lent_charge acc ?n + lent_charge acc ?m = lent_charge acc a"
      using b(2) un by (simp add: lent_charge_def en em e)
    ultimately show ?thesis by simp
  qed
qed

lemma release_settles:
  assumes inv: "ledger_inv f" and a: "map_of (fb_allocations f) i = Some a" "holds_units a"
    and r: "r \<le> al_units a" "release_fits a r"
  obtains g where "apply_release_units (al_pool a) (release_part a r t) f = (Inr (), g)"
    "ledger_inv (set_record i (remainder_of a r t') g)" "only_pools f g"
proof -
  let ?n = "release_part a r t" and ?m = "remainder_of a r t'"
  have rec: "record_ok f i a" "borrow_units a \<le> al_units a"
    using ledger_invD(2)[OF inv a(1)] a(2) by (simp_all add: record_ok_def)
  note split = release_splits[OF rec(2) r a(2)]
  have h: "holds_units ?n" using a(2) by (simp add: release_part_def holds_units_def)
  have cov: "covered a f" by (rule covered_member[OF inv a])
  have "charge acc p ?n \<le> charge acc p a" for acc p using split(1)[of acc p t t'] by linarith
  moreover have "effective_borrow ?n \<noteq> 0 \<Longrightarrow> effective_borrow a \<noteq> 0"
    using released_part_bounds(1,2)[OF rec(2) r] rec(2)
    by (auto simp: effective_borrow_def release_part_def word_le_nat_alt unat_eq_zero)
  moreover have "unat r < 2 ^ 63" using cov r(1) by (simp add: covered_def word_le_nat_alt)
  moreover have "al_units ?n = r" "al_pool ?n = al_pool a" "al_lender ?n = al_lender a"
    by (simp_all add: release_part_def)
  ultimately have n: "covered ?n f"
    using cov unfolding covered_def by (metis (no_types, lifting) order_trans)
  obtain g where g: "apply_release_units (al_pool a) ?n f = (Inr (), g)"
    using apply_release_units_eq[OF n h] by (simp add: release_part_def)
  have m: "al_id ?m = al_id a" "holds_units ?m \<Longrightarrow> al_pool ?m = al_pool a \<and> (al_lender ?m = al_lender a) \<and>
      borrow_units ?m = effective_borrow a - released_part a r"
    by (auto simp: remainder_of_def Let_def holds_units_def allocation_holds_units_def split: if_splits)
  have z: "borrow_units a = 0 \<Longrightarrow> released_part a r = 0"
    using released_part_bounds(2)[OF rec(2) r] by (simp add: unat_eq_zero)
  have e: "effective_borrow a = borrow_units a" using rec(2) by (simp add: effective_borrow_def)
  have "record_ok f i ?m"
    unfolding record_ok_def
  proof (intro conjI impI)
    show "al_id ?m = i" using m(1) rec(1) by (simp add: record_ok_def)
    assume h: "holds_units ?m"
    show "borrow_units ?m \<le> al_units ?m" by (rule split(2))
    show "al_units ?m \<noteq> 0"
      using h by (auto simp: remainder_of_def Let_def holds_units_def allocation_holds_units_def split: if_splits)
    show "map_of (fb_pools f) (al_pool ?m) \<noteq> None" using m(2)[OF h] rec(1) a(2) by (simp add: record_ok_def)
    assume "borrow_units ?m \<noteq> 0"
    then have "borrow_units a \<noteq> 0" using m(2)[OF h] z e by auto
    then show "map_of (fb_pools f) (al_lender ?m) \<noteq> None"
      using m(2)[OF h] rec(1) a(2) by (simp add: record_ok_def)
  qed
  then have "ledger_inv (set_record i ?m g) \<and> only_pools f g"
    using ledger_inv_settle[OF inv a(1) n h _ _ a(2) split(1) _ g]
    by (simp add: release_part_def)
  with g that show thesis by blast
qed

text \<open>Journaling in a fabric that keeps nothing durable is a successful no-op.\<close>

definition keeps_in_memory :: "fabric \<Rightarrow> bool" where
  "keeps_in_memory f \<longleftrightarrow> pc_mode (st_config (fb_store f)) = DurNone"

definition release_fits_request :: "release_request \<Rightarrow> fabric \<Rightarrow> bool" where
  "release_fits_request q f \<longleftrightarrow> (\<forall>a. map_of (fb_allocations f) (rr_allocation q) = Some a \<longrightarrow>
     rr_release_all q \<or> release_fits a (rr_units q))"

lemma journal_in_memory:
  "keeps_in_memory f \<Longrightarrow> journal_allocation opc a f = (Inr (), f)"
  using allocation_codec.put_unfailed[of writer0 a]
  by (simp add: keeps_in_memory_def journal_allocation_def journal_writer_def journal_def Let_def writer0_def)

lemma set_record_view:
  "ledger_view g = ledger_view f \<Longrightarrow> ledger_view (set_record i a g) = ledger_view (set_record i a f)"
  by (simp add: ledger_view_def set_record_def)

lemma release_apply_inv:
  assumes inv: "ledger_inv f" and a: "map_of (fb_allocations f) (rr_allocation q) = Some a" "holds_units a"
    and r: "r \<le> al_units a" "release_fits a r"
    and ok: "keeps_in_memory f \<or> (\<exists>d. fst (release_apply q a policy queue evidence r f) = Inr d)"
  shows "ledger_inv (snd (release_apply q a policy queue evidence r f))"
proof -
  obtain g where g: "apply_release_units (al_pool a) (release_part a r (fb_tick f)) f = (Inr (), g)"
    "\<And>t'. ledger_inv (set_record (rr_allocation q) (remainder_of a r t') g)" "only_pools f g"
    using release_settles[OF inv a r] by (metis Pair_inject)
  let ?m = "remainder_of a r (fb_tick g)"
  obtain h where h: "journal_allocation JAllocationReleased ?m g = (Inr (), h)" "ledger_view h = ledger_view g"
  proof -
    obtain rj h where j: "journal_allocation JAllocationReleased ?m g = (rj, h)" by fastforce
    have "rj = Inr ()"
    proof (cases "keeps_in_memory f")
      case True
      then have "keeps_in_memory g" using arg_cong[OF g(3)[unfolded only_pools_def], of fb_store]
        by (simp add: keeps_in_memory_def)
      then show ?thesis using journal_in_memory j by simp
    next
      case False
      then show ?thesis
        using ok g(1) j
        by (cases rj) (auto simp: release_apply_def Let_def release_part_def)
    qed
    with j journal_allocation_view[of JAllocationReleased ?m g] that show thesis by simp
  qed
  have "ledger_inv (set_record (rr_allocation q) ?m h)"
    using g(2) ledger_view_inv[OF set_record_view[OF h(2)]] by blast
  then show ?thesis
    using g(1) h(1)
    by (auto simp: release_apply_def Let_def release_part_def outcome_inv intro!: inv_try_st)
qed

lemma release_locked_cases:
  obtains (kept) "ledger_view (snd (release_locked q f)) = ledger_view f"
  | (applied) a policy queue evidence r where
      "map_of (fb_allocations f) (rr_allocation q) = Some a" "holds_units a"
      "r = (if rr_release_all q then al_units a else rr_units q)" "r \<le> al_units a"
      "release_locked q f = release_apply q a policy queue evidence r f"
proof (cases "locate (rr_attempt q) (release_request_digest q) (rr_allocation q) f")
  case (Inl e)
  then show ?thesis using kept by (simp add: release_locked_def)
next
  case (Inr x)
  obtain previous a e policy queue where x: "x = (previous, a, e, policy, queue)" by (cases x)
  let ?r = "if rr_release_all q then al_units a else rr_units q"
  show ?thesis
  proof (cases "\<not> fb_open f \<or> \<not> valid (rr_attempt q) \<or> previous \<noteq> None \<or> stale_request (rr_expected_epoch q) (fb_epoch f) \<or>
      allocation_is_terminal (al_state a) \<or> al_state a = AFenced \<or>
      \<not> rr_release_all q \<and> (rr_units q = 0 \<or> rr_units q > al_units a)")
    case True
    then have "ledger_view (snd (release_locked q f)) = ledger_view f"
      using Inr x by (auto simp: release_locked_def outcome_view split: option.split)
    then show ?thesis by (rule kept)
  next
    case False
    then have "release_locked q f = release_apply q a policy queue (resolve_evidence e f) ?r f"
      using Inr x by (auto simp: release_locked_def)
    moreover have "holds_units a"
      using False by (cases "al_state a") (auto simp: allocation_is_terminal_def allocation_holds_units_def holds_units_def)
    moreover have "?r \<le> al_units a" using False by auto
    ultimately show ?thesis using applied locate_found(1) Inr x by blast
  qed
qed

lemma release_inv:
  assumes inv: "ledger_inv f" and fits: "release_fits_request q f"
    and ok: "keeps_in_memory f \<or> (\<exists>d. fst (release_locked q f) = Inr d)"
  shows "ledger_inv (snd (release_locked q f))"
proof (cases rule: release_locked_cases[of q f])
  case kept
  then show ?thesis using inv ledger_view_inv by blast
next
  case (applied a policy queue evidence r)
  have "release_fits a r" using fits applied by (auto simp: release_fits_request_def release_fits_def)
  then show ?thesis
    using release_apply_inv[OF inv applied(1,2,4)] ok applied(5) by simp
qed

end
