(* ===== verification/Alloc_Grant.thy ===== *)
theory Alloc_Grant
  imports Alloc_Ops
begin

text \<open>
  Granting: the capacity arithmetic of compute_grant stays within the pool's usable units plus its
  overcommit limit, within its borrow limit and within the lender's free units; applying a grant
  keeps the ledger, and the plan verification never refuses a grant of a pool that is within its
  limit.
\<close>

subsection \<open>The lender\<close>

lemma find_lender_none: "find_lender n 0 f = (0, 0)"
  by (cases n) (simp_all add: valid_def)

lemma find_lender_found:
  assumes "ledger_inv f" "find_lender n c f = (l, fr)" "fr \<noteq> 0"
  shows "(\<forall>rank. ranks f rank \<longrightarrow> rank l \<le> rank c) \<and> (\<exists>e. map_of (fb_pools f) l = Some e \<and> en_free_units e = fr \<and> \<not> pd_retired (en_descriptor e))"
  using assms(2)
proof (induction n arbitrary: c)
  case 0
  then show ?case using assms(3) by simp
next
  case (Suc n)
  then obtain e where e: "map_of (fb_pools f) c = Some e" using assms(3) by (auto split: if_splits option.splits)
  have ok: "pd_id (en_descriptor e) = c" "parent_of f c = Some (pd_parent (en_descriptor e))"
    using ledger_invD(1)[OF assms(1) e] e by (simp_all add: entry_ok_def parent_of_def)
  show ?case
  proof (cases "\<not> pd_retired (en_descriptor e) \<and> en_free_units e \<noteq> 0")
    case True
    then show ?thesis using Suc.prems e ok assms(3) by (auto split: if_splits)
  next
    case False
    then have fl: "find_lender n (pd_parent (en_descriptor e)) f = (l, fr)"
      using Suc.prems e assms(3) by (auto split: if_splits)
    then have "pd_parent (en_descriptor e) \<noteq> 0" using assms(3) find_lender_none[of n f] by auto
    then have "ranks f rank \<Longrightarrow> rank (pd_parent (en_descriptor e)) < rank c" for rank
      using ok(2) by (auto simp: ranks_def)
    with Suc.IH[OF fl] show ?thesis by (blast intro: less_imp_le order_trans)
  qed
qed

subsection \<open>The bounds of a grant\<close>

definition overcommit_limit :: "pool_policy \<Rightarrow> nat" where
  "overcommit_limit policy =
     (if oc_mode (overcommit policy) = OcBounded then unat (oc_limit_units (overcommit policy)) else 0)"

lemma unat_sat_add: "unat (sat_add a b) = min (2 ^ 64 - 1) (unat a + unat b)"
  using unat_saturating_add[of a b] by (simp add: sat_add_def saturating_add_def)

lemma compute_grant_fields:
  fixes e policy f
  defines "c \<equiv> compute_grant e policy f"
  shows "unat (gc_own_free c) = unat (en_usable e) - unat (en_own_usage e)"
    "unat (gc_own_overcommit_headroom c) = overcommit_limit policy - unat (en_overcommit_used e)"
    "unat (gc_max_grant c) \<le> unat (gc_own_free c) + unat (gc_own_overcommit_headroom c) + unat (gc_borrowable c)"
    "gc_borrowable c \<noteq> 0 \<Longrightarrow> unat (gc_borrowable c) + unat (en_borrowed_in e) \<le> unat (bw_limit_units (borrow policy)) \<and>
       find_lender kMaxPoolDepth (pd_parent (en_descriptor e)) f = (gc_lender c, gc_lender_free c) \<and>
       unat (gc_borrowable c) \<le> unat (gc_lender_free c)"
proof -
  show "unat (gc_own_free c) = unat (en_usable e) - unat (en_own_usage e)"
    by (simp add: c_def compute_grant_def Let_def unat_free_units split: prod.split)
  show "unat (gc_own_overcommit_headroom c) = overcommit_limit policy - unat (en_overcommit_used e)"
    by (auto simp: c_def compute_grant_def Let_def overcommit_limit_def unat_sub word_le_nat_alt
        word_less_nat_alt split: prod.split)
  show "unat (gc_max_grant c) \<le> unat (gc_own_free c) + unat (gc_own_overcommit_headroom c) + unat (gc_borrowable c)"
  proof -
    have "gc_max_grant c = sat_add (sat_add (gc_own_free c) (gc_own_overcommit_headroom c)) (gc_borrowable c)"
      by (simp add: c_def compute_grant_def Let_def split: prod.split)
    then show ?thesis by (simp add: unat_sat_add min_def)
  qed
  show "unat (gc_borrowable c) + unat (en_borrowed_in e) \<le> unat (bw_limit_units (borrow policy)) \<and>
       find_lender kMaxPoolDepth (pd_parent (en_descriptor e)) f = (gc_lender c, gc_lender_free c) \<and>
       unat (gc_borrowable c) \<le> unat (gc_lender_free c)" if "gc_borrowable c \<noteq> 0"
    using that
    by (auto simp: c_def compute_grant_def Let_def unat_min unat_sub word_le_nat_alt word_less_nat_alt min_def
        not_le unat_eq_zero split: prod.splits if_splits)
qed

lemma borrow_for_bounds:
  assumes "unat g \<le> unat (gc_max_grant c)"
    and "unat (gc_max_grant c) \<le> unat (gc_own_free c) + unat (gc_own_overcommit_headroom c) + unat (gc_borrowable c)"
  shows "unat (borrow_for g c) \<le> unat g" "unat (borrow_for g c) \<le> unat (gc_borrowable c)"
    "unat g - unat (borrow_for g c) \<le> unat (gc_own_free c) + unat (gc_own_overcommit_headroom c)"
  using assms
  by (auto simp: borrow_for_def unat_min unat_sub word_le_nat_alt word_less_nat_alt min_def split: if_splits)

text \<open>What apply_commit_units needs of a record to succeed, and what the invariant needs of it.\<close>

definition grantable :: "allocation_record \<Rightarrow> fabric \<Rightarrow> bool" where
  "grantable a f \<longleftrightarrow> holds_units a \<and> al_units a \<noteq> 0 \<and> borrow_units a \<le> al_units a \<and> unat (al_units a) \<le> 2 ^ 60 \<and>
     (\<exists>e. map_of (fb_pools f) (al_pool a) = Some e \<and>
        unat (en_own_usage e) + (unat (al_units a) - unat (borrow_units a)) \<le> 2 ^ 61 \<and>
        unat (en_borrowed_in e) + unat (borrow_units a) \<le> 2 ^ 60) \<and>
     (borrow_units a \<noteq> 0 \<longrightarrow> al_lender a \<noteq> al_pool a \<and>
        (\<exists>l. map_of (fb_pools f) (al_lender a) = Some l \<and> unat (borrow_units a) \<le> unat (en_free_units l)))"

lemma grant_own_bound:
  assumes "ledger_inv f" "map_of (fb_pools f) p = Some e" "policy_validate policy = Inr ()"
    and "c = compute_grant e policy f" "unat g \<le> unat (gc_max_grant c)"
  shows "unat (en_own_usage e) + (unat g - unat (borrow_for g c)) \<le>
      max (unat (en_own_usage e)) (unat (en_usable e) + overcommit_limit policy)"
    "unat (en_borrowed_in e) + unat (borrow_for g c) \<le> max (unat (en_borrowed_in e)) (unat (bw_limit_units (borrow policy)))"
    "borrow_for g c \<noteq> 0 \<Longrightarrow> gc_lender c \<noteq> p \<and> (\<exists>l. map_of (fb_pools f) (gc_lender c) = Some l \<and>
        \<not> pd_retired (en_descriptor l) \<and> unat (borrow_for g c) \<le> unat (en_free_units l))"
proof -
  note cf = compute_grant_fields[of e policy f, folded assms(4)]
  note b = borrow_for_bounds[OF assms(5) cf(3)]
  show "unat (en_own_usage e) + (unat g - unat (borrow_for g c)) \<le>
      max (unat (en_own_usage e)) (unat (en_usable e) + overcommit_limit policy)"
    using b(3) cf(1,2) unat_overcommit_used[of e] by (auto simp: max_def)
  have nz: "borrow_for g c \<noteq> 0 \<Longrightarrow> gc_borrowable c \<noteq> 0" using b(2) by (auto simp: unat_eq_zero)
  show "unat (en_borrowed_in e) + unat (borrow_for g c) \<le> max (unat (en_borrowed_in e)) (unat (bw_limit_units (borrow policy)))"
  proof (cases "borrow_for g c = 0")
    case False
    then have "unat (gc_borrowable c) + unat (en_borrowed_in e) \<le> unat (bw_limit_units (borrow policy))"
      using cf(4) nz by blast
    with b(2) show ?thesis by linarith
  qed simp
  assume "borrow_for g c \<noteq> 0"
  with nz have "gc_borrowable c \<noteq> 0" by blast
  from cf(4)[OF this] have l: "find_lender kMaxPoolDepth (pd_parent (en_descriptor e)) f = (gc_lender c, gc_lender_free c)"
    "unat (gc_borrowable c) \<le> unat (gc_lender_free c)" by auto
  have "gc_lender_free c \<noteq> 0" using l(2) \<open>gc_borrowable c \<noteq> 0\<close> by (auto simp: unat_eq_zero)
  note fl = find_lender_found[OF assms(1) l(1) this]
  have "pd_parent (en_descriptor e) \<noteq> 0"
    using l(1) \<open>gc_lender_free c \<noteq> 0\<close> find_lender_none[of kMaxPoolDepth f] by auto
  moreover have "parent_of f p = Some (pd_parent (en_descriptor e))" using assms(2) by (simp add: parent_of_def)
  ultimately have "ranks f rank \<Longrightarrow> rank (gc_lender c) < rank p" for rank
    using fl unfolding ranks_def by (meson order_le_less_trans)
  moreover obtain rank where "ranks f rank" using ledger_invD(5)[OF assms(1)] by (auto simp: tree_ok_def)
  ultimately have "gc_lender c \<noteq> p" by blast
  with fl l(2) b(2)
  show "gc_lender c \<noteq> p \<and> (\<exists>l. map_of (fb_pools f) (gc_lender c) = Some l \<and>
        \<not> pd_retired (en_descriptor l) \<and> unat (borrow_for g c) \<le> unat (en_free_units l))"
    by (auto simp: entry_ok_def)
qed


subsection \<open>Applying a grant\<close>

definition own_credit :: "allocation_record \<Rightarrow> pool_entry \<Rightarrow> pool_entry" where
  "own_credit a e = e\<lparr>en_own_usage := en_own_usage e + (al_units a - borrow_units a),
     en_borrowed_in := en_borrowed_in e + borrow_units a\<rparr>"

definition lender_credit :: "allocation_record \<Rightarrow> pool_entry \<Rightarrow> pool_entry" where
  "lender_credit a l = l\<lparr>en_lent_out := en_lent_out l + borrow_units a,
     en_own_usage := en_own_usage l + borrow_units a\<rparr>"

definition granted :: "allocation_record \<Rightarrow> fabric \<Rightarrow> fabric" where
  "granted a f = (let g = map_pool (al_pool a) (own_credit a) f
     in if borrow_units a = 0 then g else map_pool (al_lender a) (lender_credit a) g)"

lemma add_fits: "unat a + unat (b :: u64) < 2 ^ 64 \<Longrightarrow> add_overflow a b = (False, a + b)"
  by (simp add: add_overflow_nat)

lemma lender_room:
  assumes "sums_ok l" "unat b \<le> unat (en_free_units l)" "b \<noteq> 0"
  shows "unat (en_usable l) \<le> 2 ^ 60" "unat (en_own_usage l) + unat b \<le> unat (en_usable l)"
proof -
  show "unat (en_usable l) \<le> 2 ^ 60"
    using assms(1) pool_validD[of "en_descriptor l"] by (simp add: sums_ok_def unat_en_usable)
  have "0 < unat b" using assms(3) by (simp add: unat_gt_0)
  then show "unat (en_own_usage l) + unat b \<le> unat (en_usable l)"
    using assms(2) by (simp add: unat_free_units)
qed

lemma apply_commit_units_ok:
  assumes inv: "ledger_inv f" and g: "grantable a f"
  shows "apply_commit_units (al_pool a) (al_units a) (borrow_units a) (al_lender a) f = (Inr (), granted a f)"
proof -
  obtain e where e: "map_of (fb_pools f) (al_pool a) = Some e"
    "unat (en_own_usage e) + (unat (al_units a) - unat (borrow_units a)) \<le> 2 ^ 61"
    "unat (en_borrowed_in e) + unat (borrow_units a) \<le> 2 ^ 60"
    using g by (auto simp: grantable_def)
  have le: "borrow_units a \<le> al_units a" using g by (simp add: grantable_def)
  have own: "unat (al_units a - borrow_units a) = unat (al_units a) - unat (borrow_units a)"
    using le by (simp add: unat_sub word_le_nat_alt)
  have o1: "add_overflow (en_own_usage e) (al_units a - borrow_units a) = (False, en_own_usage e + (al_units a - borrow_units a))"
    using e(2) own by (intro add_fits) simp
  have o2: "add_overflow (en_borrowed_in e) (borrow_units a) = (False, en_borrowed_in e + borrow_units a)"
    using e(3) by (intro add_fits) simp
  have m: "map_pool (al_pool a) (\<lambda>x. x\<lparr>en_own_usage := en_own_usage e + (al_units a - borrow_units a),
      en_borrowed_in := en_borrowed_in e + borrow_units a\<rparr>) f = map_pool (al_pool a) (own_credit a) f"
    using e(1) by (simp add: map_pool_def own_credit_def)
  show ?thesis
  proof (cases "borrow_units a = 0")
    case True
    then show ?thesis using e(1) le o1 o2 m by (simp add: apply_commit_units_def granted_def not_less)
  next
    case False
    then obtain l where l: "map_of (fb_pools f) (al_lender a) = Some l" "al_lender a \<noteq> al_pool a"
      "unat (borrow_units a) \<le> unat (en_free_units l)"
      using g by (auto simp: grantable_def)
    have s: "sums_ok l" by (rule ledger_sums_ok[OF inv l(1)])
    note room = lender_room[OF s l(3) False]
    note u = room(1) and fr = room(2)
    have o3: "add_overflow (en_lent_out l) (borrow_units a) = (False, en_lent_out l + borrow_units a)"
      "add_overflow (en_own_usage l) (borrow_units a) = (False, en_own_usage l + borrow_units a)"
      using s u fr by (auto simp: sums_ok_def intro!: add_fits)
    have "unat (en_own_usage l + borrow_units a) = unat (en_own_usage l) + unat (borrow_units a)"
      using u fr by (intro unat_plus_small) simp
    then have c: "\<not> en_own_usage l + borrow_units a > sat_add (en_usable l) kMaxOvercommitUnits"
      using u fr by (auto simp: word_less_nat_alt unat_sat_add)
    have v: "valid (al_lender a)" using l(1) pool_key_nonzero[OF inv] by (auto simp: valid_def)
    have l': "map_of (fb_pools (map_pool (al_pool a) (own_credit a) f)) (al_lender a) = Some l"
      using l by (simp add: map_of_map_pool)
    have m2: "map_pool (al_lender a) (\<lambda>x. x\<lparr>en_lent_out := en_lent_out l + borrow_units a,
        en_own_usage := en_own_usage l + borrow_units a\<rparr>) (map_pool (al_pool a) (own_credit a) f) =
        map_pool (al_lender a) (lender_credit a) (map_pool (al_pool a) (own_credit a) f)"
      using l' by (simp add: map_pool_def[of "al_lender a"] lender_credit_def)
    show ?thesis
      unfolding apply_commit_units_def granted_def
      using False leD[OF le] c v
      by (simp only: e(1) o1 o2 m l' o3 m2 if_False if_True option.case prod.case Let_def simp_thms)
  qed
qed

lemma credit_balance:
  assumes "sums_ok e" "holds_units a" "borrow_units a \<le> al_units a" "unat (al_units a) \<le> 2 ^ 60"
    and "unat (en_own_usage e) + (unat (al_units a) - unat (borrow_units a)) \<le> 2 ^ 61"
    and "unat (en_borrowed_in e) + unat (borrow_units a) \<le> 2 ^ 60"
    and "bucket_units (en_queue_reserved e) (al_queue a) \<le> unat (en_reserved_units e)"
    and "bucket_units (en_queue_committed e) (al_queue a) \<le> unat (en_committed_units e)"
  shows "balance acc (credit_holder a (own_credit a e)) = balance acc e + held_charge acc a"
proof -
  have own: "unat (al_units a - borrow_units a) = unat (al_units a) - unat (borrow_units a)"
    "effective_borrow a = borrow_units a"
    using assms(3) by (simp_all add: unat_sub word_le_nat_alt effective_borrow_def)
  have sm: "unat (en_reserved_units e) \<le> 2 ^ 62" "unat (en_committed_units e) \<le> 2 ^ 62"
    "unat (en_pinned_units e) \<le> 2 ^ 62" "unat (en_reclaimable_units e) \<le> 2 ^ 62"
    using assms(1) by (auto simp: sums_ok_def)
  have st: "al_state a = ACommitted \<longleftrightarrow> al_state a \<noteq> AReserved"
    using assms(2) by (cases "al_state a") (simp_all add: holds_units_def allocation_holds_units_def)
  have u: "unat (al_units a) < 2 ^ 63" using assms(4) by simp
  have b: "bucket_units (bucket_adjust (al_queue a) (sint (al_units a)) (en_queue_reserved e)) (al_queue a) =
      bucket_units (en_queue_reserved e) (al_queue a) + unat (al_units a)"
    "bucket_units (bucket_adjust (al_queue a) (sint (al_units a)) (en_queue_committed e)) (al_queue a) =
      bucket_units (en_queue_committed e) (al_queue a) + unat (al_units a)"
    using assms(4,7,8) sm by (auto intro!: bucket_adjust_credit[OF u])
  show ?thesis
    using assms(4-6) sm own b st
    by (cases acc)
       (auto simp: credit_holder_def credit_state_def own_credit_def adjust_queue_def Let_def unat_plus_small)
qed


lemma granted_shift:
  assumes inv: "ledger_inv f" and g: "grantable a f"
  shows "shifted (\<lambda>_ _. 0) (\<lambda>acc p. charge acc p a) f (map_pool (al_pool a) (credit_holder a) (granted a f))"
    (is "shifted _ _ f ?k")
proof -
  have h: "holds_units a" and le: "borrow_units a \<le> al_units a" using g by (simp_all add: grantable_def)
  have eb: "effective_borrow a = borrow_units a" using le by (simp add: effective_borrow_def)
  have d: "en_descriptor (credit_holder a (own_credit a e)) = en_descriptor e" for e
    by (simp add: credit_holder_def credit_state_def own_credit_def adjust_queue_def Let_def)
  have held: "en_descriptor (credit_holder a (own_credit a e)) = en_descriptor e \<and>
      (\<forall>acc. balance acc (credit_holder a (own_credit a e)) + 0 = balance acc e + held_charge acc a)"
    if e: "map_of (fb_pools f) (al_pool a) = Some e" for e
  proof -
    have "bucket_units (en_queue_reserved e) (al_queue a) \<le> unat (en_reserved_units e)"
      "bucket_units (en_queue_committed e) (al_queue a) \<le> unat (en_committed_units e)"
      using books_split(3,4)[of "al_queue a" "al_pool a" f] ledger_invD(4)[OF inv e, of "AcQueueReserved (al_queue a)"]
        ledger_invD(4)[OF inv e, of "AcQueueCommitted (al_queue a)"] ledger_invD(4)[OF inv e, of AcReserved]
        ledger_invD(4)[OF inv e, of AcCommitted]
      by simp_all
    then show ?thesis
      using credit_balance[OF ledger_sums_ok[OF inv e] h le] g e d by (simp add: grantable_def)
  qed
  have s1: "shifted (\<lambda>acc p. if p = al_pool a then 0 else 0) (\<lambda>acc p. if p = al_pool a then held_charge acc a else 0)
      f (map_pool (al_pool a) (credit_holder a \<circ> own_credit a) f)" (is "shifted _ _ f ?g")
    by (rule shifted_map_pool) (use held in simp)
  show ?thesis
  proof (cases "borrow_units a = 0")
    case True
    then have "?k = ?g" by (simp add: granted_def map_pool_compose)
    with s1 True show ?thesis
      by (auto simp: charge_def lent_charge_def eb h intro: shifted_conv)
  next
    case False
    then obtain l where l: "map_of (fb_pools f) (al_lender a) = Some l" "al_lender a \<noteq> al_pool a"
      "unat (borrow_units a) \<le> unat (en_free_units l)"
      using g by (auto simp: grantable_def)
    have lg: "map_of (fb_pools ?g) (al_lender a) = Some l" using l by (simp add: map_of_map_pool)
    have k: "map_of (fb_pools ?k) p = map_of (fb_pools (map_pool (al_lender a) (lender_credit a) ?g)) p" for p
      using False l(2) by (simp add: granted_def map_of_map_pool option.map_comp comp_def)
    have "unat (en_own_usage l) + unat (borrow_units a) \<le> 2 ^ 60 \<and> unat (en_lent_out l) \<le> unat (en_own_usage l)"
      using ledger_sums_ok[OF inv l(1)] lender_room[OF ledger_sums_ok[OF inv l(1)] l(3) False]
      by (simp add: sums_ok_def)
    then have b: "en_descriptor (lender_credit a x) = en_descriptor x \<and>
      (\<forall>acc. balance acc (lender_credit a x) + 0 = balance acc x + lent_charge acc a)" if "x = l" for x
      using that by (auto simp: lender_credit_def lent_charge_def eb unat_plus_small split: account.split)
        (case_tac acc; simp add: lender_credit_def lent_charge_def eb unat_plus_small)
    have s2: "shifted (\<lambda>acc p. if p = al_lender a then 0 else 0) (\<lambda>acc p. if p = al_lender a then lent_charge acc a else 0)
        ?g (map_pool (al_lender a) (lender_credit a) ?g)"
      by (rule shifted_map_pool) (use b lg in simp)
    have "shifted (\<lambda>_ _. 0) (\<lambda>acc p. charge acc p a) f (map_pool (al_lender a) (lender_credit a) ?g)"
      by (rule shifted_trans[OF s1 s2]) (use h l(2) in \<open>auto simp: charge_def\<close>)
    then show ?thesis
      using k by (simp add: shifted_def granted_def Let_def)
  qed
qed


lemma granted_entry:
  assumes inv: "ledger_inv f" and g: "grantable a f"
    and e: "map_of (fb_pools f) p = Some e"
    and e': "map_of (fb_pools (map_pool (al_pool a) (credit_holder a) (granted a f))) p = Some e'"
  shows "unat (en_own_usage e') \<le> 2 ^ 61" "unat (en_borrowed_in e') \<le> 2 ^ 60"
    "set (en_members e') = set (en_members e) \<union> (if p = al_pool a then {al_id a} else {})"
    "balance acc e' = balance acc e + charge acc p a"
proof -
  have b: "balance acc e' = balance acc e + charge acc p a" for acc
    using shifted_at[OF granted_shift[OF inv g] e', of acc] e by simp
  have eb: "effective_borrow a = borrow_units a" and h: "holds_units a"
    using g by (simp_all add: effective_borrow_def grantable_def)
  have lent: "unat (en_own_usage e) + unat (borrow_units a) \<le> 2 ^ 60"
    if nz: "borrow_units a \<noteq> 0" and l: "al_lender a = p"
  proof -
    have "unat (borrow_units a) \<le> unat (en_free_units e)" using g nz l e by (auto simp: grantable_def)
    from lender_room[OF ledger_sums_ok[OF inv e] this nz] show ?thesis by linarith
  qed
  have ne: "borrow_units a \<noteq> 0 \<Longrightarrow> al_lender a \<noteq> al_pool a" using g by (simp add: grantable_def)
  have bounds: "unat (en_own_usage e) \<le> 2 ^ 61" "unat (en_borrowed_in e) \<le> 2 ^ 60"
    using balance_bounds[OF inv e] by simp_all
  have holder: "unat (en_own_usage e) + (unat (al_units a) - unat (borrow_units a)) \<le> 2 ^ 61"
    "unat (en_borrowed_in e) + unat (borrow_units a) \<le> 2 ^ 60" if "al_pool a = p"
    using g that e by (auto simp: grantable_def)
  show "unat (en_own_usage e') \<le> 2 ^ 61"
    using b[of AcOwn] bounds holder lent h ne
    by (cases "al_pool a = p"; cases "al_lender a = p"; cases "borrow_units a = 0")
       (auto simp: charge_def lent_charge_def eb)
  show "unat (en_borrowed_in e') \<le> 2 ^ 60"
    using b[of AcBorrowed] bounds holder h by (auto simp: charge_def lent_charge_def eb split: if_splits)
  show "set (en_members e') = set (en_members e) \<union> (if p = al_pool a then {al_id a} else {})"
    using e e' by (auto simp: granted_def map_of_map_pool own_credit_def lender_credit_def credit_holder_def
        credit_state_def adjust_queue_def Let_def split: if_splits)
  show "balance acc e' = balance acc e + charge acc p a" by (rule b)
qed

lemma ledger_inv_grant:
  assumes inv: "ledger_inv f" and g: "grantable a f" and fresh: "map_of (fb_allocations f) (al_id a) = None"
    and ps: "fb_pools h = fb_pools (map_pool (al_pool a) (credit_holder a) (granted a f))"
    and al: "fb_allocations h = AList.update (al_id a) a (fb_allocations f)"
    and po: "fb_policies h = fb_policies f"
  shows "ledger_inv h"
proof (rule ledger_inv_shift[OF inv])
  show sh: "shifted (\<lambda>_ _. 0) (\<lambda>acc p. charge acc p a) f h"
    using granted_shift[OF inv g] ps po by (simp add: shifted_def)
  show "books acc p h + 0 = books acc p f + charge acc p a" for acc p
    using fresh by (simp add: books_def al asum_update_new)
  have keys: "map_of (fb_pools f) p \<noteq> None \<Longrightarrow> map_of (fb_pools h) p \<noteq> None" for p
    using shifted_keys[OF sh, of p] by simp
  have "record_ok f (al_id a) a" using g by (auto simp: record_ok_def grantable_def)
  then show "record_ok h j x" if "map_of (fb_allocations h) j = Some x" for j x
    using that ledger_invD(2)[OF inv, of j x] record_ok_fields[OF _ keys] by (auto simp: al split: if_splits)
  fix p e e' assume e: "map_of (fb_pools f) p = Some e" and e': "map_of (fb_pools h) p = Some e'"
  note ge = granted_entry[OF inv g e e'[unfolded ps]]
  have h: "holds_units a" using g by (simp add: grantable_def)
  have "\<exists>x. map_of (fb_allocations h) j = Some x \<and> holds_units x \<and> al_pool x = p"
    if "j \<in> set (en_members e')" for j
  proof (cases "j = al_id a")
    case True
    have "p = al_pool a"
      using that ge(3) True ledger_invD(1)[OF inv e] fresh by (auto simp: entry_ok_def split: if_splits)
    with True h show ?thesis by (simp add: al)
  next
    case False
    then have "j \<in> set (en_members e)" using that ge(3) by (auto split: if_splits)
    then show ?thesis using ledger_invD(1)[OF inv e] False by (auto simp: entry_ok_def al)
  qed
  with ge(1,2) show "unat (en_own_usage e') \<le> 2 ^ 61 \<and> unat (en_borrowed_in e') \<le> 2 ^ 60 \<and>
      (\<forall>j\<in>set (en_members e'). \<exists>x. map_of (fb_allocations h) j = Some x \<and> holds_units x \<and> al_pool x = p)"
    by blast
qed

subsection \<open>Allocate\<close>

text \<open>Identifiers are handed out in order: every record's id is below the next one and names one record.\<close>

definition ids_fresh :: "fabric \<Rightarrow> bool" where
  "ids_fresh f \<longleftrightarrow> distinct (map fst (fb_allocations f)) \<and>
     (\<forall>i \<in> set (map fst (fb_allocations f)). i < next_allocation_id f)"

lemma build_record_fields:
  assumes "build_record q e queue policy c g f = Inr a"
  shows "al_id a = next_allocation_id f" "unat (next_allocation_id f) + 1 < 2 ^ 64"
    "al_pool a = pd_id (en_descriptor e)" "al_units a = g" "borrow_units a = borrow_for g c"
    "al_lender a = (if borrow_for g c \<noteq> 0 then gc_lender c else 0)" "holds_units a"
    "al_state a = (if ar_commit_immediately q then ACommitted else AReserved)" "al_queue a = qd_id queue"
    "al_reclaim_class a = ar_reclaim_class q"
  using assms
  by (auto simp: build_record_def Let_def try_r_eq_Inr add_overflow_nat holds_units_def
      allocation_holds_units_def split: prod.splits if_splits)

lemma build_record_grantable:
  assumes inv: "ledger_inv f" and e: "map_of (fb_pools f) p = Some e" and pol: "policy_of e f = Some policy"
    and b: "build_record q e queue policy (compute_grant e policy f) g f = Inr a"
    and g: "g \<le> gc_max_grant (compute_grant e policy f)" "unat g \<le> 2 ^ 60" "g \<noteq> 0"
  shows "grantable a f" "al_pool a = p"
proof -
  let ?c = "compute_grant e policy f"
  have valid: "policy_validate policy = Inr ()" using pol ledger_invD(3)[OF inv] by (auto simp: policy_of_def)
  have p: "pd_id (en_descriptor e) = p" using ledger_invD(1)[OF inv e] by (simp add: entry_ok_def)
  note bf = build_record_fields[OF b]
  have gn: "unat g \<le> unat (gc_max_grant ?c)" using g(1) by (simp add: word_le_nat_alt)
  note ob = grant_own_bound[OF inv e valid refl gn]
  note bb = borrow_for_bounds[OF gn compute_grant_fields(3)]
  have "unat (en_usable e) \<le> 2 ^ 60"
    using ledger_invD(1)[OF inv e] pool_validD[of "en_descriptor e"] by (simp add: entry_ok_def unat_en_usable)
  moreover have "overcommit_limit policy \<le> 2 ^ 60"
    using policy_validD(2)[OF valid] by (simp add: overcommit_limit_def)
  ultimately have 1: "unat (en_own_usage e) + (unat g - unat (borrow_for g ?c)) \<le> 2 ^ 61"
    using ob(1) balance_bounds(3)[OF inv e] by simp
  have 2: "unat (en_borrowed_in e) + unat (borrow_for g ?c) \<le> 2 ^ 60"
    using ob(2) policy_validD(3)[OF valid] balance_bounds(4)[OF inv e] by simp
  have 3: "borrow_for g ?c \<le> g" using bb(1) by (simp add: word_le_nat_alt)
  show "al_pool a = p" using bf(3) p by simp
  then show "grantable a f"
    using bf e 1 2 3 g(2,3) ob(3) by (auto simp: grantable_def)
qed


lemma apply_cap_le: "fst (apply_cap cap k lb) \<le> fst lb" "fst (apply_cap cap k lb) \<le> cap"
  by (auto simp: apply_cap_def)

lemma grant_limit_le: "fst (grant_limit e queue policy st c) \<le> gc_max_grant c"
proof -
  have "fst (queue_cap e queue lb) \<le> fst lb" "fst (soft_cap e policy st lb) \<le> fst lb" for lb
    by (simp_all add: queue_cap_def soft_cap_def Let_def apply_cap_le)
  then show ?thesis
    unfolding grant_limit_def Let_def
    by (smt (verit) apply_cap_le(1) fst_conv order_trans)
qed

lemma decide_grant_le:
  assumes "decide_grant q e queue policy st c = (g, binding)"
  shows "g \<le> ar_requested_units q" "g \<le> gc_max_grant c"
    "\<not> allow_partial_grant policy \<Longrightarrow> g \<noteq> 0 \<Longrightarrow> g = ar_requested_units q"
  using assms grant_limit_le[of e queue policy st c]
  by (auto simp: decide_grant_def Let_def min_def split: prod.splits if_splits)

definition fabric_inv :: "fabric \<Rightarrow> bool" where
  "fabric_inv f \<longleftrightarrow> ledger_inv f \<and> ids_fresh f"

lemma fabric_inv_view: "ledger_view g = ledger_view f \<Longrightarrow> fabric_inv g = fabric_inv f"
  using ledger_view_inv[of g f] by (auto simp: fabric_inv_def ids_fresh_def ledger_view_def)

lemma finv_try_st:
  assumes "fabric_inv (snd m)" "\<And>x g. m = (Inr x, g) \<Longrightarrow> fabric_inv g \<Longrightarrow> fabric_inv (snd (k x g))"
  shows "fabric_inv (snd (try_st m k))"
  using assms by (cases m; cases "fst m") auto

lemmas view_finv [simp] = bookkeeping_view[THEN fabric_inv_view] bump_view[THEN fabric_inv_view]
  conclude_view[THEN fabric_inv_view] record_view[THEN fabric_inv_view]
lemmas outcome_finv = outcome_view[THEN fabric_inv_view]

lemma ids_fresh_new: "ids_fresh f \<Longrightarrow> map_of (fb_allocations f) (next_allocation_id f) = None"
  unfolding ids_fresh_def map_of_eq_None_iff by (metis order_less_irrefl list.set_map)

lemma grantable_cong: "fb_pools g = fb_pools f \<Longrightarrow> grantable a g = grantable a f"
  by (simp add: grantable_def)

lemma shifted_view:
  assumes "shifted out into f g" "ledger_view h = ledger_view g"
  shows "shifted out into f h"
proof -
  have v: "map_option plain (map_of (fb_pools h) p) = map_option plain (map_of (fb_pools g) p)" for p
    using assms(2) map_of_map_snd[of plain "fb_pools h" p] map_of_map_snd[of plain "fb_pools g" p]
    by (simp add: ledger_view_def)
  have same: "en_descriptor x = en_descriptor y \<and> balance acc x = balance acc y" if "plain x = plain y" for x y acc
    using that plain_fields(1) balance_plain by metis
  have "shifted (\<lambda>_ _. 0) (\<lambda>_ _. 0) g h"
    unfolding shifted_def
  proof (intro conjI allI)
    show "fb_policies h = fb_policies g" using assms(2) by (simp add: ledger_view_def)
    show "rel_option (\<lambda>e e'. en_descriptor e' = en_descriptor e \<and> (\<forall>acc. balance acc e' + 0 = balance acc e + 0))
        (map_of (fb_pools g) p) (map_of (fb_pools h) p)" for p
      using v[of p] by (cases "map_of (fb_pools g) p"; cases "map_of (fb_pools h) p") (auto dest: same)
  qed
  then show ?thesis by (rule shifted_trans[OF assms(1)]) simp
qed

text \<open>Applying a grant fails before it changes the ledger, or it adds exactly the record's charges.\<close>

lemma allocate_apply_cases:
  assumes inv: "fabric_inv f" and g: "grantable a f"
    and i: "al_id a = next_allocation_id f" "unat (next_allocation_id f) + 1 < 2 ^ 64"
  obtains (kept) code where "fst (allocate_apply a policy f) = Inl code"
      "ledger_view (snd (allocate_apply a policy f)) = ledger_view f"
  | (applied) h where "allocate_apply a policy f = (Inr (), h)" "fabric_inv h"
      "fb_allocations h = AList.update (al_id a) a (fb_allocations f)"
      "shifted (\<lambda>_ _. 0) (\<lambda>acc p. charge acc p a) f h"
proof -
  have li: "ledger_inv f" and fr: "ids_fresh f" using inv by (simp_all add: fabric_inv_def)
  obtain e where e: "map_of (fb_pools f) (al_pool a) = Some e" using g by (auto simp: grantable_def)
  obtain r f1 where j: "journal_allocation (journal_op_for (al_state a)) a f = (r, f1)" by fastforce
  note oj = journal_allocation_only[OF j]
  show thesis
  proof (cases "r = Inr () \<and> rp_closed (check_pool_accounting (accounting_of (planned_entry a e) f)
                 (oc_mode (overcommit policy)) (oc_limit_units (overcommit policy)))")
    case False
    then have "(\<exists>code. fst (allocate_apply a policy f) = Inl code) \<and>
        ledger_view (snd (allocate_apply a policy f)) = ledger_view f"
      using e j only_journals_view[OF oj] by (cases r) (auto simp: allocate_apply_def)
    then show thesis using kept by blast
  next
    case True
    have inv1: "ledger_inv f1" using li ledger_view_inv[OF only_journals_view[OF oj]] by simp
    have g1: "grantable a f1" using g grantable_cong[of f1 f a] only_journals_fields(1)[OF oj] by simp
    let ?k = "map_pool (al_pool a) (credit_holder a) (granted a f1)"
    let ?h0 = "count_grant a (put_allocation a (?k\<lparr>next_allocation_id := al_id a + 1\<rparr>))"
    define h where "h = map_pool (al_pool a) (\<lambda>e. e\<lparr>en_runtime := (en_runtime e)\<lparr>
                       grant_count := grant_count (en_runtime e) + 1,
                       peak_committed_units := max (peak_committed_units (en_runtime e))
                                                   (en_committed_units e)\<rparr>\<rparr>) ?h0"
    have eq: "allocate_apply a policy f = (Inr (), h)"
      using True e j apply_commit_units_ok[OF inv1 g1] by (simp add: allocate_apply_def h_def Let_def)
    have ga: "fb_allocations (granted a f1) = fb_allocations f" "fb_policies (granted a f1) = fb_policies f"
      using oj by (simp_all add: granted_def Let_def)
    have h0: "fb_pools ?h0 = fb_pools ?k" "fb_allocations ?h0 = AList.update (al_id a) a (fb_allocations f)"
      "fb_policies ?h0 = fb_policies f" "next_allocation_id ?h0 = al_id a + 1"
      using ga by (simp_all add: count_grant_def put_allocation_def Let_def)
    have v: "ledger_view h = ledger_view ?h0" unfolding h_def by (rule map_pool_view) (simp add: plain_def)
    have fresh: "map_of (fb_allocations f1) (al_id a) = None" using ids_fresh_new[OF fr] i(1) oj by simp
    have "ledger_inv ?h0"
      using ledger_inv_grant[OF inv1 g1 fresh h0(1)] h0(2,3) oj by simp
    moreover have "ids_fresh ?h0"
      using fr i unat_plus_small[of "next_allocation_id f" 1]
      unfolding ids_fresh_def h0(2,4) update_keys by (auto simp: word_less_nat_alt)
    ultimately have "fabric_inv h" using fabric_inv_view[OF v] by (simp add: fabric_inv_def)
    moreover have "shifted (\<lambda>_ _. 0) (\<lambda>acc p. charge acc p a) f ?h0"
      using granted_shift[OF inv1 g1] oj h0(1,3) by (simp add: shifted_def)
    ultimately show thesis
      using applied[OF eq] shifted_view[OF _ v] v h0(2) by (simp add: ledger_view_def)
  qed
qed

lemma allocate_decide_inv:
  assumes inv: "fabric_inv f" and e: "map_of (fb_pools f) p = Some e" and pol: "policy_of e f = Some policy"
    and rq: "unat (ar_requested_units q) \<le> 2 ^ 60"
  shows "fabric_inv (snd (allocate_decide q e queue policy f))"
proof -
  let ?c = "compute_grant e policy f"
  have "fabric_inv (snd (allocate_grant q e queue policy evidence ?c g binding f))"
    if d: "decide_grant q e queue policy st ?c = (g, binding)" and nz: "g \<noteq> 0" for evidence g binding st
  proof (cases "build_record q e queue policy ?c g f")
    case (Inl code)
    then show ?thesis using inv by (simp add: allocate_grant_def)
  next
    case (Inr a)
    have ug: "unat g \<le> 2 ^ 60" using decide_grant_le(1)[OF d] rq by (simp add: word_le_nat_alt)
    have li: "ledger_inv f" using inv by (simp add: fabric_inv_def)
    note ga = build_record_grantable[OF li e pol Inr decide_grant_le(2)[OF d] ug nz]
    have aa: "fabric_inv (snd (allocate_apply a policy f))"
    proof (cases rule: allocate_apply_cases[OF inv ga(1) build_record_fields(1,2)[OF Inr], of policy])
      case (1 code)
      then show ?thesis using inv fabric_inv_view by blast
    qed simp
    show ?thesis
      unfolding allocate_grant_def Inr
      by (auto simp: aa outcome_finv Let_def split: option.split intro!: finv_try_st)
  qed
  then show ?thesis
    using inv by (auto simp: allocate_decide_def Let_def outcome_finv split: prod.split)
qed

lemma allocate_inv:
  assumes "fabric_inv f"
  shows "fabric_inv (snd (allocate_locked q f))"
proof -
  have k: "unat (ar_requested_units q) \<le> 2 ^ 60" if "\<not> kMaxUnitsPerPool < ar_requested_units q"
    using that by (simp add: kMaxUnitsPerPool_def word_less_nat_alt)
  show ?thesis
    unfolding allocate_locked_def
    using assms
    by (auto simp: outcome_finv try_r_eq_Inr require_Inr intro: allocate_decide_inv[OF _ _ _ k]
        split: sum.split prod.split option.split)
qed

end
