(* ===== verification/Alloc_Inv.thy ===== *)
theory Alloc_Inv
  imports Alloc_Grant
begin

text \<open>
  The invariant of the runtime, kept by every allocation operation in every outcome: the books
  balance and identifiers are fresh.  The operations that only move records between states keep the
  set of identifiers and the counter (ids_view).
\<close>

definition ids_view :: "fabric \<Rightarrow> u64 list \<times> u64" where
  "ids_view f = (map fst (fb_allocations f), next_allocation_id f)"

lemma ids_fresh_view: "ids_view g = ids_view f \<Longrightarrow> ids_fresh g = ids_fresh f"
  by (simp add: ids_view_def ids_fresh_def)

lemma ledger_ids_view: "ledger_view g = ledger_view f \<Longrightarrow> ids_view g = ids_view f"
  by (simp add: ledger_view_def ids_view_def)

lemmas bookkeeping_ids [simp] = bookkeeping_view[THEN ledger_ids_view] bump_view[THEN ledger_ids_view]
  conclude_view[THEN ledger_ids_view] record_view[THEN ledger_ids_view]
lemmas outcome_ids = outcome_view[THEN ledger_ids_view] journal_allocation_view[THEN ledger_ids_view]

lemma ids_try_st:
  assumes "ids_view (snd m) = v" "\<And>x g. m = (Inr x, g) \<Longrightarrow> ids_view g = v \<Longrightarrow> ids_view (snd (k x g)) = v"
  shows "ids_view (snd (try_st m k)) = v"
  using assms by (cases m; cases "fst m") auto

lemma ids_set_record:
  "i \<in> fst ` set (fb_allocations f) \<Longrightarrow> ids_view (set_record i a f) = ids_view f"
  by (simp add: ids_view_def set_record_def update_keys)

lemma ids_map_pool [simp]: "ids_view (map_pool p g f) = ids_view f"
  by (simp add: ids_view_def map_pool_def split: option.split)

lemma ids_member: "map_of (fb_allocations f) i = Some a \<Longrightarrow> ids_view g = ids_view f \<Longrightarrow> i \<in> fst ` set (fb_allocations g)"
  unfolding ids_view_def by (metis Pair_inject list.set_map map_of_SomeD fst_conv rev_image_eqI)

lemma debits_ids:
  "ids_view (snd (debit_state p n b f)) = ids_view f" "ids_view (snd (debit_class p n b f)) = ids_view f"
  "ids_view (snd (debit_lender n l f)) = ids_view f"
  by (simp_all add: debit_state_def debit_class_def debit_lender_def split: option.split)

lemma release_units_ids: "ids_view (snd (apply_release_units p a f)) = ids_view f"
  unfolding apply_release_units_def Let_def
  by (simp split: option.split) (intro impI allI ids_try_st; simp add: debits_ids)

lemma fence_allocation_ids:
  "map_of (fb_allocations f) i = Some a \<Longrightarrow> ids_view (snd (fence_allocation_locked i a st f)) = ids_view f"
  by (auto simp: fence_allocation_locked_def Let_def release_units_ids outcome_ids ids_set_record ids_member
      intro!: ids_try_st)

lemma fence_members_ids: "ids_view (snd (fence_members due st ids n units f)) = ids_view f"
proof (induction ids arbitrary: n units f)
  case (Cons i ids)
  then show ?case by (auto simp: fence_allocation_ids split: option.split intro!: ids_try_st)
qed simp

lemma locked_ids:
  "ids_view (snd (fence_stale_locked p f)) = ids_view f"
  "ids_view (snd (expire_reservations_locked p f)) = ids_view f"
  "ids_view (snd (commit_locked cq f)) = ids_view f"
  "ids_view (snd (revalidate_locked vq f)) = ids_view f"
  by (auto simp: fence_stale_locked_def expire_reservations_locked_def commit_locked_def commit_apply_def
      revalidate_locked_def Let_def outcome_ids fence_members_ids ids_set_record ids_member
      dest!: locate_found(1) split: sum.split prod.split option.split intro!: ids_try_st)

lemma release_ids: "ids_view (snd (release_locked q f)) = ids_view f"
proof (cases rule: release_locked_cases[of q f])
  case (applied a policy queue evidence r)
  then show ?thesis
    by (auto simp: release_apply_def Let_def release_units_ids outcome_ids ids_set_record ids_member
        intro!: ids_try_st)
qed (rule ledger_ids_view)

lemma alloc_ops_inv:
  assumes "fabric_inv f"
  shows "fabric_inv (snd (allocate_locked aq f))"
    "fabric_inv (snd (commit_locked cq f))"
    "release_fits_request rq f \<Longrightarrow> keeps_in_memory f \<or> (\<exists>d. fst (release_locked rq f) = Inr d) \<Longrightarrow>
       fabric_inv (snd (release_locked rq f))"
    "fabric_inv (snd (revalidate_locked vq f))"
    "fabric_inv (snd (fence_stale_locked p f))"
    "fabric_inv (snd (expire_reservations_locked p f))"
  using assms allocate_inv[OF assms] commit_inv revalidate_inv whole_pool_inv release_inv
    locked_ids[THEN ids_fresh_view] release_ids[THEN ids_fresh_view]
  by (simp_all add: fabric_inv_def)

end
