(* ===== verification/Fabric_Topology.thy ===== *)
theory Fabric_Topology
  imports Alloc_Inv
begin

text \<open>
  Capacity, policies, pools, queues and pressure evidence: src/fabric_topology.cpp.  Each public
  operation is the body it runs under the lock; an error return drops the events collected so far
  (locked_scope), unlike in the allocation operations.  A backend is called with no lock held, so
  set_capacity is three locked sections with the backend's answers as arguments.
\<close>

definition locked_scope :: "tick \<Rightarrow> 'a op \<Rightarrow> 'a op" where
  "locked_scope sampled op f =
     (case op ((take_lock sampled f)\<lparr>fb_events := []\<rparr>) of
        (Inl e, f) \<Rightarrow> (Inl e, f\<lparr>fb_events := []\<rparr>)
      | (Inr x, f) \<Rightarrow> (Inr x, publish f))"

definition when_open :: "'a op \<Rightarrow> 'a op" where
  "when_open op f = (if \<not> fb_open f then (Inl LifecycleViolation, f) else op f)"

text \<open>Assigning an identifier from a counter: 0 asks for the next one, a larger one moves it.\<close>

definition assign_id :: "u64 \<Rightarrow> u64 \<Rightarrow> (u64 \<times> u64) result" where
  "assign_id requested next_id =
     (let i = (if valid requested then requested else next_id) in
      if i \<ge> next_id
      then let (overflowed, next') = add_overflow i 1 in if overflowed then Inl Overflow else Inr (i, next')
      else Inr (i, next_id))"

definition advance_generation :: "generation \<Rightarrow> generation result" where
  "advance_generation g =
     (let (overflowed, next') = add_overflow g 1 in if overflowed \<or> next' = 0 then Inl Overflow else Inr next')"

text \<open>The raw units of the pools on a resource, one of them left out.\<close>

fun partition_total :: "(pool_descriptor \<Rightarrow> bool) \<Rightarrow> pool_entry list \<Rightarrow> u64 \<Rightarrow> u64 result" where
  "partition_total counts [] so_far = Inr so_far"
| "partition_total counts (e # es) so_far =
     (if \<not> counts (en_descriptor e) then partition_total counts es so_far
      else let (overflowed, so_far') = add_overflow so_far (raw_units (en_descriptor e)) in
           if overflowed then Inl Overflow else partition_total counts es so_far')"

subsection \<open>Capacity authority\<close>

definition capacity_find :: "resource_id \<Rightarrow> backend_id \<Rightarrow> unit op" where
  "capacity_find resource backend f =
     (if \<not> fb_open f then (Inl LifecycleViolation, f)
      else if map_of (fb_backends f) backend = None then (Inl UnknownBackend, f)
      else (Inr (), f))"

definition capacity_count_effect :: "bool op" where
  "capacity_count_effect f =
     (if program_backend_effects (fb_config f)
      then (Inr True, bump mt_backend_effects_attempted_update f) else (Inr False, f))"

definition capacity_publish :: "resource_id \<Rightarrow> backend_id \<Rightarrow> u64 \<Rightarrow> generation \<Rightarrow> capacity_authority \<Rightarrow> generation op" where
  "capacity_publish resource backend expected_raw expected authority f =
     (if fb_shutting_down f \<and> refuse_work_after_shutdown (fb_config f) then (Inl ShuttingDown, f)
      else if expected_raw \<noteq> 0 \<and> ca_raw_units authority \<noteq> expected_raw then (Inl StaleGeneration, f)
      else if valid expected \<and> ca_generation authority \<noteq> expected then (Inl StaleGeneration, f)
      else case partition_total (\<lambda>d. pd_resource d = resource) (map snd (fb_pools f)) 0 of
        Inl e \<Rightarrow> (Inl e, f)
      | Inr partitioned \<Rightarrow>
        if partitioned > ca_raw_units authority then (Inl CapacityExceeded, f)
        else let c = \<lparr>ce_resource = resource, ce_backend = backend, ce_generation = ca_generation authority,
                      ce_raw_units = ca_raw_units authority, ce_observed_at = fb_tick f\<rparr> in
          try_st (journal_capacity c f) (\<lambda>_ f.
            (Inr (ca_generation authority), push_event EvPressureUpdated Ok 0 0 0 0 0
               (f\<lparr>fb_capacities := AList.update resource c (fb_capacities f)\<rparr>))))"

text \<open>The whole operation over a backend given by its state and its three calls; t1 to t4 are the
  clock readings of the locked sections.\<close>

definition set_capacity ::
  "('b \<Rightarrow> bool) \<Rightarrow> ('b \<Rightarrow> resource_id \<Rightarrow> capacity_authority result) \<Rightarrow>
   (resource_id \<Rightarrow> u64 \<Rightarrow> generation \<Rightarrow> 'b \<Rightarrow> void_result \<times> 'b) \<Rightarrow> tick \<times> tick \<times> tick \<times> tick \<Rightarrow>
   resource_id \<Rightarrow> backend_id \<Rightarrow> u64 \<Rightarrow> generation \<Rightarrow> 'b \<times> fabric \<Rightarrow> generation result \<times> 'b \<times> fabric" where
  "set_capacity ready query program ticks resource backend expected_raw expected = (\<lambda>(b, f).
     (let (t1, t2, t3, t4) = ticks in
      if \<not> valid resource then (Inl InvalidArgument, b, f)
      else if \<not> valid backend then (Inl InvalidArgument, b, f)
      else case capacity_find resource backend (take_lock t1 f) of
        (Inl e, f) \<Rightarrow> (Inl e, b, f)
      | (Inr _, f) \<Rightarrow>
        if \<not> ready b then (Inl BackendNotReady, b, f)
        else case query b resource of Inl e \<Rightarrow> (Inl e, b, f)
        | Inr authority \<Rightarrow>
          if \<not> ca_usable authority then (Inl EvidenceUnknown, b, f)
          else let (program_effects, f) = (case capacity_count_effect (take_lock t2 f) of
                     (Inl _, f) \<Rightarrow> (False, f) | (Inr p, f) \<Rightarrow> (p, f));
                   (effect, b) = (if program_effects
                     then program resource (ca_raw_units authority) (ca_generation authority) b
                     else (Inr (), b))
               in case effect of
                 Inl e \<Rightarrow> if e = Unsupported
                   then let (r, f) = locked_scope t4 (capacity_publish resource backend expected_raw expected authority)
                          (bump mt_backend_effects_unsupported_update (take_lock t3 f)) in (r, b, f)
                   else (Inl e, b, f)
               | Inr _ \<Rightarrow>
                   let (r, f) = locked_scope t4 (capacity_publish resource backend expected_raw expected authority) f
                   in (r, b, f)))"

subsection \<open>Policy\<close>

text \<open>The generation under which a policy is published; None when nothing changes.\<close>

definition policy_revision :: "pool_policy \<Rightarrow> fabric \<Rightarrow> generation option result" where
  "policy_revision policy f =
     (case map_of (fb_policies f) (pol_id policy) of
        Some existing \<Rightarrow>
          if policy_digest (policy\<lparr>pol_generation := pol_generation existing, pol_id := pol_id existing\<rparr>) =
             policy_digest existing
          then Inr None
          else try_r (advance_generation (pol_generation existing)) (\<lambda>g. Inr (Some g))
      | None \<Rightarrow>
          if length (fb_policies f) \<ge> kMaxPolicyCount then Inl BoundedResourceExhausted else Inr (Some 1))"

definition due_policy :: "generation \<Rightarrow> allocation_record \<Rightarrow> fabric \<Rightarrow> bool" where
  "due_policy g a f = (allocation_holds_units (al_state a) \<and> bg_policy_generation (al_bound a) \<noteq> g)"

fun fence_policy_pools :: "policy_id \<Rightarrow> generation \<Rightarrow> u64 list \<Rightarrow> unit op" where
  "fence_policy_pools policy g [] f = (Inr (), f)"
| "fence_policy_pools policy g (p # ps) f =
     (case map_of (fb_pools f) p of None \<Rightarrow> fence_policy_pools policy g ps f
      | Some e \<Rightarrow>
        if pd_policy (en_descriptor e) \<noteq> policy then fence_policy_pools policy g ps f
        else try_st (fence_members (due_policy g) AFenced (sorted_members e) 0 0 f) (\<lambda>_ f.
          fence_policy_pools policy g ps f))"

definition policy_store :: "pool_policy \<Rightarrow> generation op" where
  "policy_store policy f =
     (case policy_validate policy of Inl e \<Rightarrow> (Inl e, f)
      | Inr _ \<Rightarrow>
        try_st (journal_policy policy f) (\<lambda>_ f.
        let f = push_event EvPolicyPublished Ok 0 0 0 0 0 (restore_policy policy f) in
        if fence_on_generation_change policy
        then try_st (fence_policy_pools (pol_id policy) (pol_generation policy) (map fst (fb_pools f)) f)
               (\<lambda>_ f. (Inr (pol_generation policy), f))
        else (Inr (pol_generation policy), f)))"

definition publish_policy_locked :: "pool_policy \<Rightarrow> generation op" where
  "publish_policy_locked request =
     when_open (unless_shutdown (\<lambda>f.
       case assign_id (pol_id request) (next_policy_id f) of Inl e \<Rightarrow> (Inl e, f)
       | Inr (i, next_id) \<Rightarrow>
         let policy = request\<lparr>pol_id := i\<rparr>; f = f\<lparr>next_policy_id := next_id\<rparr> in
         if pol_name policy \<noteq> [] \<and> (case map_of (fb_policy_names f) (pol_name policy) of
              None \<Rightarrow> False | Some other \<Rightarrow> other \<noteq> i)
         then (Inl DuplicateName, f)
         else case policy_revision policy f of Inl e \<Rightarrow> (Inl e, f)
         | Inr None \<Rightarrow> (Inr (case map_of (fb_policies f) i of None \<Rightarrow> 0 | Some p \<Rightarrow> pol_generation p), f)
         | Inr (Some g) \<Rightarrow> policy_store (policy\<lparr>pol_generation := g\<rparr>) f))"

definition fabric_policy :: "policy_id \<Rightarrow> fabric \<Rightarrow> pool_policy result" where
  "fabric_policy i f =
     (if \<not> valid i then Inl InvalidArgument
      else case map_of (fb_policies f) i of None \<Rightarrow> Inl UnknownPolicy | Some p \<Rightarrow> Inr p)"

subsection \<open>Pools\<close>

record pool_registration =
  pg_id :: pool_id
  pg_name :: string
  pg_resource :: resource_id
  pg_backend :: backend_id
  pg_raw_units :: u64
  pg_protected_units :: u64
  pg_parent :: pool_id
  pg_policy :: policy_id
  pg_tenant :: tenant_id
  pg_provenance :: provenance_id

definition descriptor_of :: "pool_registration \<Rightarrow> pool_id \<Rightarrow> tick \<Rightarrow> pool_descriptor" where
  "descriptor_of g i stamp = \<lparr>pd_id = i, pd_generation = 1, pd_name = pg_name g, pd_resource = pg_resource g,
     pd_backend = pg_backend g, raw_units = pg_raw_units g, protected_units = pg_protected_units g,
     pd_parent = pg_parent g, pd_policy = pg_policy g, pd_tenant = pg_tenant g,
     pd_provenance = pg_provenance g, pd_created_at = stamp, pd_retired = False\<rparr>"

text \<open>The ancestors of a new pool: known, and no more than kMaxPoolDepth of them.\<close>

fun ancestry :: "nat \<Rightarrow> pool_id \<Rightarrow> fabric \<Rightarrow> void_result" where
  "ancestry 0 cursor f =
     (case map_of (fb_pools f) cursor of None \<Rightarrow> Inl UnknownPool
      | Some e \<Rightarrow> if valid (pd_parent (en_descriptor e)) then Inl PoolDepthExceeded else Inr ())"
| "ancestry (Suc n) cursor f =
     (case map_of (fb_pools f) cursor of None \<Rightarrow> Inl UnknownPool
      | Some e \<Rightarrow> if valid (pd_parent (en_descriptor e)) then ancestry n (pd_parent (en_descriptor e)) f
                  else Inr ())"

definition register_check :: "pool_descriptor \<Rightarrow> fabric \<Rightarrow> void_result" where
  "register_check d f =
     (if pool_validate d \<noteq> Inr () then pool_validate d
      else if map_of (fb_pools f) (pd_id d) \<noteq> None then Inl DuplicatePool
      else if map_of (fb_pool_names f) (pd_name d) \<noteq> None then Inl DuplicateName
      else if map_of (fb_backends f) (pd_backend d) = None then Inl UnknownBackend
      else if map_of (fb_policies f) (pd_policy d) = None then Inl UnknownPolicy
      else try_r (if valid (pd_parent d) then ancestry (kMaxPoolDepth - 1) (pd_parent d) f else Inr ()) (\<lambda>_.
        case map_of (fb_capacities f) (pd_resource d) of None \<Rightarrow> Inl UnknownResource
        | Some c \<Rightarrow>
          try_r (partition_total (\<lambda>x. pd_resource x = pd_resource d) (map snd (fb_pools f)) 0) (\<lambda>partitioned.
          let (overflowed, so_far) = add_overflow partitioned (raw_units d) in
          if overflowed then Inl Overflow
          else if so_far > ce_raw_units c then Inl CapacityExceeded
          else Inr ())))"

definition register_pool_locked :: "pool_registration \<Rightarrow> pool_id op" where
  "register_pool_locked g =
     when_open (unless_shutdown (\<lambda>f.
       if length (fb_pools f) \<ge> kMaxPoolCount then (Inl BoundedResourceExhausted, f)
       else case assign_id (pg_id g) (next_pool_id f) of Inl e \<Rightarrow> (Inl e, f)
       | Inr (i, next_id) \<Rightarrow>
         let f = f\<lparr>next_pool_id := next_id\<rparr>; d = descriptor_of g i (fb_tick f) in
         case register_check d f of Inl e \<Rightarrow> (Inl e, f)
         | Inr _ \<Rightarrow>
           try_st (journal_pool (entry_of d 1) f) (\<lambda>_ f.
             (Inr i, push_event EvPoolRegistered Ok i 0 0 0 0 (restore_entry (entry_of d 1) f)))))"

definition remove_check :: "pool_id \<Rightarrow> generation \<Rightarrow> fabric \<Rightarrow> pool_entry result" where
  "remove_check p expected f =
     try_r (require_pool p f) (\<lambda>e.
       if stale_request expected (pd_generation (en_descriptor e)) then Inl StaleGeneration
       else if \<exists>(_, x) \<in> set (fb_pools f). pd_parent (en_descriptor x) = p then Inl LifecycleViolation
       else if \<exists>(_, q) \<in> set (fb_queues f). qd_pool q = p \<and> \<not> qd_retired q then Inl LifecycleViolation
       else if en_lent_out e \<noteq> 0 then Inl LifecycleViolation
       else if allocated e \<noteq> 0 then Inl LifecycleViolation
       else Inr e)"

definition drop_queues :: "pool_id \<Rightarrow> fabric \<Rightarrow> fabric" where
  "drop_queues p f =
     (let gone = (\<lambda>q. qd_pool q = p \<and> qd_retired q) in
      f\<lparr>fb_queue_names := fold (\<lambda>(_, q) names. if gone q then AList.delete (qd_name q) names else names)
            (fb_queues f) (fb_queue_names f),
        fb_queues := filter (\<lambda>(_, q). \<not> gone q) (fb_queues f)\<rparr>)"

definition remove_pool_locked :: "pool_id \<Rightarrow> generation \<Rightarrow> unit op" where
  "remove_pool_locked p expected = when_open (\<lambda>f.
     case remove_check p expected f of Inl code \<Rightarrow> (Inl code, f)
     | Inr e \<Rightarrow>
       try_st (journal JPoolRemoved (buffer (put_u64 p writer0)) f) (\<lambda>_ f.
       let f = f\<lparr>fb_pool_names := AList.delete (pd_name (en_descriptor e)) (fb_pool_names f),
                fb_pools := AList.delete p (fb_pools f),
                fb_pressure := AList.delete p (fb_pressure f)\<rparr>
       in (Inr (), push_event EvPoolRemoved Ok p 0 0 0 0 (drop_queues p f))))"


text \<open>The shrink order of enforce_capacity: reclaimable first, then by priority, then by id.\<close>

definition victim_before :: "fabric \<Rightarrow> u64 \<Rightarrow> u64 \<Rightarrow> bool" where
  "victim_before f i j =
     (case (map_of (fb_allocations f) i, map_of (fb_allocations f) j) of
        (Some a, Some b) \<Rightarrow>
          if al_reclaim_class a \<noteq> al_reclaim_class b then al_reclaim_class a = Reclaimable
          else if al_reclaim_priority a \<noteq> al_reclaim_priority b
          then al_reclaim_priority a < al_reclaim_priority b
          else al_id a < al_id b
      | _ \<Rightarrow> i < j)"

fun insert_by :: "('a \<Rightarrow> 'a \<Rightarrow> bool) \<Rightarrow> 'a \<Rightarrow> 'a list \<Rightarrow> 'a list" where
  "insert_by lt x [] = [x]"
| "insert_by lt x (y # ys) = (if lt y x then y # insert_by lt x ys else x # y # ys)"

definition sort_by :: "('a \<Rightarrow> 'a \<Rightarrow> bool) \<Rightarrow> 'a list \<Rightarrow> 'a list" where
  "sort_by lt xs = foldr (insert_by lt) xs []"

record shrink_result =
  sr_fenced_allocations :: u64
  sr_fenced_units :: u64
  sr_reduced_allocations :: u64
  sr_reduced_units :: u64
  sr_borrow_returned_units :: u64

definition shrink_result0 :: shrink_result where
  "shrink_result0 = \<lparr>sr_fenced_allocations = 0, sr_fenced_units = 0, sr_reduced_allocations = 0,
     sr_reduced_units = 0, sr_borrow_returned_units = 0\<rparr>"

text \<open>Both loops of enforce_capacity: fence the holding records of the list until the pool's own
  usage is within the allowance (checked before each), tallying each record as it was.\<close>

fun fence_until ::
  "(fabric \<Rightarrow> bool) \<Rightarrow> (allocation_record \<Rightarrow> shrink_result \<Rightarrow> shrink_result) \<Rightarrow> u64 list \<Rightarrow>
     shrink_result \<Rightarrow> shrink_result op" where
  "fence_until stop tally [] acc f = (Inr acc, f)"
| "fence_until stop tally (i # ids) acc f =
     (if stop f then (Inr acc, f)
      else case map_of (fb_allocations f) i of
        None \<Rightarrow> fence_until stop tally ids acc f
      | Some a \<Rightarrow>
          if \<not> allocation_holds_units (al_state a) then fence_until stop tally ids acc f
          else try_st (fence_allocation_locked i a AFenced f) (\<lambda>_ f.
            fence_until stop tally ids (tally a acc) f))"

definition tally_member :: "bool \<Rightarrow> allocation_record \<Rightarrow> shrink_result \<Rightarrow> shrink_result" where
  "tally_member fence_everything a r =
     r\<lparr>sr_fenced_allocations := sr_fenced_allocations r + 1,
       sr_fenced_units := sr_fenced_units r + al_units a,
       sr_reduced_allocations := sr_reduced_allocations r + (if fence_everything then 0 else 1),
       sr_reduced_units := sr_reduced_units r + al_units a\<rparr>"

definition tally_borrower :: "allocation_record \<Rightarrow> shrink_result \<Rightarrow> shrink_result" where
  "tally_borrower a r =
     r\<lparr>sr_fenced_allocations := sr_fenced_allocations r + 1,
       sr_fenced_units := sr_fenced_units r + al_units a,
       sr_borrow_returned_units := sr_borrow_returned_units r + borrow_units a\<rparr>"

definition own_within :: "u64 \<Rightarrow> u64 \<Rightarrow> fabric \<Rightarrow> bool" where
  "own_within p allowance f =
     (case map_of (fb_pools f) p of None \<Rightarrow> True | Some e \<Rightarrow> en_own_usage e \<le> allowance)"

definition borrowers :: "pool_id \<Rightarrow> fabric \<Rightarrow> u64 list" where
  "borrowers p f = sort (map fst (filter (\<lambda>(_, a). allocation_holds_units (al_state a) \<and>
     al_lender a = p \<and> borrow_units a \<noteq> 0) (fb_allocations f)))"

definition allowance_of :: "pool_entry \<Rightarrow> fabric \<Rightarrow> u64" where
  "allowance_of e f = sat_add (en_usable e) (case policy_of e f of None \<Rightarrow> 0
     | Some p \<Rightarrow> if oc_mode (overcommit p) = OcBounded then oc_limit_units (overcommit p) else 0)"

definition enforce_capacity :: "u64 \<Rightarrow> bool \<Rightarrow> shrink_result op" where
  "enforce_capacity p fence_everything f =
     (case map_of (fb_pools f) p of None \<Rightarrow> (Inl UnknownPool, f)
      | Some e \<Rightarrow>
        let allowance = allowance_of e f;
            victims = sort_by (victim_before f) (sorted_members e) in
        try_st (fence_until (\<lambda>f. \<not> fence_everything \<and> own_within p allowance f)
                  (tally_member fence_everything) victims shrink_result0 f) (\<lambda>acc f.
        if own_within p allowance f then (Inr acc, f)
        else fence_until (own_within p allowance) tally_borrower (borrowers p f) acc f))"

record resize_outcome =
  ro_previous_generation :: generation
  ro_new_generation :: generation
  ro_previous_raw_units :: u64
  ro_new_raw_units :: u64
  ro_previous_protected_units :: u64
  ro_new_protected_units :: u64
  ro_shrink :: shrink_result
  ro_accounting :: pool_accounting

definition resize_check :: "pool_id \<Rightarrow> u64 \<Rightarrow> u64 \<Rightarrow> generation \<Rightarrow> fabric \<Rightarrow>
    (pool_entry \<times> pool_policy \<times> generation \<times> generation) result" where
  "resize_check p raw prot expected f =
     try_r (require_pool p f) (\<lambda>e.
       if stale_request expected (pd_generation (en_descriptor e)) then Inl StaleGeneration
       else if raw = 0 \<or> raw > kMaxUnitsPerPool then Inl InvalidArgument
       else if prot \<ge> raw then Inl ProtectedHeadroomViolation
       else try_r (require_policy e f) (\<lambda>policy.
         if raw - prot < usable_floor_units policy then Inl PolicyForbids
         else case map_of (fb_capacities f) (pd_resource (en_descriptor e)) of None \<Rightarrow> Inl UnknownResource
         | Some c \<Rightarrow>
           try_r (partition_total (\<lambda>d. pd_resource d = pd_resource (en_descriptor e) \<and> pd_id d \<noteq> p)
                    (map snd (fb_pools f)) 0) (\<lambda>others.
           let (overflowed, so_far) = add_overflow others raw in
           if overflowed then Inl Overflow
           else if so_far > ce_raw_units c then Inl CapacityExceeded
           else try_r (advance_generation (pd_generation (en_descriptor e))) (\<lambda>g.
             try_r (advance_generation (en_capacity_generation e)) (\<lambda>cg.
               Inr (e, policy, g, cg))))))"

definition resized :: "u64 \<Rightarrow> u64 \<Rightarrow> generation \<Rightarrow> generation \<Rightarrow> pool_entry \<Rightarrow> pool_entry" where
  "resized raw prot g cg e = e\<lparr>en_descriptor := (en_descriptor e)\<lparr>raw_units := raw,
     protected_units := prot, pd_generation := g\<rparr>, en_capacity_generation := cg\<rparr>"

definition resize_pool_locked :: "pool_id \<Rightarrow> u64 \<Rightarrow> u64 \<Rightarrow> generation \<Rightarrow> resize_outcome op" where
  "resize_pool_locked p raw prot expected =
     when_open (unless_shutdown (\<lambda>f.
       case resize_check p raw prot expected f of Inl code \<Rightarrow> (Inl code, f)
       | Inr (e, policy, g, cg) \<Rightarrow>
         let f = map_pool p (resized raw prot g cg) f in
         try_st (journal_pool (resized raw prot g cg e) f) (\<lambda>_ f.
         let f = push_event EvPoolResized Ok p 0 0 raw 0 f in
         try_st (enforce_capacity p (fence_on_generation_change policy) f) (\<lambda>shrink f.
         try_st (verify_closure p True f) (\<lambda>_ f.
         case map_of (fb_pools f) p of None \<Rightarrow> (Inl UnknownPool, f)
         | Some e' \<Rightarrow>
           (Inr \<lparr>ro_previous_generation = pd_generation (en_descriptor e), ro_new_generation = g,
                 ro_previous_raw_units = raw_units (en_descriptor e), ro_new_raw_units = raw,
                 ro_previous_protected_units = protected_units (en_descriptor e),
                 ro_new_protected_units = prot, ro_shrink = shrink,
                 ro_accounting = accounting_of e' f\<rparr>, f))))))"

subsection \<open>Queues\<close>

record queue_registration =
  qg_id :: queue_id
  qg_name :: string
  qg_pool :: pool_id
  qg_tenant :: tenant_id
  qg_traffic_class :: class_id
  qg_demand_units :: u64
  qg_weight :: u64
  qg_max_committed_units :: u64

definition queue_of :: "queue_registration \<Rightarrow> queue_id \<Rightarrow> tick \<Rightarrow> queue_descriptor" where
  "queue_of g i stamp = \<lparr>qd_id = i, qd_generation = 1, qd_name = qg_name g, qd_pool = qg_pool g,
     qd_tenant = qg_tenant g, qd_traffic_class = qg_traffic_class g, qd_demand_units = qg_demand_units g,
     qd_weight = qg_weight g, max_committed_units = qg_max_committed_units g, registered_at = stamp,
     demand_updated_at = stamp, qd_retired = False\<rparr>"

definition register_queue_locked :: "queue_registration \<Rightarrow> queue_id op" where
  "register_queue_locked g =
     when_open (unless_shutdown (\<lambda>f.
       if length (fb_queues f) \<ge> kMaxQueueCount then (Inl BoundedResourceExhausted, f)
       else case assign_id (qg_id g) (next_queue_id f) of Inl e \<Rightarrow> (Inl e, f)
       | Inr (i, next_id) \<Rightarrow>
         let f = f\<lparr>next_queue_id := next_id\<rparr>; d = queue_of g i (fb_tick f) in
         if \<not> is_valid_name (qd_name d) then (Inl NameTooLong, f)
         else if \<not> valid (qd_pool d) then (Inl InvalidArgument, f)
         else if qd_demand_units d > kMaxUnitsPerPool \<or> max_committed_units d > kMaxUnitsPerPool
         then (Inl Overflow, f)
         else if map_of (fb_queues f) i \<noteq> None then (Inl DuplicateQueue, f)
         else if map_of (fb_queue_names f) (qd_name d) \<noteq> None then (Inl DuplicateName, f)
         else if map_of (fb_pools f) (qd_pool d) = None then (Inl UnknownPool, f)
         else try_st (journal_queue d f) (\<lambda>_ f.
           (Inr i, push_event EvQueueRegistered Ok (qd_pool d) i 0 0 0 (restore_queue d f)))))"

text \<open>A queue held by reference is written back under its key before it is journaled.\<close>

definition set_queue :: "u64 \<Rightarrow> queue_descriptor \<Rightarrow> fabric \<Rightarrow> fabric" where
  "set_queue i q f = f\<lparr>fb_queues := AList.update i q (fb_queues f)\<rparr>"

definition update_queue_demand_locked :: "queue_id \<Rightarrow> u64 \<Rightarrow> generation \<Rightarrow> generation op" where
  "update_queue_demand_locked i demand expected = when_open (\<lambda>f.
     case require_queue i f of Inl e \<Rightarrow> (Inl e, f)
     | Inr queue \<Rightarrow>
       if stale_request expected (qd_generation queue) then (Inl StaleGeneration, f)
       else if qd_retired queue then (Inl WrongState, f)
       else if demand > kMaxUnitsPerPool then (Inl Overflow, f)
       else let queue = queue\<lparr>qd_demand_units := demand, demand_updated_at := fb_tick f\<rparr> in
         try_st (journal_queue queue (set_queue i queue f)) (\<lambda>_ f. (Inr (qd_generation queue), f)))"

definition queue_victims :: "queue_id \<Rightarrow> fabric \<Rightarrow> u64 list" where
  "queue_victims i f = sort (map fst (filter (\<lambda>(_, a). al_queue a = i \<and> allocation_holds_units (al_state a))
     (fb_allocations f)))"

definition due_holding :: "allocation_record \<Rightarrow> fabric \<Rightarrow> bool" where
  "due_holding a f = allocation_holds_units (al_state a)"

definition retire_queue_locked :: "queue_id \<Rightarrow> generation \<Rightarrow> unit op" where
  "retire_queue_locked i expected = when_open (\<lambda>f.
     case require_queue i f of Inl e \<Rightarrow> (Inl e, f)
     | Inr queue \<Rightarrow>
       if stale_request expected (qd_generation queue) then (Inl StaleGeneration, f)
       else if qd_retired queue then (Inr (), f)
       else case advance_generation (qd_generation queue) of Inl e \<Rightarrow> (Inl e, f)
       | Inr g \<Rightarrow>
         let queue = queue\<lparr>qd_retired := True, qd_generation := g\<rparr> in
         try_st (journal_queue queue (set_queue i queue f)) (\<lambda>_ f.
         try_st (if auto_fence_on_queue_retirement (fb_config f)
                 then fence_members due_holding AFenced (queue_victims i f) 0 0 f else (Inr (0, 0), f)) (\<lambda>_ f.
           (Inr (), push_event EvQueueRetired Ok (qd_pool queue) i 0 0 0 f))))"

definition retarget_queue_locked :: "queue_id \<Rightarrow> pool_id \<Rightarrow> generation \<Rightarrow> unit op" where
  "retarget_queue_locked i new_pool expected = when_open (\<lambda>f.
     case require_queue i f of Inl e \<Rightarrow> (Inl e, f)
     | Inr queue \<Rightarrow>
       if stale_request expected (qd_generation queue) then (Inl StaleGeneration, f)
       else if qd_retired queue then (Inl WrongState, f)
       else if map_of (fb_pools f) new_pool = None then (Inl UnknownPool, f)
       else if qd_pool queue = new_pool then (Inr (), f)
       else case advance_generation (qd_generation queue) of Inl e \<Rightarrow> (Inl e, f)
       | Inr g \<Rightarrow>
         try_st (fence_members due_holding AFenced (queue_victims i f) 0 0 f) (\<lambda>_ f.
         let queue = queue\<lparr>qd_pool := new_pool, qd_generation := g\<rparr> in
           journal_queue queue (set_queue i queue f)))"

subsection \<open>Generation status and pressure evidence\<close>

record pool_generation_status =
  pgs_pool :: pool_id
  pgs_pool_generation :: generation
  pgs_policy_generation :: generation
  pgs_capacity_generation :: generation
  pgs_allocations_bound :: u64
  pgs_allocations_stale :: u64
  pgs_policy_bound :: bool

definition bound_stale :: "pool_entry \<Rightarrow> pool_policy option \<Rightarrow> epoch_id \<Rightarrow> allocation_record \<Rightarrow> bool" where
  "bound_stale e policy epoch a =
     (bg_pool_generation (al_bound a) \<noteq> pd_generation (en_descriptor e) \<or>
      bg_capacity_generation (al_bound a) \<noteq> en_capacity_generation e \<or>
      (case policy of None \<Rightarrow> False | Some p \<Rightarrow> bg_policy_generation (al_bound a) \<noteq> pol_generation p) \<or>
      bg_epoch (al_bound a) \<noteq> epoch)"

definition pool_generation_status_of :: "pool_id \<Rightarrow> fabric \<Rightarrow> pool_generation_status result" where
  "pool_generation_status_of p f =
     (case map_of (fb_pools f) p of None \<Rightarrow> Inl UnknownPool
      | Some e \<Rightarrow>
        let policy = policy_of e f;
            holding = filter holds_units (List.map_filter (map_of (fb_allocations f)) (en_members e))
        in Inr \<lparr>pgs_pool = pd_id (en_descriptor e), pgs_pool_generation = pd_generation (en_descriptor e),
             pgs_policy_generation = (case policy of None \<Rightarrow> 0 | Some x \<Rightarrow> pol_generation x),
             pgs_capacity_generation = en_capacity_generation e,
             pgs_allocations_bound = of_nat (length holding),
             pgs_allocations_stale = of_nat (count_if (bound_stale e policy (fb_epoch f)) holding),
             pgs_policy_bound = (policy \<noteq> None)\<rparr>)"

text \<open>A rejected observation is counted and its event published before the error is returned.\<close>

definition reject_pressure :: "error_code \<Rightarrow> pool_id \<Rightarrow> unit op" where
  "reject_pressure code p f =
     (Inl code, publish (push_event EvPressureRejected code p 0 0 0 0
        (bump mt_pressure_snapshots_rejected_update f)))"

definition stamp_snapshot :: "pressure_snapshot \<Rightarrow> pool_entry \<Rightarrow> fabric \<Rightarrow> pressure_snapshot" where
  "stamp_snapshot s e f = s\<lparr>
     ps_ttl_ticks := (if ps_ttl_ticks s = 0
        then (case policy_of e f of None \<Rightarrow> 0 | Some p \<Rightarrow> evidence_ttl_ticks (pressure p)) else ps_ttl_ticks s),
     ps_boot := fb_boot f\<rparr>"

definition keep_snapshot :: "pressure_snapshot \<Rightarrow> fabric \<Rightarrow> fabric" where
  "keep_snapshot s f =
     (let e = (case map_of (fb_pressure f) (ps_pool s) of None \<Rightarrow> pressure_entry0 | Some e \<Rightarrow> e)
      in f\<lparr>fb_pressure := AList.update (ps_pool s)
             \<lparr>px_history = trim_front (pressure_history_capacity (fb_config f)) (px_history e @ [s]),
              px_latest = Some s, px_latest_revalidated = False\<rparr> (fb_pressure f)\<rparr>)"

definition observe_pressure_locked :: "pressure_snapshot \<Rightarrow> unit op" where
  "observe_pressure_locked request =
     when_open (unless_shutdown (\<lambda>f.
       case require_pool (ps_pool request) f of Inl e \<Rightarrow> (Inl e, f)
       | Inr e \<Rightarrow>
         case assign_id (ps_id request) (next_snapshot_id f) of Inl c \<Rightarrow> (Inl c, f)
         | Inr (i, next_id) \<Rightarrow>
           let f = f\<lparr>next_snapshot_id := next_id\<rparr>; s = request\<lparr>ps_id := i\<rparr> in
           if ps_epoch s \<noteq> fb_epoch f then reject_pressure StaleEpoch (ps_pool request) f
           else if ps_pool_generation s \<noteq> pd_generation (en_descriptor e)
           then reject_pressure StaleGeneration (ps_pool request) f
           else let s = (if ps_observed_at s = 0 then s\<lparr>ps_observed_at := fb_tick f\<rparr> else s) in
           if ps_observed_at s > fb_tick f then reject_pressure InvalidArgument (ps_pool request) f
           else if ps_demand_units s > kMaxUnitsPerPool \<or> ps_committed_units s > kMaxUnitsPerPool * 2 \<or>
                   ps_reclaimable_units s > kMaxUnitsPerPool
           then (Inl Overflow, f)
           else let s = stamp_snapshot s e f in
             try_st (journal_pressure s f) (\<lambda>_ f.
               (Inr (), push_event EvPressureUpdated Ok (ps_pool request) 0 0 0 0
                  (bump mt_pressure_snapshots_accepted_update (keep_snapshot s f))))))"

definition fabric_pressure :: "pool_id \<Rightarrow> fabric \<Rightarrow> pressure_evidence result" where
  "fabric_pressure p f = try_r (require_pool p f) (\<lambda>e. Inr (resolve_evidence e f))"


subsection \<open>The public operations\<close>

definition fabric_publish_policy :: "tick \<Rightarrow> pool_policy \<Rightarrow> generation op" where
  "fabric_publish_policy sampled p = locked_scope sampled (publish_policy_locked p)"

definition fabric_register_pool :: "tick \<Rightarrow> pool_registration \<Rightarrow> pool_id op" where
  "fabric_register_pool sampled g = locked_scope sampled (register_pool_locked g)"

definition fabric_remove_pool :: "tick \<Rightarrow> pool_id \<Rightarrow> generation \<Rightarrow> unit op" where
  "fabric_remove_pool sampled p expected = locked_scope sampled (remove_pool_locked p expected)"

definition fabric_resize_pool :: "tick \<Rightarrow> pool_id \<Rightarrow> u64 \<Rightarrow> u64 \<Rightarrow> generation \<Rightarrow> resize_outcome op" where
  "fabric_resize_pool sampled p raw prot expected = locked_scope sampled (resize_pool_locked p raw prot expected)"

definition fabric_register_queue :: "tick \<Rightarrow> queue_registration \<Rightarrow> queue_id op" where
  "fabric_register_queue sampled g = locked_scope sampled (register_queue_locked g)"

definition fabric_update_queue_demand :: "tick \<Rightarrow> queue_id \<Rightarrow> u64 \<Rightarrow> generation \<Rightarrow> generation op" where
  "fabric_update_queue_demand sampled i demand expected =
     locked_scope sampled (update_queue_demand_locked i demand expected)"

definition fabric_retire_queue :: "tick \<Rightarrow> queue_id \<Rightarrow> generation \<Rightarrow> unit op" where
  "fabric_retire_queue sampled i expected = locked_scope sampled (retire_queue_locked i expected)"

definition fabric_retarget_queue :: "tick \<Rightarrow> queue_id \<Rightarrow> pool_id \<Rightarrow> generation \<Rightarrow> unit op" where
  "fabric_retarget_queue sampled i p expected = locked_scope sampled (retarget_queue_locked i p expected)"

definition fabric_observe_pressure :: "tick \<Rightarrow> pressure_snapshot \<Rightarrow> unit op" where
  "fabric_observe_pressure sampled s = locked_scope sampled (observe_pressure_locked s)"

end
