(* ===== verification/Topology_Safety.thy ===== *)
theory Topology_Safety
  imports Fabric_Topology
begin

text \<open>
  The topology operations keep the invariant of the runtime: registering and removing pools,
  resizing them, publishing policies, and everything done to queues and to pressure evidence.
\<close>

subsection \<open>Journaling and bookkeeping\<close>

lemma journal_any_view: "ledger_view (snd (journal_writer opc put f)) = ledger_view f"
  by (rule only_journals_view) (rule only_journals_writer)

lemma journal_raw_view: "ledger_view (snd (journal opc payload f)) = ledger_view f"
  by (rule only_journals_view) (simp add: only_journals_journal only_journals_refl)

lemma journal_views:
  "ledger_view (snd (journal_policy pol f)) = ledger_view f"
  "ledger_view (snd (journal_pool e f)) = ledger_view f"
  "ledger_view (snd (journal_queue q f)) = ledger_view f"
  "ledger_view (snd (journal_capacity c f)) = ledger_view f"
  "ledger_view (snd (journal_pressure s f)) = ledger_view f"
  by (simp_all add: journal_policy_def journal_pool_def journal_queue_def journal_capacity_def
      journal_pressure_def journal_any_view)

lemma side_tables_view [simp]:
  "ledger_view (f\<lparr>fb_capacities := c\<rparr>) = ledger_view f"
  "ledger_view (f\<lparr>next_policy_id := n\<rparr>) = ledger_view f"
  "ledger_view (f\<lparr>next_pool_id := n\<rparr>) = ledger_view f"
  "ledger_view (f\<lparr>next_queue_id := n\<rparr>) = ledger_view f"
  "ledger_view (f\<lparr>next_snapshot_id := n\<rparr>) = ledger_view f"
  "ledger_view (f\<lparr>fb_pressure := x\<rparr>) = ledger_view f"
  "ledger_view (f\<lparr>fb_queues := q\<rparr>) = ledger_view f"
  "ledger_view (f\<lparr>fb_queue_names := qn\<rparr>) = ledger_view f"
  by (simp_all add: ledger_view_def)

lemma topology_view [simp]:
  "ledger_view (set_queue i q f) = ledger_view f"
  "ledger_view (restore_queue q f) = ledger_view f"
  "ledger_view (keep_snapshot s f) = ledger_view f"
  "ledger_view (drop_queues p f) = ledger_view f"
  by (simp_all add: set_queue_def restore_queue_def keep_snapshot_def drop_queues_def Let_def ledger_view_def)

lemmas side_finv [simp] = side_tables_view[THEN fabric_inv_view] topology_view[THEN fabric_inv_view]
lemmas journal_finv = journal_views[THEN fabric_inv_view] journal_raw_view[THEN fabric_inv_view]

lemma view_try_st:
  assumes "ledger_view (snd m) = v" "\<And>x g. m = (Inr x, g) \<Longrightarrow> ledger_view g = v \<Longrightarrow> ledger_view (snd (k x g)) = v"
  shows "ledger_view (snd (try_st m k)) = v"
  using assms by (cases m; cases "fst m") auto

lemma fence_members_finv:
  "fabric_inv f \<Longrightarrow> \<not> allocation_holds_units st \<Longrightarrow> fabric_inv (snd (fence_members due st ids n units f))"
  using fence_members_inv ids_fresh_view[OF fence_members_ids] by (simp add: fabric_inv_def)

lemma fence_allocation_finv:
  "fabric_inv f \<Longrightarrow> map_of (fb_allocations f) i = Some a \<Longrightarrow> \<not> allocation_holds_units st \<Longrightarrow>
     fabric_inv (snd (fence_allocation_locked i a st f))"
  using fence_allocation_inv ids_fresh_view[OF fence_allocation_ids] by (simp add: fabric_inv_def)

lemma fence_until_finv: "fabric_inv f \<Longrightarrow> fabric_inv (snd (fence_until stop tally ids acc f))"
proof (induction ids arbitrary: acc f)
  case (Cons i ids)
  then show ?case
    by (auto simp: fence_allocation_finv allocation_holds_units_def split: option.split intro!: finv_try_st)
qed simp

lemma enforce_capacity_finv: "fabric_inv f \<Longrightarrow> fabric_inv (snd (enforce_capacity p all f))"
  by (auto simp: enforce_capacity_def Let_def split: option.split intro!: finv_try_st fence_until_finv)

lemma fence_policy_pools_finv: "fabric_inv f \<Longrightarrow> fabric_inv (snd (fence_policy_pools pol g ps f))"
proof (induction ps arbitrary: f)
  case (Cons p ps)
  then show ?case
    by (auto simp: allocation_holds_units_def split: option.split intro!: finv_try_st fence_members_finv)
qed simp

subsection \<open>The tables\<close>

lemma restore_policy_inv:
  assumes "fabric_inv f" "policy_validate p = Inr ()"
  shows "fabric_inv (restore_policy p f)"
  using assms
  by (auto simp: fabric_inv_def ids_fresh_def ledger_inv_def restore_policy_def entry_ok_def record_ok_def
      books_balance_def books_def tree_ok_def ranks_def parent_of_def)

lemma charge_unknown:
  assumes "ledger_inv f" "map_of (fb_pools f) p = None" "map_of (fb_allocations f) i = Some a"
  shows "charge acc p a = 0"
  using ledger_invD(2)[OF assms(1,3)] assms(2)
  by (auto simp: charge_def record_ok_def lent_charge_def effective_borrow_def split: if_splits)

lemma books_unknown:
  assumes "ledger_inv f" "distinct (map fst (fb_allocations f))" "map_of (fb_pools f) p = None"
  shows "books acc p f = 0"
  unfolding books_def
  by (rule asum_zero) (use charge_unknown[OF assms(1,3)] assms(2) in auto)


lemma balance_entry_of [simp]: "balance acc (entry_of d g) = 0"
  by (cases acc) (simp_all add: entry_of_def bucket_units_def)

lemma entry_of_fields [simp]:
  "en_descriptor (entry_of d g) = d" "en_members (entry_of d g) = []" "en_own_usage (entry_of d g) = 0"
  "en_borrowed_in (entry_of d g) = 0"
  by (simp_all add: entry_of_def)

lemma tree_ok_register:
  assumes t: "tree_ok f" and new: "parent_of f p = None"
    and known: "q \<noteq> 0 \<Longrightarrow> parent_of f q \<noteq> None" and g: "parent_of g = (parent_of f)(p := Some q)"
  shows "tree_ok g"
proof -
  obtain rank where r: "ranks f rank" using t by (auto simp: tree_ok_def)
  have np: "parent_of f x \<noteq> Some p" if "p \<noteq> 0" for x
    using t new that unfolding tree_ok_def by (metis option.distinct(1))
  have "ranks g (rank(p := Suc (rank q)))"
    unfolding ranks_def g
  proof (intro allI impI)
    fix x y assume x: "((parent_of f)(p := Some q)) x = Some y" and y: "y \<noteq> 0"
    show "(rank(p := Suc (rank q))) y < (rank(p := Suc (rank q))) x"
    proof (cases "x = p")
      case True
      then have "y = q" using x by simp
      then have "y \<noteq> p" using known y new by auto
      with True \<open>y = q\<close> show ?thesis by simp
    next
      case False
      then have "parent_of f x = Some y" "y \<noteq> p" using x y np[of x] by auto
      with False y r show ?thesis by (simp add: ranks_def)
    qed
  qed
  moreover have "parent_of g y \<noteq> None" if "parent_of g x = Some y" "y \<noteq> 0" for x y
    using that known t by (auto simp: g tree_ok_def split: if_splits)
  ultimately show ?thesis unfolding tree_ok_def by blast
qed

lemma register_pool_inv:
  assumes inv: "fabric_inv f" and d: "pool_validate d = Inr ()" and new: "map_of (fb_pools f) (pd_id d) = None"
    and known: "pd_parent d \<noteq> 0 \<Longrightarrow> map_of (fb_pools f) (pd_parent d) \<noteq> None"
  shows "fabric_inv (restore_entry (entry_of d g) f)" (is "fabric_inv ?g")
proof -
  have li: "ledger_inv f" and ids: "ids_fresh f" using inv by (simp_all add: fabric_inv_def)
  have ps: "map_of (fb_pools ?g) = (map_of (fb_pools f))(pd_id d \<mapsto> entry_of d g)"
    and al: "fb_allocations ?g = fb_allocations f" "fb_policies ?g = fb_policies f"
    "next_allocation_id ?g = next_allocation_id f"
    by (auto simp: restore_entry_def Let_def update_conv')
  have b: "books acc p ?g = books acc p f" for acc p by (simp add: books_def al)
  have "entry_ok ?g p e" if "map_of (fb_pools ?g) p = Some e" for p e
    using that ledger_invD(1)[OF li, of p e] d by (auto simp: ps entry_ok_def al split: if_splits)
  moreover have "record_ok ?g i a" if "map_of (fb_allocations ?g) i = Some a" for i a
    using that ledger_invD(2)[OF li, of i a] by (auto simp: ps record_ok_def al)
  moreover have "balance acc e = books acc p ?g" if "map_of (fb_pools ?g) p = Some e" for p e acc
    using that ledger_invD(4)[OF li, of p e] books_unknown[OF li _ new] ids
    by (auto simp: ps b ids_fresh_def split: if_splits)
  moreover have "parent_of ?g = (parent_of f)(pd_id d := Some (pd_parent d))"
    by (auto simp: parent_of_def ps fun_eq_iff)
  then have "tree_ok ?g"
    using tree_ok_register[OF ledger_invD(5)[OF li], of "pd_id d" "pd_parent d"] new known
    by (auto simp: parent_of_def)
  ultimately show ?thesis
    using ledger_invD(3)[OF li] ids
    by (auto simp: fabric_inv_def ledger_inv_def books_balance_def al ids_fresh_def)
qed

lemma remove_pool_inv:
  assumes inv: "fabric_inv f" and e: "map_of (fb_pools f) p = Some e"
    and idle: "en_lent_out e = 0" "allocated e = 0"
    and leaf: "\<forall>x \<in> set (fb_pools f). pd_parent (en_descriptor (snd x)) \<noteq> p"
    and g: "map_of (fb_pools g) = (map_of (fb_pools f))(p := None)" "fb_allocations g = fb_allocations f"
      "fb_policies g = fb_policies f" "next_allocation_id g = next_allocation_id f"
  shows "fabric_inv g"
proof -
  have li: "ledger_inv f" and ids: "ids_fresh f" using inv by (simp_all add: fabric_inv_def)
  have b: "books acc p g = books acc p f" for acc p by (simp add: books_def g)
  have zero: "books AcReserved p f = 0" "books AcCommitted p f = 0" "books AcLent p f = 0"
    using idle balance_bounds(5)[OF li e] ledger_invD(4)[OF li e, of AcReserved]
      ledger_invD(4)[OF li e, of AcCommitted] ledger_invD(4)[OF li e, of AcLent]
    by simp_all
  have np: "parent_of f x \<noteq> Some p" for x
    using leaf by (auto simp: parent_of_def dest!: map_of_SomeD)
  have unused: "al_pool a \<noteq> p \<and> (borrow_units a \<noteq> 0 \<longrightarrow> al_lender a \<noteq> p)"
    if a: "map_of (fb_allocations f) i = Some a" and h: "holds_units a" for i a
  proof -
    have r: "al_units a \<noteq> 0" "borrow_units a \<le> al_units a"
      using ledger_invD(2)[OF li a] h by (simp_all add: record_ok_def)
    have z: "charge AcReserved p a = 0" "charge AcCommitted p a = 0" "charge AcLent p a = 0"
      using charge_le_books[OF a, of AcReserved p] charge_le_books[OF a, of AcCommitted p]
        charge_le_books[OF a, of AcLent p] zero by simp_all
    with r h show ?thesis
      by (auto simp: charge_def lent_charge_def effective_borrow_def unat_eq_zero split: if_splits)
  qed
  have "entry_ok g q x" if "map_of (fb_pools g) q = Some x" for q x
    using that ledger_invD(1)[OF li, of q x] by (auto simp: g entry_ok_def split: if_splits)
  moreover have "record_ok g i a" if "map_of (fb_allocations g) i = Some a" for i a
    using that ledger_invD(2)[OF li, of i a] unused[of i a] by (auto simp: g record_ok_def)
  moreover have "tree_ok g"
  proof -
    have pg: "parent_of g = (parent_of f)(p := None)" by (auto simp: parent_of_def g)
    then have "ranks f rank \<Longrightarrow> ranks g rank" for rank by (auto simp: ranks_def)
    then show ?thesis
      using ledger_invD(5)[OF li] np by (auto simp: tree_ok_def pg)
  qed
  ultimately show ?thesis
    using ledger_invD(3,4)[OF li] ids
    by (auto simp: fabric_inv_def ledger_inv_def books_balance_def b g ids_fresh_def split: if_splits)
qed

lemma resized_inv:
  assumes inv: "fabric_inv f" and raw: "raw \<noteq> 0" "raw \<le> kMaxUnitsPerPool" "prot < raw"
  shows "fabric_inv (map_pool p (resized raw prot gn cg) f)" (is "fabric_inv ?g")
proof -
  have li: "ledger_inv f" and ids: "ids_fresh f" using inv by (simp_all add: fabric_inv_def)
  have r: "balance acc (resized raw prot gn cg e) = balance acc e"
    "en_members (resized raw prot gn cg e) = en_members e"
    "en_own_usage (resized raw prot gn cg e) = en_own_usage e"
    "en_borrowed_in (resized raw prot gn cg e) = en_borrowed_in e"
    "pd_id (en_descriptor (resized raw prot gn cg e)) = pd_id (en_descriptor e)"
    "pd_parent (en_descriptor (resized raw prot gn cg e)) = pd_parent (en_descriptor e)" for acc e
    by (cases acc; simp add: resized_def)+
  have v: "pool_validate (en_descriptor (resized raw prot gn cg e)) = Inr ()"
    if "pool_validate (en_descriptor e) = Inr ()" for e
    using that raw by (auto simp: pool_validate_def resized_def split: if_splits)
  have ps: "map_of (fb_pools ?g) q = (if q = p then map_option (resized raw prot gn cg) (map_of (fb_pools f) p)
      else map_of (fb_pools f) q)" for q
    by (rule map_of_map_pool)
  have "parent_of ?g = parent_of f" by (auto simp: parent_of_def ps option.map_comp comp_def r)
  then have t: "tree_ok ?g" using ledger_invD(5)[OF li] tree_ok_cong by blast
  have b: "books acc q ?g = books acc q f" for acc q by (simp add: books_def)
  have "entry_ok ?g q x" if x: "map_of (fb_pools ?g) q = Some x" for q x
    using x ledger_invD(1)[OF li, of q] v r by (fastforce simp: ps entry_ok_def split: if_splits)
  moreover have "record_ok ?g i a" if "map_of (fb_allocations ?g) i = Some a" for i a
    using that ledger_invD(2)[OF li, of i a] by (auto simp: ps record_ok_def)
  moreover have "balance acc x = books acc q ?g" if x: "map_of (fb_pools ?g) q = Some x" for q x acc
    using x ledger_invD(4)[OF li, of q] by (auto simp: ps b r split: if_splits)
  ultimately have "ledger_inv ?g"
    using ledger_invD(3)[OF li] t by (simp add: ledger_inv_def books_balance_def)
  then show ?thesis using ids ids_fresh_view[OF ids_map_pool[of p "resized raw prot gn cg" f]] by (simp add: fabric_inv_def)
qed


subsection \<open>The operations\<close>

lemma when_open_inv:
  "fabric_inv f \<Longrightarrow> (fabric_inv f \<Longrightarrow> fabric_inv (snd (op f))) \<Longrightarrow> fabric_inv (snd (when_open op f))"
  "fabric_inv f \<Longrightarrow> (fabric_inv f \<Longrightarrow> fabric_inv (snd (op f))) \<Longrightarrow> fabric_inv (snd (unless_shutdown op f))"
  by (simp_all add: when_open_def unless_shutdown_def)

lemma policy_store_inv: "fabric_inv f \<Longrightarrow> fabric_inv (snd (policy_store policy f))"
  by (auto simp: policy_store_def Let_def journal_finv split: sum.split
      intro!: finv_try_st restore_policy_inv fence_policy_pools_finv)

lemma publish_policy_inv: "fabric_inv f \<Longrightarrow> fabric_inv (snd (publish_policy_locked request f))"
  unfolding publish_policy_locked_def
  by (intro when_open_inv) (auto simp: Let_def split: sum.split option.split intro!: policy_store_inv)

lemma ancestry_known: "ancestry n p f = Inr () \<Longrightarrow> map_of (fb_pools f) p \<noteq> None"
  by (cases n) (auto split: option.splits)

lemma register_check_Inr:
  assumes "register_check d f = Inr ()"
  shows "pool_validate d = Inr ()" "map_of (fb_pools f) (pd_id d) = None"
    "pd_parent d \<noteq> 0 \<Longrightarrow> map_of (fb_pools f) (pd_parent d) \<noteq> None"
  using assms ancestry_known[of "kMaxPoolDepth - 1" "pd_parent d" f]
  by (auto simp: register_check_def try_r_eq_Inr valid_def split: if_splits)

lemma register_pool_locked_inv: "fabric_inv f \<Longrightarrow> fabric_inv (snd (register_pool_locked g f))"
proof -
  assume inv: "fabric_inv f"
  have reg: "fabric_inv (restore_entry (entry_of d 1) h)"
    if "register_check d f' = Inr ()" "fabric_inv h" "journal_pool (entry_of d 1) f' = (Inr (), h)" for d f' h
  proof -
    have v: "ledger_view h = ledger_view f'" using journal_views(2)[of "entry_of d 1" f'] that(3) by simp
    have keys: "(map_of (fb_pools h) k = None) = (map_of (fb_pools f') k = None)" for k
      using arg_cong[OF v, of fst] map_of_map_snd[of plain "fb_pools h" k] map_of_map_snd[of plain "fb_pools f'" k]
      by (simp add: ledger_view_def) (metis option.map_disc_iff)
    note c = register_check_Inr[OF that(1)]
    show ?thesis by (rule register_pool_inv[OF that(2) c(1)]) (use c keys in auto)
  qed
  show ?thesis
    unfolding register_pool_locked_def
    by (intro when_open_inv inv)
      (auto simp: Let_def inv journal_finv reg split: sum.split intro!: finv_try_st)
qed

lemma remove_pool_locked_inv: "fabric_inv f \<Longrightarrow> fabric_inv (snd (remove_pool_locked p expected f))"
proof -
  assume inv: "fabric_inv f"
  have "fabric_inv (snd (try_st (journal JPoolRemoved (buffer (put_u64 p writer0)) f) (\<lambda>_ f.
       let f = f\<lparr>fb_pool_names := AList.delete (pd_name (en_descriptor e)) (fb_pool_names f),
                fb_pools := AList.delete p (fb_pools f),
                fb_pressure := AList.delete p (fb_pressure f)\<rparr>
       in (Inr (), push_event EvPoolRemoved Ok p 0 0 0 0 (drop_queues p f)))))"
    if c: "remove_check p expected f = Inr e" for e
  proof (rule finv_try_st)
    show "fabric_inv (snd (journal JPoolRemoved (buffer (put_u64 p writer0)) f))"
      using inv journal_finv by simp
    fix x g assume g: "journal JPoolRemoved (buffer (put_u64 p writer0)) f = (Inr x, g)" "fabric_inv g"
    have "only_journals f g"
      using only_journals_journal[OF only_journals_refl, of f JPoolRemoved "buffer (put_u64 p writer0)"] g(1) by simp
    then have fields: "fb_pools g = fb_pools f" by simp
    have e: "map_of (fb_pools g) p = Some e" "en_lent_out e = 0" "allocated e = 0"
      "\<forall>x \<in> set (fb_pools g). pd_parent (en_descriptor (snd x)) \<noteq> p"
      using c by (auto simp: remove_check_def try_r_eq_Inr require_Inr fields split: if_splits)
    have "fabric_inv (g\<lparr>fb_pool_names := AList.delete (pd_name (en_descriptor e)) (fb_pool_names g),
                fb_pools := AList.delete p (fb_pools g), fb_pressure := AList.delete p (fb_pressure g)\<rparr>)"
      by (rule remove_pool_inv[OF g(2) e]) (auto simp: delete_conv')
    then show "fabric_inv (snd (let f = g\<lparr>fb_pool_names := AList.delete (pd_name (en_descriptor e)) (fb_pool_names g),
                fb_pools := AList.delete p (fb_pools g),
                fb_pressure := AList.delete p (fb_pressure g)\<rparr>
       in (Inr (), push_event EvPoolRemoved Ok p 0 0 0 0 (drop_queues p f))))"
      by (simp add: Let_def)
  qed
  then show ?thesis
    unfolding remove_pool_locked_def by (intro when_open_inv inv) (auto simp: inv split: sum.split)
qed

lemma resize_pool_locked_inv: "fabric_inv f \<Longrightarrow> fabric_inv (snd (resize_pool_locked p raw prot expected f))"
proof -
  assume inv: "fabric_inv f"
  have "fabric_inv (map_pool p (resized raw prot g cg) f)"
    if "resize_check p raw prot expected f = Inr (e, policy, g, cg)" for e policy g cg
    using that by (intro resized_inv inv) (auto simp: resize_check_def try_r_eq_Inr split: if_splits)
  then show ?thesis
    unfolding resize_pool_locked_def
    by (intro when_open_inv inv)
      (auto simp: Let_def inv journal_finv outcome_finv split: sum.split option.split
        intro!: finv_try_st enforce_capacity_finv)
qed

lemma queue_ops_inv:
  assumes "fabric_inv f"
  shows "fabric_inv (snd (register_queue_locked g f))"
    "fabric_inv (snd (update_queue_demand_locked i demand expected f))"
    "fabric_inv (snd (retire_queue_locked i expected f))"
    "fabric_inv (snd (retarget_queue_locked i p expected f))"
  unfolding register_queue_locked_def update_queue_demand_locked_def retire_queue_locked_def
    retarget_queue_locked_def
  by (intro when_open_inv assms; auto simp: Let_def assms journal_finv allocation_holds_units_def
      split: sum.split intro!: finv_try_st fence_members_finv)+

lemma observe_pressure_inv: "fabric_inv f \<Longrightarrow> fabric_inv (snd (observe_pressure_locked s f))"
  unfolding observe_pressure_locked_def
  by (intro when_open_inv) (auto simp: Let_def journal_finv reject_pressure_def split: sum.split intro!: finv_try_st)

lemma capacity_publish_inv:
  assumes "fabric_inv f"
  shows "fabric_inv (snd (capacity_publish resource backend expected_raw expected authority f))"
proof -
  have "fabric_inv (snd (try_st (journal_capacity c f) (\<lambda>_ f.
      (Inr x, push_event EvPressureUpdated Ok 0 0 0 0 0 (f\<lparr>fb_capacities := AList.update resource c (fb_capacities f)\<rparr>)))))"
    for c and x :: generation
    by (rule finv_try_st) (simp_all add: assms journal_finv)
  then show ?thesis
    unfolding capacity_publish_def Let_def by (simp add: assms split: sum.split)
qed

lemma locked_scope_inv:
  assumes "fabric_inv f" "\<And>g. fabric_inv g \<Longrightarrow> fabric_inv (snd (op g))"
  shows "fabric_inv (snd (locked_scope t op f))"
  using assms(1) assms(2)[of "(take_lock t f)\<lparr>fb_events := []\<rparr>"]
  by (auto simp: locked_scope_def split: prod.split sum.split)

lemma set_capacity_inv:
  assumes "fabric_inv f"
  shows "fabric_inv (snd (snd (set_capacity ready query program ticks resource backend expected_raw expected (b, f))))"
  using assms
  by (auto simp: set_capacity_def Let_def capacity_find_def capacity_count_effect_def capacity_publish_inv
      split: prod.split sum.split option.split intro!: locked_scope_inv
      dest!: arg_cong[of "locked_scope _ _ _" _ snd])

end
