(* ===== verification/Recovery.thy ===== *)
theory Recovery
  imports Topology_Safety
begin

text \<open>
  Recovery rebuilds an exact ledger.  What open loads from the durable store is a sound image when its
  pools and policies are valid, its records are well formed and within the supported totals, and its
  allocation ids are below the next one; the aggregates it carries do not matter, because
  rebuild_aggregates recomputes them.  From a sound image a durable fabric opens with the invariant of
  the runtime.
\<close>

definition sound_image :: "fabric \<Rightarrow> bool" where
  "sound_image f \<longleftrightarrow>
     (\<forall>p e. map_of (fb_pools f) p = Some e \<longrightarrow> pool_validate (en_descriptor e) = Inr () \<and> pd_id (en_descriptor e) = p \<and>
        books AcOwn p f \<le> 2 ^ 61 \<and> books AcBorrowed p f \<le> 2 ^ 60) \<and>
     (\<forall>i a. map_of (fb_allocations f) i = Some a \<longrightarrow> record_ok f i a) \<and>
     (\<forall>i p. map_of (fb_policies f) i = Some p \<longrightarrow> policy_validate p = Inr ()) \<and>
     tree_ok f \<and> ids_fresh f"

subsection \<open>Members\<close>

definition members_known :: "fabric \<Rightarrow> bool" where
  "members_known f \<longleftrightarrow> (\<forall>p e. map_of (fb_pools f) p = Some e \<longrightarrow>
     (\<forall>i\<in>set (en_members e). \<exists>a. map_of (fb_allocations f) i = Some a \<and> holds_units a \<and> al_pool a = p))"

lemma charge_record_members:
  assumes "members_known f" "map_of (fb_allocations f) (al_id a) = Some a"
  shows "members_known (charge_record a f)"
proof -
  have m: "en_members (charge_holder a e) = List.insert (al_id a) (en_members e)"
    "en_members (charge_lender b e) = en_members e" for b e
    by (simp_all add: charge_holder_def charge_lender_def Let_def)
  show ?thesis
    using assms unfolding members_known_def
    by (auto simp: charge_record_def Let_def map_of_map_pool m split: if_splits)
qed

lemma charge_records_members:
  assumes "members_known f" "\<forall>(i, a) \<in> set al. map_of (fb_allocations f) (al_id a) = Some a"
  shows "members_known (fold (\<lambda>(_, a). charge_record a) al f)"
  using assms
proof (induction al arbitrary: f)
  case (Cons x al)
  obtain i a where x: "x = (i, a)" by (cases x)
  have "members_known (charge_record a f)" using charge_record_members Cons.prems x by auto
  then show ?case using Cons.IH[of "charge_record a f"] Cons.prems x by auto
qed simp

lemma charge_record_policies [simp]: "fb_policies (charge_record a f) = fb_policies f"
  "next_allocation_id (charge_record a f) = next_allocation_id f"
  by (simp_all add: charge_record_def Let_def map_pool_def split: option.split)

lemma charge_records_policies [simp]:
  "fb_policies (fold (\<lambda>(_, a). charge_record a) al f) = fb_policies f"
  "next_allocation_id (fold (\<lambda>(_, a). charge_record a) al f) = next_allocation_id f"
  by (induction al arbitrary: f) (auto split: prod.split)

lemma rebuild_fields [simp]:
  "fb_allocations (rebuild_aggregates f) = fb_allocations f" "fb_policies (rebuild_aggregates f) = fb_policies f"
  "next_allocation_id (rebuild_aggregates f) = next_allocation_id f"
  by (simp_all add: rebuild_aggregates_def Let_def)

lemma rebuild_members:
  assumes "\<forall>(i, a) \<in> set (fb_allocations f). map_of (fb_allocations f) (al_id a) = Some a"
  shows "members_known (rebuild_aggregates f)"
proof -
  let ?f0 = "f\<lparr>fb_pools := map (\<lambda>(p, e). (p, clear_entry e)) (fb_pools f)\<rparr>"
  have "members_known ?f0" by (auto simp: members_known_def map_of_map_snd clear_entry_def)
  then have "members_known (fold (\<lambda>(_, a). charge_record a) (fb_allocations f) ?f0)"
    using charge_records_members[of ?f0 "fb_allocations f"] assms by simp
  then show ?thesis
    by (auto simp: members_known_def rebuild_aggregates_def Let_def map_of_map_snd refresh_runtime_def)
qed

subsection \<open>The rebuilt state\<close>

lemma books_below:
  assumes "books AcOwn p f \<le> 2 ^ 61" "books AcBorrowed p f \<le> 2 ^ 60"
  shows "books acc p f < 2 ^ 64"
proof (cases acc)
  case (AcQueueReserved q)
  then show ?thesis using assms books_split(1)[of p f] books_split(3)[where q = q and p = p and f = f] by simp
next
  case (AcQueueCommitted q)
  then show ?thesis using assms books_split(1)[of p f] books_split(4)[where q = q and p = p and f = f] by simp
qed (use assms books_split(1,2,5)[where p = p and f = f] in simp_all)

lemma sound_image_known:
  assumes "sound_image f"
  shows "holders_known f" "keys_valid f" "\<forall>(i, a) \<in> set (fb_allocations f). map_of (fb_allocations f) (al_id a) = Some a"
proof -
  have d: "map_of (fb_allocations f) i = Some a" if "(i, a) \<in> set (fb_allocations f)" for i a
    using assms that by (simp add: sound_image_def ids_fresh_def)
  have r: "record_ok f i a" if "(i, a) \<in> set (fb_allocations f)" for i a
    using d[OF that] assms by (simp add: sound_image_def)
  show "holders_known f" using r by (auto simp: holders_known_def record_ok_def)
  show "\<forall>(i, a) \<in> set (fb_allocations f). map_of (fb_allocations f) (al_id a) = Some a"
    using d r by (auto simp: record_ok_def)
  show "keys_valid f"
  proof (rule ccontr)
    assume "\<not> keys_valid f"
    then obtain e where "map_of (fb_pools f) 0 = Some e" by (auto simp: keys_valid_def)
    then have "pool_validate (en_descriptor e) = Inr ()" "pd_id (en_descriptor e) = 0"
      using assms by (auto simp: sound_image_def)
    then show False using pool_validD(1) by blast
  qed
qed

lemma rebuild_keys: "(map_of (fb_pools (rebuild_aggregates f)) p = None) = (map_of (fb_pools f) p = None)"
proof -
  have "(map_of (fb_pools (fold (\<lambda>(_, a). charge_record a) al g)) p = None) = (map_of (fb_pools g) p = None)"
    for al :: "(u64 \<times> allocation_record) list" and g
    by (induction al arbitrary: g) (auto simp: charge_record_keys split: prod.split)
  then show ?thesis by (simp add: rebuild_aggregates_def Let_def map_of_map_snd)
qed

lemma rebuild_inv:
  assumes "sound_image f"
  shows "fabric_inv (rebuild_aggregates f)"
proof -
  let ?g = "rebuild_aggregates f"
  note known = sound_image_known[OF assms]
  have e: "\<exists>e. map_of (fb_pools f) p = Some e \<and> en_descriptor e' = en_descriptor e \<and> (\<forall>acc. balance acc e' = books acc p f)"
    if e': "map_of (fb_pools ?g) p = Some e'" for p e'
  proof -
    obtain e where e: "map_of (fb_pools f) p = Some e"
      using e' rebuild_keys[of f p] by (cases "map_of (fb_pools f) p") auto
    then have "books acc p f < 2 ^ 64" for acc using assms books_below by (auto simp: sound_image_def)
    then show ?thesis using rebuild_balance[OF known(1,2) e] e e' by auto
  qed
  have par: "parent_of ?g p = parent_of f p" for p
  proof (cases "map_of (fb_pools ?g) p")
    case None
    then show ?thesis using rebuild_keys[of f p] by (simp add: parent_of_def)
  next
    case (Some e')
    then show ?thesis using e[OF Some] by (auto simp: parent_of_def)
  qed
  have "entry_ok ?g p e'" if e': "map_of (fb_pools ?g) p = Some e'" for p e'
  proof -
    obtain e0 where "map_of (fb_pools f) p = Some e0" "en_descriptor e' = en_descriptor e0" "\<And>acc. balance acc e' = books acc p f"
      using e[OF e'] by auto
    moreover have "unat (en_own_usage e') = balance AcOwn e'" "unat (en_borrowed_in e') = balance AcBorrowed e'" by simp_all
    ultimately show ?thesis
      using assms rebuild_members[OF known(3)] e' by (auto simp: entry_ok_def sound_image_def members_known_def)
  qed
  moreover have "record_ok ?g i a" if "map_of (fb_allocations ?g) i = Some a" for i a
    using that assms rebuild_keys[of f] by (auto simp: record_ok_def sound_image_def)
  moreover have "books_balance ?g" using e by (fastforce simp: books_balance_def books_def)
  moreover have "tree_ok ?g" using assms tree_ok_cong[of ?g f] par by (auto simp: sound_image_def)
  ultimately show ?thesis
    using assms by (auto simp: fabric_inv_def ledger_inv_def sound_image_def ids_fresh_def)
qed

subsection \<open>Open\<close>

lemma sound_image_cong:
  assumes "map_option en_descriptor \<circ> map_of (fb_pools g) = map_option en_descriptor \<circ> map_of (fb_pools f)"
    "fb_allocations g = fb_allocations f" "fb_policies g = fb_policies f" "next_allocation_id g = next_allocation_id f"
  shows "sound_image g = sound_image f"
proof -
  have d: "map_option en_descriptor (map_of (fb_pools g) p) = map_option en_descriptor (map_of (fb_pools f) p)" for p
    using fun_cong[OF assms(1), of p] by simp
  have k: "(map_of (fb_pools g) p = None) = (map_of (fb_pools f) p = None)" for p
    using d[of p] by (metis option.map_disc_iff)
  have t: "tree_ok g = tree_ok f"
    by (rule tree_ok_cong) (auto simp: parent_of_def fun_eq_iff option.map_comp[symmetric] d)
  have r: "record_ok g i a = record_ok f i a" for i a by (simp add: record_ok_def k)
  have b: "books acc p g = books acc p f" for acc p by (simp add: books_def assms(2))
  have e: "(\<forall>e. map_of (fb_pools g) p = Some e \<longrightarrow> P (en_descriptor e)) = (\<forall>e. map_of (fb_pools f) p = Some e \<longrightarrow> P (en_descriptor e))"
    for p P using d[of p] by (cases "map_of (fb_pools g) p"; cases "map_of (fb_pools f) p") auto
  show ?thesis
    unfolding sound_image_def t r b assms(2,3) ids_fresh_def assms(4)
    using e[where P = "\<lambda>d. pool_validate d = Inr () \<and> pd_id d = p \<and> books AcOwn p f \<le> 2 ^ 61 \<and> books AcBorrowed p f \<le> 2 ^ 60" for p]
    by simp
qed

definition descriptors :: "fabric \<Rightarrow> u64 \<Rightarrow> pool_descriptor option" where
  "descriptors f p = map_option en_descriptor (map_of (fb_pools f) p)"

lemma rebuild_descriptors: "descriptors (rebuild_aggregates f) = descriptors f"
proof -
  have c: "descriptors (charge_record a g) = descriptors g" for a g
    by (auto simp: descriptors_def fun_eq_iff charge_record_def Let_def map_of_map_pool charge_holder_def charge_lender_def
        option.map_comp comp_def)
  have "descriptors (fold (\<lambda>(_, a). charge_record a) al g) = descriptors g"
    for al :: "(u64 \<times> allocation_record) list" and g
    by (induction al arbitrary: g) (auto simp: c split: prod.split)
  then show ?thesis
    by (auto simp: descriptors_def fun_eq_iff rebuild_aggregates_def Let_def map_of_map_snd option.map_comp comp_def
        refresh_runtime_def clear_entry_def)
qed

lemma sound_image_rebuild: "sound_image (rebuild_aggregates f) = sound_image f"
  using rebuild_descriptors[of f] by (intro sound_image_cong) (simp_all add: descriptors_def fun_eq_iff)

lemma sound_image_view: "ledger_view g = ledger_view f \<Longrightarrow> sound_image g = sound_image f"
proof (rule sound_image_cong)
  assume v: "ledger_view g = ledger_view f"
  have "map_option plain (map_of (fb_pools g) p) = map_option plain (map_of (fb_pools f) p)" for p
    using v map_of_map_snd[of plain "fb_pools g" p] map_of_map_snd[of plain "fb_pools f" p] by (simp add: ledger_view_def)
  from arg_cong[OF this, of "map_option en_descriptor"]
  have "map_option en_descriptor (map_of (fb_pools g) p) = map_option en_descriptor (map_of (fb_pools f) p)" for p
    by (simp add: option.map_comp comp_def)
  then show "map_option en_descriptor \<circ> map_of (fb_pools g) = map_option en_descriptor \<circ> map_of (fb_pools f)"
    by (simp add: fun_eq_iff)
qed (simp_all add: ledger_view_def)

lemma loaded_is_rebuilt:
  assumes "load_from_store f = (Inr (), g)"
  shows "\<exists>h. g = rebuild_aggregates h"
  using assms by (auto simp: load_from_store_def Let_def split: prod.splits sum.splits)

lemma open_view:
  "ledger_view (f\<lparr>fb_config := c\<rparr>) = ledger_view f" "ledger_view (f\<lparr>fb_store := s\<rparr>) = ledger_view f"
  "ledger_view (f\<lparr>fb_epoch := e\<rparr>) = ledger_view f" "ledger_view (f\<lparr>fb_recovery := r\<rparr>) = ledger_view f"
  "ledger_view (f\<lparr>fb_boot := b\<rparr>) = ledger_view f" "ledger_view (f\<lparr>fb_open := o'\<rparr>) = ledger_view f"
  "ledger_view (f\<lparr>fb_sink := k\<rparr>) = ledger_view f" "ledger_view (f\<lparr>fb_backends := be\<rparr>) = ledger_view f"
  "ledger_view (f\<lparr>fb_metrics := m\<rparr>) = ledger_view f" "ledger_view (f\<lparr>fb_shutting_down := sd\<rparr>) = ledger_view f"
  by (simp_all add: ledger_view_def)

lemma open_durable_rebuilt:
  assumes "open_durable c f = (Inr epoch, g)" "pc_mode (cf_persistence c) \<noteq> DurNone"
  shows "\<exists>h. ledger_view g = ledger_view (rebuild_aggregates h)"
proof -
  obtain f1 where "on_store (configure (cf_persistence c)) f = (Inr (), f1)"
    using assms by (auto simp: open_durable_def try_st_eq_Inr)
  then obtain f2 where l: "load_from_store f1 = (Inr (), f2)" and v: "ledger_view g = ledger_view f2"
    using assms by (auto simp: open_durable_def open_view split: prod.splits sum.splits)
  show ?thesis using loaded_is_rebuilt[OF l] v by auto
qed

lemma open_epoch_view: "open_epoch durable boot f = (Inr (), g) \<Longrightarrow> ledger_view g = ledger_view f"
  by (auto simp: open_epoch_def Let_def open_view split: prod.splits if_splits)

lemma open_durable_opens:
  assumes "fabric_open t boot c f = (Inr (), g)" "pc_mode (cf_persistence c) \<noteq> DurNone"
  shows "\<exists>epoch f1. open_durable c (((take_lock t f)\<lparr>fb_events := []\<rparr>)\<lparr>fb_config := c\<rparr>) = (Inr epoch, f1) \<and>
    ledger_view g = ledger_view f1"
proof -
  let ?f = "((take_lock t f)\<lparr>fb_events := []\<rparr>)\<lparr>fb_config := c\<rparr>"
  let ?k = "\<lambda>f. case journal JEpochAdvance (buffer (writes [put_u64 (fb_epoch f), put_u64 (bi_hi (fb_boot f)),
        put_u64 (bi_lo (fb_boot f))] writer0)) f of
          (Inl e, f) \<Rightarrow> (Inl e, f\<lparr>fb_open := False, fb_store := store_close (fb_store f)\<rparr>)
        | (Inr _, f) \<Rightarrow> (Inr (), publish
            (push_event EvEpochAdvanced Ok 0 0 0 0 0 (push_event EvRecovered Ok 0 0 0 0 0 f)))"
  have g: "\<not> fb_open ((take_lock t f)\<lparr>fb_events := []\<rparr>)" "config_validate c = Inr ()"
    using assms(1) by (auto simp: fabric_open_def Let_def split: if_splits sum.splits)
  have st: "try_st (open_durable c ?f) (\<lambda>durable f. try_st (open_epoch durable boot f) (\<lambda>_ f. ?k f)) = (Inr (), g)"
    using assms g unfolding fabric_open_def Let_def by (simp only: if_False sum.case)
  obtain epoch f1 where o1: "open_durable c ?f = (Inr epoch, f1)" and
    st1: "try_st (open_epoch epoch boot f1) (\<lambda>_ f. ?k f) = (Inr (), g)"
    using st unfolding try_st_eq_Inr by blast
  obtain u f2 where o2: "open_epoch epoch boot f1 = (Inr u, f2)" and rest: "?k f2 = (Inr (), g)"
    using st1 unfolding try_st_eq_Inr by blast
  note o = o1 o2[unfolded unit_eq[of u]]
  obtain r f3 where j: "journal JEpochAdvance (buffer (writes [put_u64 (fb_epoch f2), put_u64 (bi_hi (fb_boot f2)),
        put_u64 (bi_lo (fb_boot f2))] writer0)) f2 = (r, f3)" by fastforce
  have gp: "g = publish (push_event EvEpochAdvanced Ok 0 0 0 0 0 (push_event EvRecovered Ok 0 0 0 0 0 f3))"
    using rest unfolding j by (cases r) simp_all
  have "ledger_view g = ledger_view f3" by (simp add: gp)
  also have "\<dots> = ledger_view f2" using journal_raw_view j by (metis snd_conv)
  also have "\<dots> = ledger_view f1" by (rule open_epoch_view[OF o(2)])
  finally show ?thesis using o(1) by blast
qed

lemma open_durable_inv:
  assumes "fabric_open t boot c f = (Inr (), g)" "pc_mode (cf_persistence c) \<noteq> DurNone" "sound_image g"
  shows "fabric_inv g"
proof -
  obtain h where v: "ledger_view g = ledger_view (rebuild_aggregates h)"
    using open_durable_opens[OF assms(1,2)] open_durable_rebuilt[OF _ assms(2)] by metis
  have "sound_image h" using assms(3) sound_image_view[OF v] sound_image_rebuild by simp
  then show ?thesis using rebuild_inv fabric_inv_view[OF v] by blast
qed

end
