(* ===== verification/Fabric_Query.thy ===== *)
theory Fabric_Query
  imports Fabric_Topology
begin

text \<open>
  Evaluation, reclamation, explanation and inspection: src/fabric_query.cpp.  The queries are
  functions of the state; the two that change it are apply_reclaim and checkpoint.
\<close>

subsection \<open>Evaluation of a hypothetical request\<close>

record evaluation_result =
  vl_decision :: decision
  vl_accounting :: pool_accounting
  vl_evidence :: pressure_evidence

definition decision0 :: decision where
  "decision0 = \<lparr>dc_kind = Refuse, dc_status = Ok, dc_pool = 0, dc_queue = 0, dc_requested_units = 0,
     dc_granted_units = 0, dc_allocation = 0, dc_binding = BcNone, dc_pressure = Unknown,
     dc_utilization_bp = 0, dc_intent = intent0, dc_authority = authority0,
     dc_accounting = pool_accounting0, dc_decided_at = 0, dc_sequence = 0\<rparr>"

definition evaluate_authority ::
  "pool_entry \<Rightarrow> queue_descriptor \<Rightarrow> pool_policy \<Rightarrow> pressure_evidence \<Rightarrow> fabric \<Rightarrow> authority_vector" where
  "evaluate_authority e queue policy evidence f =
     (let v = bind_generation AkPool (pd_generation (en_descriptor e)) authority0;
          v = bind_generation AkQueue (qd_generation queue) v;
          v = bind_generation AkPolicy (pol_generation policy) v;
          v = av_bind AkCapacity (en_capacity_generation e) (en_capacity_generation e) v;
          v = bind_id AkEpoch (fb_epoch f) v;
          v = bind_id AkPressure (pe_snapshot evidence) v;
          v = av_bind AkBootIncarnation (bi_hi (fb_boot f)) (bi_lo (fb_boot f)) v
      in seal v)"

text \<open>The limits that evaluate applies, in its order: it knows no soft limit.\<close>

definition evaluate_limit ::
  "pool_entry \<Rightarrow> queue_descriptor \<Rightarrow> pool_policy \<Rightarrow> grant_computation \<Rightarrow> u64 \<times> binding_constraint" where
  "evaluate_limit e queue policy c =
     (let lb = (gc_max_grant c, gc_binding c);
          lb = (if max_single_request_units policy \<noteq> 0
                then apply_cap (max_single_request_units policy) BcPolicyMaxSingleRequest lb else lb);
          lb = (if max_single_allocation_units policy \<noteq> 0
                then apply_cap (max_single_allocation_units policy) BcPolicyMaxSingleAllocation lb else lb)
      in queue_cap e queue lb)"

definition evaluate_decide ::
  "evaluate_request \<Rightarrow> pool_entry \<Rightarrow> queue_descriptor \<Rightarrow> pool_policy \<Rightarrow> pressure_evidence \<Rightarrow> decision \<Rightarrow> fabric \<Rightarrow> decision" where
  "evaluate_decide q e queue policy evidence d f =
     (if stale_request (er_expected_epoch q) (fb_epoch f)
      then d\<lparr>dc_kind := Revalidate, dc_status := StaleEpoch, dc_binding := BcGenerationMismatch,
             dc_intent := intent0\<lparr>revalidate_required := True\<rparr>\<rparr>
      else if pd_retired (en_descriptor e)
      then d\<lparr>dc_kind := Refuse, dc_status := WrongState, dc_binding := BcPoolRetired\<rparr>
      else if qd_retired queue
      then d\<lparr>dc_kind := Refuse, dc_status := WrongState, dc_binding := BcQueueRetired\<rparr>
      else if er_requested_units q = 0 then d\<lparr>dc_kind := NoOp, dc_binding := BcRequestZero\<rparr>
      else if \<not> evidence_usable evidence \<and> refuse_increase_on_unknown (pressure policy)
      then d\<lparr>dc_kind := Revalidate, dc_status := pe_reason evidence,
             dc_binding := (if pe_state evidence = Unknown then BcEvidenceUnknown else BcEvidenceStale),
             dc_intent := intent0\<lparr>revalidate_required := True\<rparr>\<rparr>
      else if pressure_is_known (pe_state evidence) \<and> refuse_grants_at policy \<noteq> Unknown \<and>
              pressure_at_least (pe_state evidence) (refuse_grants_at policy)
      then d\<lparr>dc_kind := Reduce, dc_status := PolicyForbids, dc_binding := BcPressureRefuse,
             dc_intent := intent0\<lparr>reduce_required := True, reduce_to_units := en_usable e\<rparr>\<rparr>
      else let (limit, binding) = evaluate_limit e queue policy (compute_grant e policy f);
               grant = min (er_requested_units q) limit;
               grant = (if \<not> allow_partial_grant policy \<and> grant < er_requested_units q then 0 else grant) in
      if grant = 0 then d\<lparr>dc_kind := Refuse, dc_status := CapacityExceeded, dc_binding := binding\<rparr>
      else d\<lparr>dc_kind := (if grant = er_requested_units q then Grant else GrantPartial),
             dc_granted_units := grant, dc_binding := binding,
             dc_authority := evaluate_authority e queue policy evidence f\<rparr>)"

definition evaluate :: "evaluate_request \<Rightarrow> fabric \<Rightarrow> evaluation_result result" where
  "evaluate q f =
     (if \<not> fb_open f then Inl LifecycleViolation
      else if er_requested_units q > kMaxUnitsPerPool then Inl Overflow
      else try_r (require_pool (er_pool q) f) (\<lambda>e.
        try_r (require_queue (er_queue q) f) (\<lambda>queue.
        if qd_pool queue \<noteq> pd_id (en_descriptor e) then Inl InvalidArgument
        else try_r (require_policy e f) (\<lambda>policy.
          let evidence = resolve_evidence e f;
              d = decision0\<lparr>dc_pool := pd_id (en_descriptor e), dc_queue := qd_id queue,
                    dc_requested_units := er_requested_units q, dc_pressure := pe_state evidence,
                    dc_utilization_bp := pe_utilization_bp evidence, dc_accounting := accounting_of e f,
                    dc_decided_at := fb_tick f, dc_sequence := next_decision_sequence f\<rparr>
          in Inr \<lparr>vl_decision = evaluate_decide q e queue policy evidence d f,
                  vl_accounting = accounting_of e f, vl_evidence = evidence\<rparr>))))"

subsection \<open>Reclamation\<close>

record reclaim_victim =
  rv_allocation :: allocation_id
  rv_queue :: queue_id
  rv_units :: u64
  rv_borrowed_units :: u64
  rv_reclaim_priority :: u64
  rv_last_touched :: tick
  rv_reclaim_class :: reclaim_class

record reclamation_plan =
  pl_pool :: pool_id
  pl_pool_generation :: generation
  pl_epoch :: epoch_id
  pl_target_units :: u64
  pl_planned_units :: u64
  pl_shortfall_units :: u64
  pl_reclaimable_available_units :: u64
  pl_pinned_available_units :: u64
  pl_protected_reclaim_used :: bool
  pl_truncated :: bool
  pl_victims :: "reclaim_victim list"
  pl_authority :: authority_vector
  pl_built_at :: tick
  pl_digest :: digest

definition plan_complete :: "reclamation_plan \<Rightarrow> bool" where
  "plan_complete p = (pl_shortfall_units p = 0)"

definition candidate_of :: "allocation_record \<Rightarrow> reclaim_victim" where
  "candidate_of a = \<lparr>rv_allocation = al_id a, rv_queue = al_queue a, rv_units = al_units a,
     rv_borrowed_units = borrow_units a, rv_reclaim_priority = al_reclaim_priority a,
     rv_last_touched = last_touched a, rv_reclaim_class = al_reclaim_class a\<rparr>"

definition held_long_enough :: "pool_policy \<Rightarrow> tick \<Rightarrow> allocation_record \<Rightarrow> bool" where
  "held_long_enough policy stamp a =
     (min_hold_ticks (reclaim policy) = 0 \<or>
      \<not> (if stamp \<ge> last_touched a then stamp - last_touched a else 0) < min_hold_ticks (reclaim policy))"

definition candidates :: "reclaim_class \<Rightarrow> pool_entry \<Rightarrow> pool_policy \<Rightarrow> fabric \<Rightarrow> reclaim_victim list" where
  "candidates k e policy f =
     map candidate_of (filter (\<lambda>a. allocation_holds_units (al_state a) \<and> held_long_enough policy (fb_tick f) a \<and>
        al_reclaim_class a = k) (List.map_filter (map_of (fb_allocations f)) (en_members e)))"

definition candidate_before :: "reclaim_victim \<Rightarrow> reclaim_victim \<Rightarrow> bool" where
  "candidate_before a b =
     (if rv_reclaim_priority a \<noteq> rv_reclaim_priority b then rv_reclaim_priority a < rv_reclaim_priority b
      else if rv_last_touched a \<noteq> rv_last_touched b then rv_last_touched a < rv_last_touched b
      else rv_allocation a < rv_allocation b)"

text \<open>The running state of the two selection loops: victims, planned units, truncated.\<close>

type_synonym selection = "reclaim_victim list \<times> u64 \<times> bool"

definition needs_more :: "u64 \<Rightarrow> u64 \<Rightarrow> pool_policy \<Rightarrow> u64 \<Rightarrow> bool" where
  "needs_more target starting_free policy planned =
     (planned < target \<or> starting_free + planned < reserve_units (reclaim policy))"

fun select_victims :: "u64 \<Rightarrow> u64 \<Rightarrow> pool_policy \<Rightarrow> reclaim_victim list \<Rightarrow> selection \<Rightarrow> selection" where
  "select_victims target starting_free policy [] sel = sel"
| "select_victims target starting_free policy (c # cs) (victims, planned, truncated) =
     (if \<not> needs_more target starting_free policy planned then (victims, planned, truncated)
      else if length victims \<ge> kMaxReclaimVictims then (victims, planned, True)
      else if planned + rv_units c > max_units_per_operation (reclaim policy) then (victims, planned, True)
      else select_victims target starting_free policy cs (victims @ [c], planned + rv_units c, truncated))"

definition put_victim :: "reclaim_victim \<Rightarrow> byte_writer \<Rightarrow> byte_writer" where
  "put_victim v = writes [put_id (rv_allocation v), put_u64 (rv_units v), put_u64 (rv_reclaim_priority v),
     put_u64 (rv_last_touched v), put_u8 (reclaim_class_raw (rv_reclaim_class v))]"

definition plan_digest :: "reclamation_plan \<Rightarrow> digest" where
  "plan_digest p = digest_bytes (buffer (writes
     ([put_id (pl_pool p), put_id (pl_pool_generation p), put_id (pl_epoch p), put_u64 (pl_target_units p),
       put_u64 (pl_planned_units p), put_u32 (of_nat (length (pl_victims p)))] @
      map put_victim (pl_victims p)) writer0))"

definition build_plan :: "reclaim_request \<Rightarrow> pool_entry \<Rightarrow> pool_policy \<Rightarrow> fabric \<Rightarrow> reclamation_plan" where
  "build_plan q e policy f =
     (let reclaimable = sort_by candidate_before (candidates Reclaimable e policy f);
          pinned = sort_by candidate_before (candidates Pinned e policy f);
          target = cl_target_units q;
          starting_free = en_free_units e;
          (victims, planned, truncated) = select_victims target starting_free policy reclaimable ([], 0, False);
          taken = length victims;
          (victims, planned, truncated) =
            (if needs_more target starting_free policy planned \<and> allow_protected_reclaim (reclaim policy)
             then select_victims target starting_free policy pinned (victims, planned, truncated)
             else (victims, planned, truncated));
          v = bind_generation AkPool (pd_generation (en_descriptor e)) authority0;
          v = bind_generation AkPolicy (pol_generation policy) v;
          v = bind_id AkEpoch (fb_epoch f) v;
          v = bind_id AkPressure (pe_snapshot (resolve_evidence e f)) v;
          plan = \<lparr>pl_pool = pd_id (en_descriptor e), pl_pool_generation = pd_generation (en_descriptor e),
            pl_epoch = fb_epoch f, pl_target_units = target, pl_planned_units = planned,
            pl_shortfall_units = (if target > planned then target - planned else 0),
            pl_reclaimable_available_units = sum_list (map rv_units reclaimable),
            pl_pinned_available_units = sum_list (map rv_units pinned),
            pl_protected_reclaim_used = (length victims > taken), pl_truncated = truncated,
            pl_victims = victims, pl_authority = seal v, pl_built_at = fb_tick f,
            pl_digest = \<lparr>dg_hi = 0, dg_lo = 0\<rparr>\<rparr>
      in plan\<lparr>pl_digest := plan_digest plan\<rparr>)"

definition plan_reclaim_locked :: "reclaim_request \<Rightarrow> fabric \<Rightarrow> reclamation_plan result" where
  "plan_reclaim_locked q f =
     (if \<not> fb_open f then Inl LifecycleViolation
      else if cl_target_units q = 0 then Inl InvalidArgument
      else if cl_target_units q > kMaxUnitsPerPool then Inl Overflow
      else try_r (require_pool (cl_pool q) f) (\<lambda>e.
        if stale_request (cl_expected_epoch q) (fb_epoch f) then Inl StaleEpoch
        else if stale_request (cl_expected_pool_generation q) (pd_generation (en_descriptor e))
        then Inl StaleGeneration
        else try_r (require_policy e f) (\<lambda>policy.
          if \<not> rc_enabled (reclaim policy) then Inl PolicyForbids
          else Inr (build_plan q e policy f))))"

record reclaim_result =
  rr_plan :: reclamation_plan
  rr_reclaimed_units :: u64
  rr_revoked_allocations :: u64
  rr_borrower_units_returned :: u64
  rr_lender_units_returned :: u64
  rr_accounting :: pool_accounting
  rr_applied_at :: tick

definition tally_reclaim :: "allocation_record \<Rightarrow> reclaim_result \<Rightarrow> reclaim_result" where
  "tally_reclaim a r = r\<lparr>rr_reclaimed_units := rr_reclaimed_units r + al_units a,
     rr_revoked_allocations := rr_revoked_allocations r + 1,
     rr_borrower_units_returned := rr_borrower_units_returned r + borrow_units a,
     rr_lender_units_returned := rr_lender_units_returned r + borrow_units a\<rparr>"

fun revoke :: "u64 list \<Rightarrow> reclaim_result \<Rightarrow> reclaim_result op" where
  "revoke [] acc f = (Inr acc, f)"
| "revoke (i # ids) acc f =
     (case map_of (fb_allocations f) i of
        None \<Rightarrow> revoke ids acc f
      | Some a \<Rightarrow>
          if \<not> allocation_holds_units (al_state a) then revoke ids acc f
          else try_st (fence_allocation_locked i a AReclaimed f) (\<lambda>_ f. revoke ids (tally_reclaim a acc) f))"

definition apply_reclaim_locked :: "reclaim_request \<Rightarrow> reclaim_result op" where
  "apply_reclaim_locked q f =
     (case plan_reclaim_locked q f of Inl code \<Rightarrow> (Inl code, f)
      | Inr plan \<Rightarrow>
        case require_pool (pl_pool plan) f of Inl code \<Rightarrow> (Inl code, f)
        | Inr _ \<Rightarrow>
          try_st (revoke (map rv_allocation (pl_victims plan))
                    \<lparr>rr_plan = plan, rr_reclaimed_units = 0, rr_revoked_allocations = 0,
                     rr_borrower_units_returned = 0, rr_lender_units_returned = 0,
                     rr_accounting = pool_accounting0, rr_applied_at = 0\<rparr> f) (\<lambda>acc f.
          case map_of (fb_pools f) (pl_pool plan) of None \<Rightarrow> (Inl UnknownPool, f)
          | Some e \<Rightarrow>
            let acc = acc\<lparr>rr_accounting := accounting_of e f, rr_applied_at := fb_tick f\<rparr>;
                f = bump mt_reclaims_update f
            in try_st (verify_closure (pl_pool plan) True f) (\<lambda>_ f. (Inr acc, f))))"

definition fabric_plan_reclaim :: "tick \<Rightarrow> reclaim_request \<Rightarrow> fabric \<Rightarrow> reclamation_plan result" where
  "fabric_plan_reclaim sampled q f = plan_reclaim_locked q (take_lock sampled f)"

definition fabric_apply_reclaim :: "tick \<Rightarrow> reclaim_request \<Rightarrow> reclaim_result op" where
  "fabric_apply_reclaim sampled q = locked sampled (unless_shutdown (apply_reclaim_locked q))"

subsection \<open>Explanation\<close>

record explanation =
  xp_pool :: pool_id
  xp_pool_generation :: generation
  xp_epoch :: epoch_id
  xp_boot :: boot_incarnation
  xp_sequence :: u64
  xp_generated_at :: tick
  xp_accounting :: pool_accounting
  xp_thresholds :: thresholds
  xp_evidence :: pressure_evidence
  xp_binding :: binding_constraint
  xp_intent :: corrective_intent
  xp_authority :: authority_vector
  xp_report :: accounting_report
  xp_queues :: "queue_usage list"
  xp_digest :: digest

definition usage_add :: "allocation_record \<Rightarrow> queue_usage \<Rightarrow> queue_usage" where
  "usage_add a u = u\<lparr>
     qu_committed_units := qu_committed_units u + (if al_state a = ACommitted then al_units a else 0),
     qu_reserved_units := qu_reserved_units u + (if al_state a = AReserved then al_units a else 0),
     qu_allocation_count := qu_allocation_count u + 1\<rparr>"

fun usage_count :: "pool_id \<Rightarrow> generation \<Rightarrow> allocation_record \<Rightarrow> queue_usage list \<Rightarrow> queue_usage list" where
  "usage_count p g a [] = [usage_add a \<lparr>qu_queue = al_queue a, qu_pool = p, qu_generation = g,
     qu_committed_units = 0, qu_reserved_units = 0, qu_allocation_count = 0\<rparr>]"
| "usage_count p g a (u # us) =
     (if qu_queue u = al_queue a then usage_add a u # us else u # usage_count p g a us)"

definition queue_generation_of :: "queue_id \<Rightarrow> fabric \<Rightarrow> generation" where
  "queue_generation_of q f = (case map_of (fb_queues f) q of None \<Rightarrow> 0 | Some d \<Rightarrow> qd_generation d)"

definition queue_usages :: "pool_entry \<Rightarrow> fabric \<Rightarrow> queue_usage list" where
  "queue_usages e f =
     sort_by (\<lambda>a b. qu_queue a < qu_queue b)
       (fold (\<lambda>a. usage_count (pd_id (en_descriptor e)) (queue_generation_of (al_queue a) f) a)
          (filter holds_units (List.map_filter (map_of (fb_allocations f)) (en_members e))) [])"

definition explanation_digest :: "explanation \<Rightarrow> digest" where
  "explanation_digest x = digest_bytes (buffer (writes
     ([put_id (xp_pool x), put_id (xp_pool_generation x), put_id (xp_epoch x),
       put_u64 (ac_raw (xp_accounting x)), put_u64 (ac_protected_units (xp_accounting x)),
       put_u64 (ac_allocated (xp_accounting x)), put_u64 (ac_free (xp_accounting x)),
       put_u64 (ac_borrowed_in (xp_accounting x)), put_u64 (ac_lent_out (xp_accounting x)),
       put_u64 (ac_overcommit_used (xp_accounting x)),
       put_u8 (pressure_state_raw (pe_state (xp_evidence x))), put_u32 (pe_utilization_bp (xp_evidence x)),
       put_u64 (ucast (elevated_bp (xp_thresholds x))), put_u64 (ucast (high_bp (xp_thresholds x))),
       put_u64 (ucast (critical_bp (xp_thresholds x))), put_digest (av_digest (xp_authority x)),
       put_u32 (of_nat (length (xp_queues x)))] @
      concat (map (\<lambda>u. [put_id (qu_queue u), put_u64 (qu_committed_units u), put_u64 (qu_reserved_units u)])
        (xp_queues x))) writer0))"

definition explain :: "pool_id \<Rightarrow> fabric \<Rightarrow> explanation result" where
  "explain p f =
     try_r (require_pool p f) (\<lambda>e.
     try_r (require_policy e f) (\<lambda>policy.
       let accounting = accounting_of e f;
           evidence = resolve_evidence e f;
           intent = (if pressure_is_known (pe_state evidence) \<and> pressure_at_least (pe_state evidence) (reduce_at policy)
                     then intent0\<lparr>reduce_required := True, reduce_to_units := ac_usable accounting\<rparr> else intent0);
           intent = (if \<not> evidence_usable evidence then intent\<lparr>revalidate_required := True\<rparr> else intent);
           v = av_bind AkCapacity (en_capacity_generation e) (en_capacity_generation e) authority0;
           v = bind_generation AkPool (pd_generation (en_descriptor e)) v;
           v = bind_generation AkPolicy (pol_generation policy) v;
           v = bind_id AkPressure (pe_snapshot evidence) v;
           v = bind_id AkEpoch (fb_epoch f) v;
           v = bind_id AkBackend (pd_backend (en_descriptor e)) v;
           v = av_bind AkBootIncarnation (bi_hi (fb_boot f)) (bi_lo (fb_boot f)) v;
           x = \<lparr>xp_pool = pd_id (en_descriptor e), xp_pool_generation = pd_generation (en_descriptor e),
                xp_epoch = fb_epoch f, xp_boot = fb_boot f, xp_sequence = next_decision_sequence f,
                xp_generated_at = fb_tick f, xp_accounting = accounting,
                xp_thresholds = pr_thresholds (pressure policy), xp_evidence = evidence,
                xp_binding = BcNone, xp_intent = intent, xp_authority = seal v,
                xp_report = check_pool_accounting accounting (oc_mode (overcommit policy))
                  (oc_limit_units (overcommit policy)),
                xp_queues = queue_usages e f, xp_digest = \<lparr>dg_hi = 0, dg_lo = 0\<rparr>\<rparr>
       in Inr (x\<lparr>xp_digest := explanation_digest x\<rparr>)))"

subsection \<open>Inspection\<close>

record fabric_summary =
  su_epoch :: epoch_id
  su_boot :: boot_incarnation
  su_pool_count :: u64
  su_queue_count :: u64
  su_allocation_count :: u64
  su_raw_total :: u64
  su_protected_total :: u64
  su_allocated_total :: u64
  su_free_total :: u64
  su_overcommit_total :: u64
  su_borrowed_total :: u64
  su_lent_total :: u64
  su_live_allocations :: u64
  su_accounting :: accounting_report

definition summary :: "fabric \<Rightarrow> fabric_summary" where
  "summary f =
     (let rows = map (\<lambda>(_, e). accounting_of e f) (fb_pools f) in
      \<lparr>su_epoch = fb_epoch f, su_boot = fb_boot f, su_pool_count = of_nat (length (fb_pools f)),
       su_queue_count = of_nat (length (fb_queues f)), su_allocation_count = of_nat (length (fb_allocations f)),
       su_raw_total = sum_list (map ac_raw rows), su_protected_total = sum_list (map ac_protected_units rows),
       su_allocated_total = sum_list (map ac_allocated rows), su_free_total = sum_list (map ac_free rows),
       su_overcommit_total = sum_list (map ac_overcommit_used rows),
       su_borrowed_total = sum_list (map ac_borrowed_in rows), su_lent_total = sum_list (map ac_lent_out rows),
       su_live_allocations = sum_list (map (\<lambda>a. ac_reserved a + ac_committed a) rows),
       su_accounting = check_global_accounting rows\<rparr>)"

definition ledger :: "fabric \<Rightarrow> pool_accounting list" where
  "ledger f = sort_by (\<lambda>a b. ac_pool a < ac_pool b) (map (\<lambda>(_, e). accounting_of e f) (fb_pools f))"

record pool_view =
  pv_descriptor :: pool_descriptor
  pv_policy :: pool_policy
  pv_runtime :: pool_runtime
  pv_queues :: "queue_usage list"
  pv_raw_units :: u64
  pv_protected_units :: u64
  pv_usable_units :: u64
  pv_allocated_units :: u64
  pv_free_units :: u64

definition view_of :: "pool_entry \<Rightarrow> pool_policy \<Rightarrow> queue_usage list \<Rightarrow> pool_view" where
  "view_of e policy queues = \<lparr>pv_descriptor = en_descriptor e, pv_policy = policy, pv_runtime = en_runtime e,
     pv_queues = queues, pv_raw_units = raw_units (en_descriptor e),
     pv_protected_units = protected_units (en_descriptor e), pv_usable_units = en_usable e,
     pv_allocated_units = allocated e, pv_free_units = en_free_units e\<rparr>"

definition pool_view_of :: "pool_id \<Rightarrow> fabric \<Rightarrow> pool_view result" where
  "pool_view_of p f =
     try_r (require_pool p f) (\<lambda>e.
     try_r (require_policy e f) (\<lambda>policy.
       Inr (view_of e policy (sort_by (\<lambda>a b. qu_queue a < qu_queue b)
         (map (\<lambda>(q, units). \<lparr>qu_queue = q, qu_pool = pd_id (en_descriptor e),
            qu_generation = queue_generation_of q f, qu_committed_units = units, qu_reserved_units = 0,
            qu_allocation_count = 0\<rparr>) (en_queue_committed e))))))"

definition pool_views :: "fabric \<Rightarrow> pool_view list" where
  "pool_views f = sort_by (\<lambda>a b. pd_id (pv_descriptor a) < pd_id (pv_descriptor b))
     (map (\<lambda>(_, e). view_of e (case policy_of e f of None \<Rightarrow> pool_policy0 | Some p \<Rightarrow> p) []) (fb_pools f))"

definition fabric_allocation :: "allocation_id \<Rightarrow> fabric \<Rightarrow> allocation_record result" where
  "fabric_allocation i f =
     (if \<not> valid i then Inl InvalidArgument
      else case map_of (fb_allocations f) i of None \<Rightarrow> Inl UnknownAllocation | Some a \<Rightarrow> Inr a)"

definition row_bound :: "nat \<Rightarrow> nat \<Rightarrow> nat" where
  "row_bound limit capacity = min (if limit = 0 then capacity else limit) capacity"

definition fabric_allocations_of :: "pool_id \<Rightarrow> nat \<Rightarrow> fabric \<Rightarrow> allocation_record list result" where
  "fabric_allocations_of p limit f =
     try_r (require_pool p f) (\<lambda>e. Inr (take (row_bound limit (max_inspection_rows (fb_config f)))
       (List.map_filter (map_of (fb_allocations f)) (sorted_members e))))"

definition decision_history :: "nat \<Rightarrow> fabric \<Rightarrow> decision_record list" where
  "decision_history limit f =
     last_n (row_bound limit (decision_history_capacity (fb_config f))) (fb_decisions f)"

definition attempt_before :: "attempt_record \<Rightarrow> attempt_record \<Rightarrow> bool" where
  "attempt_before a b = (if at_sequence a \<noteq> at_sequence b then at_sequence a < at_sequence b else at_id a < at_id b)"

definition attempt_history :: "nat \<Rightarrow> fabric \<Rightarrow> attempt_record list" where
  "attempt_history limit f =
     last_n (row_bound limit (attempt_memory_capacity (fb_config f)))
       (sort_by attempt_before (map snd (fb_attempts f)))"

record fabric_statistics =
  ss_pools :: u64
  ss_policies :: u64
  ss_queues :: u64
  ss_allocations_live :: u64
  ss_allocations_total :: u64
  ss_decisions :: u64
  ss_attempts_retained :: u64
  ss_pressure_snapshots :: u64
  ss_durable_records :: u64
  ss_durable_bytes :: u64

definition live_members :: "fabric \<Rightarrow> u64" where
  "live_members f = sum_list (map (\<lambda>(_, e). of_nat (length (en_members e))) (fb_pools f))"

definition statistics :: "fabric \<Rightarrow> fabric_statistics" where
  "statistics f = \<lparr>ss_pools = of_nat (length (fb_pools f)), ss_policies = of_nat (length (fb_policies f)),
     ss_queues = of_nat (length (fb_queues f)), ss_allocations_live = live_members f,
     ss_allocations_total = allocations_total f, ss_decisions = mt_decisions (fb_metrics f),
     ss_attempts_retained = of_nat (length (fb_attempts f)),
     ss_pressure_snapshots = of_nat (length (fb_pressure f)),
     ss_durable_records = mt_journal_records_written (fb_metrics f),
     ss_durable_bytes = mt_journal_bytes_written (fb_metrics f)\<rparr>"

definition metrics :: "fabric \<Rightarrow> fabric_metrics" where
  "metrics f = (fb_metrics f)\<lparr>mt_live_allocations := live_members f,
     mt_live_committed_units := sum_list (map (\<lambda>(_, e). en_committed_units e) (fb_pools f))\<rparr>"

definition validate_accounting :: "fabric \<Rightarrow> accounting_report" where
  "validate_accounting f = deep_verify f"

definition checkpoint_locked :: "unit op" where
  "checkpoint_locked f =
     (if \<not> fb_open f then (Inl LifecycleViolation, f)
      else let report = deep_verify f in
      if \<not> rp_closed report then (case report_status report of Inl e \<Rightarrow> (Inl e, f) | Inr _ \<Rightarrow> (Inr (), f))
      else write_full_snapshot f)"

definition fabric_checkpoint :: "tick \<Rightarrow> unit op" where
  "fabric_checkpoint sampled f = checkpoint_locked (take_lock sampled f)"

end
