(* ===== verification/Runtime.thy ===== *)
theory Runtime
  imports Recovery Fabric_Query
begin

text \<open>
  The runtime as a state machine: one rule per locked section of the public interface, run in any
  order from an empty fabric.  A fabric is opened any number of times, in memory or from a durable store
  whose contents are a sound image (then the recovered ledger is exact, Recovery); an inspection call only
  samples the clock.  Not every run of the code is a run of this machine: a release is a step when the product
  of its proportional share fits in 64 bits and, in a durable fabric, when it was journaled (in the other
  cases it damages the books), and a durable open that fails half way is not a step.  The steps other than the durable
  open are the operations (operation_step).
\<close>

lemma revoke_finv: "fabric_inv f \<Longrightarrow> fabric_inv (snd (revoke ids acc f))"
proof (induction ids arbitrary: acc f)
  case (Cons i ids)
  then show ?case
    by (auto simp: fence_allocation_finv allocation_holds_units_def split: option.split intro!: finv_try_st)
qed simp

lemma apply_reclaim_inv: "fabric_inv f \<Longrightarrow> fabric_inv (snd (apply_reclaim_locked q f))"
  by (auto simp: apply_reclaim_locked_def Let_def outcome_finv split: sum.split option.split
      intro!: finv_try_st revoke_finv)

lemma checkpoint_inv: "fabric_inv f \<Longrightarrow> fabric_inv (snd (checkpoint_locked f))"
  using only_journals_view[OF only_journals_snapshot[OF only_journals_refl, of f]]
    fabric_inv_view[of "snd (write_full_snapshot f)" f]
  by (auto simp: checkpoint_locked_def Let_def split: sum.split)

lemmas life_finv = open_view[THEN fabric_inv_view]

lemma open_in_memory_inv:
  assumes "fabric_inv f" "pc_mode (cf_persistence c) = DurNone"
  shows "fabric_inv (snd (fabric_open t boot c f))"
  using assms
  by (auto simp: fabric_open_def open_durable_def open_epoch_def Let_def life_finv split: sum.split prod.split)

lemma life_cycle_inv:
  assumes "fabric_inv f"
  shows "fabric_inv (snd (fabric_close t f))" "fabric_inv (begin_shutdown t f)"
    "fabric_inv (set_event_sink attach f)" "fabric_inv (snd (attach_backend t i entry f))"
  using assms
  by (simp_all add: fabric_close_def begin_shutdown_def set_event_sink_def attach_backend_def Let_def life_finv)

lemma locked_inv:
  assumes "fabric_inv f" "\<And>g. g = (take_lock t f)\<lparr>fb_events := []\<rparr> \<Longrightarrow> fabric_inv g \<Longrightarrow> fabric_inv (snd (op g))"
  shows "fabric_inv (snd (locked t op f))"
  using assms(1) assms(2)[of "(take_lock t f)\<lparr>fb_events := []\<rparr>"]
  by (auto simp: locked_def Let_def split: prod.split)

inductive operation_step :: "fabric \<Rightarrow> fabric \<Rightarrow> bool" where
  op_open: "pc_mode (cf_persistence c) = DurNone \<Longrightarrow> operation_step f (snd (fabric_open t boot c f))"
| op_query: "operation_step f (take_lock t f)"
| op_close: "operation_step f (snd (fabric_close t f))"
| op_shutdown: "operation_step f (begin_shutdown t f)"
| op_sink: "operation_step f (set_event_sink attach f)"
| op_attach: "operation_step f (snd (attach_backend t i entry f))"
| op_effect: "operation_step f (snd (capacity_count_effect (take_lock t f)))"
| op_unsupported: "operation_step f (bump mt_backend_effects_unsupported_update (take_lock t f))"
| op_capacity: "operation_step f (snd (locked_scope t (capacity_publish r b raw g authority) f))"
| op_policy: "operation_step f (snd (fabric_publish_policy t policy f))"
| op_register_pool: "operation_step f (snd (fabric_register_pool t registration f))"
| op_remove_pool: "operation_step f (snd (fabric_remove_pool t p g f))"
| op_resize_pool: "operation_step f (snd (fabric_resize_pool t p raw prot g f))"
| op_register_queue: "operation_step f (snd (fabric_register_queue t queue f))"
| op_demand: "operation_step f (snd (fabric_update_queue_demand t i demand g f))"
| op_retire: "operation_step f (snd (fabric_retire_queue t i g f))"
| op_retarget: "operation_step f (snd (fabric_retarget_queue t i p g f))"
| op_observe: "operation_step f (snd (fabric_observe_pressure t s f))"
| op_allocate: "operation_step f (snd (fabric_allocate t aq f))"
| op_commit: "operation_step f (snd (fabric_commit t cq f))"
| op_release: "release_fits_request rq f \<Longrightarrow> keeps_in_memory f \<or> (\<exists>d. fst (fabric_release t rq f) = Inr d) \<Longrightarrow>
    operation_step f (snd (fabric_release t rq f))"
| op_revalidate: "operation_step f (snd (fabric_revalidate t vq f))"
| op_fence: "operation_step f (snd (fabric_fence_stale t p f))"
| op_expire: "operation_step f (snd (fabric_expire_reservations t p f))"
| op_reclaim: "operation_step f (snd (fabric_apply_reclaim t clq f))"
| op_checkpoint: "operation_step f (snd (fabric_checkpoint t f))"

text \<open>A step of the runtime is an operation, or a durable open that finds a sound image.\<close>

inductive fabric_step :: "fabric \<Rightarrow> fabric \<Rightarrow> bool" where
  step_operation: "operation_step f g \<Longrightarrow> fabric_step f g"
| step_recover: "pc_mode (cf_persistence c) \<noteq> DurNone \<Longrightarrow> fabric_open t boot c f = (Inr (), g) \<Longrightarrow> sound_image g \<Longrightarrow>
    fabric_step f g"

lemmas step_open = op_open[THEN step_operation]
  and step_query = op_query[THEN step_operation]
  and step_close = op_close[THEN step_operation]
  and step_shutdown = op_shutdown[THEN step_operation]
  and step_sink = op_sink[THEN step_operation]
  and step_attach = op_attach[THEN step_operation]
  and step_effect = op_effect[THEN step_operation]
  and step_unsupported = op_unsupported[THEN step_operation]
  and step_capacity = op_capacity[THEN step_operation]
  and step_policy = op_policy[THEN step_operation]
  and step_register_pool = op_register_pool[THEN step_operation]
  and step_remove_pool = op_remove_pool[THEN step_operation]
  and step_resize_pool = op_resize_pool[THEN step_operation]
  and step_register_queue = op_register_queue[THEN step_operation]
  and step_demand = op_demand[THEN step_operation]
  and step_retire = op_retire[THEN step_operation]
  and step_retarget = op_retarget[THEN step_operation]
  and step_observe = op_observe[THEN step_operation]
  and step_allocate = op_allocate[THEN step_operation]
  and step_commit = op_commit[THEN step_operation]
  and step_release = op_release[THEN step_operation]
  and step_revalidate = op_revalidate[THEN step_operation]
  and step_fence = op_fence[THEN step_operation]
  and step_expire = op_expire[THEN step_operation]
  and step_reclaim = op_reclaim[THEN step_operation]
  and step_checkpoint = op_checkpoint[THEN step_operation]

inductive reachable :: "fabric \<Rightarrow> bool" where
  reach_start: "reachable fabric0"
| reach_step: "reachable f \<Longrightarrow> fabric_step f g \<Longrightarrow> reachable g"

lemma release_step_inv:
  assumes "fabric_inv f" "release_fits_request rq f"
    and "keeps_in_memory f \<or> (\<exists>d. fst (fabric_release t rq f) = Inr d)"
  shows "fabric_inv (snd (fabric_release t rq f))"
proof -
  let ?g = "(take_lock t f)\<lparr>fb_events := []\<rparr>"
  have "keeps_in_memory ?g \<or> (\<exists>d. fst (release_locked rq ?g) = Inr d)"
    using assms(3) by (auto simp: fabric_release_def locked_def Let_def keeps_in_memory_def take_lock_def split: prod.splits)
  moreover have "release_fits_request rq ?g" using assms(2) by (simp add: release_fits_request_def take_lock_def)
  ultimately show ?thesis
    unfolding fabric_release_def by (intro locked_inv assms(1)) (auto intro: alloc_ops_inv(3))
qed

lemma operation_inv: "operation_step f g \<Longrightarrow> fabric_inv f \<Longrightarrow> fabric_inv g"
proof (induction rule: operation_step.induct)
  case (op_release rq f t)
  then show ?case using release_step_inv by blast
qed (auto simp: open_in_memory_inv life_cycle_inv capacity_count_effect_def fabric_publish_policy_def
    fabric_register_pool_def fabric_remove_pool_def fabric_resize_pool_def fabric_register_queue_def
    fabric_update_queue_demand_def fabric_retire_queue_def fabric_retarget_queue_def fabric_observe_pressure_def
    fabric_allocate_def fabric_commit_def fabric_revalidate_def fabric_fence_stale_def
    fabric_expire_reservations_def fabric_apply_reclaim_def fabric_checkpoint_def checkpoint_inv
    intro!: locked_scope_inv locked_inv capacity_publish_inv publish_policy_inv register_pool_locked_inv
      remove_pool_locked_inv resize_pool_locked_inv queue_ops_inv observe_pressure_inv when_open_inv(2)
      alloc_ops_inv apply_reclaim_inv)

lemma step_inv: "fabric_step f g \<Longrightarrow> fabric_inv f \<Longrightarrow> fabric_inv g"
  by (induction rule: fabric_step.induct) (auto intro: operation_inv open_durable_inv)

lemma fabric_inv_fabric0: "fabric_inv fabric0"
  using ledger_inv_fabric0 by (simp add: fabric_inv_def ids_fresh_def fabric0_def)

text \<open>Runs without a recovery, where nothing is asked of what is on disk.\<close>

lemma operations_inv: "operation_step\<^sup>*\<^sup>* fabric0 f \<Longrightarrow> fabric_inv f"
  by (induction rule: rtranclp_induct) (auto intro: fabric_inv_fabric0 operation_inv)

lemma reachable_inv: "reachable f \<Longrightarrow> fabric_inv f"
  by (induction rule: reachable.induct) (auto intro: fabric_inv_fabric0 step_inv)

end
