(* ===== verification/Alloc_Live.thy ===== *)
theory Alloc_Live
  imports Runtime
begin

text \<open>
  Progress of allocation: a grant that was decided for a pool within its overcommit limit is never
  refused by the plan verification or by the closure check that follows it; in a fabric that keeps
  nothing durable it is always carried out.
\<close>

definition within_limit :: "pool_entry \<Rightarrow> pool_policy \<Rightarrow> bool" where
  "within_limit e policy \<longleftrightarrow> unat (en_own_usage e) \<le> unat (en_usable e) + overcommit_limit policy"

lemma limit_closes:
  assumes "sums_ok e" "within_limit e policy" "policy_validate policy = Inr ()"
  shows "ledger_closes (accounting_of e f) (oc_mode (overcommit policy)) (oc_limit_units (overcommit policy))"
proof -
  have u: "unat (en_overcommit_used e) \<le> overcommit_limit policy"
    using assms(2) by (simp add: within_limit_def unat_overcommit_used)
  then have "unat (en_overcommit_used e) \<le> unat (oc_limit_units (overcommit policy))"
    by (auto simp: overcommit_limit_def split: if_splits)
  moreover have "oc_mode (overcommit policy) = OcBounded" if "en_overcommit_used e \<noteq> 0"
    using u that by (auto simp: overcommit_limit_def unat_eq_zero split: if_splits)
  ultimately show ?thesis using accounting_closes[OF assms(1)] by blast
qed

lemma closed_status: "rp_closed r \<Longrightarrow> report_status r = Inr ()"
  by (simp add: report_status_def)

lemma check_closure_within:
  assumes "ledger_inv f" "map_of (fb_pools f) p = Some e" "policy_of e f = Some policy" "within_limit e policy"
  shows "check_closure e f = Inr ()"
proof -
  have "policy_validate policy = Inr ()"
    using assms(3) ledger_invD(3)[OF assms(1)] by (auto simp: policy_of_def)
  then have "rp_closed (check_pool_accounting (accounting_of e f) (oc_mode (overcommit policy))
      (oc_limit_units (overcommit policy)))"
    using limit_closes[OF ledger_sums_ok[OF assms(1,2)] assms(4)] by (simp add: check_pool_closed)
  then show ?thesis using assms(3) by (simp add: check_closure_def closed_status)
qed

lemma planned_closes:
  assumes inv: "ledger_inv f" and e: "map_of (fb_pools f) (al_pool a) = Some e" and g: "grantable a f"
    and v: "policy_validate policy = Inr ()"
    and room: "unat (en_own_usage e) + (unat (al_units a) - unat (borrow_units a)) \<le> unat (en_usable e) + overcommit_limit policy"
  shows "rp_closed (check_pool_accounting (accounting_of (planned_entry a e) f)
      (oc_mode (overcommit policy)) (oc_limit_units (overcommit policy)))"
proof -
  let ?p = "planned_entry a e"
  have le: "borrow_units a \<le> al_units a" and h: "holds_units a" and u: "unat (al_units a) \<le> 2 ^ 60"
    and b: "unat (en_own_usage e) + (unat (al_units a) - unat (borrow_units a)) \<le> 2 ^ 61"
    "unat (en_borrowed_in e) + unat (borrow_units a) \<le> 2 ^ 60"
    using g e by (auto simp: grantable_def)
  have bl: "unat (borrow_units a) \<le> unat (al_units a)" using le by (simp add: word_le_nat_alt)
  have own: "unat (al_units a - borrow_units a) = unat (al_units a) - unat (borrow_units a)"
    using le by (simp add: unat_sub word_le_nat_alt)
  have s: "sums_ok e" by (rule ledger_sums_ok[OF inv e])
  note facts = s[unfolded sums_ok_def]
  have o1: "unat (en_own_usage ?p) = unat (en_own_usage e) + (unat (al_units a) - unat (borrow_units a))"
    using b own by (simp add: planned_entry_def credit_state_def Let_def unat_plus_small)
  have o2: "unat (en_borrowed_in ?p) = unat (en_borrowed_in e) + unat (borrow_units a)"
    using b by (simp add: planned_entry_def credit_state_def Let_def unat_plus_small)
  have sm: "unat (en_reserved_units e) \<le> 2 ^ 62" "unat (en_committed_units e) \<le> 2 ^ 62"
    "unat (en_pinned_units e) \<le> 2 ^ 62" "unat (en_reclaimable_units e) \<le> 2 ^ 62"
    using facts by auto
  have o3: "unat (en_reserved_units ?p) + unat (en_committed_units ?p) =
      unat (en_reserved_units e) + unat (en_committed_units e) + unat (al_units a)"
    using sm u by (simp add: planned_entry_def credit_state_def Let_def unat_plus_small)
  have o4: "unat (en_pinned_units ?p) + unat (en_reclaimable_units ?p) =
      unat (en_pinned_units e) + unat (en_reclaimable_units e) + unat (al_units a)"
    using sm u by (simp add: planned_entry_def credit_state_def Let_def unat_plus_small)
  have same: "en_lent_out ?p = en_lent_out e" "en_descriptor ?p = en_descriptor e"
    by (simp_all add: planned_entry_def credit_state_def Let_def)
  have "sums_ok ?p"
    using facts o1 o2 o3 o4 same b bl by (auto simp: sums_ok_def)
  moreover have "within_limit ?p policy"
    using room o1 same(2) by (simp add: within_limit_def en_usable_def)
  ultimately show ?thesis using limit_closes[OF _ _ v] by (simp add: check_pool_closed)
qed

lemma grant_room:
  assumes "ledger_inv f" "map_of (fb_pools f) p = Some e" "policy_of e f = Some policy"
    and "g \<le> gc_max_grant (compute_grant e policy f)" "within_limit e policy"
  shows "unat (en_own_usage e) + (unat g - unat (borrow_for g (compute_grant e policy f)))
    \<le> unat (en_usable e) + overcommit_limit policy"
proof -
  have v: "policy_validate policy = Inr ()"
    using assms(3) ledger_invD(3)[OF assms(1)] by (auto simp: policy_of_def)
  show ?thesis
    using grant_own_bound(1)[OF assms(1,2) v refl, of g] assms(4,5)
    by (simp add: within_limit_def word_le_nat_alt)
qed

text \<open>A decided grant is carried out.\<close>

lemma allocate_grant_done:
  assumes inv: "fabric_inv f" and e: "map_of (fb_pools f) (ar_pool q) = Some e" and pol: "policy_of e f = Some policy"
    and journaled: "journal_allocation (journal_op_for (al_state a)) a f = (Inr (), j)" and lim: "within_limit e policy"
    and b: "build_record q e queue policy (compute_grant e policy f) g f = Inr a"
    and g: "g \<le> gc_max_grant (compute_grant e policy f)" "unat g \<le> 2 ^ 60" "g \<noteq> 0"
  obtains d h where "allocate_grant q e queue policy evidence (compute_grant e policy f) g binding f = (Inr d, h)"
    "dc_granted_units d = g" "dc_allocation d = al_id a" "fabric_inv h"
    "fb_allocations h = AList.update (al_id a) a (fb_allocations f)"
    "shifted (\<lambda>_ _. 0) (\<lambda>acc p. charge acc p a) f h" "dc_status d = Ok"
proof -
  have li: "ledger_inv f" using inv by (simp add: fabric_inv_def)
  have v: "policy_validate policy = Inr ()" using pol ledger_invD(3)[OF li] by (auto simp: policy_of_def)
  note ga = build_record_grantable[OF li e pol b g]
  note bf = build_record_fields[OF b]
  have room: "unat (en_own_usage e) + (unat (al_units a) - unat (borrow_units a)) \<le> unat (en_usable e) + overcommit_limit policy"
    using grant_room[OF li e pol g(1) lim] bf(4,5) by simp
  have ea: "map_of (fb_pools f) (al_pool a) = Some e" using e ga(2) by simp
  note oj = journal_allocation_only[OF journaled]
  have lj: "ledger_inv j" using li ledger_view_inv[OF only_journals_view[OF oj]] by simp
  have gj: "grantable a j" using ga(1) grantable_cong[of j f a] only_journals_fields(1)[OF oj] by simp
  have ok: "fst (allocate_apply a policy f) = Inr ()"
    using planned_closes[OF li ea ga(1) v room] ea journaled apply_commit_units_ok[OF lj gj]
    by (simp add: allocate_apply_def Let_def)
  obtain h1 where h1: "allocate_apply a policy f = (Inr (), h1)" "fabric_inv h1"
    "fb_allocations h1 = AList.update (al_id a) a (fb_allocations f)"
    "shifted (\<lambda>_ _. 0) (\<lambda>acc p. charge acc p a) f h1"
    using allocate_apply_cases[OF inv ga(1) bf(1,2), of policy] ok by (metis Inl_Inr_False)
  obtain e1 where e1: "map_of (fb_pools h1) (al_pool a) = Some e1"
    using shifted_keys[OF h1(4), of "al_pool a"] ea by (cases "map_of (fb_pools h1) (al_pool a)") auto
  have d1: "en_descriptor e1 = en_descriptor e" and o1: "unat (en_own_usage e1) = unat (en_own_usage e) + charge AcOwn (al_pool a) a"
    using shifted_at[OF h1(4) e1, of AcOwn] ea by auto
  have "charge AcOwn (al_pool a) a \<le> unat (al_units a) - unat (borrow_units a)"
    using ga(1) by (auto simp: charge_def lent_charge_def grantable_def effective_borrow_def)
  then have "within_limit e1 policy" using o1 room d1 by (simp add: within_limit_def en_usable_def)
  moreover have "policy_of e1 h1 = Some policy" using pol d1 h1(4) by (simp add: policy_of_def shifted_def)
  ultimately have "check_closure e1 h1 = Inr ()"
    using check_closure_within[OF _ e1] h1(2) by (simp add: fabric_inv_def)
  then have vc: "verify_closure (al_pool a) True h1 = (Inr (), h1)" using e1 by (simp add: verify_closure_def)
  let ?kind = "if g = ar_requested_units q then Grant else GrantPartial"
  have p1: "map_of (fb_pools h1) (ar_pool q) = Some e1" using e1 ga(2) by simp
  obtain d h2 where fin: "allocate_finish q queue policy evidence ?kind Ok g (al_id a) binding intent0 (al_lender a) h1 = (Inr d, h2)"
    "dc_granted_units d = g" "dc_allocation d = al_id a" "dc_status d = Ok"
    using p1 by (auto simp: allocate_finish_def make_decision_def Let_def)
  have view: "ledger_view h2 = ledger_view h1"
    using outcome_view(5)[of q queue policy evidence ?kind Ok g "al_id a" binding intent0 "al_lender a" h1] fin(1) by simp
  define h3 where "h3 = (if ?kind = Grant then bump mt_grants_update h2 else bump mt_partial_grants_update h2)"
  have v3: "ledger_view h3 = ledger_view h1" using view by (simp add: h3_def)
  have "map_of (fb_pools h3) (al_pool a) \<noteq> None"
    using e1 shifted_keys[OF shifted_view[OF h1(4) v3], of "al_pool a"] ea by simp
  then obtain e3 where e3: "map_of (fb_pools h3) (al_pool a) = Some e3" by blast
  let ?d = "if rc_enabled (reclaim policy) \<and> en_free_units e3 = 0
    then d\<lparr>dc_intent := (dc_intent d)\<lparr>reclaim_target_units := (if reserve_units (reclaim policy) > en_free_units e3
           then reserve_units (reclaim policy) - en_free_units e3 else 0)\<rparr>\<rparr> else d"
  have "allocate_grant q e queue policy evidence (compute_grant e policy f) g binding f = (Inr ?d, h3)"
    unfolding allocate_grant_def b
    by (simp only: sum.case h1(1) try_st_simps vc Let_def fin(1) h3_def[symmetric] e3 option.case)
  moreover have "dc_granted_units ?d = g" "dc_allocation ?d = al_id a" "dc_status ?d = Ok" using fin by simp_all
  moreover have "fabric_inv h3" using h1(2) fabric_inv_view[OF v3] by blast
  moreover have "shifted (\<lambda>_ _. 0) (\<lambda>acc p. charge acc p a) f h3" by (rule shifted_view[OF h1(4) v3])
  moreover have "fb_allocations h3 = fb_allocations h1" using v3 by (simp add: ledger_view_def)
  ultimately show thesis using that h1(3) by simp
qed

end
