(* ===== verification/Worked_Run.thy ===== *)
theory Worked_Run
  imports Alloc_Live
begin

text \<open>
  A concrete run of the runtime in memory: open, attach a backend, publish capacity and a policy,
  register a pool and a queue, observe pressure, allocate.  Its states are the concrete inputs
  at which the properties are applied.
\<close>

lemma journal_memory_writer:
  assumes "keeps_in_memory f" "appends put"
  shows "journal_writer opc put f = (Inr (), f)"
  using appendsD[OF assms(2), of writer0] assms(1)
  by (simp add: journal_writer_def journal_def keeps_in_memory_def Let_def writer0_def)

lemma journal_memory:
  assumes "keeps_in_memory f"
  shows "name_fits (pol_name p) \<Longrightarrow> journal_policy p f = (Inr (), f)"
    "name_fits (pd_name (en_descriptor e)) \<Longrightarrow> journal_pool e f = (Inr (), f)"
    "name_fits (qd_name q) \<Longrightarrow> journal_queue q f = (Inr (), f)"
    "journal_pressure s f = (Inr (), f)" "journal_capacity c f = (Inr (), f)"
  by (simp_all add: journal_policy_def journal_pool_def journal_queue_def journal_pressure_def
      journal_capacity_def encode_entry_def encode_capacity_def journal_memory_writer[OF assms]
      policy_codec.put_appends pool_codec.put_appends queue_codec.put_appends pressure_codec.put_appends)

subsection \<open>Inputs\<close>

definition run_policy :: pool_policy where
  "run_policy = pool_policy0\<lparr>pol_name := ''std''\<rparr>"

definition run_pool :: pool_registration where
  "run_pool = \<lparr>pg_id = 0, pg_name = ''gpu0'', pg_resource = 1, pg_backend = 1, pg_raw_units = 100,
     pg_protected_units = 10, pg_parent = 0, pg_policy = 1, pg_tenant = 0, pg_provenance = 0\<rparr>"

definition run_queue :: queue_registration where
  "run_queue = \<lparr>qg_id = 0, qg_name = ''q'', qg_pool = 1, qg_tenant = 0, qg_traffic_class = 0,
     qg_demand_units = 0, qg_weight = 1, qg_max_committed_units = 0\<rparr>"

definition run_backend :: backend_entry where
  "run_backend = \<lparr>be_kind = SyntheticKind, be_generation = 1, be_ready = True\<rparr>"

definition run_authority :: capacity_authority where
  "run_authority = \<lparr>ca_resource = 1, ca_backend = 1, ca_generation = 1, ca_raw_units = 100, ca_observed_at = 0,
     authoritative = True\<rparr>"

definition run_snapshot :: pressure_snapshot where
  "run_snapshot = \<lparr>ps_id = 0, ps_pool = 1, ps_pool_generation = 1, ps_epoch = 1, ps_boot = \<lparr>bi_hi = 0, bi_lo = 0\<rparr>,
     ps_observed_at = 0, ps_ttl_ticks = 0, ps_demand_units = 0, ps_committed_units = 0, ps_reclaimable_units = 0,
     ps_provenance = 0, assert_committed = False, evidence_digest = \<lparr>dg_hi = 0, dg_lo = 0\<rparr>\<rparr>"

definition run_request :: "attempt_id \<Rightarrow> u64 \<Rightarrow> allocate_request" where
  "run_request attempt units = \<lparr>ar_attempt = attempt, ar_pool = 1, ar_queue = 1, ar_requested_units = units,
     ar_reclaim_class = Reclaimable, ar_reclaim_priority = 0, ar_ttl_ticks = 0, ar_commit_immediately = True,
     ar_parent_allocation = 0, ar_provenance = 0, ar_expected_pool_generation = 0,
     ar_expected_policy_generation = 0, ar_expected_queue_generation = 0, ar_expected_capacity_generation = 0,
     ar_expected_epoch = 0\<rparr>"

subsection \<open>States\<close>

definition run_boot :: boot_incarnation where "run_boot = \<lparr>bi_hi = 1, bi_lo = 2\<rparr>"

definition s_open :: fabric where "s_open = snd (fabric_open 5 run_boot fabric_config0 fabric0)"
definition s_backend :: fabric where "s_backend = snd (attach_backend 6 1 run_backend s_open)"
definition s_capacity :: fabric where
  "s_capacity = snd (locked_scope 7 (capacity_publish 1 1 0 0 run_authority) s_backend)"
definition s_policy :: fabric where "s_policy = snd (fabric_publish_policy 8 run_policy s_capacity)"
definition s_pool :: fabric where "s_pool = snd (fabric_register_pool 9 run_pool s_policy)"
definition s_queue :: fabric where "s_queue = snd (fabric_register_queue 10 run_queue s_pool)"
definition s_ready :: fabric where "s_ready = snd (fabric_observe_pressure 11 run_snapshot s_queue)"
definition s_granted :: fabric where "s_granted = snd (fabric_allocate 12 (run_request 1 40) s_ready)"

lemma run_reachable: "reachable s_ready" "reachable s_granted"
proof -
  have "reachable s_open" unfolding s_open_def
    by (rule reach_step[OF reach_start step_open]) (simp add: fabric_config0_def persistence_config0_def)
  then show "reachable s_ready"
    unfolding s_ready_def s_queue_def s_pool_def s_policy_def s_capacity_def s_backend_def
    by (intro step_observe step_register_queue step_register_pool step_policy step_capacity step_attach
        reach_step[OF _ step_observe] reach_step[OF _ step_register_queue] reach_step[OF _ step_register_pool]
        reach_step[OF _ step_policy] reach_step[OF _ step_capacity] reach_step[OF _ step_attach])
  then show "reachable s_granted" unfolding s_granted_def by (rule reach_step[OF _ step_allocate])
qed

lemma operations_then: "operation_step\<^sup>*\<^sup>* fabric0 f \<Longrightarrow> operation_step f g \<Longrightarrow> operation_step\<^sup>*\<^sup>* fabric0 g"
  by (rule rtranclp.rtrancl_into_rtrancl)

lemma run_by_operations: "operation_step\<^sup>*\<^sup>* fabric0 s_granted"
proof -
  have "operation_step\<^sup>*\<^sup>* fabric0 s_open" unfolding s_open_def
    by (rule r_into_rtranclp, rule op_open) (simp add: fabric_config0_def persistence_config0_def)
  then show ?thesis
    unfolding s_granted_def s_ready_def s_queue_def s_pool_def s_policy_def s_capacity_def s_backend_def
    by (intro operations_then[OF _ op_allocate] operations_then[OF _ op_observe]
        operations_then[OF _ op_register_queue] operations_then[OF _ op_register_pool]
        operations_then[OF _ op_policy] operations_then[OF _ op_capacity] operations_then[OF _ op_attach])
qed

text \<open>The states, but for the clock, the metrics, the event ring and the recovery report.\<close>

definition opened :: "tick \<Rightarrow> fabric_metrics \<Rightarrow> ring_sink \<Rightarrow> recovery_report \<Rightarrow> fabric" where
  "opened t m l r = fabric0\<lparr>fb_open := True, fb_epoch := 1, fb_boot := run_boot, fb_tick := t, fb_metrics := m,
     fb_local_sink := l, fb_recovery := r\<rparr>"

lemma s_open: "\<exists>m l r. s_open = opened 5 m l r"
  by (simp add: opened_def s_open_def fabric_open_def open_durable_def open_epoch_def fabric0_def take_lock_def
      fabric_config0_def config_validate_def persistence_config0_def add_overflow_def kMaxAttemptMemory_def
      kMaxSnapshotCount_def kMaxAllocationCount_def push_event_def publish_def)

definition run_capacity :: capacity_entry where
  "run_capacity = \<lparr>ce_resource = 1, ce_backend = 1, ce_generation = 1, ce_raw_units = 100, ce_observed_at = 7\<rparr>"

definition capped :: "fabric \<Rightarrow> fabric" where
  "capped f = f\<lparr>fb_backends := [(1, run_backend)], fb_capacities := [(1, run_capacity)]\<rparr>"

text \<open>What evaluates a step on an explicit state.\<close>

lemmas run_simps = fabric0_def take_lock_def valid_def locked_scope_def keeps_in_memory_def store0_def
  persistence_config0_def push_event_def publish_def Let_def when_open_def unless_shutdown_def assign_id_def
  add_overflow_def opened_def

lemma s_capacity: "\<exists>m l r. s_capacity = capped (opened 7 m l r)"
proof -
  obtain m l r where s: "s_open = opened 5 m l r" using s_open by blast
  show ?thesis
    unfolding s_capacity_def s_backend_def s
    by (simp add: run_simps attach_backend_def capacity_publish_def run_authority_def journal_memory capped_def run_capacity_def)
qed

definition run_policy1 :: pool_policy where
  "run_policy1 = run_policy\<lparr>pol_id := 1, pol_generation := 1\<rparr>"

definition governed :: "fabric \<Rightarrow> fabric" where
  "governed f = f\<lparr>next_policy_id := 2, fb_policies := [(1, run_policy1)], fb_policy_names := [(''std'', 1)]\<rparr>"

lemma run_policy1_valid: "policy_validate run_policy1 = Inr ()"
  by code_simp

lemma s_policy: "\<exists>m l r. s_policy = governed (capped (opened 8 m l r))"
proof -
  obtain m l r where s: "s_capacity = capped (opened 7 m l r)" using s_capacity by blast
  have f: "pol_name run_policy1 = ''std''" "pol_id run_policy1 = 1" "pol_generation run_policy1 = 1"
    "fence_on_generation_change run_policy1" "name_fits ''std''"
    by (simp_all add: run_policy1_def run_policy_def pool_policy0_def name_fits_def kMaxEncodedStringBytes_def)
  have n: "run_policy\<lparr>pol_id := 1, pol_generation := 1\<rparr> = run_policy1" "pol_id run_policy = 0"
     "pol_name run_policy = ''std''"
    by (simp_all add: run_policy1_def run_policy_def pool_policy0_def)
  show ?thesis
    unfolding s_policy_def s
    by (simp add: run_simps fabric_publish_policy_def publish_policy_locked_def policy_revision_def policy_store_def n
         run_policy1_valid journal_memory restore_policy_def f capped_def governed_def kMaxPolicyCount_def)
qed


definition run_descriptor :: pool_descriptor where
  "run_descriptor = descriptor_of run_pool 1 9"

definition pooled :: "fabric \<Rightarrow> fabric" where
  "pooled f = f\<lparr>next_pool_id := 2, fb_pools := [(1, entry_of run_descriptor 1)], fb_pool_names := [(''gpu0'', 1)]\<rparr>"

lemma run_descriptor_facts:
  "pool_validate run_descriptor = Inr ()" "pd_id run_descriptor = 1" "pd_name run_descriptor = ''gpu0''"
  "pd_backend run_descriptor = 1" "pd_policy run_descriptor = 1" "pd_parent run_descriptor = 0"
  "pd_resource run_descriptor = 1" "raw_units run_descriptor = 100" "protected_units run_descriptor = 10"
  "pd_generation run_descriptor = 1" "pd_retired run_descriptor = False"
  by code_simp+

lemma s_pool: "\<exists>m l r. s_pool = pooled (governed (capped (opened 9 m l r)))"
proof -
  obtain m l r where s: "s_policy = governed (capped (opened 8 m l r))" using s_policy by blast
  have "name_fits ''gpu0''" "pg_id run_pool = 0" by (simp_all add: name_fits_def run_pool_def)
  then show ?thesis
    unfolding s_pool_def s
    by (simp add: run_simps fabric_register_pool_def register_pool_locked_def register_check_def journal_memory
        run_descriptor_def[symmetric] run_descriptor_facts restore_entry_def governed_def capped_def pooled_def
        kMaxPoolCount_def run_capacity_def)
qed

definition run_queue1 :: queue_descriptor where
  "run_queue1 = queue_of run_queue 1 10"

definition queued :: "fabric \<Rightarrow> fabric" where
  "queued f = f\<lparr>next_queue_id := 2, fb_queues := [(1, run_queue1)], fb_queue_names := [(''q'', 1)]\<rparr>"

lemma run_queue1_facts:
  "qd_id run_queue1 = 1" "qd_name run_queue1 = ''q''" "qd_pool run_queue1 = 1" "qd_demand_units run_queue1 = 0"
  "max_committed_units run_queue1 = 0" "qd_retired run_queue1 = False" "qd_generation run_queue1 = 1"
  "is_valid_name ''q''"
  by code_simp+

lemma s_queue: "\<exists>m l r. s_queue = queued (pooled (governed (capped (opened 10 m l r))))"
proof -
  obtain m l r where s: "s_pool = pooled (governed (capped (opened 9 m l r)))" using s_pool by blast
  have "name_fits ''q''" "qg_id run_queue = 0" by (simp_all add: name_fits_def run_queue_def)
  then show ?thesis
    unfolding s_queue_def s
    by (simp add: run_simps fabric_register_queue_def register_queue_locked_def journal_memory
        run_queue1_def[symmetric] run_queue1_facts restore_queue_def governed_def capped_def pooled_def queued_def
        kMaxQueueCount_def)
qed

definition run_evidence :: pressure_snapshot where
  "run_evidence = run_snapshot\<lparr>ps_id := 1, ps_observed_at := 11, ps_ttl_ticks := 2000000000, ps_boot := run_boot\<rparr>"

definition observed :: "fabric \<Rightarrow> fabric" where
  "observed f = f\<lparr>next_snapshot_id := 2,
     fb_pressure := [(1, \<lparr>px_history = [run_evidence], px_latest = Some run_evidence, px_latest_revalidated = False\<rparr>)]\<rparr>"

lemma run_policy1_fields:
  "evidence_ttl_ticks (pressure run_policy1) = 2000000000" "refuse_increase_on_unknown (pressure run_policy1)"
  "refuse_grants_at run_policy1 = Critical" "reduce_at run_policy1 = High"
  "overcommit run_policy1 = \<lparr>oc_mode = OcForbid, oc_limit_units = 0\<rparr>"
  "borrow run_policy1 = \<lparr>bw_mode = BwForbid, bw_limit_units = 0\<rparr>"
  "max_single_request_units run_policy1 = 0" "max_single_allocation_units run_policy1 = 0"
  "soft_limit_bp run_policy1 = 0" "allow_partial_grant run_policy1" "pol_generation run_policy1 = 1"
  "pr_thresholds (pressure run_policy1) = thresholds0"
  by (simp_all add: run_policy1_def run_policy_def pool_policy0_def)

lemma s_ready: "\<exists>m l r. s_ready = observed (queued (pooled (governed (capped (opened 11 m l r)))))"
proof -
  obtain m l r where s: "s_queue = queued (pooled (governed (capped (opened 10 m l r))))" using s_queue by blast
  show ?thesis
    unfolding s_ready_def s
    by (simp add: run_simps fabric_observe_pressure_def observe_pressure_locked_def journal_memory require_pool_def
        run_snapshot_def run_descriptor_facts entry_of_def governed_def capped_def pooled_def queued_def observed_def
        run_evidence_def stamp_snapshot_def policy_of_def run_policy1_fields keep_snapshot_def pressure_entry0_def
        bump_def kMaxUnitsPerPool_def fabric_config0_def)
qed


subsection \<open>The grant\<close>

definition ready :: "tick \<Rightarrow> fabric_metrics \<Rightarrow> ring_sink \<Rightarrow> recovery_report \<Rightarrow> fabric" where
  "ready t m l r = observed (queued (pooled (governed (capped (opened t m l r)))))"

lemmas ready_simps = ready_def observed_def queued_def pooled_def governed_def capped_def opened_def fabric0_def

lemma ready_fields:
  "fb_pools (ready t m l r) = [(1, entry_of run_descriptor 1)]" "fb_queues (ready t m l r) = [(1, run_queue1)]"
  "fb_policies (ready t m l r) = [(1, run_policy1)]" "fb_allocations (ready t m l r) = []"
  "fb_open (ready t m l r)" "\<not> fb_shutting_down (ready t m l r)" "fb_epoch (ready t m l r) = 1"
  "fb_tick (ready t m l r) = t" "fb_attempts (ready t m l r) = []" "next_allocation_id (ready t m l r) = 1"
  "fb_config (ready t m l r) = fabric_config0" "fb_store (ready t m l r) = store0" "fb_events (ready t m l r) = []"
  "fb_pressure (ready t m l r) = [(1, \<lparr>px_history = [run_evidence], px_latest = Some run_evidence, px_latest_revalidated = False\<rparr>)]"
  "fb_backends (ready t m l r) = [(1, run_backend)]"
  by (simp_all add: ready_simps)

lemma run_usable: "en_usable (entry_of run_descriptor 1) = 90"
  by (simp add: en_usable_def usable_units_def entry_of_def run_descriptor_facts)

lemma ready_evidence:
  assumes "11 \<le> t" "t \<le> 1000"
  shows "pe_state (resolve_evidence (entry_of run_descriptor 1) (ready t m l r)) = Clear"
proof -
  have "ob_state (observation_of (entry_of run_descriptor 1) (ready t m l r)) = Clear"
    by (simp add: observation_of_def policy_of_def ready_fields run_descriptor_facts run_policy1_fields
        en_overcommit_used_def run_usable) code_simp
  moreover have "is_fresh t 11 2000000000"
    using assms unat_sub[of 11 t] by (simp add: is_fresh_def word_le_nat_alt word_less_nat_alt)
  ultimately show ?thesis
    by (simp add: resolve_evidence_def Let_def ready_fields run_descriptor_facts run_evidence_def run_snapshot_def
        unknown_evidence_def)
qed

lemma ready_grant:
  "gc_max_grant (compute_grant (entry_of run_descriptor 1) run_policy1 f) = 90"
  "gc_own_free (compute_grant (entry_of run_descriptor 1) run_policy1 f) = 90"
  "gc_binding (compute_grant (entry_of run_descriptor 1) run_policy1 f) = BcCapacity"
  by (simp_all add: compute_grant_def Let_def run_policy1_fields en_free_units_def en_overcommit_used_def run_usable
      sat_add_def add_overflow_def)


lemma run_request_facts:
  "ar_pool (run_request i u) = 1" "ar_queue (run_request i u) = 1" "ar_attempt (run_request i u) = i"
  "ar_requested_units (run_request i u) = u" "ar_commit_immediately (run_request i u)"
  "ar_reclaim_class (run_request i u) = Reclaimable" "ar_ttl_ticks (run_request i u) = 0"
  "ar_parent_allocation (run_request i u) = 0" "ar_expected_epoch (run_request i u) = 0"
  "ar_expected_pool_generation (run_request i u) = 0" "ar_expected_policy_generation (run_request i u) = 0"
  "ar_expected_queue_generation (run_request i u) = 0" "ar_expected_capacity_generation (run_request i u) = 0"
  by (simp_all add: run_request_def)

lemma ready_decides:
  "decide_grant (run_request i 40) (entry_of run_descriptor 1) run_queue1 run_policy1 st
     (compute_grant (entry_of run_descriptor 1) run_policy1 f) = (40, BcCapacity)"
  by (simp add: decide_grant_def grant_limit_def queue_cap_def soft_cap_def run_policy1_fields run_queue1_facts
      ready_grant run_request_facts Let_def)

lemma ready_allocates:
  assumes "11 \<le> t" "t \<le> 1000"
  shows "allocate_locked (run_request 1 40) (ready t m l r) =
    allocate_grant (run_request 1 40) (entry_of run_descriptor 1) run_queue1 run_policy1
      (resolve_evidence (entry_of run_descriptor 1) (ready t m l r))
      (compute_grant (entry_of run_descriptor 1) run_policy1 (ready t m l r)) 40 BcCapacity (ready t m l r)"
  by (simp add: allocate_locked_def ready_fields run_request_facts valid_def kMaxUnitsPerPool_def
      ensure_alloc_capacity_def kMaxAllocationCount_def lookup_attempt_def require_pool_def require_queue_def
      require_policy_def policy_of_def run_descriptor_facts run_queue1_facts stale_request_def allocate_decide_def Let_def
      ready_evidence[OF assms] evidence_usable_def pressure_is_known_def run_policy1_fields pressure_at_least_def
      ready_decides word_le_nat_alt)

lemma publish_pools [simp]:
  "fb_pools (publish f) = fb_pools f" "fb_policies (publish f) = fb_policies f"
  "fb_allocations (publish f) = fb_allocations f"
  by (simp_all add: publish_def)

definition run_record :: "tick \<Rightarrow> allocation_record \<Rightarrow> bool" where
  "run_record t a \<longleftrightarrow> al_id a = 1 \<and> al_pool a = 1 \<and> al_queue a = 1 \<and> al_units a = 40 \<and> al_state a = ACommitted \<and>
     borrow_units a = 0 \<and> al_reclaim_class a = Reclaimable"

lemma ready_builds:
  "\<exists>a. build_record (run_request 1 40) (entry_of run_descriptor 1) run_queue1 run_policy1
     (compute_grant (entry_of run_descriptor 1) run_policy1 f') 40 (ready t m l r) = Inr a \<and> run_record t a"
  by (simp add: build_record_def Let_def ready_fields run_request_facts add_overflow_def lineage_for_def valid_def
      borrow_for_def ready_grant run_record_def run_descriptor_facts run_queue1_facts)

lemma ready_grants:
  assumes inv: "fabric_inv (ready t m l r)" and t: "11 \<le> t" "t \<le> 1000"
  obtains d h e a where "allocate_locked (run_request 1 40) (ready t m l r) = (Inr d, h)" "dc_granted_units d = 40"
    "dc_allocation d = 1" "fabric_inv h" "map_of (fb_pools h) 1 = Some e" "en_descriptor e = run_descriptor"
    "en_committed_units e = 40" "en_own_usage e = 40" "fb_allocations h = [(1, a)]" "run_record t a"
    "dc_status d = Ok"
proof -
  let ?f = "ready t m l r" and ?e = "entry_of run_descriptor 1"
  obtain a where a: "build_record (run_request 1 40) ?e run_queue1 run_policy1 (compute_grant ?e run_policy1 ?f) 40 ?f = Inr a"
    "run_record t a"
    using ready_builds by blast
  have e: "map_of (fb_pools ?f) (ar_pool (run_request 1 40)) = Some ?e" "policy_of ?e ?f = Some run_policy1"
    by (simp_all add: ready_fields run_request_facts policy_of_def run_descriptor_facts)
  have mem: "journal_allocation (journal_op_for (al_state a)) a ?f = (Inr (), ?f)"
    by (rule journal_in_memory) (simp add: keeps_in_memory_def ready_fields store0_def persistence_config0_def)
  have lim: "within_limit ?e run_policy1" by (simp add: within_limit_def)
  have g: "40 \<le> gc_max_grant (compute_grant ?e run_policy1 ?f)" "unat (40 :: u64) \<le> 2 ^ 60" "(40 :: u64) \<noteq> 0"
    by (simp_all add: ready_grant)
  note allocates = ready_allocates[OF t, of m l r]
  obtain d h where h: "allocate_locked (run_request 1 40) ?f = (Inr d, h)" "dc_granted_units d = 40"
    "dc_allocation d = al_id a" "fabric_inv h" "fb_allocations h = AList.update (al_id a) a (fb_allocations ?f)"
    "shifted (\<lambda>_ _. 0) (\<lambda>acc p. charge acc p a) ?f h" "dc_status d = Ok"
    using allocate_grant_done[OF inv e mem lim a(1) g, of "resolve_evidence ?e ?f" BcCapacity]
    unfolding allocates by blast
  obtain e' where e': "map_of (fb_pools h) 1 = Some e'"
    using shifted_keys[OF h(6), of 1] by (auto simp: ready_fields)
  have c: "en_descriptor e' = run_descriptor" "balance AcCommitted e' = charge AcCommitted 1 a"
    "balance AcOwn e' = charge AcOwn 1 a"
    using shifted_at[OF h(6) e', of AcCommitted] shifted_at[OF h(6) e', of AcOwn] by (auto simp: ready_fields entry_of_def)
  have "charge AcCommitted 1 a = 40" "charge AcOwn 1 a = 40"
    using a(2) by (simp_all add: run_record_def charge_def holds_units_def allocation_holds_units_def lent_charge_def
        effective_borrow_def)
  with c have u: "en_committed_units e' = 40" "en_own_usage e' = 40" by (simp_all add: word_unat_eq_iff)
  have i: "al_id a = 1" using a(2) by (simp add: run_record_def)
  show thesis
    by (rule that[OF h(1,2) _ h(4) e' c(1) u _ a(2) h(7)]) (use h(3,5) i in \<open>simp_all add: ready_fields\<close>)
qed

lemma s_ready_is_ready:
  obtains m l r where "s_ready = ready 11 m l r" "fabric_inv (ready 11 m l r)"
    "(take_lock 12 s_ready)\<lparr>fb_events := []\<rparr> = ready 12 m l r" "fabric_inv (ready 12 m l r)"
proof -
  obtain m l r where s: "s_ready = ready 11 m l r" using s_ready unfolding ready_def by blast
  have t: "(take_lock 12 s_ready)\<lparr>fb_events := []\<rparr> = ready 12 m l r"
    by (simp add: s take_lock_def ready_simps)
  have i: "fabric_inv s_ready" by (rule reachable_inv[OF run_reachable(1)])
  have "fabric_inv ((take_lock 12 s_ready)\<lparr>fb_events := []\<rparr>)" using i by simp
  with that s t i show thesis by metis
qed

lemma run_ticks: "(11 :: tick) \<le> 11" "(11 :: tick) \<le> 12" "(11 :: tick) \<le> 1000" "(12 :: tick) \<le> 1000"
  by (simp_all add: word_le_nat_alt)

lemma s_granted:
  obtains d e a where "fst (fabric_allocate 12 (run_request 1 40) s_ready) = Inr d" "dc_granted_units d = 40"
    "dc_allocation d = 1" "map_of (fb_pools s_granted) 1 = Some e" "en_descriptor e = run_descriptor"
    "en_committed_units e = 40" "en_own_usage e = 40" "fb_allocations s_granted = [(1, a)]" "run_record 12 a"
    "dc_status d = Ok"
proof -
  obtain m l r where s: "(take_lock 12 s_ready)\<lparr>fb_events := []\<rparr> = ready 12 m l r" "fabric_inv (ready 12 m l r)"
    using s_ready_is_ready by metis
  obtain d h e a where h: "allocate_locked (run_request 1 40) (ready 12 m l r) = (Inr d, h)" "dc_granted_units d = 40"
    "dc_allocation d = 1" "map_of (fb_pools h) 1 = Some e" "en_descriptor e = run_descriptor"
    "en_committed_units e = 40" "en_own_usage e = 40" "fb_allocations h = [(1, a)]" "run_record 12 a"
    "dc_status d = Ok"
    using ready_grants[OF s(2) run_ticks(2,4)] by metis
  have al: "fst (fabric_allocate 12 (run_request 1 40) s_ready) = Inr d" "s_granted = publish h"
    using h(1) by (simp_all add: s_granted_def fabric_allocate_def locked_def s(1))
  show thesis
    by (rule that[OF al(1) h(2,3) _ h(5-7) _ h(9,10)]) (use h(4,8) in \<open>simp_all add: al(2)\<close>)
qed

end
