(* ===== verification/Guarantees.thy ===== *)
theory Guarantees
  imports Worked_Run
begin

text \<open>
  What the runtime guarantees to its callers: the ledger is exact in every reachable state, no
  allocation pushes a pool past its limit, nothing is granted without usable evidence, attempts take
  effect at most once, a decided grant is carried out, and the well-formedness of all tables.
\<close>

subsection \<open>The outcomes of allocate\<close>

lemma finish_kind:
  "fst (allocate_finish q queue policy evidence kind code units allocation binding intent lender f) = Inr d \<Longrightarrow>
     dc_kind d = kind \<and> dc_granted_units d = units \<and> dc_status d = code \<and> dc_allocation d = allocation"
  by (auto simp: allocate_finish_def make_decision_def Let_def split: option.splits)

definition evidence_permits :: "pool_entry \<Rightarrow> pool_policy \<Rightarrow> fabric \<Rightarrow> bool" where
  "evidence_permits e policy f \<longleftrightarrow>
     (let evidence = resolve_evidence e f in
      (evidence_usable evidence \<or> \<not> refuse_increase_on_unknown (pressure policy)) \<and>
      \<not> (pressure_is_known (pe_state evidence) \<and> refuse_grants_at policy \<noteq> Unknown \<and>
         pressure_at_least (pe_state evidence) (refuse_grants_at policy)))"

text \<open>Allocate leaves the ledger alone and grants nothing new, or it carries out a decided grant on
  a pool whose evidence permits it.\<close>

lemma allocate_cases:
  obtains (kept) "ledger_view (snd (allocate_locked q f)) = ledger_view f"
      "\<And>d. fst (allocate_locked q f) = Inr d \<Longrightarrow> dc_kind d = IdempotentReplay \<or> dc_granted_units d = 0"
  | (decided) e queue policy g binding where
      "map_of (fb_pools f) (ar_pool q) = Some e" "map_of (fb_queues f) (ar_queue q) = Some queue"
      "policy_of e f = Some policy" "evidence_permits e policy f"
      "lookup_attempt (ar_attempt q) (allocate_request_digest q) f = Inr None"
      "unat (ar_requested_units q) \<le> 2 ^ 60" "\<not> pd_retired (en_descriptor e)" "\<not> qd_retired queue"
      "decide_grant q e queue policy (pe_state (resolve_evidence e f)) (compute_grant e policy f) = (g, binding)" "g \<noteq> 0"
      "allocate_locked q f = allocate_grant q e queue policy (resolve_evidence e f) (compute_grant e policy f) g binding f"
proof (cases "\<exists>previous e queue policy. fb_open f \<and> \<not> (fb_shutting_down f \<and> refuse_work_after_shutdown (fb_config f)) \<and>
    valid (ar_attempt q) \<and> ar_requested_units q \<noteq> 0 \<and> \<not> ar_requested_units q > kMaxUnitsPerPool \<and>
    ensure_alloc_capacity f = Inr () \<and> lookup_attempt (ar_attempt q) (allocate_request_digest q) f = Inr previous \<and>
    require_pool (ar_pool q) f = Inr e \<and> require_queue (ar_queue q) f = Inr queue \<and> require_policy e f = Inr policy")
  case False
  then have "\<exists>code. allocate_locked q f = (Inl code, f)"
    by (auto simp: allocate_locked_def try_r_def split: sum.split)
  then show ?thesis using kept by auto
next
  case True
  then obtain previous e queue policy where c:
    "fb_open f" "\<not> (fb_shutting_down f \<and> refuse_work_after_shutdown (fb_config f))" "valid (ar_attempt q)"
    "ar_requested_units q \<noteq> 0" "\<not> ar_requested_units q > kMaxUnitsPerPool" "ensure_alloc_capacity f = Inr ()"
    "lookup_attempt (ar_attempt q) (allocate_request_digest q) f = Inr previous" "require_pool (ar_pool q) f = Inr e"
    "require_queue (ar_queue q) f = Inr queue" "require_policy e f = Inr policy" by blast
  show ?thesis
  proof (cases previous)
    case (Some p)
    then have eq: "allocate_locked q f = replay_decision p (ar_attempt q) e (qd_id queue) (ar_requested_units q) (at_allocation p) f"
      using c by (auto simp: allocate_locked_def)
    have "\<And>d. fst (allocate_locked q f) = Inr d \<Longrightarrow> dc_kind d = IdempotentReplay"
      unfolding eq by (auto simp: replay_decision_def make_decision_def Let_def)
    then show ?thesis using kept outcome_view(4) unfolding eq by metis
  next
    case None
    then have eq: "allocate_locked q f = (Inl StaleEpoch, f) \<or> allocate_locked q f = (Inl StaleGeneration, f) \<or>
        allocate_locked q f = (Inl InvalidArgument, f) \<or> allocate_locked q f = allocate_decide q e queue policy f"
      using c by (auto simp: allocate_locked_def)
    obtain g binding where d: "decide_grant q e queue policy (pe_state (resolve_evidence e f)) (compute_grant e policy f) = (g, binding)"
      by fastforce
    have "(ledger_view (snd (allocate_decide q e queue policy f)) = ledger_view f \<and>
        (\<forall>d. fst (allocate_decide q e queue policy f) = Inr d \<longrightarrow> dc_granted_units d = 0)) \<or>
        (\<not> pd_retired (en_descriptor e) \<and> \<not> qd_retired queue \<and> evidence_permits e policy f \<and> g \<noteq> 0 \<and>
         allocate_decide q e queue policy f =
           allocate_grant q e queue policy (resolve_evidence e f) (compute_grant e policy f) g binding f)"
      by (simp add: allocate_decide_def Let_def d evidence_permits_def outcome_view) (auto dest!: finish_kind)
    with eq show ?thesis
      using kept decided[of e queue policy g binding] c None d
      by (auto simp: require_Inr kMaxUnitsPerPool_def word_less_nat_alt)
  qed
qed


subsection \<open>Every reachable state\<close>

lemma reachable_ledger_inv: "reachable f \<Longrightarrow> ledger_inv f"
  using reachable_inv by (simp add: fabric_inv_def)

text \<open>C1: the ledger is exact.  In every state that a sequence of public operations can reach from an empty
  fabric, in any order and with any outcome, opened in memory or recovered from a sound durable image, where each
  release's proportional share fits in 64 bits and is journaled when durable, each aggregate of each pool (the per-queue buckets included) is the sum of
  what the holding allocations charge to it, with no wrap-around; what a pool holds is what it
  uses of its own plus what it borrowed, less what it lent; and pinned and reclaimable units divide it.\<close>

theorem reachable_ledger_exact:
  assumes "reachable f" "map_of (fb_pools f) p = Some e"
  shows "(\<forall>acc. balance acc e = asum (charge acc p) (fb_allocations f)) \<and>
    unat (allocated e) + unat (en_lent_out e) = unat (en_own_usage e) + unat (en_borrowed_in e) \<and>
    unat (en_pinned_units e) + unat (en_reclaimable_units e) = unat (allocated e)"
  using balance_bounds[OF reachable_ledger_inv[OF assms(1)] assms(2)]
    ledger_invD(4)[OF reachable_ledger_inv[OF assms(1)] assms(2)]
  by (simp add: books_def)

theorem reachable_ledger_exact_witness:
  "\<exists>e a. map_of (fb_pools s_granted) 1 = Some e \<and> fb_allocations s_granted = [(1, a)] \<and>
     charge AcCommitted 1 a = 40 \<and> unat (en_committed_units e) = charge AcCommitted 1 a"
proof -
  obtain d e a where s: "map_of (fb_pools s_granted) 1 = Some e" "en_committed_units e = 40"
    "fb_allocations s_granted = [(1, a)]"
    using s_granted by metis
  have "balance AcCommitted e = asum (charge AcCommitted 1) (fb_allocations s_granted)"
    using reachable_ledger_exact[OF run_reachable(2) s(1)] by blast
  with s show ?thesis by auto
qed

text \<open>C6: the tables are well formed.  In every state that operations reach from an empty fabric, in any order and with any outcome (releases within
  the guard of the state machine; no state directory is opened on the way, since what is found there may be anything), a pool is stored under its id with a
  valid descriptor, parents are registered and form no cycle, published policies are valid, allocation
  ids are unique and below the next one, and a record that holds units has a nonzero amount, a loan no
  larger than it, a registered pool and, when it borrows, a registered lender.\<close>

theorem reachable_well_formed:
  assumes "operation_step\<^sup>*\<^sup>* fabric0 f"
  shows "(\<forall>p e. map_of (fb_pools f) p = Some e \<longrightarrow> pool_validate (en_descriptor e) = Inr () \<and> pd_id (en_descriptor e) = p) \<and>
    (\<exists>rank :: u64 \<Rightarrow> nat. \<forall>p e. map_of (fb_pools f) p = Some e \<longrightarrow> pd_parent (en_descriptor e) \<noteq> 0 \<longrightarrow>
       map_of (fb_pools f) (pd_parent (en_descriptor e)) \<noteq> None \<and> rank (pd_parent (en_descriptor e)) < rank p) \<and>
    (\<forall>i policy. map_of (fb_policies f) i = Some policy \<longrightarrow> policy_validate policy = Inr ()) \<and>
    distinct (map fst (fb_allocations f)) \<and>
    (\<forall>i a. map_of (fb_allocations f) i = Some a \<longrightarrow> al_id a = i \<and> i < next_allocation_id f \<and>
       (holds_units a \<longrightarrow> al_units a \<noteq> 0 \<and> borrow_units a \<le> al_units a \<and> map_of (fb_pools f) (al_pool a) \<noteq> None \<and>
          (borrow_units a \<noteq> 0 \<longrightarrow> map_of (fb_pools f) (al_lender a) \<noteq> None)))"
proof (intro conjI)
  have inv: "ledger_inv f" "ids_fresh f" using operations_inv[OF assms] by (simp_all add: fabric_inv_def)
  show "\<forall>p e. map_of (fb_pools f) p = Some e \<longrightarrow> pool_validate (en_descriptor e) = Inr () \<and> pd_id (en_descriptor e) = p"
    using ledger_invD(1)[OF inv(1)] by (auto simp: entry_ok_def)
  obtain rank where "ranks f rank" and known: "\<And>p q. parent_of f p = Some q \<Longrightarrow> q \<noteq> 0 \<Longrightarrow> parent_of f q \<noteq> None"
    using ledger_invD(5)[OF inv(1)] by (auto simp: tree_ok_def)
  then have "map_of (fb_pools f) (pd_parent (en_descriptor e)) \<noteq> None \<and> rank (pd_parent (en_descriptor e)) < rank p"
    if "map_of (fb_pools f) p = Some e" "pd_parent (en_descriptor e) \<noteq> 0" for p e
    using that known[of p "pd_parent (en_descriptor e)"] by (auto simp: ranks_def parent_of_def)
  then show "\<exists>rank :: u64 \<Rightarrow> nat. \<forall>p e. map_of (fb_pools f) p = Some e \<longrightarrow> pd_parent (en_descriptor e) \<noteq> 0 \<longrightarrow>
       map_of (fb_pools f) (pd_parent (en_descriptor e)) \<noteq> None \<and> rank (pd_parent (en_descriptor e)) < rank p" by blast
  show "\<forall>i policy. map_of (fb_policies f) i = Some policy \<longrightarrow> policy_validate policy = Inr ()"
    using ledger_invD(3)[OF inv(1)] by blast
  show "distinct (map fst (fb_allocations f))" using inv(2) by (simp add: ids_fresh_def)
  have "i < next_allocation_id f" if "map_of (fb_allocations f) i = Some a" for i a
    using inv(2) map_of_SomeD[OF that] by (force simp: ids_fresh_def)
  then show "\<forall>i a. map_of (fb_allocations f) i = Some a \<longrightarrow> al_id a = i \<and> i < next_allocation_id f \<and>
       (holds_units a \<longrightarrow> al_units a \<noteq> 0 \<and> borrow_units a \<le> al_units a \<and> map_of (fb_pools f) (al_pool a) \<noteq> None \<and>
          (borrow_units a \<noteq> 0 \<longrightarrow> map_of (fb_pools f) (al_lender a) \<noteq> None))"
    using ledger_invD(2)[OF inv(1)] by (auto simp: record_ok_def)
qed

theorem reachable_well_formed_witness:
  "\<exists>a. map_of (fb_allocations s_granted) 1 = Some a \<and> al_id a = 1 \<and> al_units a = 40 \<and>
     map_of (fb_pools s_granted) (al_pool a) \<noteq> None"
proof -
  obtain a where a: "fb_allocations s_granted = [(1, a)]" "run_record 12 a" using s_granted by metis
  then have m: "map_of (fb_allocations s_granted) 1 = Some a" "holds_units a"
    by (simp_all add: run_record_def holds_units_def allocation_holds_units_def)
  then have "al_id a = 1" "map_of (fb_pools s_granted) (al_pool a) \<noteq> None"
    using reachable_well_formed[OF run_by_operations] by blast+
  with m(1) a(2) show ?thesis by (auto simp: run_record_def)
qed

subsection \<open>Capacity\<close>

definition limit_units :: "pool_entry \<Rightarrow> fabric \<Rightarrow> nat" where
  "limit_units e f = (case policy_of e f of None \<Rightarrow> 0 | Some policy \<Rightarrow> overcommit_limit policy)"

lemma granted_limit:
  assumes inv: "ledger_inv f" and e: "map_of (fb_pools f) (ar_pool q) = Some e" and pol: "policy_of e f = Some policy"
    and b: "build_record q e queue policy (compute_grant e policy f) g f = Inr a"
    and g: "g \<le> gc_max_grant (compute_grant e policy f)" "unat g \<le> 2 ^ 60" "g \<noteq> 0"
    and x: "map_of (fb_pools f) p = Some x"
  shows "unat (en_own_usage x) + charge AcOwn p a \<le> max (unat (en_own_usage x)) (unat (en_usable x) + limit_units x f)"
proof -
  note ga = build_record_grantable[OF inv e pol b g] and bf = build_record_fields[OF b]
  have eb: "effective_borrow a = borrow_units a" using ga(1) by (simp add: grantable_def effective_borrow_def)
  have valid: "policy_validate policy = Inr ()" using pol ledger_invD(3)[OF inv] by (auto simp: policy_of_def)
  have gn: "unat g \<le> unat (gc_max_grant (compute_grant e policy f))" using g(1) by (simp add: word_le_nat_alt)
  have ne: "borrow_units a \<noteq> 0 \<Longrightarrow> al_lender a \<noteq> al_pool a" using ga(1) by (simp add: grantable_def)
  consider (holder) "al_pool a = p" | (lender) "al_pool a \<noteq> p" "al_lender a = p" "borrow_units a \<noteq> 0"
    | (other) "al_pool a \<noteq> p" "al_lender a \<noteq> p \<or> borrow_units a = 0" by blast
  then show ?thesis
  proof cases
    case holder
    then have "x = e" "p = ar_pool q" using x e ga(2) by auto
    moreover have "charge AcOwn p a = unat g - unat (borrow_for g (compute_grant e policy f))"
      using holder ne bf(4,5,7) by (cases "borrow_units a = 0") (auto simp: charge_def lent_charge_def eb)
    ultimately show ?thesis
      using grant_own_bound(1)[OF inv e valid refl gn] pol by (simp add: limit_units_def)
  next
    case lender
    then have "unat (borrow_units a) \<le> unat (en_free_units x)" using ga(1) x by (auto simp: grantable_def)
    from lender_room(2)[OF ledger_sums_ok[OF inv x] this lender(3)] show ?thesis
      using lender by (auto simp: charge_def lent_charge_def eb)
  next
    case other
    then show ?thesis by (auto simp: charge_def lent_charge_def eb)
  qed
qed

lemma view_own_usage:
  assumes "ledger_view g = ledger_view f" "map_of (fb_pools f) p = Some x" "map_of (fb_pools g) p = Some x'"
  shows "en_own_usage x' = en_own_usage x"
proof -
  have "map_option plain (map_of (fb_pools g) p) = map_option plain (map_of (fb_pools f) p)"
    using assms(1) map_of_map_snd[of plain "fb_pools f" p] map_of_map_snd[of plain "fb_pools g" p]
    by (simp add: ledger_view_def)
  then show ?thesis using assms(2,3) plain_fields(3) by (metis option.map(2) option.inject)
qed

lemma allocate_grant_effect:
  assumes inv: "fabric_inv f" and e: "map_of (fb_pools f) p = Some e" and pol: "policy_of e f = Some policy"
    and g: "g \<le> gc_max_grant (compute_grant e policy f)" "unat g \<le> 2 ^ 60" "g \<noteq> 0"
  obtains (kept) "ledger_view (snd (allocate_grant q e queue policy evidence (compute_grant e policy f) g binding f)) = ledger_view f"
  | (carried) a where "build_record q e queue policy (compute_grant e policy f) g f = Inr a"
      "shifted (\<lambda>_ _. 0) (\<lambda>acc p. charge acc p a) f (snd (allocate_grant q e queue policy evidence (compute_grant e policy f) g binding f))"
proof (cases "build_record q e queue policy (compute_grant e policy f) g f")
  case (Inl code)
  then show ?thesis using kept by (simp add: allocate_grant_def)
next
  case (Inr a)
  have li: "ledger_inv f" using inv by (simp add: fabric_inv_def)
  note ga = build_record_grantable[OF li e pol Inr g] and bf = build_record_fields[OF Inr]
  show ?thesis
  proof (cases rule: allocate_apply_cases[OF inv ga(1) bf(1,2), of policy])
    case (1 code)
    then have "ledger_view (snd (allocate_grant q e queue policy evidence (compute_grant e policy f) g binding f)) = ledger_view f"
      unfolding allocate_grant_def Inr sum.case by (cases "allocate_apply a policy f") simp
    then show ?thesis by (rule kept)
  next
    case (2 h)
    have "ledger_view (snd (allocate_grant q e queue policy evidence (compute_grant e policy f) g binding f)) = ledger_view h"
      unfolding allocate_grant_def Inr sum.case 2(1) try_st_simps
      by (auto simp: outcome_view Let_def split: option.split intro!: view_try_st)
    then show ?thesis using carried[OF Inr] shifted_view[OF 2(4)] by blast
  qed
qed

text \<open>C2: no overcommitment beyond the limit.  Whatever allocate returns, no pool's own usage (its
  holdings from its own capacity plus what it lends) ends above the larger of what it was and the pool's
  usable capacity plus its policy's overcommit limit, and a grant is at most what was asked for.\<close>

theorem allocate_respects_limits:
  assumes "reachable f" "map_of (fb_pools f) p = Some x"
    and "map_of (fb_pools (snd (allocate_locked q f))) p = Some x'"
  shows "unat (en_own_usage x') \<le> max (unat (en_own_usage x)) (unat (en_usable x) + limit_units x f) \<and>
    (\<forall>d. fst (allocate_locked q f) = Inr d \<longrightarrow> dc_kind d \<noteq> IdempotentReplay \<longrightarrow> dc_granted_units d \<le> ar_requested_units q)"
proof (cases rule: allocate_cases[of q f])
  case kept
  then show ?thesis using view_own_usage[OF kept(1) assms(2,3)] by fastforce
next
  case (decided e queue policy g binding)
  let ?c = "compute_grant e policy f" and ?ev = "resolve_evidence e f"
  have inv: "fabric_inv f" "ledger_inv f" using reachable_inv[OF assms(1)] by (simp_all add: fabric_inv_def)
  have gl: "g \<le> ar_requested_units q" "g \<le> gc_max_grant ?c" using decide_grant_le[OF decided(9)] by simp_all
  have ug: "unat g \<le> 2 ^ 60" using gl(1) decided(6) by (simp add: word_le_nat_alt)
  have units: "dc_granted_units d = g" if "fst (allocate_locked q f) = Inr d" for d
    using that unfolding decided(11)
    by (auto simp: allocate_grant_def Let_def try_st_def dest!: finish_kind
        split: sum.splits prod.splits option.splits if_splits) (auto dest!: arg_cong[of _ _ fst] finish_kind)
  have own: "unat (en_own_usage x') \<le> max (unat (en_own_usage x)) (unat (en_usable x) + limit_units x f)"
  proof (rule allocate_grant_effect[OF inv(1) decided(1,3) gl(2) ug decided(10)])
    assume "ledger_view (snd (allocate_grant q e queue policy ?ev ?c g binding f)) = ledger_view f"
    from view_own_usage[OF this assms(2)] assms(3)
    show "unat (en_own_usage x') \<le> max (unat (en_own_usage x)) (unat (en_usable x) + limit_units x f)"
      unfolding decided(11) by simp
  next
    fix a assume a: "build_record q e queue policy ?c g f = Inr a"
      "shifted (\<lambda>_ _. 0) (\<lambda>acc p. charge acc p a) f (snd (allocate_grant q e queue policy ?ev ?c g binding f))"
    from shifted_at[OF a(2), of p x' AcOwn] granted_limit[OF inv(2) decided(1,3) a(1) gl(2) ug decided(10) assms(2)] assms(2,3)
    show "unat (en_own_usage x') \<le> max (unat (en_own_usage x)) (unat (en_usable x) + limit_units x f)"
      unfolding decided(11) by auto
  qed
  show ?thesis using own units gl(1) by auto
qed


theorem allocate_respects_limits_witness:
  "\<exists>x'. map_of (fb_pools (snd (allocate_locked (run_request 1 40) s_ready))) 1 = Some x' \<and>
     en_own_usage x' = 40 \<and> unat (en_own_usage x') \<le> max 0 (90 + limit_units (entry_of run_descriptor 1) s_ready)"
proof -
  obtain m l r where s: "s_ready = ready 11 m l r" "fabric_inv (ready 11 m l r)" using s_ready_is_ready by metis
  obtain d h e where h: "allocate_locked (run_request 1 40) s_ready = (Inr d, h)"
    "map_of (fb_pools h) 1 = Some e" "en_own_usage e = 40"
    using ready_grants[OF s(2) run_ticks(1,3)] unfolding s(1) by metis
  have x: "map_of (fb_pools s_ready) 1 = Some (entry_of run_descriptor 1)" by (simp add: s(1) ready_fields)
  from allocate_respects_limits[OF run_reachable(1) x, of "run_request 1 40" e] h show ?thesis
    by (simp add: run_usable)
qed

subsection \<open>Evidence\<close>

lemma classify_known: "pressure_is_known (ob_state (classify_pressure t used usable over))"
  by (simp add: classify_pressure_def Let_def pressure_is_known_def split: prod.split)

lemma usable_iff:
  "evidence_usable (resolve_evidence e f) \<longleftrightarrow>
     (\<exists>x s. map_of (fb_pressure f) (pd_id (en_descriptor e)) = Some x \<and> px_latest x = Some s \<and>
        ps_epoch s = fb_epoch f \<and> ps_pool_generation s = pd_generation (en_descriptor e) \<and>
        is_fresh (fb_tick f) (ps_observed_at s) (ps_ttl_ticks s) \<and>
        (assert_committed s \<longrightarrow> ps_committed_units s = en_own_usage e))"
  by (auto simp: resolve_evidence_def evidence_usable_def Let_def unknown_evidence_def observation_of_def
      classify_known split: option.splits) (auto simp: pressure_is_known_def split: if_splits)

lemma usable_state:
  assumes "evidence_usable (resolve_evidence e f)"
  shows "pe_state (resolve_evidence e f) = ob_state (observation_of e f)"
  using assms unfolding usable_iff by (auto simp: resolve_evidence_def Let_def)

text \<open>C5: what counts as evidence, and what it says.  The evidence of a pool is usable exactly when its latest snapshot was
  taken in the current epoch, for the current generation of the pool, is still fresh, and, when it
  asserts the committed units, asserts exactly the pool's own usage in the ledger, also when it asserts zero.  What usable evidence says of a pool with usable
  capacity is then the exact band of that usage under the thresholds of the pool's policy, whatever the snapshot reports.\<close>

theorem evidence_usable_iff:
  "(evidence_usable (resolve_evidence e f) \<longleftrightarrow>
     (\<exists>x s. map_of (fb_pressure f) (pd_id (en_descriptor e)) = Some x \<and> px_latest x = Some s \<and>
        ps_epoch s = fb_epoch f \<and> ps_pool_generation s = pd_generation (en_descriptor e) \<and>
        is_fresh (fb_tick f) (ps_observed_at s) (ps_ttl_ticks s) \<and>
        (assert_committed s \<longrightarrow> ps_committed_units s = en_own_usage e))) \<and>
   (evidence_usable (resolve_evidence e f) \<longrightarrow> policy_of e f = Some policy \<longrightarrow> en_usable e \<noteq> 0 \<longrightarrow>
      pe_state (resolve_evidence e f) = band_of (pr_thresholds (pressure policy)) (unat (en_own_usage e)) (unat (en_usable e)))"
  using usable_iff[of e f] usable_state[of e f] by (simp add: observation_of_def classify_state)

text \<open>The snapshot of the worked run supports the band Clear; the same snapshot, asserting that nothing is committed, supports nothing once
  the pool holds 40 units.\<close>

theorem evidence_usable_iff_witness:
  "pe_state (resolve_evidence (entry_of run_descriptor 1) s_ready) = Clear \<and>
   \<not> evidence_usable (resolve_evidence ((entry_of run_descriptor 1)\<lparr>en_own_usage := 40\<rparr>) (s_ready\<lparr>fb_pressure :=
       [(1, \<lparr>px_history = [], px_latest = Some (run_evidence\<lparr>assert_committed := True\<rparr>), px_latest_revalidated = False\<rparr>)]\<rparr>))"
proof -
  obtain m l r where s: "s_ready = ready 11 m l r" using s_ready_is_ready by metis
  let ?e = "entry_of run_descriptor 1"
  have f: "is_fresh 11 11 2000000000" by (simp add: is_fresh_def)
  have u: "evidence_usable (resolve_evidence ?e s_ready)"
    using evidence_usable_iff[of ?e s_ready] f
    by (simp add: s ready_fields run_descriptor_facts run_evidence_def run_snapshot_def)
  have "policy_of ?e s_ready = Some run_policy1" "en_usable ?e \<noteq> 0"
    by (simp_all add: policy_of_def s ready_fields run_descriptor_facts run_usable)
  then have "pe_state (resolve_evidence ?e s_ready) = band_of (pr_thresholds (pressure run_policy1)) (unat (en_own_usage ?e)) (unat (en_usable ?e))"
    using evidence_usable_iff[of ?e s_ready run_policy1] u by blast
  moreover have "en_own_usage ?e = 0" by simp
  ultimately have c: "pe_state (resolve_evidence ?e s_ready) = Clear"
    by (simp add: run_usable run_policy1_fields band_of_def thresholds0_def)
  have "\<not> evidence_usable (resolve_evidence (?e\<lparr>en_own_usage := 40\<rparr>) (s_ready\<lparr>fb_pressure :=
       [(1, \<lparr>px_history = [], px_latest = Some (run_evidence\<lparr>assert_committed := True\<rparr>), px_latest_revalidated = False\<rparr>)]\<rparr>))"
    using evidence_usable_iff[of "?e\<lparr>en_own_usage := 40\<rparr>" "s_ready\<lparr>fb_pressure :=
       [(1, \<lparr>px_history = [], px_latest = Some (run_evidence\<lparr>assert_committed := True\<rparr>), px_latest_revalidated = False\<rparr>)]\<rparr>"]
    by (simp add: run_descriptor_facts run_evidence_def run_snapshot_def)
  with c show ?thesis by simp
qed

text \<open>C4: no increase without evidence.  Under a policy that refuses increases on unknown pressure (the
  default), a pool whose evidence is not usable is granted nothing: allocate answers without units, or
  repeats an earlier answer, or fails, and in each case the ledger is as before.\<close>

theorem no_grant_without_evidence:
  assumes "map_of (fb_pools f) (ar_pool q) = Some e" "policy_of e f = Some policy"
    and "refuse_increase_on_unknown (pressure policy)" "\<not> evidence_usable (resolve_evidence e f)"
  shows "ledger_view (snd (allocate_locked q f)) = ledger_view f \<and>
    (\<forall>d. fst (allocate_locked q f) = Inr d \<longrightarrow> dc_kind d = IdempotentReplay \<or> dc_granted_units d = 0)"
proof (cases rule: allocate_cases[of q f])
  case (decided e' queue policy' g binding)
  then have "e' = e" "policy' = policy" using assms by auto
  then show ?thesis using decided(4) assms(3,4) by (simp add: evidence_permits_def Let_def)
qed blast

theorem no_grant_without_evidence_witness:
  "ledger_view (snd (allocate_locked (run_request 1 40) s_queue)) = ledger_view s_queue"
proof -
  obtain m l r where s: "s_queue = queued (pooled (governed (capped (opened 10 m l r))))" using s_queue by blast
  have "map_of (fb_pools s_queue) (ar_pool (run_request 1 40)) = Some (entry_of run_descriptor 1)"
    "policy_of (entry_of run_descriptor 1) s_queue = Some run_policy1"
    "fb_pressure s_queue = []"
    by (simp_all add: s queued_def pooled_def governed_def capped_def opened_def fabric0_def run_request_facts
        policy_of_def run_descriptor_facts)
  with no_grant_without_evidence[OF this(1,2)] show ?thesis
    by (simp add: run_policy1_fields usable_iff)
qed

end
