(* ===== verification/Attempts.thy ===== *)
theory Attempts
  imports Guarantees
begin

text \<open>
  Attempts take effect at most once: a repeated request is answered from the attempt memory, a request
  that reuses an attempt with other contents is refused, and neither changes the ledger.
\<close>

subsection \<open>What allocate leaves alone\<close>

definition frame :: "fabric \<Rightarrow> bool \<times> bool \<times> fabric_config \<times> (u64 \<times> queue_descriptor) list \<times> (u64 \<times> pool_policy) list" where
  "frame f = (fb_open f, fb_shutting_down f, fb_config f, fb_queues f, fb_policies f)"

lemma frame_simps [simp]:
  "frame (map_pool p g f) = frame f" "fb_attempts (map_pool p g f) = fb_attempts f"
  "frame (map_runtime p r f) = frame f" "fb_attempts (map_runtime p r f) = fb_attempts f"
  "frame (bump c f) = frame f" "fb_attempts (bump c f) = fb_attempts f"
  "frame (push_event k oc pl qu al un sq f) = frame f" "fb_attempts (push_event k oc pl qu al un sq f) = fb_attempts f"
  "frame (record_decision d f) = frame f" "fb_attempts (record_decision d f) = fb_attempts f"
  "frame (advance_sequence f) = frame f" "fb_attempts (advance_sequence f) = fb_attempts f"
  "frame (put_allocation a f) = frame f" "fb_attempts (put_allocation a f) = fb_attempts f"
  "frame (count_grant a f) = frame f" "fb_attempts (count_grant a f) = fb_attempts f"
  "frame (f\<lparr>next_allocation_id := n\<rparr>) = frame f"
  "frame (record_attempt at f) = frame f"
  by (auto simp: frame_def map_pool_def map_runtime_def bump_def push_event_def record_decision_def
      advance_sequence_def put_allocation_def count_grant_def Let_def record_attempt_def evict_attempts_def
      split: option.split prod.split)

lemma only_journals_frame: "only_journals f g \<Longrightarrow> frame g = frame f \<and> fb_attempts g = fb_attempts f"
  by (simp add: frame_def)

lemma apply_commit_frame:
  "frame (snd (apply_commit_units p u b l f)) = frame f" "fb_attempts (snd (apply_commit_units p u b l f)) = fb_attempts f"
  by (auto simp: apply_commit_units_def Let_def split: option.split prod.split)

lemma allocate_apply_frame:
  assumes "allocate_apply a policy f = (Inr x, g)"
  shows "frame g = frame f" "fb_attempts g = fb_attempts f"
proof -
  obtain r f1 where j: "journal_allocation (journal_op_for (al_state a)) a f = (r, f1)" by fastforce
  note oj = only_journals_frame[OF journal_allocation_only[OF j]]
  obtain r2 f2 where c: "apply_commit_units (al_pool a) (al_units a) (borrow_units a) (al_lender a) f1 = (r2, f2)" by fastforce
  note ac = apply_commit_frame[of "al_pool a" "al_units a" "borrow_units a" "al_lender a" f1, unfolded c snd_conv]
  show "frame g = frame f" "fb_attempts g = fb_attempts f"
    using assms j c oj ac by (auto simp: allocate_apply_def Let_def try_st_eq_Inr split: option.splits if_splits)
qed

subsection \<open>Recording\<close>

lemma record_attempt_new:
  assumes "length (fb_attempts f) < attempt_memory_capacity (fb_config f)"
  shows "map_of (fb_attempts (record_attempt at f)) (at_id at) = Some at"
proof -
  have u: "length (AList.update k v al) \<le> Suc (length al)" for k :: u64 and v :: attempt_record and al
    by (induction al) auto
  let ?al = "AList.update (at_id at) at (fb_attempts f)"
  have "length ?al \<le> attempt_memory_capacity (fb_config f)" using u[of "at_id at" at "fb_attempts f"] assms by simp
  then have "evict (attempt_memory_capacity (fb_config f)) order ?al = (order, ?al)" for order
    by (cases order) simp_all
  then show ?thesis using assms by (auto simp: record_attempt_def evict_attempts_def Let_def)
qed

lemma finish_records:
  assumes "allocate_finish q queue policy evidence kind code units allocation binding intent lender f = (Inr d, g)"
    and "length (fb_attempts f) < attempt_memory_capacity (fb_config f)"
  shows "frame g = frame f" "\<exists>at. map_of (fb_attempts g) (ar_attempt q) = Some at \<and>
      at_request_digest at = allocate_request_digest q \<and> at_outcome at = code \<and> at_granted_units at = units \<and>
      at_allocation at = allocation"
proof -
  obtain e where e: "map_of (fb_pools f) (ar_pool q) = Some e"
    using assms(1) by (auto simp: allocate_finish_def split: option.splits)
  define f1 where "f1 = (if code \<noteq> Ok then map_runtime (ar_pool q) (\<lambda>r. r\<lparr>refuse_count := refuse_count r + 1\<rparr>)
     (bump mt_refusals_update f) else f)"
  have f1: "frame f1 = frame f" "fb_attempts f1 = fb_attempts f" by (simp_all add: f1_def)
  have d: "dc_status d = code \<and> dc_granted_units d = units \<and> dc_allocation d = allocation"
    using finish_kind[of q queue policy evidence kind code units allocation binding intent lender f d] assms(1) by simp
  have g: "frame g = frame (conclude AtAllocate (ar_attempt q) (allocate_request_digest q) d f1)"
    "fb_attempts g = fb_attempts (conclude AtAllocate (ar_attempt q) (allocate_request_digest q) d f1)"
    using assms(1) e by (auto simp: allocate_finish_def Let_def f1_def[symmetric])
  show "frame g = frame f" using g(1) f1(1) by (simp add: conclude_def Let_def)
  have len: "length (fb_attempts (advance_sequence (record_decision d f1))) <
      attempt_memory_capacity (fb_config (advance_sequence (record_decision d f1)))"
    using assms(2) f1 by (simp add: frame_def) (simp add: record_decision_def advance_sequence_def)
  show "\<exists>at. map_of (fb_attempts g) (ar_attempt q) = Some at \<and> at_request_digest at = allocate_request_digest q \<and>
      at_outcome at = code \<and> at_granted_units at = units \<and> at_allocation at = allocation"
    unfolding g(2) conclude_def Let_def
    using record_attempt_new[OF len] d by (metis (no_types, lifting) attempt_record.select_convs(1,3-6))
qed


text \<open>What a decision tells its caller, as the attempt memory keeps it.\<close>

definition remembers :: "fabric \<Rightarrow> allocate_request \<Rightarrow> decision \<Rightarrow> bool" where
  "remembers f q d \<longleftrightarrow> (\<exists>at. map_of (fb_attempts f) (ar_attempt q) = Some at \<and>
     at_request_digest at = allocate_request_digest q \<and> at_outcome at = dc_status d \<and>
     at_granted_units at = dc_granted_units d \<and> at_allocation at = dc_allocation d)"

lemma finish_remembers:
  assumes "allocate_finish q queue policy evidence kind code units allocation binding intent lender f = (Inr d, g)"
    and "length (fb_attempts f) < attempt_memory_capacity (fb_config f)"
  shows "frame g = frame f" "remembers g q d"
  using finish_records[OF assms] finish_kind[of q queue policy evidence kind code units allocation binding intent lender f d] assms(1)
  by (auto simp: remembers_def)

lemma grant_remembers:
  assumes "allocate_grant q e queue policy evidence c g binding f = (Inr d, h)"
    and "length (fb_attempts f) < attempt_memory_capacity (fb_config f)"
  shows "frame h = frame f" "remembers h q d"
proof -
  obtain a f1 f2 where a: "build_record q e queue policy c g f = Inr a" "allocate_apply a policy f = (Inr (), f1)"
    "verify_closure (al_pool a) True f1 = (Inr (), f2)"
    using assms(1) by (auto simp: allocate_grant_def try_st_eq_Inr split: sum.splits)
  let ?kind = "if g = ar_requested_units q then Grant else GrantPartial"
  obtain d0 f3 where fin: "allocate_finish q queue policy evidence ?kind Ok g (al_id a) binding intent0 (al_lender a) f2 = (Inr d0, f3)"
    and h: "h = (if ?kind = Grant then bump mt_grants_update f3 else bump mt_partial_grants_update f3)"
    and d: "dc_status d = dc_status d0 \<and> dc_granted_units d = dc_granted_units d0 \<and> dc_allocation d = dc_allocation d0"
  proof -
    have "try_st (allocate_finish q queue policy evidence ?kind Ok g (al_id a) binding intent0 (al_lender a) f2)
      (\<lambda>d f. let f = (if ?kind = Grant then bump mt_grants_update f else bump mt_partial_grants_update f) in
        case map_of (fb_pools f) (al_pool a) of None \<Rightarrow> (Inr d, f)
        | Some e \<Rightarrow>
          (Inr (if rc_enabled (reclaim policy) \<and> en_free_units e = 0
                then d\<lparr>dc_intent := (dc_intent d)\<lparr>reclaim_target_units :=
                       (if reserve_units (reclaim policy) > en_free_units e
                        then reserve_units (reclaim policy) - en_free_units e else 0)\<rparr>\<rparr>
                else d), f)) = (Inr d, h)" (is "try_st ?m ?k = _")
      using assms(1) unfolding allocate_grant_def a(1) sum.case a(2) try_st_simps a(3) Let_def .
    then obtain d0 f3 where m: "?m = (Inr d0, f3)" and k: "?k d0 f3 = (Inr d, h)" by (auto simp only: try_st_eq_Inr)
    let ?f = "if ?kind = Grant then bump mt_grants_update f3 else bump mt_partial_grants_update f3"
    have "h = ?f" using k by (auto simp only: Let_def prod.inject split: option.splits)
    moreover have "dc_status d = dc_status d0 \<and> dc_granted_units d = dc_granted_units d0 \<and> dc_allocation d = dc_allocation d0"
      using k by (cases "map_of (fb_pools ?f) (al_pool a)") (simp_all only: Let_def option.case, auto)
    ultimately show thesis using that[OF m] by blast
  qed
  have f2: "f2 = f1" using a(3) by (auto simp: verify_closure_def Let_def split: option.splits sum.splits)
  note fr = allocate_apply_frame[OF a(2)]
  have len: "length (fb_attempts f2) < attempt_memory_capacity (fb_config f2)"
    using assms(2) fr f2 by (simp add: frame_def)
  note r = finish_remembers[OF fin len]
  show "frame h = frame f" using r(1) fr f2 by (auto simp: h)
  show "remembers h q d" using r(2) d by (auto simp: h remembers_def)
qed

lemma decide_remembers:
  assumes "allocate_decide q e queue policy f = (Inr d, h)"
    and "length (fb_attempts f) < attempt_memory_capacity (fb_config f)"
  shows "frame h = frame f \<and> remembers h q d"
  using assms(1) finish_remembers[OF _ assms(2)] grant_remembers[OF _ assms(2)]
  by (auto simp: allocate_decide_def Let_def split: if_splits prod.splits)

lemma allocate_lookups:
  assumes "allocate_locked q f = (Inr d, h)"
  shows "\<exists>previous e queue policy. fb_open f \<and> \<not> (fb_shutting_down f \<and> refuse_work_after_shutdown (fb_config f)) \<and>
    valid (ar_attempt q) \<and> ar_requested_units q \<noteq> 0 \<and> \<not> ar_requested_units q > kMaxUnitsPerPool \<and>
    ensure_alloc_capacity f = Inr () \<and> lookup_attempt (ar_attempt q) (allocate_request_digest q) f = Inr previous \<and>
    require_pool (ar_pool q) f = Inr e \<and> require_queue (ar_queue q) f = Inr queue \<and> require_policy e f = Inr policy"
proof (rule ccontr)
  assume "\<not> ?thesis"
  then have "\<exists>code. allocate_locked q f = (Inl code, f)"
    by (auto simp: allocate_locked_def try_r_def split: sum.split)
  with assms show False by simp
qed

lemma allocate_remembers:
  assumes "allocate_locked q f = (Inr d, h)"
    and "length (fb_attempts f) < attempt_memory_capacity (fb_config f)"
  shows "frame h = frame f \<and> remembers h q d"
proof -
  have rep: "frame h = frame f \<and> remembers h q d"
    if "replay_decision p (ar_attempt q) e i u (at_allocation p) f = (Inr d, h)"
      "lookup_attempt (ar_attempt q) (allocate_request_digest q) f = Inr (Some p)" for p e i u
    using that by (auto simp: replay_decision_def make_decision_def Let_def remembers_def lookup_attempt_def
        split: if_splits option.splits)
  obtain previous e queue policy where c:
    "fb_open f" "\<not> (fb_shutting_down f \<and> refuse_work_after_shutdown (fb_config f))" "valid (ar_attempt q)"
    "ar_requested_units q \<noteq> 0" "\<not> ar_requested_units q > kMaxUnitsPerPool" "ensure_alloc_capacity f = Inr ()"
    "lookup_attempt (ar_attempt q) (allocate_request_digest q) f = Inr previous" "require_pool (ar_pool q) f = Inr e"
    "require_queue (ar_queue q) f = Inr queue" "require_policy e f = Inr policy"
    using allocate_lookups[OF assms(1)] by blast
  show ?thesis
  proof (cases previous)
    case (Some p)
    then have eq: "allocate_locked q f = replay_decision p (ar_attempt q) e (qd_id queue) (ar_requested_units q) (at_allocation p) f"
      using c by (auto simp: allocate_locked_def)
    show ?thesis by (rule rep[OF assms(1)[unfolded eq] c(7)[unfolded Some]])
  next
    case None
    then have "allocate_locked q f = allocate_decide q e queue policy f"
      using c assms(1) by (auto simp: allocate_locked_def split: if_splits)
    then have "allocate_decide q e queue policy f = (Inr d, h)" using assms(1) by simp
    then show ?thesis by (rule decide_remembers[OF _ assms(2)])
  qed
qed

lemma shifted_descriptor:
  assumes "shifted out into f g" "map_of (fb_pools f) p = Some e"
  shows "\<exists>e'. map_of (fb_pools g) p = Some e' \<and> en_descriptor e' = en_descriptor e"
proof -
  obtain e' where e': "map_of (fb_pools g) p = Some e'"
    using shifted_keys[OF assms(1), of p] assms(2) by (cases "map_of (fb_pools g) p") auto
  then show ?thesis using shifted_at[OF assms(1) e', of AcOwn] assms(2) by auto
qed

lemma topology_kept:
  assumes "reachable f" "map_of (fb_pools f) p = Some e"
  shows "\<exists>e'. map_of (fb_pools (snd (allocate_locked q f))) p = Some e' \<and> en_descriptor e' = en_descriptor e"
proof (cases rule: allocate_cases[of q f])
  case kept
  show ?thesis by (rule shifted_descriptor[OF shifted_view[OF shifted_none[OF same_ledger_refl] kept(1)] assms(2)])
next
  case (decided e0 queue policy g binding)
  have inv: "fabric_inv f" by (rule reachable_inv[OF assms(1)])
  have gl: "g \<le> gc_max_grant (compute_grant e0 policy f)" "unat g \<le> 2 ^ 60"
    using decide_grant_le[OF decided(9)] decided(6) by (simp_all add: word_le_nat_alt)
  show ?thesis
    unfolding decided(11)
  proof (rule allocate_grant_effect[where q = q and queue = queue and evidence = "resolve_evidence e0 f" and binding = binding,
      OF inv decided(1,3) gl decided(10)], goal_cases)
    case 1
    show ?case by (rule shifted_descriptor[OF shifted_view[OF shifted_none[OF same_ledger_refl] 1] assms(2)])
  next
    case (2 a)
    show ?case by (rule shifted_descriptor[OF 2(2) assms(2)])
  qed
qed

text \<open>C3: allocate takes effect at most once.  After an allocate that returned a decision, the same
  request again (while its attempt is remembered: the attempt memory was not full) is answered with the
  same status, units and allocation, as a replay, and changes no pool, record or policy.\<close>

theorem allocate_at_most_once:
  assumes "reachable f" "allocate_locked q f = (Inr d, g)"
    and "length (fb_attempts f) < attempt_memory_capacity (fb_config f)"
    and "length (fb_allocations g) < kMaxAllocationCount"
  shows "\<exists>d' h. allocate_locked q g = (Inr d', h) \<and> dc_kind d' = IdempotentReplay \<and>
    dc_status d' = dc_status d \<and> dc_granted_units d' = dc_granted_units d \<and> dc_allocation d' = dc_allocation d \<and>
    ledger_view h = ledger_view g"
proof -
  have fr: "frame g = frame f" and rem: "remembers g q d" using allocate_remembers[OF assms(2,3)] by simp_all
  obtain e queue policy where c: "fb_open f" "\<not> (fb_shutting_down f \<and> refuse_work_after_shutdown (fb_config f))"
    "valid (ar_attempt q)" "ar_requested_units q \<noteq> 0" "\<not> ar_requested_units q > kMaxUnitsPerPool"
    "require_pool (ar_pool q) f = Inr e" "require_queue (ar_queue q) f = Inr queue" "require_policy e f = Inr policy"
    using allocate_lookups[OF assms(2)] by blast
  obtain e' where e': "map_of (fb_pools g) (ar_pool q) = Some e'" "en_descriptor e' = en_descriptor e"
    using topology_kept[OF assms(1), of "ar_pool q" e q] c(6) assms(2) by (auto simp: require_Inr)
  obtain at where at: "map_of (fb_attempts g) (ar_attempt q) = Some at" "at_request_digest at = allocate_request_digest q"
    "at_outcome at = dc_status d" "at_granted_units at = dc_granted_units d" "at_allocation at = dc_allocation d"
    using rem by (auto simp: remembers_def)
  have look: "lookup_attempt (ar_attempt q) (allocate_request_digest q) g = Inr (Some at)"
    using at(1,2) c(3) by (simp add: lookup_attempt_def)
  have req: "require_pool (ar_pool q) g = Inr e'" "require_queue (ar_queue q) g = Inr queue" "require_policy e' g = Inr policy"
    "ensure_alloc_capacity g = Inr ()"
    using c e' fr assms(4) by (auto simp: require_Inr frame_def policy_of_def ensure_alloc_capacity_def)
  have same: "fb_open g" "\<not> (fb_shutting_down g \<and> refuse_work_after_shutdown (fb_config g))"
    using c(1,2) fr by (simp_all add: frame_def)
  have eq: "allocate_locked q g = replay_decision at (ar_attempt q) e' (qd_id queue) (ar_requested_units q) (at_allocation at) g"
    using same c(3-5) look req by (auto simp: allocate_locked_def)
  have "dc_kind d' = IdempotentReplay \<and> dc_status d' = at_outcome at \<and> dc_granted_units d' = at_granted_units at \<and>
      dc_allocation d' = at_allocation at" if "fst (allocate_locked q g) = Inr d'" for d'
    using that unfolding eq by (auto simp: replay_decision_def make_decision_def Let_def)
  moreover obtain d' h where dh: "allocate_locked q g = (Inr d', h)"
    unfolding eq by (simp add: replay_decision_def Let_def)
  moreover have "ledger_view h = ledger_view g"
    using outcome_view(4)[of at "ar_attempt q" e' "qd_id queue" "ar_requested_units q" "at_allocation at" g] dh unfolding eq by simp
  ultimately show ?thesis using at(3-5) by auto
qed

theorem allocate_at_most_once_witness:
  "\<exists>d g d' h. allocate_locked (run_request 1 40) s_ready = (Inr d, g) \<and> dc_granted_units d = 40 \<and>
     allocate_locked (run_request 1 40) g = (Inr d', h) \<and> dc_kind d' = IdempotentReplay \<and>
     dc_granted_units d' = 40 \<and> dc_allocation d' = 1 \<and> ledger_view h = ledger_view g"
proof -
  obtain m l r where s: "s_ready = ready 11 m l r" "fabric_inv (ready 11 m l r)" using s_ready_is_ready by metis
  obtain d h a where h: "allocate_locked (run_request 1 40) s_ready = (Inr d, h)"
    "dc_granted_units d = 40" "dc_allocation d = 1" "fb_allocations h = [(1, a)]"
    using ready_grants[OF s(2) run_ticks(1,3)] unfolding s(1) by metis
  have "length (fb_attempts s_ready) < attempt_memory_capacity (fb_config s_ready)"
    by (simp add: s(1) ready_fields fabric_config0_def kMaxAttemptMemory_def)
  moreover have "length (fb_allocations h) < kMaxAllocationCount" by (simp add: h(4) kMaxAllocationCount_def)
  ultimately show ?thesis using allocate_at_most_once[OF run_reachable(1) h(1)] h by auto
qed

end
