(* ===== verification/Files.thy ===== *)
theory Files
  imports Persistence
begin

text \<open>
  The file operations of src/fs.cpp and the small file helpers of src/persistence.cpp, as they are built on POSIX.

  A disk has directory entries, which lead from paths to inodes, and the content of each inode.  Both exist
  twice: as running processes see them and as they are on the medium.  fsync brings the content of an inode to the
  medium, fsync of a directory the entries of the files in it.  A crash leaves of each path the entry seen or the one on
  the medium, and of an inode that was not synced anything at all.  What the operating system answers is the script of outcomes of
  Persistence: a short write of n bytes is IoShort n, and a call that fails changes nothing.
\<close>

subsection \<open>The disk\<close>

record inode =
  in_data :: bytes
  in_synced :: bool

record disk =
  dk_entries :: "(string \<times> nat) list"
  dk_stable :: "(string \<times> nat) list"
  dk_inodes :: "inode list"
  dk_dirs :: "string list"
  dk_script :: "io list"

type_synonym 'a disk_op = "disk \<Rightarrow> 'a result \<times> disk"

definition answer_of :: "disk \<Rightarrow> io \<times> disk" where
  "answer_of d = (case dk_script d of [] \<Rightarrow> (IoOk, d) | x # xs \<Rightarrow> (x, d\<lparr>dk_script := xs\<rparr>))"

text \<open>A call that succeeds or fails; the code turns every failure into a persistence error.\<close>

definition sys_call :: "unit disk_op" where
  "sys_call d = (let (x, d) = answer_of d in (case x of IoOk \<Rightarrow> Inr () | _ \<Rightarrow> Inl PersistenceError, d))"

definition content :: "disk \<Rightarrow> string \<Rightarrow> bytes option" where
  "content d p = (case map_of (dk_entries d) p of None \<Rightarrow> None | Some i \<Rightarrow> Some (in_data (dk_inodes d ! i)))"

definition create_inode :: "string \<Rightarrow> disk \<Rightarrow> disk" where
  "create_inode p d = d\<lparr>dk_entries := AList.update p (length (dk_inodes d)) (dk_entries d),
     dk_inodes := dk_inodes d @ [\<lparr>in_data = [], in_synced = False\<rparr>]\<rparr>"

definition set_inode :: "nat \<Rightarrow> inode \<Rightarrow> disk \<Rightarrow> disk" where
  "set_inode i n d = d\<lparr>dk_inodes := (dk_inodes d)[i := n]\<rparr>"

subsection \<open>Paths, directories and sizes\<close>

definition separator :: "char \<Rightarrow> bool" where
  "separator c \<longleftrightarrow> c = CHR ''/'' \<or> c = CHR 0x5C"

definition join_path :: "string \<Rightarrow> string \<Rightarrow> string" where
  "join_path directory leaf =
     (if directory = [] then leaf
      else if separator (last directory) then directory @ leaf
      else directory @ ''/'' @ leaf)"

text \<open>std::filesystem::exists with an error code: false when the call fails.\<close>

definition exists_call :: "string \<Rightarrow> disk \<Rightarrow> bool \<times> disk" where
  "exists_call p d = (let (x, d) = answer_of d in
     (x = IoOk \<and> (map_of (dk_entries d) p \<noteq> None \<or> p \<in> set (dk_dirs d)), d))"

definition path_exists :: "string \<Rightarrow> disk \<Rightarrow> bool \<times> disk" where
  "path_exists p d = exists_call p d"

definition ensure_directory :: "string \<Rightarrow> unit disk_op" where
  "ensure_directory p d =
     (if p = [] then (Inl InvalidArgument, d)
      else let (found, d) = exists_call p d in
      if found then
        (let (x, d) = answer_of d in
         if x = IoOk \<and> p \<in> set (dk_dirs d) then (Inr (), d) else (Inl PersistenceError, d))
      else try_st (sys_call d) (\<lambda>_ d. (Inr (), d\<lparr>dk_dirs := List.insert p (dk_dirs d)\<rparr>)))"

text \<open>Removing a file that does not exist is no error.\<close>

definition remove_file :: "string \<Rightarrow> unit disk_op" where
  "remove_file p d = try_st (sys_call d) (\<lambda>_ d. (Inr (), d\<lparr>dk_entries := AList.delete p (dk_entries d)\<rparr>))"

definition file_size :: "string \<Rightarrow> nat disk_op" where
  "file_size p d = try_st (sys_call d) (\<lambda>_ d.
     (case content d p of None \<Rightarrow> Inl PersistenceError | Some b \<Rightarrow> Inr (length b), d))"

text \<open>The bytes and whether the file existed; a short fread is reported, an empty file is not read at all.\<close>

definition read_bounded :: "string \<Rightarrow> nat \<Rightarrow> (bytes \<times> bool) disk_op" where
  "read_bounded p max_bytes d =
     (let (found, d) = exists_call p d in
      if \<not> found then (Inr ([], False), d)
      else try_st (file_size p d) (\<lambda>n d.
        if n > max_bytes then (Inl OversizedMessage, d)
        else try_st (sys_call d) (\<lambda>_ d.
          case content d p of None \<Rightarrow> (Inl PersistenceError, d)
          | Some b \<Rightarrow> if b = [] then (Inr ([], True), d)
                      else try_st (sys_call d) (\<lambda>_ d. (Inr (b, True), d)))))"

subsection \<open>Writing\<close>

text \<open>The write loop on an open file.  A write of no bytes ends it like a failure.\<close>

function write_loop :: "nat \<Rightarrow> bytes \<Rightarrow> unit disk_op" where
  "write_loop i rest d =
     (if rest = [] then (Inr (), d)
      else let (x, d) = answer_of d;
               n = (case x of IoOk \<Rightarrow> length rest | IoFail \<Rightarrow> 0 | IoShort n \<Rightarrow> min n (length rest)) in
           if n = 0 then (Inl PersistenceError, d)
           else write_loop i (drop n rest)
                  (set_inode i \<lparr>in_data = in_data (dk_inodes d ! i) @ take n rest, in_synced = False\<rparr> d))"
  by pat_completeness auto

termination write_loop
  by (relation "measure (\<lambda>(i, rest, d). length rest)") (auto split: io.splits)

declare write_loop.simps [simp del]

definition fsync_inode :: "nat \<Rightarrow> unit disk_op" where
  "fsync_inode i d = try_st (sys_call d) (\<lambda>_ d. (Inr (), set_inode i ((dk_inodes d ! i)\<lparr>in_synced := True\<rparr>) d))"

text \<open>open with O_CREAT, and with O_TRUNC when the flag says so.\<close>

definition open_write :: "bool \<Rightarrow> string \<Rightarrow> nat disk_op" where
  "open_write trunc p d = try_st (sys_call d) (\<lambda>_ d.
     case map_of (dk_entries d) p of
       None \<Rightarrow> (Inr (length (dk_inodes d)), create_inode p d)
     | Some i \<Rightarrow> (Inr i, if trunc then set_inode i \<lparr>in_data = [], in_synced = False\<rparr> d else d))"

definition write_synced :: "nat \<Rightarrow> bytes \<Rightarrow> bool \<Rightarrow> unit disk_op" where
  "write_synced i data durable d =
     try_st (write_loop i data d) (\<lambda>_ d. if durable then fsync_inode i d else (Inr (), d))"

definition append_file :: "string \<Rightarrow> bytes \<Rightarrow> bool \<Rightarrow> unit disk_op" where
  "append_file p data durable d = try_st (open_write False p d) (\<lambda>i d. write_synced i data durable d)"

definition rename_call :: "string \<Rightarrow> string \<Rightarrow> unit disk_op" where
  "rename_call from to d = try_st (sys_call d) (\<lambda>_ d.
     case map_of (dk_entries d) from of
       None \<Rightarrow> (Inl PersistenceError, d)
     | Some i \<Rightarrow> (Inr (), d\<lparr>dk_entries := AList.update to i (AList.delete from (dk_entries d))\<rparr>))"

text \<open>The temporary file is removed first and whether that worked is not looked at.\<close>

definition write_file_atomic :: "string \<Rightarrow> string \<Rightarrow> bytes \<Rightarrow> bool \<Rightarrow> unit disk_op" where
  "write_file_atomic path temp data durable d =
     (let d = snd (remove_file temp d) in
      try_st (open_write True temp d) (\<lambda>i d.
      try_st (write_synced i data durable d) (\<lambda>_ d.
        rename_call temp path d)))"

definition truncate_file :: "string \<Rightarrow> nat \<Rightarrow> unit disk_op" where
  "truncate_file p n d = try_st (sys_call d) (\<lambda>_ d.
     case map_of (dk_entries d) p of
       None \<Rightarrow> (Inl PersistenceError, d)
     | Some i \<Rightarrow> let b = in_data (dk_inodes d ! i) in
         (Inr (), set_inode i \<lparr>in_data = take n (b @ replicate (n - length b) 0), in_synced = False\<rparr> d))"

text \<open>The directory part of a path, up to the last separator, leads to the directory of the file.\<close>

definition leaf_of :: "string \<Rightarrow> string" where
  "leaf_of p = rev (takeWhile (\<lambda>c. \<not> separator c) (rev p))"

definition in_directory :: "string \<Rightarrow> string \<Rightarrow> bool" where
  "in_directory dir p \<longleftrightarrow> p = join_path dir (leaf_of p)"

definition sync_directory :: "string \<Rightarrow> unit disk_op" where
  "sync_directory p d = try_st (sys_call d) (\<lambda>_ d.
     if p \<notin> set (dk_dirs d) then (Inl PersistenceError, d)
     else try_st (sys_call d) (\<lambda>_ d.
       (Inr (), d\<lparr>dk_stable := filter (\<lambda>(q, _). in_directory p q) (dk_entries d) @
                              filter (\<lambda>(q, _). \<not> in_directory p q) (dk_stable d)\<rparr>)))"

definition flush_handle :: "nat option \<Rightarrow> unit disk_op" where
  "flush_handle handle d = (case handle of None \<Rightarrow> (Inl PersistenceError, d) | Some i \<Rightarrow> fsync_inode i d)"

subsection \<open>What a crash leaves\<close>

definition inode_survives :: "disk \<Rightarrow> nat option \<Rightarrow> bytes option \<Rightarrow> bool" where
  "inode_survives d e r \<longleftrightarrow>
     (case e of None \<Rightarrow> r = None | Some i \<Rightarrow> in_synced (dk_inodes d ! i) \<longrightarrow> r = Some (in_data (dk_inodes d ! i)))"

definition crash_reads :: "disk \<Rightarrow> string \<Rightarrow> bytes option \<Rightarrow> bool" where
  "crash_reads d p r \<longleftrightarrow>
     inode_survives d (map_of (dk_entries d) p) r \<or> inode_survives d (map_of (dk_stable d) p) r"

text \<open>A file that is entirely on the medium, and a name for a temporary file that leads nowhere else.\<close>

definition at_rest :: "disk \<Rightarrow> string \<Rightarrow> bool" where
  "at_rest d p \<longleftrightarrow> map_of (dk_stable d) p = map_of (dk_entries d) p \<and>
     (\<forall>i. map_of (dk_entries d) p = Some i \<longrightarrow> i < length (dk_inodes d) \<and> in_synced (dk_inodes d ! i))"

definition apart :: "disk \<Rightarrow> string \<Rightarrow> string \<Rightarrow> bool" where
  "apart d p q \<longleftrightarrow> p \<noteq> q \<and> (\<forall>i. map_of (dk_entries d) q = Some i \<longrightarrow>
     i < length (dk_inodes d) \<and> map_of (dk_entries d) p \<noteq> Some i)"

text \<open>What the steps before the rename keep: everything but the inode that is written and the entry of its name.\<close>

definition keeps_but :: "nat \<Rightarrow> string \<Rightarrow> disk \<Rightarrow> disk \<Rightarrow> bool" where
  "keeps_but i q d d' \<longleftrightarrow> (\<forall>p. p \<noteq> q \<longrightarrow> map_of (dk_entries d') p = map_of (dk_entries d) p) \<and> dk_stable d' = dk_stable d \<and>
     length (dk_inodes d) \<le> length (dk_inodes d') \<and> (\<forall>k < length (dk_inodes d). k \<noteq> i \<longrightarrow> dk_inodes d' ! k = dk_inodes d ! k)"

lemma answer_kept [simp]:
  "dk_entries (snd (answer_of d)) = dk_entries d" "dk_stable (snd (answer_of d)) = dk_stable d"
  "dk_inodes (snd (answer_of d)) = dk_inodes d" "dk_dirs (snd (answer_of d)) = dk_dirs d"
  by (simp_all add: answer_of_def split: list.split)

lemma sys_call_kept:
  assumes "sys_call d = (r, d')"
  shows "dk_entries d' = dk_entries d" "dk_stable d' = dk_stable d" "dk_inodes d' = dk_inodes d" "dk_dirs d' = dk_dirs d"
  using assms answer_kept[of d] by (auto simp: sys_call_def simp del: answer_kept split: prod.splits)

lemma write_loop_keeps:
  assumes "write_loop i rest d = (r, d')" "i < length (dk_inodes d)"
  shows "dk_entries d' = dk_entries d \<and> dk_stable d' = dk_stable d \<and> length (dk_inodes d') = length (dk_inodes d) \<and>
    (\<forall>k. k \<noteq> i \<longrightarrow> dk_inodes d' ! k = dk_inodes d ! k) \<and>
    (r = Inr () \<longrightarrow> in_data (dk_inodes d' ! i) = in_data (dk_inodes d ! i) @ rest)"
  using assms
proof (induction i rest d rule: write_loop.induct)
  case (1 i rest d)
  obtain x d1 where x: "answer_of d = (x, d1)" by fastforce
  have d1: "dk_entries d1 = dk_entries d" "dk_stable d1 = dk_stable d" "dk_inodes d1 = dk_inodes d"
    using answer_kept[of d] x by simp_all
  define n where "n = (case x of IoOk \<Rightarrow> length rest | IoFail \<Rightarrow> 0 | IoShort n \<Rightarrow> min n (length rest))"
  let ?d2 = "set_inode i \<lparr>in_data = in_data (dk_inodes d1 ! i) @ take n rest, in_synced = False\<rparr> d1"
  show ?case
  proof (cases "rest = [] \<or> n = 0")
    case True
    then show ?thesis using 1(2) x d1 by (subst (asm) write_loop.simps) (auto simp: n_def[symmetric] split: if_splits)
  next
    case False
    then have w: "write_loop i (drop n rest) ?d2 = (r, d')"
      using 1(2) x by (subst (asm) write_loop.simps) (simp add: n_def[symmetric])
    note IH = 1(1)[OF _ x[symmetric] refl, folded n_def]
    show ?thesis using IH[OF _ refl _ w] False 1(3) d1 x by (auto simp: set_inode_def nth_list_update n_def)
  qed
qed

lemma fsync_keeps:
  assumes "fsync_inode i d = (r, d')" "i < length (dk_inodes d)"
  shows "dk_entries d' = dk_entries d \<and> dk_stable d' = dk_stable d \<and> length (dk_inodes d') = length (dk_inodes d) \<and>
    (\<forall>k. k \<noteq> i \<longrightarrow> dk_inodes d' ! k = dk_inodes d ! k) \<and> in_data (dk_inodes d' ! i) = in_data (dk_inodes d ! i) \<and>
    (r = Inr () \<longrightarrow> in_synced (dk_inodes d' ! i))"
  using assms by (auto simp: fsync_inode_def try_st_def set_inode_def dest: sys_call_kept split: prod.splits sum.splits)

lemma write_synced_keeps:
  assumes "write_synced i data durable d = (r, d')" "i < length (dk_inodes d)"
  shows "dk_entries d' = dk_entries d \<and> dk_stable d' = dk_stable d \<and> length (dk_inodes d') = length (dk_inodes d) \<and>
    (\<forall>k. k \<noteq> i \<longrightarrow> dk_inodes d' ! k = dk_inodes d ! k) \<and>
    (r = Inr () \<longrightarrow> in_data (dk_inodes d' ! i) = in_data (dk_inodes d ! i) @ data \<and> (durable \<longrightarrow> in_synced (dk_inodes d' ! i)))"
proof -
  obtain r1 d1 where w: "write_loop i data d = (r1, d1)" by fastforce
  note wk = write_loop_keeps[OF w assms(2)]
  show ?thesis
  proof (cases r1)
    case (Inl e)
    then show ?thesis using assms(1) w wk by (auto simp: write_synced_def try_st_def)
  next
    case (Inr u)
    then show ?thesis
      using assms(1) w wk fsync_keeps[of i d1 r d'] assms(2) by (auto simp: write_synced_def try_st_def split: if_splits)
  qed
qed

lemma open_write_keeps:
  assumes "open_write trunc q d = (Inr i, d')" "\<forall>i. map_of (dk_entries d) q = Some i \<longrightarrow> i < length (dk_inodes d)"
  shows "i < length (dk_inodes d')" "map_of (dk_entries d') q = Some i" "keeps_but i q d d'"
    "map_of (dk_entries d) q = Some i \<or> i = length (dk_inodes d)" "trunc \<Longrightarrow> in_data (dk_inodes d' ! i) = []"
proof -
  obtain d1 where s: "sys_call d = (Inr (), d1)"
    using assms(1) by (auto simp: open_write_def try_st_def split: prod.splits sum.splits)
  note k = sys_call_kept[OF s]
  show "i < length (dk_inodes d')" "map_of (dk_entries d') q = Some i" "keeps_but i q d d'"
    "map_of (dk_entries d) q = Some i \<or> i = length (dk_inodes d)" "trunc \<Longrightarrow> in_data (dk_inodes d' ! i) = []"
    using assms s k by (auto simp: open_write_def try_st_def create_inode_def set_inode_def keeps_but_def update_conv' nth_append
      split: option.splits if_splits)
qed

lemma open_write_failed:
  "open_write trunc q d = (Inl e, d') \<Longrightarrow> dk_entries d' = dk_entries d \<and> dk_stable d' = dk_stable d \<and> dk_inodes d' = dk_inodes d"
  by (auto simp: open_write_def try_st_def dest: sys_call_kept split: prod.splits sum.splits option.splits)

lemma keeps_but_refl: "dk_entries d' = dk_entries d \<Longrightarrow> dk_stable d' = dk_stable d \<Longrightarrow> dk_inodes d' = dk_inodes d \<Longrightarrow> keeps_but i q d d'"
  by (simp add: keeps_but_def)

lemma kept_at_rest:
  assumes "at_rest d p" "keeps_but i q d d'" "p \<noteq> q" "map_of (dk_entries d) p \<noteq> Some i"
  shows "crash_reads d' p r \<longleftrightarrow> r = content d p" "content d' p = content d p"
proof -
  have e: "map_of (dk_entries d') p = map_of (dk_entries d) p" "map_of (dk_stable d') p = map_of (dk_entries d) p"
    using assms by (auto simp: keeps_but_def at_rest_def)
  have n: "dk_inodes d' ! k = dk_inodes d ! k" "in_synced (dk_inodes d ! k)" if "map_of (dk_entries d) p = Some k" for k
    using assms that by (auto simp: keeps_but_def at_rest_def)
  show "crash_reads d' p r \<longleftrightarrow> r = content d p" "content d' p = content d p"
    using n by (auto simp: crash_reads_def inode_survives_def content_def e split: option.split)
qed

lemma remove_file_state:
  "dk_entries (snd (remove_file q d)) = dk_entries d \<or> dk_entries (snd (remove_file q d)) = AList.delete q (dk_entries d)"
  "dk_stable (snd (remove_file q d)) = dk_stable d" "dk_inodes (snd (remove_file q d)) = dk_inodes d"
  by (auto simp: remove_file_def try_st_def dest: sys_call_kept split: prod.splits sum.splits)

lemma keeps_but_trans: "keeps_but i q d d1 \<Longrightarrow> keeps_but i q d1 d2 \<Longrightarrow> keeps_but i q d d2"
  by (auto simp: keeps_but_def)

text \<open>The two ends of write_file_atomic: an error before the rename, or the new inode under the name.\<close>

lemma write_file_atomic_ends:
  assumes "at_rest d path" "apart d path temp" "write_file_atomic path temp data True d = (r, d')"
  obtains (kept) i where "r \<noteq> Inr ()" "keeps_but i temp d d'" "map_of (dk_entries d) path \<noteq> Some i"
  | (replaced) i d3 where "r = Inr ()" "keeps_but i temp d d3" "map_of (dk_entries d) path \<noteq> Some i"
    "in_data (dk_inodes d3 ! i) = data" "in_synced (dk_inodes d3 ! i)"
    "d' = d3\<lparr>dk_entries := AList.update path i (AList.delete temp (dk_entries d3))\<rparr>"
proof -
  let ?d0 = "snd (remove_file temp d)"
  note s0 = remove_file_state[of temp d]
  have k0: "keeps_but i temp d ?d0" for i using s0 by (auto simp: keeps_but_def delete_conv')
  have f0: "\<forall>i. map_of (dk_entries ?d0) temp = Some i \<longrightarrow> i < length (dk_inodes ?d0) \<and> map_of (dk_entries d) path \<noteq> Some i"
    using assms(2) s0 by (auto simp: apart_def delete_conv')
  obtain r1 d1 where o: "open_write True temp ?d0 = (r1, d1)" by fastforce
  show thesis
  proof (cases r1)
    case (Inl e)
    have "keeps_but i temp d d1" for i
      using keeps_but_trans[OF k0 keeps_but_refl[of d1 ?d0]] open_write_failed[OF o[unfolded Inl]] by blast
    moreover obtain i where "map_of (dk_entries d) path \<noteq> Some i" by (metis option.inject n_not_Suc_n)
    moreover have "r = Inl e" "d' = d1" using assms(3) o Inl by (simp_all add: write_file_atomic_def try_st_def)
    ultimately show thesis using kept by auto
  next
    case (Inr i)
    note ow = open_write_keeps[OF o[unfolded Inr]]
    have ip: "map_of (dk_entries d) path \<noteq> Some i"
      using f0 ow(4) assms(1) s0(3) by (auto simp: at_rest_def)
    obtain r2 d2 where w: "write_synced i data True d1 = (r2, d2)" by fastforce
    have w2: "dk_entries d2 = dk_entries d1" "dk_stable d2 = dk_stable d1" "length (dk_inodes d2) = length (dk_inodes d1)"
      "\<And>k. k \<noteq> i \<Longrightarrow> dk_inodes d2 ! k = dk_inodes d1 ! k"
      "r2 = Inr () \<Longrightarrow> in_data (dk_inodes d2 ! i) = data \<and> in_synced (dk_inodes d2 ! i)"
      using write_synced_keeps[OF w] ow f0 by auto
    have k2: "keeps_but i temp d d2" using keeps_but_trans[OF k0[of i] ow(3)] f0 w2 by (auto simp: keeps_but_def)
    obtain r3 d3 where c: "sys_call d2 = (r3, d3)" by fastforce
    note c3 = sys_call_kept[OF c]
    have k3: "keeps_but i temp d d3" using k2 c3 by (simp add: keeps_but_def)
    have e3: "map_of (dk_entries d3) temp = Some i" using ow(2) f0 w2 c3 by simp
    show thesis
    proof (cases "r2 = Inr () \<and> r3 = Inr ()")
      case True
      moreover have "r = Inr ()" "d' = d3\<lparr>dk_entries := AList.update path i (AList.delete temp (dk_entries d3))\<rparr>"
        using assms(3) o Inr w c e3 True by (simp_all add: write_file_atomic_def rename_call_def try_st_def)
      ultimately show thesis using replaced k3 ip w2(5) c3 by simp
    next
      case False
      then have "r \<noteq> Inr () \<and> (d' = d2 \<or> d' = d3)"
        using assms(3) o Inr w c by (auto simp: write_file_atomic_def rename_call_def try_st_def split: sum.splits)
      then show thesis using kept k2 k3 ip by blast
    qed
  qed
qed

lemma write_file_atomic_content:
  assumes "at_rest d path" "apart d path temp" "write_file_atomic path temp data True d = (r, d')"
  shows "content d' path = (if r = Inr () then Some data else content d path)"
proof -
  have pt: "path \<noteq> temp" using assms(2) by (simp add: apart_def)
  from assms show ?thesis
  proof (cases rule: write_file_atomic_ends)
    case (kept i)
    then show ?thesis using kept_at_rest(2)[OF assms(1) _ pt] by simp
  qed (simp add: content_def update_conv')
qed

lemma map_of_filter_key: "map_of (filter (\<lambda>(k, _). P k) xs) k = (if P k then map_of xs k else None)"
  by (induction xs) (auto simp: map_of_eq_None_iff)

lemma sync_directory_state:
  assumes "sync_directory dir d = (Inr (), d')"
  shows "dk_entries d' = dk_entries d" "dk_inodes d' = dk_inodes d"
    "map_of (dk_stable d') p = map_of (if in_directory dir p then dk_entries d else dk_stable d) p"
proof -
  obtain s1 s2 where s: "sys_call d = (Inr (), s1)" "sys_call s1 = (Inr (), s2)"
    "d' = s2\<lparr>dk_stable := filter (\<lambda>(q, _). in_directory dir q) (dk_entries s2) @ filter (\<lambda>(q, _). \<not> in_directory dir q) (dk_stable s2)\<rparr>"
    using assms by (auto simp: sync_directory_def try_st_eq_Inr split: if_splits)
  note k = sys_call_kept[OF s(1)] sys_call_kept[OF s(2)]
  show "dk_entries d' = dk_entries d" "dk_inodes d' = dk_inodes d" using k s(3) by simp_all
  show "map_of (dk_stable d') p = map_of (if in_directory dir p then dk_entries d else dk_stable d) p"
    using k s(3) by (simp add: map_add_def map_of_filter_key split: option.split)
qed

text \<open>The store names its files with join_path, so that syncing its directory is syncing theirs.\<close>

lemma in_directory_join_path:
  assumes "list_all (\<lambda>c. \<not> separator c) leaf"
  shows "in_directory dir (join_path dir leaf)"
proof -
  have l: "\<forall>c \<in> set (rev leaf). \<not> separator c" using assms by (simp add: list_all_iff)
  have t: "leaf_of (pre @ leaf) = leaf" if "pre = [] \<or> separator (last pre)" for pre
    using that takeWhile_append2[of "rev leaf" "\<lambda>c. \<not> separator c" "rev pre"] l
    by (cases pre rule: rev_cases) (auto simp: leaf_of_def takeWhile_eq_all_conv[THEN iffD2])
  let ?pre = "if dir = [] \<or> separator (last dir) then dir else dir @ ''/''"
  have j: "join_path dir leaf = ?pre @ leaf" by (simp add: join_path_def)
  have "leaf_of (?pre @ leaf) = leaf" by (rule t) (simp add: separator_def)
  then show ?thesis unfolding in_directory_def j by (simp add: join_path_def)
qed

text \<open>C10: replacing a file is atomic, even across a crash.  Whatever each system call answers, and wherever the
  process or the machine stops (a failing call leaves exactly what a stop before it leaves), a file that was at rest reads
  after a crash as it was before or as the new data, never as anything else; without a crash it reads as the
  new data exactly when the operation reports success, and once the directory of the file is synced a crash cannot
  bring the old file back.\<close>

theorem write_file_atomic_crash_safe:
  assumes "at_rest d path" "apart d path temp" "write_file_atomic path temp data True d = (r, d')"
  shows "(\<forall>c. crash_reads d' path c \<longrightarrow> c = content d path \<or> c = Some data) \<and>
    content d' path = (if r = Inr () then Some data else content d path) \<and>
    (r = Inr () \<longrightarrow> (\<forall>dir d''. in_directory dir path \<longrightarrow> sync_directory dir d' = (Inr (), d'') \<longrightarrow>
      (\<forall>c. crash_reads d'' path c \<longrightarrow> c = Some data)))"
proof -
  have pt: "path \<noteq> temp" using assms(2) by (simp add: apart_def)
  note live = write_file_atomic_content[OF assms]
  from assms show ?thesis
  proof (cases rule: write_file_atomic_ends)
    case (kept i)
    then show ?thesis using kept_at_rest(1)[OF assms(1) kept(2) pt] live by simp
  next
    case (replaced i d3)
    have new: "inode_survives x (map_of (dk_entries d') path) c \<longleftrightarrow> c = Some data" if "dk_inodes x = dk_inodes d'" for x c
      using replaced that by (auto simp: inode_survives_def update_conv')
    have old: "inode_survives d' (map_of (dk_stable d') path) c \<longleftrightarrow> c = content d path" for c
      using kept_at_rest(1)[OF assms(1) replaced(2) pt replaced(3), of c] assms(1) replaced(2,6)
      by (auto simp: crash_reads_def keeps_but_def at_rest_def pt inode_survives_def split: option.splits)
    have "c = Some data" if "in_directory dir path" "sync_directory dir d' = (Inr (), d'')" "crash_reads d'' path c" for dir d'' c
      using that(1,3) new sync_directory_state[OF that(2)] by (simp add: crash_reads_def)
    then show ?thesis using new old live replaced(1) by (auto simp: crash_reads_def)
  qed
qed

text \<open>A disk with a snapshot at rest; its replacement is written in two pieces.\<close>

definition sample_disk :: disk where
  "sample_disk = \<lparr>dk_entries = [(''state/fabric.bfs'', 0)], dk_stable = [(''state/fabric.bfs'', 0)],
     dk_inodes = [\<lparr>in_data = [1], in_synced = True\<rparr>], dk_dirs = [''state''], dk_script = [IoOk, IoOk, IoShort 1]\<rparr>"

theorem write_file_atomic_crash_safe_witness:
  "\<exists>d'. write_file_atomic ''state/fabric.bfs'' ''state/fabric.bfs.tmp'' [2, 3] True sample_disk = (Inr (), d') \<and>
     content d' ''state/fabric.bfs'' = Some [2, 3] \<and> content sample_disk ''state/fabric.bfs'' = Some [1] \<and>
     (\<forall>c. crash_reads d' ''state/fabric.bfs'' c \<longrightarrow> c = Some [1] \<or> c = Some [2, 3]) \<and>
     (\<forall>d'' c. sync_directory ''state'' d' = (Inr (), d'') \<longrightarrow> crash_reads d'' ''state/fabric.bfs'' c \<longrightarrow> c = Some [2, 3])"
proof -
  have r: "at_rest sample_disk ''state/fabric.bfs''" "apart sample_disk ''state/fabric.bfs'' ''state/fabric.bfs.tmp''" "content sample_disk ''state/fabric.bfs'' = Some [1]"
    by (simp_all add: at_rest_def apart_def sample_disk_def content_def)
  obtain d' where w: "write_file_atomic ''state/fabric.bfs'' ''state/fabric.bfs.tmp'' [2, 3] True sample_disk = (Inr (), d')"
    by (simp add: write_file_atomic_def remove_file_def open_write_def write_synced_def fsync_inode_def rename_call_def sys_call_def
        answer_of_def sample_disk_def create_inode_def set_inode_def try_st_def write_loop.simps update_conv')
  have i: "in_directory ''state'' ''state/fabric.bfs''" by (simp add: in_directory_def leaf_of_def join_path_def separator_def)
  from write_file_atomic_crash_safe[OF r(1,2) w] show ?thesis using w r(3) i by auto
qed

text \<open>Without the sync of the data before the rename, a crash can leave anything under the name of the file.\<close>

lemma unsynced_replacement_unsafe:
  "\<exists>d'. write_file_atomic ''state/fabric.bfs'' ''state/fabric.bfs.tmp'' [2, 3] False sample_disk = (Inr (), d') \<and> crash_reads d' ''state/fabric.bfs'' (Some [9])"
  by (simp add: write_file_atomic_def remove_file_def open_write_def write_synced_def rename_call_def sys_call_def
      answer_of_def sample_disk_def create_inode_def set_inode_def try_st_def write_loop.simps update_conv' crash_reads_def inode_survives_def)

subsection \<open>Appending\<close>

text \<open>Whatever the calls answer, an append leaves the file extended by a prefix of the data, by all of it on success, and
  every other file as it was.\<close>

lemma write_loop_prefix:
  assumes "write_loop i rest d = (r, d')" "i < length (dk_inodes d)"
  shows "\<exists>k \<le> length rest. in_data (dk_inodes d' ! i) = in_data (dk_inodes d ! i) @ take k rest"
  using assms
proof (induction i rest d rule: write_loop.induct)
  case (1 i rest d)
  obtain x d1 where x: "answer_of d = (x, d1)" by fastforce
  have d1: "dk_inodes d1 = dk_inodes d" using answer_kept[of d] x by simp
  define n where "n = (case x of IoOk \<Rightarrow> length rest | IoFail \<Rightarrow> 0 | IoShort n \<Rightarrow> min n (length rest))"
  let ?d2 = "set_inode i \<lparr>in_data = in_data (dk_inodes d1 ! i) @ take n rest, in_synced = False\<rparr> d1"
  show ?case
  proof (cases "rest = [] \<or> n = 0")
    case True
    then have "dk_inodes d' = dk_inodes d"
      using 1(2) x d1 by (subst (asm) write_loop.simps) (auto simp: n_def[symmetric] split: if_splits)
    then show ?thesis by (intro exI[of _ 0]) simp
  next
    case False
    then have w: "write_loop i (drop n rest) ?d2 = (r, d')"
      using 1(2) x by (subst (asm) write_loop.simps) (simp add: n_def[symmetric])
    have n: "n \<le> length rest" by (simp add: n_def split: io.split)
    obtain k where k: "k \<le> length (drop n rest)" "in_data (dk_inodes d' ! i) = in_data (dk_inodes ?d2 ! i) @ take k (drop n rest)"
      using 1(1)[OF _ x[symmetric] refl, folded n_def, OF _ refl _ w] False 1(3) d1 by (auto simp: set_inode_def)
    then have "in_data (dk_inodes d' ! i) = in_data (dk_inodes d ! i) @ take (n + k) rest"
      using 1(3) d1 by (simp add: set_inode_def take_add)
    then show ?thesis using k(1) n by (intro exI[of _ "n + k"]) simp
  qed
qed

lemma append_file_extends:
  assumes "append_file p data durable d = (Inr (), d')" "\<forall>q i. map_of (dk_entries d) q = Some i \<longrightarrow> i < length (dk_inodes d)"
    "\<forall>q. q \<noteq> p \<longrightarrow> map_of (dk_entries d) q = None \<or> map_of (dk_entries d) q \<noteq> map_of (dk_entries d) p"
  shows "content d' p = Some (case content d p of None \<Rightarrow> data | Some b \<Rightarrow> b @ data)" "q \<noteq> p \<Longrightarrow> content d' q = content d q"
proof -
  obtain i d1 where o: "open_write False p d = (Inr i, d1)" and w: "write_synced i data durable d1 = (Inr (), d')"
    using assms(1) by (auto simp: append_file_def try_st_eq_Inr)
  have iv: "\<forall>i. map_of (dk_entries d) p = Some i \<longrightarrow> i < length (dk_inodes d)" using assms(2) by blast
  note ow = open_write_keeps(1-4)[OF o iv]
  note wk = write_synced_keeps[OF w ow(1)]
  have o1: "in_data (dk_inodes d1 ! i) = (case content d p of None \<Rightarrow> [] | Some b \<Rightarrow> b)"
  proof -
    obtain d0 where c: "sys_call d = (Inr (), d0)" using o by (auto simp: open_write_def try_st_def split: prod.splits sum.splits)
    show ?thesis
      using o c sys_call_kept[OF c] by (auto simp: open_write_def try_st_def content_def create_inode_def split: option.splits)
  qed
  show "content d' p = Some (case content d p of None \<Rightarrow> data | Some b \<Rightarrow> b @ data)"
    using wk ow(2) o1 by (auto simp: content_def split: option.splits)
  assume q: "q \<noteq> p"
  have "map_of (dk_entries d') q = map_of (dk_entries d) q" using wk ow(3) q by (simp add: keeps_but_def)
  moreover have "dk_inodes d' ! k = dk_inodes d ! k" if "map_of (dk_entries d) q = Some k" for k
  proof -
    have "k < length (dk_inodes d)" "k \<noteq> i" using that assms(2,3) q ow(4) by auto
    then show ?thesis using wk ow(3) by (simp add: keeps_but_def)
  qed
  ultimately show "content d' q = content d q" by (simp add: content_def split: option.split)
qed

subsection \<open>The journal's stream\<close>

text \<open>flush_stdio: an absent stream, the fflush and the fsync; stdio_size: zero when a seek fails.  open_read refuses a
  journal beyond the bound.\<close>

definition flush_stdio :: "nat option \<Rightarrow> unit disk_op" where
  "flush_stdio handle d =
     (case handle of None \<Rightarrow> (Inl PersistenceError, d)
      | Some i \<Rightarrow> try_st (sys_call d) (\<lambda>_ d. fsync_inode i d))"

definition stdio_size :: "nat option \<Rightarrow> disk \<Rightarrow> nat \<times> disk" where
  "stdio_size handle d =
     (case handle of None \<Rightarrow> (0, d)
      | Some i \<Rightarrow> (case try_st (sys_call d) (\<lambda>_ d. try_st (sys_call d) (\<lambda>_ d. sys_call d)) of
           (Inl _, d) \<Rightarrow> (0, d)
         | (Inr _, d) \<Rightarrow> (length (in_data (dk_inodes d ! i)), snd (answer_of d))))"

record journal_reader =
  jr_handle :: "nat option"
  jr_file_size :: nat
  jr_offset :: nat
  jr_records :: nat

definition journal_reader0 :: journal_reader where
  "journal_reader0 = \<lparr>jr_handle = None, jr_file_size = 0, jr_offset = 0, jr_records = 0\<rparr>"

definition open_read :: "string \<Rightarrow> nat \<Rightarrow> journal_reader disk_op" where
  "open_read p max_bytes d = try_st (sys_call d) (\<lambda>_ d.
     case map_of (dk_entries d) p of None \<Rightarrow> (Inl PersistenceError, d)
     | Some i \<Rightarrow> let (n, d) = stdio_size (Some i) d in
         if n > max_bytes then (Inl OversizedMessage, d)
         else (Inr \<lparr>jr_handle = Some i, jr_file_size = n, jr_offset = 0, jr_records = 0\<rparr>, d))"

lemma open_read_bounded: "open_read p n d = (Inr j, d') \<Longrightarrow> jr_file_size j \<le> n"
  by (auto simp: open_read_def try_st_def Let_def split: option.splits prod.splits if_splits sum.splits)

text \<open>A seek that fails makes the size zero, so that recovery takes a journal full of records for an empty one and reports success.\<close>

lemma failed_seek_hides_journal:
  assumes "dk_script d = [IoOk, IoOk, IoFail]" "map_of (dk_entries d) p = Some i"
  shows "\<exists>d'. open_read p n d = (Inr \<lparr>jr_handle = Some i, jr_file_size = 0, jr_offset = 0, jr_records = 0\<rparr>, d')"
  using assms by (simp add: open_read_def stdio_size_def sys_call_def answer_of_def try_st_def)

subsection \<open>Compaction\<close>

text \<open>The durable store uses write_file_atomic as one step that installs the image or changes nothing.\<close>

lemma write_file_refines:
  assumes "at_rest d path" "apart d path temp" "write_file_atomic path temp data True d = (r, d')" "disk_snapshot s = content d path"
  shows "\<exists>x r' s'. try_st (io_call (s\<lparr>io_script := x # later\<rparr>)) (\<lambda>_ s. (Inr (), s\<lparr>disk_snapshot := Some data\<rparr>)) = (r', s') \<and>
    (r' = Inr () \<longleftrightarrow> r = Inr ()) \<and> disk_snapshot s' = content d' path"
  using write_file_atomic_content[OF assms(1-3)] assms(4)
  by (intro exI[of _ "if r = Inr () then IoOk else IoFail"]) (auto simp: io_call_def next_io_def try_st_def)

lemma io_call_disk:
  assumes "io_call s = (r, s')"
  shows "disk_snapshot s' = disk_snapshot s \<and> disk_journal s' = disk_journal s"
  using assms by (auto simp: io_call_def next_io_def split: list.splits)

lemma open_append_disk:
  assumes "open_append n s = (r, s')"
  shows "disk_snapshot s' = disk_snapshot s" "journal_content s' = journal_content s"
  using assms by (auto simp: open_append_def journal_close_def journal_content_def try_st_def Let_def
      dest!: io_call_disk split: prod.splits sum.splits option.splits)

lemma truncate_disk:
  assumes "journal_truncate_to 0 s = (r, s')"
  shows "disk_snapshot s' = disk_snapshot s" "journal_content s' = (if r = Inr () then [] else journal_content s)"
  using assms by (auto simp: journal_truncate_to_def journal_content_def try_st_def Let_def
      dest!: io_call_disk split: prod.splits sum.splits option.splits if_splits)

lemma sync_disk:
  assumes "journal_sync s = (r, s')"
  shows "disk_snapshot s' = disk_snapshot s" "journal_content s' = journal_content s"
  using assms by (auto simp: journal_sync_def journal_content_def try_st_def dest!: io_call_disk split: if_splits prod.splits sum.splits)

definition snapshot_image :: "snapshot_header \<Rightarrow> bytes \<Rightarrow> bytes option" where
  "snapshot_image header payload = Some (encode_snapshot (header\<lparr>sh_format_version := persistence_format_version\<rparr>) payload)"

text \<open>C11: compaction never loses the log before the snapshot that replaces it is in place.  Wherever a snapshot
  write stops, the disk holds the old snapshot with the whole journal, or the new snapshot with the whole journal, or
  the new snapshot with an empty journal; a write that reports success has reached the last.\<close>

theorem write_snapshot_ordered:
  assumes "write_snapshot header payload s = (r, s')"
  shows "(disk_snapshot s' = disk_snapshot s \<and> journal_content s' = journal_content s \<or>
      disk_snapshot s' = snapshot_image header payload \<and> journal_content s' = journal_content s \<or>
      disk_snapshot s' = snapshot_image header payload \<and> journal_content s' = []) \<and>
    (r = Inr () \<longrightarrow> disk_snapshot s' = snapshot_image header payload \<and> journal_content s' = [])"
proof -
  let ?img = "snapshot_image header payload"
  obtain r1 s1 where s1: "io_call s = (r1, s1)" by fastforce
  obtain r2 s2 where s2: "io_call (s1\<lparr>disk_snapshot := ?img\<rparr>) = (r2, s2)" by fastforce
  obtain r3 s3 where s3: "open_append (max_journal_bytes (st_config s2)) (journal_close s2) = (r3, s3)" by fastforce
  obtain r4 s4 where s4: "journal_truncate_to 0 s3 = (r4, s4)" by fastforce
  obtain r5 s5 where s5: "journal_sync s4 = (r5, s5)" by fastforce
  have b: "journal_content (s5\<lparr>st_journal_bytes := 0\<rparr>) = journal_content s5" by (simp add: journal_content_def)
  note k = io_call_disk[OF s1] io_call_disk[OF s2] open_append_disk[OF s3] truncate_disk[OF s4] sync_disk[OF s5]
  have c: "journal_content (journal_close s2) = journal_content s" "disk_snapshot (journal_close s2) = ?img"
    "journal_content s1 = journal_content s" "journal_content s2 = journal_content s"
    using k by (simp_all add: journal_close_def journal_content_def)
  show ?thesis
    using assms(1) s1 s2 s3 s4 s5 k c b unfolding write_snapshot_def Let_def snapshot_image_def[symmetric]
    by (auto simp: try_st_def split: if_splits sum.splits)
qed

text \<open>A compaction that stops before the truncation: the log is still whole.\<close>

definition file_header :: snapshot_header where
  "file_header = \<lparr>sh_format_version = persistence_format_version, sh_flags = 0, sh_payload_bytes = 0, sh_epoch = 1,
     sh_boot = \<lparr>bi_hi = 0, bi_lo = 1\<rparr>, sh_record_count = 1\<rparr>"

definition sample_store :: store where
  "sample_store = store0\<lparr>st_configured := True, disk_journal := Some [1, 2], io_script := [IoOk, IoOk, IoOk, IoFail]\<rparr>"

theorem write_snapshot_ordered_witness:
  "\<exists>r s'. write_snapshot file_header [7] sample_store = (r, s') \<and> r \<noteq> Inr () \<and>
    disk_snapshot s' = Some (encode_snapshot file_header [7]) \<and> journal_content s' = [1, 2]"
proof -
  obtain r s' where w: "write_snapshot file_header [7] sample_store = (r, s')" by fastforce
  have "max_snapshot_bytes (st_config sample_store) \<ge> 1"
    by (simp add: sample_store_def store0_def persistence_config0_def kMaxSnapshotBytes_def)
  then have c: "r \<noteq> Inr ()" "disk_snapshot s' \<noteq> None" "journal_content s' \<noteq> []"
    using w by (auto simp: write_snapshot_def Let_def sample_store_def store0_def io_call_def next_io_def try_st_def open_append_def
        journal_close_def journal_truncate_to_def journal_content_def)
  have h: "file_header\<lparr>sh_format_version := persistence_format_version\<rparr> = file_header" by (simp add: file_header_def)
  have o: "disk_snapshot sample_store = None" "journal_content sample_store = [1, 2]"
    by (simp_all add: sample_store_def store0_def journal_content_def)
  show ?thesis using write_snapshot_ordered[OF w] w c unfolding snapshot_image_def h o by auto
qed

end
