(* ===== verification/Process.thy ===== *)
theory Process
  imports Files "HOL-Library.Multiset"
begin

text \<open>
  Child processes: include/buffer_fabric/process.hpp and src/process.cpp, with the POSIX branch of the operations and the
  Windows command line.

  The system is a table of open descriptors and a script of answers.  A ChildProcess owns at most two descriptors; the
  theory shows that through spawning, moving and destroying every descriptor is closed exactly once.  The output of a child is the list of the
  answers of read, one byte at a time; an exhausted list is the end of the output.
\<close>

subsection \<open>State\<close>

record process_options =
  po_executable :: string
  po_arguments :: "string list"
  po_working_directory :: string
  po_capture_stdout :: bool
  po_merge_stderr :: bool
  po_environment :: "string list"

definition process_options0 :: process_options where
  "process_options0 = \<lparr>po_executable = [], po_arguments = [], po_working_directory = [], po_capture_stdout = True,
     po_merge_stderr = True, po_environment = []\<rparr>"

datatype read_answer = ReadByte char | ReadError

record child_process =
  cp_pid :: u64
  cp_process :: bool
  cp_read :: "nat option"
  cp_write :: "nat option"
  cp_exited :: bool
  cp_exit_code :: int

definition child_process0 :: child_process where
  "child_process0 = \<lparr>cp_pid = 0, cp_process = False, cp_read = None, cp_write = None, cp_exited = False, cp_exit_code = 0\<rparr>"

text \<open>What the calls answer: a failure, the identity of a new process, the status that waitpid reports, or the port of a socket.\<close>

datatype os_answer = OsFail | OsPid u64 | OsExited int | OsKilled | OsPort u16

record system =
  sy_open :: "nat list"
  sy_next :: nat
  sy_bad_closes :: nat
  sy_output :: "nat \<Rightarrow> read_answer list"
  sy_answers :: "os_answer list"

definition system_answer :: "system \<Rightarrow> os_answer \<times> system" where
  "system_answer y = (case sy_answers y of [] \<Rightarrow> (OsFail, y) | x # xs \<Rightarrow> (x, y\<lparr>sy_answers := xs\<rparr>))"

definition close_descriptor :: "nat \<Rightarrow> system \<Rightarrow> system" where
  "close_descriptor k y =
     (if k \<in> set (sy_open y) then y\<lparr>sy_open := remove1 k (sy_open y)\<rparr> else y\<lparr>sy_bad_closes := sy_bad_closes y + 1\<rparr>)"

definition close_option :: "nat option \<Rightarrow> system \<Rightarrow> system" where
  "close_option h y = (case h of None \<Rightarrow> y | Some k \<Rightarrow> close_descriptor k y)"

subsection \<open>Life cycle\<close>

text \<open>The destructor: on POSIX there is nothing to close for the process itself.\<close>

definition destroy_child :: "child_process \<Rightarrow> system \<Rightarrow> system" where
  "destroy_child c y = close_option (cp_write c) (close_option (cp_read c) y)"

text \<open>The move constructor: the new object and what is left of the old one; its exit code stays.\<close>

definition move_child :: "child_process \<Rightarrow> child_process \<times> child_process" where
  "move_child other = (other, other\<lparr>cp_pid := 0, cp_process := False, cp_read := None, cp_write := None, cp_exited := False\<rparr>)"

definition child_valid :: "child_process \<Rightarrow> bool" where "child_valid c = cp_process c"

definition child_running :: "child_process \<Rightarrow> bool" where "child_running c = (child_valid c \<and> \<not> cp_exited c)"

text \<open>pipe: two fresh descriptors, the first for reading.\<close>

definition open_pipe :: "system \<Rightarrow> (nat \<times> nat) result \<times> system" where
  "open_pipe y = (case system_answer y of
      (OsFail, y) \<Rightarrow> (Inl PersistenceError, y)
    | (_, y) \<Rightarrow> (Inr (sy_next y, sy_next y + 1), y\<lparr>sy_open := sy_next y # (sy_next y + 1) # sy_open y, sy_next := sy_next y + 2\<rparr>))"

definition spawn_process :: "process_options \<Rightarrow> system \<Rightarrow> child_process result \<times> system" where
  "spawn_process options y =
     (if po_executable options = [] then (Inl InvalidArgument, y)
      else try_st (if po_capture_stdout options then (case open_pipe y of (r, y) \<Rightarrow> (map_sum id Some r, y)) else (Inr None, y))
        (\<lambda>fds y.
           let (rc, y) = system_answer y;
               y = (case fds of None \<Rightarrow> y | Some (r, w) \<Rightarrow> close_descriptor w y) in
           case rc of
             OsPid pid \<Rightarrow> (Inr (child_process0\<lparr>cp_pid := pid, cp_process := True, cp_read := map_option fst fds\<rparr>), y)
           | _ \<Rightarrow> (Inl NotFound, case fds of None \<Rightarrow> y | Some (r, w) \<Rightarrow> close_descriptor r y)))"

definition child_wait :: "child_process \<Rightarrow> system \<Rightarrow> int result \<times> child_process \<times> system" where
  "child_wait c y =
     (if \<not> child_valid c then (Inl LifecycleViolation, c, y)
      else if cp_exited c then (Inr (cp_exit_code c), c, y)
      else case system_answer y of
        (OsExited n, y) \<Rightarrow> (Inr n, c\<lparr>cp_exited := True, cp_exit_code := n\<rparr>, y)
      | (OsKilled, y) \<Rightarrow> (Inr (- 1), c\<lparr>cp_exited := True, cp_exit_code := - 1\<rparr>, y)
      | (_, y) \<Rightarrow> (Inl PersistenceError, c, y))"

text \<open>kill, then waitpid, whose answer is not looked at.\<close>

definition child_terminate :: "child_process \<Rightarrow> system \<Rightarrow> unit result \<times> child_process \<times> system" where
  "child_terminate c y =
     (if \<not> child_valid c then (Inl LifecycleViolation, c, y)
      else if cp_exited c then (Inr (), c, y)
      else case system_answer y of
        (OsFail, y) \<Rightarrow> (Inl PersistenceError, c, y)
      | (_, y) \<Rightarrow> (Inr (), c\<lparr>cp_exited := True\<rparr>, snd (system_answer y)))"

subsection \<open>Reading lines\<close>

fun read_chars_line :: "nat \<Rightarrow> string \<Rightarrow> read_answer list \<Rightarrow> string result \<times> read_answer list" where
  "read_chars_line max_bytes line answers =
     (if length line \<ge> max_bytes then (Inl OversizedMessage, answers)
      else case answers of
        [] \<Rightarrow> (if line = [] then Inl NotFound else Inr line, [])
      | ReadError # later \<Rightarrow> (Inl PersistenceError, later)
      | ReadByte c # later \<Rightarrow>
          if c = CHR ''\<newline>'' then (Inr line, later)
          else if c = CHR 0x0D then read_chars_line max_bytes line later
          else read_chars_line max_bytes (line @ [c]) later)"

declare read_chars_line.simps [simp del]

definition read_line :: "nat \<Rightarrow> child_process \<Rightarrow> system \<Rightarrow> string result \<times> system" where
  "read_line max_bytes c y =
     (case cp_read c of None \<Rightarrow> (Inl LifecycleViolation, y)
      | Some k \<Rightarrow> let (r, later) = read_chars_line max_bytes [] (sy_output y k) in
          (r, y\<lparr>sy_output := (sy_output y)(k := later)\<rparr>))"

subsection \<open>Command lines and paths\<close>

text \<open>The loop of quote_argument: the backslashes seen so far and not yet written, and the rest of the argument.\<close>

fun quote_loop :: "nat \<Rightarrow> string \<Rightarrow> string" where
  "quote_loop n [] = replicate (n * 2) (CHR 0x5C) @ [CHR 0x22]"
| "quote_loop n (c # cs) =
     (if c = CHR 0x5C then quote_loop (n + 1) cs
      else if c = CHR 0x22 then replicate (n * 2 + 1) (CHR 0x5C) @ [CHR 0x22] @ quote_loop 0 cs
      else replicate n (CHR 0x5C) @ [c] @ quote_loop 0 cs)"

definition quote_argument :: "string \<Rightarrow> string" where
  "quote_argument argument = CHR 0x22 # quote_loop 0 argument"

text \<open>The conversion from UTF-8 to UTF-16 is a call of Windows, MultiByteToWideChar, and an argument here; a conversion that fails has no units.
  The command line is what CreateProcessW is given, with the terminating NUL.\<close>

definition widen :: "(string \<Rightarrow> u16 list) \<Rightarrow> string \<Rightarrow> u16 list" where
  "widen to_wide utf8 = (if utf8 = [] then [] else to_wide utf8)"

definition command_line :: "(string \<Rightarrow> u16 list) \<Rightarrow> process_options \<Rightarrow> u16 list" where
  "command_line to_wide options = widen to_wide (po_executable options) @
     concat (map (\<lambda>a. 0x20 # widen to_wide (quote_argument a)) (po_arguments options)) @ [0]"

text \<open>readlink into a buffer of 4096 bytes, one of which is left out.\<close>

definition executable_path :: "string option \<Rightarrow> string result" where
  "executable_path link = (case link of None \<Rightarrow> Inl NotFound | Some p \<Rightarrow> if p = [] then Inl NotFound else Inr (take 4095 p))"

definition directory_of :: "string \<Rightarrow> string" where
  "directory_of p = (if list_ex separator p then rev (drop 1 (dropWhile (\<lambda>c. \<not> separator c) (rev p))) else ''.'')"

definition executable_directory :: "string option \<Rightarrow> string result" where
  "executable_directory link = (case executable_path link of Inl e \<Rightarrow> Inl e | Inr p \<Rightarrow> Inr (directory_of p))"

subsection \<open>Every descriptor has one owner\<close>

definition handles :: "child_process \<Rightarrow> nat multiset" where
  "handles c = (case cp_read c of None \<Rightarrow> {#} | Some k \<Rightarrow> {#k#}) + (case cp_write c of None \<Rightarrow> {#} | Some k \<Rightarrow> {#k#})"

text \<open>The open descriptors as a multiset, each once and none beyond the next one, and the number of closes of descriptors that were not open.\<close>

definition sound_table :: "nat multiset \<Rightarrow> nat \<Rightarrow> system \<Rightarrow> bool" where
  "sound_table tab bad y \<longleftrightarrow> mset (sy_open y) = tab \<and> distinct (sy_open y) \<and> (\<forall>k \<in> set (sy_open y). k < sy_next y) \<and> sy_bad_closes y = bad"

definition owned_by :: "('o \<Rightarrow> nat multiset) \<Rightarrow> 'o list \<Rightarrow> nat multiset" where
  "owned_by own cs = sum_list (map own cs)"

text \<open>Objects that own descriptors, and what a program does with them.  The law: a step leaves every descriptor with one owner.\<close>

locale descriptor_owners =
  fixes own :: "'o \<Rightarrow> nat multiset" and act :: "'o list \<times> system \<Rightarrow> 'o list \<times> system \<Rightarrow> bool"
  assumes act_accounts: "act (cs, y) (cs', y') \<Longrightarrow> sound_table (others + owned_by own cs) bad y \<Longrightarrow>
    sound_table (others + owned_by own cs') bad y'"
begin

lemma run_accounts:
  assumes "act\<^sup>*\<^sup>* (cs, y) (cs', y')" "sound_table (others + owned_by own cs) bad y"
  shows "sound_table (others + owned_by own cs') bad y'"
  using assms
proof (induction "(cs', y')" arbitrary: cs' y' rule: rtranclp_induct)
  case (step s)
  then show ?case using act_accounts by (cases s) blast
qed simp

lemma nothing_leaks:
  assumes "act\<^sup>*\<^sup>* ([], y) (cs, y')" "distinct (sy_open y)" "\<forall>k \<in> set (sy_open y). k < sy_next y"
  shows "mset (sy_open y') = mset (sy_open y) + owned_by own cs" "distinct (sy_open y')" "sy_bad_closes y' = sy_bad_closes y"
    "cs = [] \<Longrightarrow> set (sy_open y') = set (sy_open y)"
proof -
  have "sound_table (mset (sy_open y) + owned_by own []) (sy_bad_closes y) y"
    using assms(2,3) by (simp add: sound_table_def owned_by_def)
  from run_accounts[OF assms(1) this]
  show "mset (sy_open y') = mset (sy_open y) + owned_by own cs" "distinct (sy_open y')" "sy_bad_closes y' = sy_bad_closes y"
    by (simp_all add: sound_table_def)
  then show "cs = [] \<Longrightarrow> set (sy_open y') = set (sy_open y)" by (metis add.right_neutral list.simps(8) owned_by_def set_mset_mset sum_list.Nil)
qed

end

text \<open>What a program does with ChildProcess objects, in any order.\<close>

inductive child_step :: "child_process list \<times> system \<Rightarrow> child_process list \<times> system \<Rightarrow> bool" where
  step_spawn: "spawn_process options y = (Inr c, y') \<Longrightarrow> child_step (cs, y) (cs @ [c], y')"
| step_spawn_fails: "spawn_process options y = (Inl e, y') \<Longrightarrow> child_step (cs, y) (cs, y')"
| step_move: "i < length cs \<Longrightarrow> move_child (cs ! i) = (c, left) \<Longrightarrow> child_step (cs, y) (cs[i := left] @ [c], y)"
| step_assign: "i < length cs \<Longrightarrow> j < length cs \<Longrightarrow> i \<noteq> j \<Longrightarrow> move_child (cs ! j) = (c, left) \<Longrightarrow>
    child_step (cs, y) (cs[i := c, j := left], destroy_child (cs ! i) y)"
| step_destroy: "child_step (cs @ c # ds, y) (cs @ ds, destroy_child c y)"
| step_wait: "i < length cs \<Longrightarrow> child_wait (cs ! i) y = (r, c, y') \<Longrightarrow> child_step (cs, y) (cs[i := c], y')"
| step_terminate: "i < length cs \<Longrightarrow> child_terminate (cs ! i) y = (t, c, y') \<Longrightarrow> child_step (cs, y) (cs[i := c], y')"
| step_read: "i < length cs \<Longrightarrow> read_line n (cs ! i) y = (l, y') \<Longrightarrow> child_step (cs, y) (cs, y')"

lemma system_answer_keeps [simp]:
  "sy_open (snd (system_answer y)) = sy_open y" "sy_next (snd (system_answer y)) = sy_next y"
  "sy_bad_closes (snd (system_answer y)) = sy_bad_closes y"
  by (simp_all add: system_answer_def split: list.split)

lemma owned_update: "i < length cs \<Longrightarrow> owned_by own (cs[i := c]) + own (cs ! i) = owned_by own cs + own c"
proof (induction cs arbitrary: i)
  case (Cons x cs)
  then show ?case by (cases i) (auto simp: owned_by_def algebra_simps)
qed simp

lemma owned_append [simp]:
  "owned_by own (cs @ ds) = owned_by own cs + owned_by own ds" "owned_by own [] = {#}" "owned_by own (c # cs) = own c + owned_by own cs"
  by (simp_all add: owned_by_def)

text \<open>Moving an object into another: the table gives up what the target owned.\<close>

lemma owned_moved:
  assumes "i < length cs" "own left = {#}" "own c = own (cs ! i)"
  shows "owned_by own (cs[i := left] @ [c]) = owned_by own cs"
  using owned_update[OF assms(1), of own left] assms(2,3) by simp

lemma owned_assigned:
  assumes "i < length cs" "j < length cs" "i \<noteq> j" "own left = {#}" "own c = own (cs ! j)"
  shows "owned_by own cs = owned_by own (cs[i := c, j := left]) + own (cs ! i)"
proof -
  have "owned_by own (cs[i := c]) + own (cs ! i) = owned_by own cs + own c" using owned_update[OF assms(1)] .
  moreover have "owned_by own (cs[i := c, j := left]) + own c = owned_by own (cs[i := c])"
    using owned_update[of j "cs[i := c]" own left] assms by simp
  ultimately have "owned_by own cs + own c = owned_by own (cs[i := c, j := left]) + own (cs ! i) + own c" by (metis add.assoc add.commute)
  then show ?thesis by simp
qed

lemma move_handles: "move_child c = (d, left) \<Longrightarrow> handles d = handles c \<and> handles left = {#}"
  by (auto simp: move_child_def handles_def)

lemma sound_table_answer [simp]: "sound_table tab bad (snd (system_answer y)) = sound_table tab bad y"
  by (simp add: sound_table_def)

lemma close_descriptor_sound: "sound_table (add_mset k tab) bad y \<Longrightarrow> sound_table tab bad (close_descriptor k y)"
proof -
  assume s: "sound_table (add_mset k tab) bad y"
  then have "k \<in># mset (sy_open y)" by (simp add: sound_table_def)
  then have k: "k \<in> set (sy_open y)" by simp
  show ?thesis using s k by (auto simp: sound_table_def close_descriptor_def dest: notin_set_remove1)
qed

lemma close_option_sound:
  "sound_table (tab + (case h of None \<Rightarrow> {#} | Some k \<Rightarrow> {#k#})) bad y \<Longrightarrow> sound_table tab bad (close_option h y)"
  by (cases h) (auto simp: close_option_def intro: close_descriptor_sound)

lemma destroy_sound: "sound_table (tab + handles c) bad y \<Longrightarrow> sound_table tab bad (destroy_child c y)"
  unfolding destroy_child_def handles_def by (intro close_option_sound) (simp add: ac_simps)

lemma pipe_sound:
  assumes "open_pipe y = (r, y')" "sound_table tab bad y"
  shows "case r of Inl e \<Rightarrow> sound_table tab bad y' | Inr (k, l) \<Rightarrow> sound_table (add_mset k (add_mset l tab)) bad y'"
proof -
  obtain x y1 where x: "system_answer y = (x, y1)" by fastforce
  then have "sound_table tab bad y1" using assms(2) sound_table_answer[of tab bad y] by simp
  moreover have "k \<notin> set (sy_open y1)" if "k \<ge> sy_next y1" for k using calculation that by (auto simp: sound_table_def)
  ultimately show ?thesis using assms(1) x by (auto simp: open_pipe_def sound_table_def less_Suc_eq split: os_answer.splits)
qed

lemma spawn_sound:
  assumes "spawn_process options y = (r, y')" "sound_table tab bad y"
  shows "case r of Inl e \<Rightarrow> sound_table tab bad y' | Inr c \<Rightarrow> sound_table (tab + handles c) bad y'"
proof (cases "po_executable options = []")
  case True
  then show ?thesis using assms by (auto simp: spawn_process_def)
next
  case False
  define fin where "fin = (\<lambda>fds y. let (rc, y) = system_answer y;
               y = (case fds of None \<Rightarrow> y | Some (r, w) \<Rightarrow> close_descriptor w y) in
           case rc of
             OsPid pid \<Rightarrow> (Inr (child_process0\<lparr>cp_pid := pid, cp_process := True, cp_read := map_option fst fds\<rparr>), y)
           | _ \<Rightarrow> (Inl NotFound, case fds of None \<Rightarrow> y | Some (r, w) \<Rightarrow> close_descriptor r y))"
  have fin: "case fst (fin fds y) of Inl e \<Rightarrow> sound_table tab bad (snd (fin fds y)) | Inr c \<Rightarrow> sound_table (tab + handles c) bad (snd (fin fds y))"
    if "sound_table (tab + (case fds of None \<Rightarrow> {#} | Some (k, l) \<Rightarrow> {#k, l#})) bad y" for fds y
  proof -
    obtain x y1 where x: "system_answer y = (x, y1)" by fastforce
    then have s1: "sound_table (tab + (case fds of None \<Rightarrow> {#} | Some (k, l) \<Rightarrow> {#k, l#})) bad y1"
      using that sound_table_answer[of _ bad y] by (metis snd_conv)
    show ?thesis
    proof (cases fds)
      case None
      then show ?thesis using s1 x by (auto simp: fin_def Let_def handles_def child_process0_def split: os_answer.split)
    next
      case (Some p)
      obtain k l where p: "p = (k, l)" by fastforce
      have "sound_table (add_mset k tab) bad (close_descriptor l y1)"
        using s1 Some p by (intro close_descriptor_sound) (simp add: add_mset_commute)
      then show ?thesis
        using x Some p close_descriptor_sound by (auto simp: fin_def Let_def handles_def child_process0_def split: os_answer.split)
    qed
  qed
  show ?thesis
  proof (cases "po_capture_stdout options")
    case True
    obtain p y1 where p: "open_pipe y = (p, y1)" by fastforce
    show ?thesis
    proof (cases p)
      case (Inl e)
      then show ?thesis using pipe_sound[OF p assms(2)] assms(1) p True False by (auto simp: spawn_process_def try_st_def)
    next
      case (Inr x)
      then have "fin (Some x) y1 = (r, y')"
        using assms(1) p True False unfolding spawn_process_def fin_def[symmetric] by (simp add: try_st_def)
      moreover have "sound_table (tab + (case Some x of None \<Rightarrow> {#} | Some (k, l) \<Rightarrow> {#k, l#})) bad y1"
        using pipe_sound[OF p assms(2)] Inr by (auto split: prod.splits)
      ultimately show ?thesis using fin[of "Some x" y1] by (simp only: fst_conv snd_conv)
    qed
  next
    case False
    then have "fin None y = (r, y')"
      using assms(1) \<open>po_executable options \<noteq> []\<close> unfolding spawn_process_def fin_def[symmetric] by (simp add: try_st_def)
    then show ?thesis using assms(2) fin[of None y] by (cases r) auto
  qed
qed

lemma wait_sound:
  assumes "child_wait c y = (r, d, y')" "sound_table tab bad y"
  shows "handles d = handles c \<and> sound_table tab bad y'"
proof -
  obtain x y1 where x: "system_answer y = (x, y1)" by fastforce
  then have "sound_table tab bad y1" using assms(2) sound_table_answer[of tab bad y] by simp
  then show ?thesis using assms x by (auto simp: child_wait_def handles_def split: if_splits os_answer.splits)
qed

lemma terminate_sound:
  assumes "child_terminate c y = (r, d, y')" "sound_table tab bad y"
  shows "handles d = handles c \<and> sound_table tab bad y'"
proof -
  obtain x y1 where x: "system_answer y = (x, y1)" by fastforce
  then have "sound_table tab bad y1" "sound_table tab bad (snd (system_answer y1))" using assms(2) sound_table_answer[of tab bad y] by simp_all
  then show ?thesis using assms x by (auto simp: child_terminate_def handles_def split: if_splits os_answer.splits)
qed

lemma read_line_sound: "read_line n c y = (r, y') \<Longrightarrow> sound_table tab bad y \<Longrightarrow> sound_table tab bad y'"
  by (auto simp: read_line_def sound_table_def split: option.splits prod.splits)

lemma child_step_accounts:
  assumes "child_step (cs, y) (cs', y')" "sound_table (others + owned_by handles cs) bad y"
  shows "sound_table (others + owned_by handles cs') bad y'"
  using assms
proof (cases rule: child_step.cases)
  case (step_spawn options c)
  then show ?thesis using spawn_sound[OF step_spawn(2) assms(2)] by (simp add: ac_simps)
next
  case (step_spawn_fails options e)
  then show ?thesis using spawn_sound[OF step_spawn_fails(2) assms(2)] by simp
next
  case (step_move i c left)
  then show ?thesis using owned_moved[of i cs handles left c] move_handles assms(2) by auto
next
  case (step_assign i j c left)
  then show ?thesis
    using owned_assigned[of i cs j handles left c] move_handles[OF step_assign(6)] assms(2)
      destroy_sound[of "others + owned_by handles cs'" "cs ! i" bad y] by (simp add: add.assoc)
next
  case (step_destroy cs c ds)
  then show ?thesis using assms(2) destroy_sound[of "others + owned_by handles cs'" c bad y] by (simp add: ac_simps)
next
  case (step_wait i r c)
  then show ?thesis using wait_sound[OF step_wait(3) assms(2)] owned_update[of i cs handles c] by simp
next
  case (step_terminate i t c)
  then show ?thesis using terminate_sound[OF step_terminate(3) assms(2)] owned_update[of i cs handles c] by simp
next
  case (step_read i n l)
  then show ?thesis using read_line_sound assms(2) by simp
qed

interpretation children: descriptor_owners handles child_step
  by unfold_locales (rule child_step_accounts)

text \<open>C19: descriptors are neither leaked nor closed twice.  Whatever a program does with its child processes, in any
  order and with any answers of the system (spawning, with its failures, moving, move assignment, destroying, waiting, killing,
  reading), the open descriptors are those that were open before and one for each that an object owns, and no
  close hits a descriptor that is not open; so when no object is left, the table is what it was.\<close>

theorem child_descriptors_accounted:
  assumes "child_step\<^sup>*\<^sup>* ([], y) (cs, y')" "distinct (sy_open y)" "\<forall>k \<in> set (sy_open y). k < sy_next y"
  shows "mset (sy_open y') = mset (sy_open y) + owned_by handles cs \<and> distinct (sy_open y') \<and> sy_bad_closes y' = sy_bad_closes y \<and>
    (cs = [] \<longrightarrow> set (sy_open y') = set (sy_open y))"
  using children.nothing_leaks[OF assms] by simp

text \<open>A child is spawned with its output captured, moved, and the moved object is destroyed.\<close>

definition sample_system :: system where
  "sample_system = \<lparr>sy_open = [0, 1, 2], sy_next = 3, sy_bad_closes = 0, sy_output = (\<lambda>_. []), sy_answers = [OsExited 0, OsPid 77]\<rparr>"

theorem child_descriptors_accounted_witness:
  "\<exists>c old y y'. child_step\<^sup>*\<^sup>* ([], sample_system) ([old, c], y) \<and> child_step\<^sup>*\<^sup>* ([], sample_system) ([old], y') \<and>
     cp_read c = Some 3 \<and> set (sy_open y') = {0, 1, 2}"
proof -
  obtain c y where s: "spawn_process (process_options0\<lparr>po_executable := ''bf_worker''\<rparr>) sample_system = (Inr c, y)" "cp_read c = Some 3"
    by (simp add: spawn_process_def process_options0_def sample_system_def open_pipe_def system_answer_def try_st_def close_descriptor_def)
  obtain old where m: "move_child c = (c, old)" by (simp add: move_child_def)
  have "child_step ([], sample_system) ([c], y)" using step_spawn[OF s(1), of "[]"] by simp
  moreover have "child_step ([c], y) ([old, c], y)" using step_move[of 0 "[c]"] m by simp
  ultimately have r: "child_step\<^sup>*\<^sup>* ([], sample_system) ([old, c], y)" by (metis converse_rtranclp_into_rtranclp rtranclp.rtrancl_refl)
  then have r': "child_step\<^sup>*\<^sup>* ([], sample_system) ([old], destroy_child c y)"
    using step_destroy[of "[old]" c "[]" y] by simp
  have "mset (sy_open (destroy_child c y)) = mset (sy_open sample_system) + owned_by handles [old]"
    using child_descriptors_accounted[OF r'] by (simp add: sample_system_def)
  moreover have "owned_by handles [old] = {#}" using move_handles[OF m] by simp
  ultimately have "set (sy_open (destroy_child c y)) = {0, 1, 2}"
    by (metis add.right_neutral set_mset_mset sample_system_def system.select_convs(1) list.set(1,2))
  then show ?thesis using r r' s(2) by blast
qed

subsection \<open>Waiting\<close>

text \<open>A child that was killed by terminate is reported by wait as having ended with code 0.\<close>

lemma terminated_child_reports_success:
  assumes "spawn_process options y = (Inr c, y1)" "child_terminate c y1 = (Inr (), d, y2)"
  shows "fst (child_wait d y2) = Inr 0"
  using assms
  by (auto simp: spawn_process_def child_terminate_def child_wait_def child_valid_def child_process0_def try_st_def Let_def
      split: if_splits prod.splits sum.splits os_answer.splits option.splits)

lemma wait_is_stable:
  "child_wait c y = (Inr n, d, y') \<Longrightarrow> child_wait d z = (Inr n, d, z)"
  by (auto simp: child_wait_def child_valid_def split: if_splits prod.splits os_answer.splits)

subsection \<open>Lines\<close>

definition line_bytes :: "string \<Rightarrow> read_answer list" where
  "line_bytes l = map ReadByte (l @ [CHR ''\<newline>''])"

definition plain_line :: "string \<Rightarrow> bool" where
  "plain_line l \<longleftrightarrow> CHR ''\<newline>'' \<notin> set l \<and> CHR 0x0D \<notin> set l"

lemma read_chars_line_plain:
  assumes "plain_line l" "length acc + length l < n"
  shows "read_chars_line n acc (line_bytes l @ later) = (Inr (acc @ l), later)"
  using assms
proof (induction l arbitrary: acc)
  case Nil
  then show ?case by (simp add: line_bytes_def read_chars_line.simps)
next
  case (Cons c l)
  have "read_chars_line n acc (line_bytes (c # l) @ later) = read_chars_line n (acc @ [c]) (line_bytes l @ later)"
    using Cons.prems by (subst read_chars_line.simps) (auto simp: plain_line_def line_bytes_def)
  then show ?case using Cons.IH[of "acc @ [c]"] Cons.prems by (simp add: plain_line_def)
qed

text \<open>A line as long as the bound is refused, although the header promises up to that many bytes, and its bytes are gone.\<close>

lemma read_chars_line_full:
  assumes "plain_line l" "length acc + length l = n"
  shows "read_chars_line n acc (line_bytes l @ later) = (Inl OversizedMessage, ReadByte (CHR ''\<newline>'') # later)"
  using assms
proof (induction l arbitrary: acc)
  case Nil
  then show ?case by (simp add: line_bytes_def read_chars_line.simps)
next
  case (Cons c l)
  have "read_chars_line n acc (line_bytes (c # l) @ later) = read_chars_line n (acc @ [c]) (line_bytes l @ later)"
    using Cons.prems by (subst read_chars_line.simps) (auto simp: plain_line_def line_bytes_def)
  then show ?case using Cons.IH[of "acc @ [c]"] Cons.prems by (simp add: plain_line_def)
qed

fun read_lines :: "nat \<Rightarrow> nat \<Rightarrow> child_process \<Rightarrow> system \<Rightarrow> string result list \<times> system" where
  "read_lines 0 n c y = ([], y)"
| "read_lines (Suc k) n c y = (let (r, y) = read_line n c y; (rs, y) = read_lines k n c y in (r # rs, y))"

text \<open>The lines a child prints are read back one by one and in order, and then the end.\<close>

lemma read_lines_back:
  assumes "cp_read c = Some k" "sy_output y k = concat (map line_bytes ls)" "\<forall>l \<in> set ls. plain_line l \<and> length l < n" "0 < n"
  shows "fst (read_lines (length ls + 1) n c y) = map Inr ls @ [Inl NotFound]"
  using assms(2,3)
proof (induction ls arbitrary: y)
  case Nil
  then show ?case using assms(1,4) by (simp add: read_line_def read_chars_line.simps)
next
  case (Cons l ls)
  let ?y = "y\<lparr>sy_output := (sy_output y)(k := concat (map line_bytes ls))\<rparr>"
  have "read_line n c y = (Inr l, ?y)"
    using read_chars_line_plain[of l "[]" n "concat (map line_bytes ls)"] Cons.prems assms(1) by (simp add: read_line_def)
  moreover have "fst (read_lines (length ls + 1) n c ?y) = map Inr ls @ [Inl NotFound]" using Cons by simp
  ultimately show ?case
    using read_lines.simps(2)[of "length ls + 1" n c y] by (simp del: read_lines.simps add: Let_def split_beta)
qed

subsection \<open>Quoting\<close>

text \<open>How a program finds its arguments in the command line: it ends at the first NUL, and the Microsoft C runtime splits it, by its documentation.
  The functions take the number of backslashes seen, whether a
  quoted part is open, the argument so far and the rest of the line.  A quotation mark after an even number of backslashes opens or
  closes a quoted part, after an odd number it is literal, and two in a quoted part are one; backslashes before
  anything else are literal; blanks outside of quotes end the argument.  A program name without quotation marks ends at the first blank.\<close>

definition blank :: "u16 \<Rightarrow> bool" where
  "blank c \<longleftrightarrow> c = 0x20 \<or> c = 0x09"

fun argument_units :: "nat \<Rightarrow> bool \<Rightarrow> u16 list \<Rightarrow> u16 list \<Rightarrow> u16 list \<times> u16 list" where
  "argument_units n q acc [] = (acc @ replicate n 0x5C, [])"
| "argument_units n q acc (c # cs) =
     (if c = 0x5C then argument_units (n + 1) q acc cs
      else if c = 0x22 then
        if odd n then argument_units 0 q (acc @ replicate (n div 2) 0x5C @ [c]) cs
        else if q \<and> cs \<noteq> [] \<and> hd cs = 0x22
        then argument_units 0 q (acc @ replicate (n div 2) 0x5C @ [c]) (tl cs)
        else argument_units 0 (\<not> q) (acc @ replicate (n div 2) 0x5C) cs
      else if blank c \<and> \<not> q then (acc @ replicate n 0x5C, c # cs)
      else argument_units 0 q (acc @ replicate n 0x5C @ [c]) cs)"

text \<open>Every argument takes at least one unit of the line, so its length is fuel enough.\<close>

fun split_arguments :: "nat \<Rightarrow> u16 list \<Rightarrow> u16 list list" where
  "split_arguments 0 line = []"
| "split_arguments (Suc k) line =
     (case dropWhile blank line of [] \<Rightarrow> []
      | c # cs \<Rightarrow> let (a, rest) = argument_units 0 False [] (c # cs) in a # split_arguments k rest)"

definition argv_of :: "u16 list \<Rightarrow> u16 list list" where
  "argv_of text = (let line = takeWhile (\<lambda>u. u \<noteq> 0) text in
     takeWhile (\<lambda>c. \<not> blank c) line # split_arguments (length line) (dropWhile (\<lambda>c. \<not> blank c) line))"

text \<open>The quoting loop on the converted argument, which quoting and then converting amounts to.\<close>

fun wide_quote :: "nat \<Rightarrow> u16 list \<Rightarrow> u16 list" where
  "wide_quote n [] = replicate (n * 2) 0x5C @ [0x22]"
| "wide_quote n (c # cs) =
     (if c = 0x5C then wide_quote (n + 1) cs
      else if c = 0x22 then replicate (n * 2 + 1) 0x5C @ [0x22] @ wide_quote 0 cs
      else replicate n 0x5C @ [c] @ wide_quote 0 cs)"

lemma argument_units_backslashes: "argument_units n q acc (replicate m 0x5C @ cs) = argument_units (n + m) q acc cs"
  by (induction m arbitrary: n) simp_all

lemma quoted_argument_read:
  assumes "rest = [] \<or> hd rest = 0x20"
  shows "argument_units 0 True acc (wide_quote n a @ rest) = (acc @ replicate n 0x5C @ a, rest)"
proof (induction n a arbitrary: acc rule: wide_quote.induct)
  case (1 n)
  have "argument_units 0 True acc (wide_quote n [] @ rest) = argument_units 0 False (acc @ replicate n 0x5C) rest"
    using assms by (auto simp: argument_units_backslashes)
  then show ?case using assms by (cases rest) (auto simp: blank_def)
next
  case (2 n c cs)
  consider "c = 0x5C" | "c = 0x22" | "c \<noteq> 0x5C" "c \<noteq> 0x22" by blast
  then show ?case
  proof cases
    case 1
    then show ?thesis using "2.IH"(1)[OF 1, of acc] by (simp add: replicate_append_same[symmetric])
  next
    case 2
    have q: "c \<noteq> 0x5C" using 2 by simp
    have "wide_quote n (c # cs) @ rest = replicate (n * 2 + 1) 0x5C @ 0x22 # wide_quote 0 cs @ rest" using 2 q by simp
    then have "argument_units 0 True acc (wide_quote n (c # cs) @ rest) =
        argument_units 0 True (acc @ replicate n 0x5C @ [c]) (wide_quote 0 cs @ rest)"
      using 2 by (simp only: argument_units_backslashes) simp
    then show ?thesis using "2.IH"(2)[OF q 2] by simp
  next
    case 3
    have "wide_quote n (c # cs) @ rest = replicate n 0x5C @ c # wide_quote 0 cs @ rest" using 3 by simp
    then have "argument_units 0 True acc (wide_quote n (c # cs) @ rest) =
        argument_units 0 True (acc @ replicate n 0x5C @ [c]) (wide_quote 0 cs @ rest)"
      using 3 by (simp only: argument_units_backslashes) simp
    then show ?thesis using "2.IH"(3)[OF 3] by simp
  qed
qed

lemma set_wide_quote: "set (wide_quote n a) \<subseteq> {0x5C, 0x22} \<union> set a"
  by (induction n a rule: wide_quote.induct) auto

lemma wide_quote_plain:
  assumes "a \<noteq> []" "\<forall>c \<in> set a. c \<noteq> 0x5C \<and> c \<noteq> 0x22"
  shows "wide_quote n (a @ b) = replicate n 0x5C @ a @ wide_quote 0 b"
  using assms by (induction a arbitrary: n) (case_tac a; fastforce)+

lemma quote_loop_plain:
  assumes "a \<noteq> []" "\<forall>c \<in> set a. c \<noteq> CHR 0x5C \<and> c \<noteq> CHR 0x22"
  shows "quote_loop n (a @ b) = replicate n (CHR 0x5C) @ a @ quote_loop 0 b"
  using assms by (induction a arbitrary: n) (case_tac a; fastforce)+

subsection \<open>Conversion\<close>

text \<open>The well formed byte sequences of one character in UTF-8.\<close>

definition utf8_tail :: "nat \<Rightarrow> bool" where
  "utf8_tail b \<longleftrightarrow> 0x80 \<le> b \<and> b \<le> 0xBF"

definition utf8_char :: "string \<Rightarrow> bool" where
  "utf8_char m \<longleftrightarrow>
     (case map of_char m of
        [a] \<Rightarrow> a < (0x80 :: nat)
      | [a, b] \<Rightarrow> 0xC2 \<le> a \<and> a \<le> 0xDF \<and> utf8_tail b
      | [a, b, c] \<Rightarrow> 0xE0 \<le> a \<and> a \<le> 0xEF \<and> utf8_tail b \<and> utf8_tail c \<and> (a = 0xE0 \<longrightarrow> 0xA0 \<le> b) \<and> (a = 0xED \<longrightarrow> b \<le> 0x9F)
      | [a, b, c, d] \<Rightarrow> 0xF0 \<le> a \<and> a \<le> 0xF4 \<and> utf8_tail b \<and> utf8_tail c \<and> utf8_tail d \<and>
          (a = 0xF0 \<longrightarrow> 0x90 \<le> b) \<and> (a = 0xF4 \<longrightarrow> b \<le> 0x8F)
      | _ \<Rightarrow> False)"

definition wide_char :: "char \<Rightarrow> u16" where
  "wide_char c = of_nat (of_char c)"

text \<open>What the conversion is documented to do with well formed text: it converts character by character, an ASCII character to the
  unit of the same value, and any other to units outside of ASCII.\<close>

definition converts_utf8 :: "(string \<Rightarrow> u16 list) \<Rightarrow> bool" where
  "converts_utf8 to_wide \<longleftrightarrow>
     (\<forall>ms. list_all utf8_char ms \<longrightarrow> to_wide (concat ms) = concat (map to_wide ms)) \<and>
     (\<forall>c. of_char c < (0x80 :: nat) \<longrightarrow> to_wide [c] = [wide_char c]) \<and>
     (\<forall>m. utf8_char m \<longrightarrow> 1 < length m \<longrightarrow> to_wide m \<noteq> [] \<and> list_all (\<lambda>u. 0x80 \<le> u) (to_wide m))"

lemma unat_wide_char: "unat (wide_char c) = of_char c"
proof -
  have "of_char c mod 65536 = (of_char c :: nat)" by (rule mod_less) (rule less_trans[OF nat_of_char_less_256], simp)
  then show ?thesis by (simp add: wide_char_def unat_of_nat)
qed

lemma wide_char_eq: "wide_char c = wide_char d \<longleftrightarrow> c = d"
  by (metis unat_wide_char of_char_eq_iff)

lemma wide_char_is:
  "wide_char c = 0x5C \<longleftrightarrow> c = CHR 0x5C" "wide_char c = 0x22 \<longleftrightarrow> c = CHR 0x22" "wide_char c = 0x20 \<longleftrightarrow> c = CHR '' ''"
  "wide_char c = 0x09 \<longleftrightarrow> c = CHR 0x09" "wide_char c = 0 \<longleftrightarrow> c = CHR 0x00"
  using wide_char_eq[of c "CHR 0x5C"] wide_char_eq[of c "CHR 0x22"] wide_char_eq[of c "CHR '' ''"] wide_char_eq[of c "CHR 0x09"]
    wide_char_eq[of c "CHR 0x00"]
  by (simp_all add: wide_char_def)

lemma utf8_char_cases:
  assumes "utf8_char m"
  obtains (ascii) c where "m = [c]" "of_char c < (0x80 :: nat)"
  | (longer) "1 < length m" "\<forall>c \<in> set m. (0x80 :: nat) \<le> of_char c"
  using assms unfolding utf8_char_def
  by (auto simp: utf8_tail_def split: list.splits)

text \<open>Quoting by characters.\<close>

fun quote_chars :: "nat \<Rightarrow> string list \<Rightarrow> string list" where
  "quote_chars n [] = replicate (n * 2) [CHR 0x5C] @ [[CHR 0x22]]"
| "quote_chars n (m # ms) =
     (if m = [CHR 0x5C] then quote_chars (n + 1) ms
      else if m = [CHR 0x22] then replicate (n * 2 + 1) [CHR 0x5C] @ [[CHR 0x22]] @ quote_chars 0 ms
      else replicate n [CHR 0x5C] @ [m] @ quote_chars 0 ms)"

lemma concat_replicate_single: "concat (replicate n [x]) = replicate n x"
  by (induction n) simp_all

lemma concat_quote_chars: "list_all utf8_char ms \<Longrightarrow> concat (quote_chars n ms) = quote_loop n (concat ms)"
proof (induction n ms rule: quote_chars.induct)
  case (2 n m ms)
  then have "utf8_char m" by simp
  then show ?case
  proof (cases rule: utf8_char_cases)
    case (ascii c)
    then show ?thesis using 2 by (simp add: concat_replicate_single)
  next
    case longer
    have "\<forall>c \<in> set m. c \<noteq> CHR 0x5C \<and> c \<noteq> CHR 0x22" using longer(2) by fastforce
    moreover have "m \<noteq> [CHR 0x5C]" "m \<noteq> [CHR 0x22]" "m \<noteq> []" using longer(1) by auto
    ultimately show ?thesis using 2(3,4) quote_loop_plain[of m n "concat ms"] by (simp add: concat_replicate_single)
  qed
qed (simp add: concat_replicate_single)

lemma utf8_quote_chars: "list_all utf8_char ms \<Longrightarrow> list_all utf8_char (quote_chars n ms)"
  by (induction n ms rule: quote_chars.induct) (auto simp: list_all_iff utf8_char_def)

lemma wide_quote_chars:
  assumes "converts_utf8 to_wide"
  shows "list_all utf8_char ms \<Longrightarrow> concat (map to_wide (quote_chars n ms)) = wide_quote n (concat (map to_wide ms))"
proof (induction n ms rule: quote_chars.induct)
  case (1 n)
  have "to_wide [CHR 0x5C] = [0x5C]" "to_wide [CHR 0x22] = [0x22]" using assms by (simp_all add: converts_utf8_def wide_char_def)
  then show ?case by (simp add: concat_replicate_single)
next
  case (2 n m ms)
  have q: "to_wide [CHR 0x5C] = [0x5C]" "to_wide [CHR 0x22] = [0x22]" using assms by (simp_all add: converts_utf8_def wide_char_def)
  have "utf8_char m" using 2 by simp
  then show ?case
  proof (cases rule: utf8_char_cases)
    case (ascii c)
    then have "to_wide m = [wide_char c]" using assms by (simp add: converts_utf8_def)
    then show ?thesis using 2 ascii q by (simp add: concat_replicate_single wide_char_is)
  next
    case longer
    have w: "to_wide m \<noteq> []" "\<forall>u \<in> set (to_wide m). 0x80 \<le> u"
      using assms longer(1) \<open>utf8_char m\<close> by (auto simp: converts_utf8_def list_all_iff)
    then have "\<forall>u \<in> set (to_wide m). u \<noteq> 0x5C \<and> u \<noteq> 0x22" by (auto simp: word_le_nat_alt)
    moreover have "m \<noteq> [CHR 0x5C]" "m \<noteq> [CHR 0x22]" using longer(1) by auto
    ultimately show ?thesis
      using 2(3,4) q wide_quote_plain[OF w(1), of n "concat (map to_wide ms)"] by (simp add: concat_replicate_single)
  qed
qed

lemma widen_quoted:
  assumes "converts_utf8 to_wide" "list_all utf8_char ms"
  shows "widen to_wide (quote_argument (concat ms)) = 0x22 # wide_quote 0 (to_wide (concat ms))"
proof -
  let ?q = "[CHR 0x22] # quote_chars 0 ms"
  have u: "list_all utf8_char ?q" using utf8_quote_chars[OF assms(2), of 0] by (simp add: utf8_char_def)
  have "quote_argument (concat ms) = concat ?q" using concat_quote_chars[OF assms(2), of 0] by (simp add: quote_argument_def)
  moreover have "to_wide (concat ?q) = concat (map to_wide ?q)" using assms(1) u unfolding converts_utf8_def by blast
  moreover have "to_wide (concat ms) = concat (map to_wide ms)" using assms unfolding converts_utf8_def by blast
  moreover have "to_wide [CHR 0x22] = [0x22]" using assms(1) by (simp add: converts_utf8_def wide_char_def)
  ultimately show ?thesis using wide_quote_chars[OF assms, of 0] by (simp add: widen_def)
qed

definition quoted :: "u16 list list \<Rightarrow> u16 list" where
  "quoted as = concat (map (\<lambda>a. 0x20 # 0x22 # wide_quote 0 a) as)"

lemma split_quoted:
  assumes "length as \<le> k"
  shows "split_arguments (Suc k) (quoted as) = as"
  using assms
proof (induction as arbitrary: k)
  case Nil
  then show ?case by (simp add: quoted_def)
next
  case (Cons a as)
  obtain j where j: "k = Suc j" using Cons.prems by (cases k) auto
  have r: "quoted as = [] \<or> hd (quoted as) = 0x20" by (cases as) (simp_all add: quoted_def)
  have "argument_units 0 False [] (0x22 # wide_quote 0 a @ quoted as) = (a, quoted as)"
    using quoted_argument_read[OF r, of "[]" 0 a] by simp
  then have "split_arguments (Suc k) (quoted (a # as)) = a # split_arguments k (quoted as)"
    by (simp add: quoted_def blank_def del: argument_units.simps)
  then show ?case using Cons.IH[of j] Cons.prems j by simp
qed

lemma quoted_length: "length as \<le> length (quoted as)"
  by (induction as) (simp_all add: quoted_def)

lemma argv_of_quoted:
  assumes "e \<noteq> []" "\<forall>u \<in> set e. \<not> blank u \<and> u \<noteq> 0" "\<forall>a \<in> set as. 0 \<notin> set a"
  shows "argv_of (e @ quoted as @ [0]) = e # as"
proof -
  have "0 \<notin> set (e @ quoted as)" using assms(2,3) subsetD[OF set_wide_quote[of 0], of 0] by (auto simp: quoted_def)
  then have l: "takeWhile (\<lambda>u. u \<noteq> 0) (e @ quoted as @ [0]) = e @ quoted as"
    unfolding append_assoc[symmetric] by (subst takeWhile_append2) auto
  have b: "quoted as = [] \<or> blank (hd (quoted as))" by (cases as) (simp_all add: quoted_def blank_def)
  have t: "takeWhile (\<lambda>c. \<not> blank c) (e @ quoted as) = e" "dropWhile (\<lambda>c. \<not> blank c) (e @ quoted as) = quoted as"
    using assms(2) b by (cases "quoted as"; simp)+
  obtain k where k: "length (e @ quoted as) = Suc k" "length as \<le> k"
    using quoted_length[of as] assms(1) by (cases e) auto
  show ?thesis unfolding argv_of_def l Let_def t k(1) using split_quoted[OF k(2)] by simp
qed

text \<open>The units of well formed text: other than the ASCII characters it has, none is in ASCII.\<close>

lemma wide_units:
  assumes "converts_utf8 to_wide" "list_all utf8_char ms" "u \<in> set (to_wide (concat ms))"
  shows "0x80 \<le> u \<or> (\<exists>c. [c] \<in> set ms \<and> u = wide_char c)"
proof -
  have "to_wide (concat ms) = concat (map to_wide ms)" using assms(1,2) unfolding converts_utf8_def by blast
  then obtain m where m: "m \<in> set ms" "u \<in> set (to_wide m)" using assms(3) by auto
  then have "utf8_char m" using assms(2) by (simp add: list_all_iff)
  then show ?thesis
  proof (cases rule: utf8_char_cases)
    case (ascii c)
    then show ?thesis using assms(1) m by (auto simp: converts_utf8_def)
  next
    case longer
    then show ?thesis using assms(1) m \<open>utf8_char m\<close> by (auto simp: converts_utf8_def list_all_iff)
  qed
qed

text \<open>C24: arguments survive the Windows command line.  Splitting the command line that spawn_process builds, by the documented
  rules of the C runtime, gives back the executable and every argument as converted to UTF-16, whatever characters the arguments have
  (blanks, quotation marks, runs of backslashes, characters outside of ASCII, nothing at all), when they are well formed UTF-8 without NUL, the conversion of the system
  works character by character, and the executable's path has no blank, quotation mark or NUL.\<close>

theorem command_line_round_trip:
  assumes "converts_utf8 to_wide" "po_executable options = concat e" "po_arguments options = map concat as"
    and "e \<noteq> []" "list_all utf8_char e" "\<forall>c \<in> {CHR '' '', CHR 0x09, CHR 0x22, CHR 0x00}. [c] \<notin> set e"
    and "list_all (\<lambda>ms. list_all utf8_char ms \<and> [CHR 0x00] \<notin> set ms) as"
  shows "argv_of (command_line to_wide options) = map to_wide (po_executable options # po_arguments options)"
proof -
  let ?ws = "map (to_wide \<circ> concat) as"
  have e: "concat e \<noteq> []" "to_wide (concat e) \<noteq> []"
  proof -
    obtain m ms where m: "e = m # ms" "utf8_char m" using assms(4,5) by (cases e) auto
    then have "m \<noteq> []" by (auto simp: utf8_char_def)
    moreover have "to_wide m \<noteq> []" using m(2) assms(1) utf8_char_cases[OF m(2)] unfolding converts_utf8_def by (metis list.distinct(1))
    moreover have "to_wide (concat e) = concat (map to_wide e)" using assms(1,5) unfolding converts_utf8_def by blast
    ultimately show "concat e \<noteq> []" "to_wide (concat e) \<noteq> []" using m(1) by simp_all
  qed
  have big: "\<not> blank u \<and> u \<noteq> 0" if "0x80 \<le> u" for u using that by (auto simp: blank_def word_le_nat_alt)
  have u: "\<forall>u \<in> set (to_wide (concat e)). \<not> blank u \<and> u \<noteq> 0"
    using wide_units[OF assms(1,5)] assms(6) big by (fastforce simp: blank_def wide_char_is)
  have n: "\<forall>a \<in> set ?ws. 0 \<notin> set a"
    using wide_units[OF assms(1)] assms(7) big by (fastforce simp: list_all_iff wide_char_is)
  have "widen to_wide (quote_argument (concat ms)) = 0x22 # wide_quote 0 (to_wide (concat ms))" if "ms \<in> set as" for ms
    using widen_quoted[OF assms(1)] assms(7) that by (simp add: list_all_iff)
  then have "concat (map (\<lambda>a. 0x20 # widen to_wide (quote_argument a)) (map concat as)) = quoted ?ws"
    by (simp add: quoted_def comp_def cong: map_cong)
  then have "command_line to_wide options = to_wide (concat e) @ quoted ?ws @ [0]"
    by (simp only: command_line_def assms(2,3) widen_def[of _ "concat e"] if_not_P[OF e(1)] append_assoc)
  then show ?thesis using argv_of_quoted[OF e(2) u n] by (simp add: assms(2,3))
qed

text \<open>The assumption can hold: a conversion that takes each byte to the unit of its value has these properties.\<close>

lemma unitwise_converts: "converts_utf8 (map wide_char)"
proof -
  have "0x80 \<le> wide_char c" if "(0x80 :: nat) \<le> of_char c" for c
    using that by (simp add: word_le_nat_alt unat_wide_char)
  moreover have "1 < length m \<Longrightarrow> utf8_char m \<Longrightarrow> \<forall>c \<in> set m. (0x80 :: nat) \<le> of_char c" for m
    by (auto elim: utf8_char_cases)
  ultimately show ?thesis by (fastforce simp: converts_utf8_def list_all_iff map_concat)
qed

theorem command_line_round_trip_witness:
  "argv_of (command_line (map wide_char) (process_options0\<lparr>po_executable := ''bf.exe'',
       po_arguments := [[CHR 0x5C, CHR 0x22, CHR '' '', CHR 0xC3, CHR 0xA9, CHR 0x5C], []]\<rparr>)) =
     [map wide_char ''bf.exe'', map wide_char [CHR 0x5C, CHR 0x22, CHR '' '', CHR 0xC3, CHR 0xA9, CHR 0x5C], []]"
  using command_line_round_trip[OF unitwise_converts, of "process_options0\<lparr>po_executable := ''bf.exe'',
       po_arguments := [[CHR 0x5C, CHR 0x22, CHR '' '', CHR 0xC3, CHR 0xA9, CHR 0x5C], []]\<rparr>"
      "[''b'', ''f'', ''.'', ''e'', ''x'', ''e'']" "[[[CHR 0x5C], [CHR 0x22], [CHR '' ''], [CHR 0xC3, CHR 0xA9], [CHR 0x5C]], []]"]
  by (simp add: utf8_char_def utf8_tail_def)

text \<open>The executable itself is not quoted: a path with a blank is cut at it.\<close>

lemma executable_with_blank_is_cut:
  "argv_of (command_line (map wide_char) (process_options0\<lparr>po_executable := ''a b'', po_arguments := []\<rparr>)) =
     [map wide_char ''a'', map wide_char ''b'']"
proof -
  have "map wide_char ''a b'' = [97, 32, 98]" "map wide_char ''a'' = [97]" "map wide_char ''b'' = [98]" by (simp_all add: wide_char_def)
  then show ?thesis by (simp add: argv_of_def command_line_def widen_def process_options0_def blank_def)
qed

subsection \<open>Directories\<close>

text \<open>The directory of a file that was named with join_path.\<close>

lemma directory_of_join_path:
  assumes "d \<noteq> []" "\<not> separator (last d)" "leaf \<noteq> []" "list_all (\<lambda>c. \<not> separator c) leaf"
  shows "directory_of (join_path d leaf) = d"
proof -
  have s: "separator (CHR ''/'')" by (simp add: separator_def)
  have "dropWhile (\<lambda>c. \<not> separator c) (rev leaf @ [CHR ''/''] @ rev d) = [CHR ''/''] @ rev d"
    using assms(4) s by (subst dropWhile_append2) (auto simp: list_all_iff)
  then show ?thesis using assms(1,2) s by (simp add: directory_of_def join_path_def)
qed

text \<open>An executable in the root directory is said to be in the empty one.\<close>

lemma directory_of_root_file: "directory_of ''/bf_worker'' = []"
  by (simp add: directory_of_def separator_def)

end
