(* ===== verification/Transport.thy ===== *)
theory Transport
  imports Codec
begin

text \<open>
  Framed messages over a stream socket: include/buffer_fabric/transport.hpp and src/transport.cpp.

  The operating system is an argument.  An open socket holds what the successive recv calls will be
  answered with (data in segments of the network's choosing, an interruption, a failure).  When the list
  is used up, either the connection closes (sk_closing) and recv answers with no bytes, or the peer stays
  connected and silent and recv does not return: sk_waiting says that such a call is pending, and what a receiving
  function answers then is not a result but the state in which it waits.  send_all takes the answers of the send calls; a result of None says
  that after these answers the loop is still running.
\<close>

subsection \<open>Messages\<close>

definition kTransportMagic :: u32 where "kTransportMagic = 0x42465431"

definition wire_format_version :: u32 where "wire_format_version = 1"

text \<open>A received opcode is cast without a check, so other bytes than the thirteen are values too.\<close>

datatype message_op =
  OpHello | OpHelloAck | OpPing | OpPong | OpAllocate | OpRelease | OpEvaluate | OpObservePressure
| OpExplain | OpSummary | OpLedger | OpMetrics | OpShutdown | OpOther u8

primrec message_op_raw :: "message_op \<Rightarrow> u8" where
  "message_op_raw OpHello = 1"
| "message_op_raw OpHelloAck = 2"
| "message_op_raw OpPing = 3"
| "message_op_raw OpPong = 4"
| "message_op_raw OpAllocate = 5"
| "message_op_raw OpRelease = 6"
| "message_op_raw OpEvaluate = 7"
| "message_op_raw OpObservePressure = 8"
| "message_op_raw OpExplain = 9"
| "message_op_raw OpSummary = 10"
| "message_op_raw OpLedger = 11"
| "message_op_raw OpMetrics = 12"
| "message_op_raw OpShutdown = 13"
| "message_op_raw (OpOther v) = v"

definition message_op_of_raw :: "u8 \<Rightarrow> message_op" where
  "message_op_of_raw v =
     (if v = 1 then OpHello else if v = 2 then OpHelloAck else if v = 3 then OpPing else if v = 4 then OpPong
      else if v = 5 then OpAllocate else if v = 6 then OpRelease else if v = 7 then OpEvaluate
      else if v = 8 then OpObservePressure else if v = 9 then OpExplain else if v = 10 then OpSummary
      else if v = 11 then OpLedger else if v = 12 then OpMetrics else if v = 13 then OpShutdown else OpOther v)"

primrec to_string_message_op :: "message_op \<Rightarrow> string" where
  "to_string_message_op OpHello = ''hello''"
| "to_string_message_op OpHelloAck = ''hello_ack''"
| "to_string_message_op OpPing = ''ping''"
| "to_string_message_op OpPong = ''pong''"
| "to_string_message_op OpAllocate = ''allocate''"
| "to_string_message_op OpRelease = ''release''"
| "to_string_message_op OpEvaluate = ''evaluate''"
| "to_string_message_op OpObservePressure = ''observe_pressure''"
| "to_string_message_op OpExplain = ''explain''"
| "to_string_message_op OpSummary = ''summary''"
| "to_string_message_op OpLedger = ''ledger''"
| "to_string_message_op OpMetrics = ''metrics''"
| "to_string_message_op OpShutdown = ''shutdown''"
| "to_string_message_op (OpOther v) = ''unknown''"

record message =
  mg_op :: message_op
  mg_request :: request_id
  mg_epoch :: epoch_id
  mg_body :: bytes

definition message_payload :: "message \<Rightarrow> bytes" where
  "message_payload m = buffer (writes [
     put_u8 (message_op_raw (mg_op m)),
     put_u64 (mg_request m),
     put_u64 (mg_epoch m),
     put_u32 (of_nat (length (mg_body m))),
     put_bytes (mg_body m)] writer0)"

definition encode_message :: "message \<Rightarrow> bytes" where
  "encode_message m = encode_frame (message_payload m) kTransportMagic wire_format_version"

definition decode_message_body :: "bytes \<Rightarrow> nat \<Rightarrow> message result" where
  "decode_message_body data max_body_bytes =
     (case get_u8 data of None \<Rightarrow> Inl ProtocolViolation
      | Some (raw_op, r) \<Rightarrow>
        case (do { (request, r) \<leftarrow> get_u64 r; (ep, r) \<leftarrow> get_u64 r; (n, r) \<leftarrow> get_u32 r; Some (request, ep, n, r) }) of
          None \<Rightarrow> Inl ProtocolViolation
        | Some (request, ep, body_bytes, r) \<Rightarrow>
          if unat body_bytes > max_body_bytes then Inl OversizedMessage
          else case get_bytes (unat body_bytes) r of None \<Rightarrow> Inl TruncatedMessage
          | Some (body, r) \<Rightarrow>
            if r \<noteq> [] then Inl ProtocolViolation
            else Inr \<lparr>mg_op = message_op_of_raw raw_op, mg_request = request, mg_epoch = ep, mg_body = body\<rparr>)"

definition decode_message_payload :: "bytes \<Rightarrow> nat \<Rightarrow> message result" where
  "decode_message_payload data max_body_bytes = decode_message_body data max_body_bytes"

text \<open>The message and the bytes consumed.\<close>

definition decode_message :: "bytes \<Rightarrow> nat \<Rightarrow> (message \<times> nat) result" where
  "decode_message data max_body_bytes =
     (case decode_frame data kTransportMagic wire_format_version (max_body_bytes + 32) of
        Inl code \<Rightarrow> Inl code
      | Inr (payload, used) \<Rightarrow>
        case decode_message_body payload max_body_bytes of Inl code \<Rightarrow> Inl code | Inr m \<Rightarrow> Inr (m, used))"

subsection \<open>Sockets\<close>

datatype recv_answer = RecvData bytes | RecvInterrupted | RecvError

record socket =
  sk_valid :: bool
  sk_incoming :: "recv_answer list"
  sk_closing :: bool
  sk_waiting :: bool

text \<open>On POSIX there is nothing to initialise.\<close>

definition ensure_sockets_initialised :: "void_result" where
  "ensure_sockets_initialised = Inr ()"

declare ensure_sockets_initialised_def [simp]

definition kSocketChunk :: nat where "kSocketChunk = 0x40000000"

text \<open>One recv call for at most the given number of bytes; what a segment holds beyond it stays queued.\<close>

fun recv_call :: "nat \<Rightarrow> recv_answer list \<Rightarrow> recv_answer option \<times> recv_answer list" where
  "recv_call n [] = (None, [])"
| "recv_call n (RecvData bs # later) =
     (Some (RecvData (take n bs)), if drop n bs = [] then later else RecvData (drop n bs) # later)"
| "recv_call n (a # later) = (Some a, later)"

definition receive_some :: "nat \<Rightarrow> socket \<Rightarrow> bytes result \<times> socket" where
  "receive_some capacity s =
     (if \<not> sk_valid s then (Inl LifecycleViolation, s)
      else if capacity = 0 then (Inr [], s)
      else let chunk = (if capacity > kSocketChunk then kSocketChunk else capacity);
               (got, later) = recv_call chunk (sk_incoming s);
               s = s\<lparr>sk_incoming := later\<rparr> in
           case got of
             None \<Rightarrow> (Inr [], s\<lparr>sk_waiting := \<not> sk_closing s\<rparr>)
           | Some (RecvData bs) \<Rightarrow> (Inr bs, s)
           | Some RecvInterrupted \<Rightarrow> (Inr [], s)
           | Some RecvError \<Rightarrow> (Inl TransportError, s))"

lemma receive_some_length: "receive_some n s = (Inr bs, s') \<Longrightarrow> length bs \<le> n"
  by (cases "(n, sk_incoming s)" rule: recv_call.cases)
    (auto simp: receive_some_def Let_def split: if_splits)

text \<open>The buffer fills from the left; got holds what has been read so far.\<close>

function receive_loop :: "nat \<Rightarrow> bytes \<Rightarrow> socket \<Rightarrow> bytes result \<times> socket" where
  "receive_loop remaining got s =
     (if remaining = 0 then (Inr got, s)
      else case receive_some remaining s of
          (Inl code, s) \<Rightarrow> (Inl code, s)
        | (Inr [], s) \<Rightarrow> (Inl PeerClosed, s)
        | (Inr (b # bs), s) \<Rightarrow> receive_loop (remaining - length (b # bs)) (got @ b # bs) s)"
  by pat_completeness auto

termination receive_loop
  by (relation "measure (\<lambda>(remaining, got, s). remaining)") (auto dest!: receive_some_length)

declare receive_loop.simps [simp del]

definition receive_exact :: "nat \<Rightarrow> socket \<Rightarrow> bytes result \<times> socket" where
  "receive_exact count s = receive_loop count [] s"

definition receive_payload :: "nat \<Rightarrow> u32 \<Rightarrow> socket \<Rightarrow> bytes result \<times> socket" where
  "receive_payload payload_bytes expected_crc s =
     (let (r, s) = (if payload_bytes \<noteq> 0 then receive_exact payload_bytes s else (Inr [], s)) in
      case r of Inl code \<Rightarrow> (Inl code, s)
      | Inr payload \<Rightarrow> if crc32c payload \<noteq> expected_crc then (Inl IntegrityFailure, s) else (Inr payload, s))"

definition receive_frame :: "nat \<Rightarrow> socket \<Rightarrow> bytes result \<times> socket" where
  "receive_frame max_payload s =
     (case receive_exact kFrameHeaderBytes s of
        (Inl code, s) \<Rightarrow> (Inl code, s)
      | (Inr header, s) \<Rightarrow>
        case (do { (magic, r) \<leftarrow> get_u32 header; (version, r) \<leftarrow> get_u32 r; (payload_bytes, r) \<leftarrow> get_u32 r;
                   (expected_crc, r) \<leftarrow> get_u32 r; Some (magic, version, payload_bytes, expected_crc) }) of
          None \<Rightarrow> (Inl ProtocolViolation, s)
        | Some (magic, version, payload_bytes, expected_crc) \<Rightarrow>
          if magic \<noteq> kTransportMagic then (Inl ProtocolViolation, s)
          else if version \<noteq> wire_format_version then (Inl ProtocolVersionMismatch, s)
          else if unat payload_bytes > max_payload then (Inl OversizedMessage, s)
          else receive_payload (unat payload_bytes) expected_crc s)"

datatype send_answer = SentBytes nat | SendInterrupted | SendError

text \<open>The status, if the loop has ended, and the bytes that went out.  A send of zero bytes fails like an error,
  and the code then looks at the error number; here it is not an interruption.\<close>

fun send_loop :: "bytes \<Rightarrow> send_answer list \<Rightarrow> bytes \<Rightarrow> void_result option \<times> bytes" where
  "send_loop remaining answers out =
     (if remaining = [] then (Some (Inr ()), out)
      else case answers of
          [] \<Rightarrow> (None, out)
        | SendInterrupted # later \<Rightarrow> send_loop remaining later out
        | SendError # later \<Rightarrow> (Some (Inl TransportError), out)
        | SentBytes n # later \<Rightarrow>
            let n = min n (min kSocketChunk (length remaining)) in
            if n = 0 then (Some (Inl TransportError), out)
            else send_loop (drop n remaining) later (out @ take n remaining))"

declare send_loop.simps [simp del]

definition send_all :: "bytes \<Rightarrow> send_answer list \<Rightarrow> socket \<Rightarrow> void_result option \<times> bytes" where
  "send_all data answers s =
     (if \<not> sk_valid s then (Some (Inl LifecycleViolation), []) else send_loop data answers [])"

definition send_frame :: "bytes \<Rightarrow> send_answer list \<Rightarrow> socket \<Rightarrow> void_result option \<times> bytes" where
  "send_frame payload answers s =
     (if length payload > kMaxFrameBytes then (Some (Inl OversizedMessage), [])
      else send_all (encode_frame payload kTransportMagic wire_format_version) answers s)"

definition socket_close :: "socket \<Rightarrow> socket" where
  "socket_close s = s\<lparr>sk_valid := False\<rparr>"

subsection \<open>Messages round trip\<close>

lemma message_op_round_trip: "message_op_raw (message_op_of_raw v) = v"
  by (simp add: message_op_of_raw_def)

definition op_named :: "message_op \<Rightarrow> bool" where
  "op_named p \<longleftrightarrow> message_op_of_raw (message_op_raw p) = p"

lemma op_named_simps [simp]:
  "op_named OpHello" "op_named OpHelloAck" "op_named OpPing" "op_named OpPong" "op_named OpAllocate"
  "op_named OpRelease" "op_named OpEvaluate" "op_named OpObservePressure" "op_named OpExplain"
  "op_named OpSummary" "op_named OpLedger" "op_named OpMetrics" "op_named OpShutdown" "op_named (message_op_of_raw v)"
  by (simp_all add: op_named_def message_op_of_raw_def)

lemma message_payload_conv:
  "message_payload m = message_op_raw (mg_op m) # le_bytes 8 (mg_request m) @ le_bytes 8 (mg_epoch m) @
     le_bytes 4 (of_nat (length (mg_body m)) :: u32) @ mg_body m"
proof -
  have "message_payload m = enc (writes [put_u8 (message_op_raw (mg_op m)), put_u64 (mg_request m),
      put_u64 (mg_epoch m), put_u32 (of_nat (length (mg_body m))), put_bytes (mg_body m)])"
    by (simp only: message_payload_def enc_def)
  then show ?thesis by simp
qed

lemma decode_message_body_payload:
  assumes "op_named (mg_op m)" "length (mg_body m) \<le> max_body" "length (mg_body m) \<le> 0xFFFFFFFF"
  shows "decode_message_body (message_payload m) max_body = Inr m"
proof -
  have g: "get_bytes (length bs) bs = Some (bs, [])" for bs by (simp add: get_bytes_def)
  show ?thesis
    using assms by (simp add: message_payload_conv decode_message_body_def unat_of_nat32 g op_named_def)
qed

subsection \<open>The stream\<close>

text \<open>A socket that delivers a byte stream in segments, and the stream it has yet to deliver.\<close>

definition delivers :: "socket \<Rightarrow> bytes \<Rightarrow> bool" where
  "delivers s stream \<longleftrightarrow> sk_valid s \<and>
     (\<exists>segments. sk_incoming s = map RecvData segments \<and> [] \<notin> set segments \<and> concat segments = stream)"

lemma receive_some_delivers:
  assumes "delivers s stream" "stream \<noteq> []" "n \<noteq> 0"
  shows "\<exists>bs rest s'. receive_some n s = (Inr bs, s') \<and> bs \<noteq> [] \<and> length bs \<le> n \<and> stream = bs @ rest \<and> delivers s' rest"
proof -
  obtain segments where s: "sk_valid s" "sk_incoming s = map RecvData segments" "[] \<notin> set segments" "concat segments = stream"
    using assms(1) by (auto simp: delivers_def)
  then obtain g later where g: "segments = g # later" using assms(2) by (cases segments) auto
  let ?k = "if n > kSocketChunk then kSocketChunk else n"
  let ?s = "s\<lparr>sk_incoming := if drop ?k g = [] then map RecvData later else RecvData (drop ?k g) # map RecvData later\<rparr>"
  have r: "receive_some n s = (Inr (take ?k g), ?s)"
    using s(1,2) assms(3) by (simp add: receive_some_def Let_def g)
  have ne: "take ?k g \<noteq> []" using s(3) assms(3) by (auto simp: g kSocketChunk_def)
  have "delivers ?s (drop ?k g @ concat later)"
    using s(1,3) by (auto simp: delivers_def g intro: exI[of _ later] exI[of _ "drop ?k g # later"])
  moreover have "stream = take ?k g @ drop ?k g @ concat later" using s(4) by (simp add: g flip: append_assoc)
  moreover have "length (take ?k g) \<le> n" by (simp add: min_def)
  ultimately show ?thesis using r ne by blast
qed

lemma receive_loop_delivers:
  assumes "delivers s (want @ rest)"
  shows "\<exists>s'. receive_loop (length want) got s = (Inr (got @ want), s') \<and> delivers s' rest"
  using assms
proof (induction "length want" arbitrary: want got s rule: less_induct)
  case less
  show ?case
  proof (cases "want = []")
    case True
    then show ?thesis using less.prems by (simp add: receive_loop.simps)
  next
    case False
    then obtain bs later s' where r: "receive_some (length want) s = (Inr bs, s')" "bs \<noteq> []" "length bs \<le> length want"
      "want @ rest = bs @ later" "delivers s' later"
      using receive_some_delivers[OF less.prems, of "length want"] by auto
    then obtain want' where w: "want = bs @ want'" "later = want' @ rest"
      by (metis append_eq_append_conv_if append_take_drop_id same_append_eq append.assoc)
    obtain b bs' where b: "bs = b # bs'" using r(2) by (cases bs) auto
    have "length want' < length want" using w(1) b by simp
    from less.hyps[OF this, of s' "got @ bs"] obtain s'' where
      "receive_loop (length want') (got @ bs) s' = (Inr ((got @ bs) @ want'), s'')" "delivers s'' rest"
      using r(5) w(2) by auto
    moreover have "length want - length bs = length want'" using w(1) by simp
    ultimately show ?thesis
      using r(1) False w(1) b by (subst receive_loop.simps) simp
  qed
qed

lemma receive_exact_delivers:
  "delivers s (want @ rest) \<Longrightarrow> \<exists>s'. receive_exact (length want) s = (Inr want, s') \<and> delivers s' rest"
  using receive_loop_delivers[of s want rest "[]"] by (simp add: receive_exact_def)

lemma receive_frame_delivers:
  assumes "delivers s (encode_frame payload kTransportMagic wire_format_version @ rest)"
    and "length payload \<le> max_payload" "length payload \<le> 0xFFFFFFFF"
  shows "\<exists>s'. receive_frame max_payload s = (Inr payload, s') \<and> delivers s' rest"
proof -
  let ?h = "le_bytes 4 kTransportMagic @ le_bytes 4 wire_format_version @ le_bytes 4 (of_nat (length payload) :: u32) @
    le_bytes 4 (crc32c payload)"
  have s: "delivers s (?h @ payload @ rest)" using assms(1) by (simp add: encode_frame_conv)
  obtain s1 where s1: "receive_exact 16 s = (Inr ?h, s1)" "delivers s1 (payload @ rest)"
    using receive_exact_delivers[OF s] by auto
  obtain s2 where s2: "receive_exact (length payload) s1 = (Inr payload, s2)" "delivers s2 rest"
    using receive_exact_delivers[OF s1(2)] by auto
  have "receive_payload (length payload) (crc32c payload) s1 = (Inr payload, if payload = [] then s1 else s2)"
    using s2(1) by (auto simp: receive_payload_def)
  moreover have "receive_frame max_payload s = receive_payload (length payload) (crc32c payload) s1"
    using s1(1) assms(2,3) by (simp add: receive_frame_def kFrameHeaderBytes_def unat_of_nat32)
  moreover have "delivers (if payload = [] then s1 else s2) rest" using s1(2) s2(2) by auto
  ultimately show ?thesis by simp
qed

subsection \<open>Sending\<close>

lemma send_loop_done:
  assumes "send_loop remaining answers out = (Some (Inr ()), sent)"
  shows "sent = out @ remaining"
  using assms
proof (induction remaining answers out rule: send_loop.induct)
  case (1 remaining answers out)
  show ?case
  proof (cases "remaining = [] \<or> answers = []")
    case True
    then show ?thesis using "1.prems" by (subst (asm) send_loop.simps) (auto split: if_splits)
  next
    case False
    then obtain a later where a: "answers = a # later" by (cases answers) auto
    show ?thesis
    proof (cases a)
      case (SentBytes n)
      let ?n = "min n (min kSocketChunk (length remaining))"
      have "?n \<noteq> 0" "send_loop (drop ?n remaining) later (out @ take ?n remaining) = (Some (Inr ()), sent)"
        using "1.prems" False a SentBytes by (auto simp: send_loop.simps[of remaining] Let_def split: if_splits)
      then have "sent = (out @ take ?n remaining) @ drop ?n remaining"
        using "1.IH"(1)[OF _ a SentBytes refl] False by auto
      then show ?thesis by simp
    next
      case SendInterrupted
      then show ?thesis using "1.prems" "1.IH"(2)[OF _ a SendInterrupted] False a
        by (auto simp: send_loop.simps[of remaining])
    next
      case SendError
      then show ?thesis using "1.prems" False a by (auto simp: send_loop.simps[of remaining])
    qed
  qed
qed

definition progresses :: "send_answer \<Rightarrow> bool" where
  "progresses a \<longleftrightarrow> (\<exists>n. a = SentBytes n \<and> n \<noteq> 0)"

lemma send_loop_ends:
  assumes "list_all (\<lambda>a. progresses a \<or> a = SendInterrupted) answers" "length remaining \<le> length (filter progresses answers)"
  shows "send_loop remaining answers out = (Some (Inr ()), out @ remaining)"
  using assms
proof (induction answers arbitrary: remaining out)
  case Nil
  then show ?case by (simp add: send_loop.simps)
next
  case (Cons a later)
  show ?case
  proof (cases "remaining = []")
    case True
    then show ?thesis by (simp add: send_loop.simps)
  next
    case False
    consider n where "a = SentBytes n" "n \<noteq> 0" | "a = SendInterrupted" using Cons.prems(1) by (auto simp: progresses_def)
    then show ?thesis
    proof cases
      case 1
      let ?n = "min n (min kSocketChunk (length remaining))"
      have n: "?n \<noteq> 0" using 1 False by (simp add: kSocketChunk_def)
      have "progresses a" using 1 by (simp add: progresses_def)
      then have "length (drop ?n remaining) \<le> length (filter progresses later)" 
        using Cons.prems(2) n by (simp, linarith)
      then show ?thesis
        using Cons.IH[of "drop ?n remaining" "out @ take ?n remaining"] Cons.prems(1) 1 False n
        by (subst send_loop.simps) (simp add: Let_def)
    next
      case 2
      then show ?thesis using Cons.IH[of remaining out] Cons.prems False
        by (subst send_loop.simps) (simp add: progresses_def)
    qed
  qed
qed

text \<open>Receiving leaves alone whether the connection closes, and waits only when it does not.\<close>

lemma receive_some_waits:
  assumes "receive_some n s = (r, s')"
  shows "sk_closing s' = sk_closing s" "sk_waiting s' \<Longrightarrow> sk_waiting s \<or> \<not> sk_closing s"
  using assms by (auto simp: receive_some_def Let_def split: prod.splits option.splits recv_answer.splits if_splits)

lemma receive_loop_waits:
  "receive_loop n got s = (r, s') \<Longrightarrow> sk_closing s' = sk_closing s \<and> (sk_waiting s' \<longrightarrow> sk_waiting s \<or> \<not> sk_closing s)"
proof (induction n got s rule: receive_loop.induct)
  case (1 remaining got s)
  show ?case
  proof (cases "remaining = 0")
    case True
    then show ?thesis using "1.prems" by (simp add: receive_loop.simps)
  next
    case False
    obtain x t where x: "receive_some remaining s = (x, t)" by fastforce
    show ?thesis
      using "1.prems" "1.IH"[OF False x[symmetric]] receive_some_waits[OF x] x False
      by (subst (asm) receive_loop.simps) (auto split: sum.splits list.splits)
  qed
qed

lemma receive_frame_waits:
  assumes "receive_frame n s = (r, s')"
  shows "sk_closing s' = sk_closing s \<and> (sk_waiting s' \<longrightarrow> sk_waiting s \<or> \<not> sk_closing s)"
proof -
  obtain x t where x: "receive_exact kFrameHeaderBytes s = (x, t)" by fastforce
  have p: "sk_closing u' = sk_closing u \<and> (sk_waiting u' \<longrightarrow> sk_waiting u \<or> \<not> sk_closing u)"
    if "receive_payload k crc u = (y, u')" for k crc u y u'
    using that receive_loop_waits[of k "[]" u]
    by (fastforce simp: receive_payload_def receive_exact_def Let_def split: prod.splits sum.splits if_splits)
  show ?thesis
    using assms x receive_loop_waits[of kFrameHeaderBytes "[]" s x t]
    by (fastforce simp: receive_frame_def receive_exact_def split: sum.splits option.splits if_splits dest: p)
qed

text \<open>C17: framing does not depend on the network's segmentation.  A peer that sends one message after another
  over a connection is received message by message: from a socket that delivers the frame and more, in any
  segments, receive_frame returns the message's payload, which decodes to the message, and leaves exactly
  the rest of the stream to be delivered.\<close>

theorem receive_any_segmentation:
  assumes "delivers s (encode_message m @ rest)" "op_named (mg_op m)"
    and "length (mg_body m) + 21 \<le> max_payload" "max_payload \<le> 0xFFFFFFFF"
  shows "\<exists>payload s'. receive_frame max_payload s = (Inr payload, s') \<and>
    decode_message_payload payload max_payload = Inr m \<and> delivers s' rest"
proof -
  have "length (message_payload m) \<le> max_payload" using assms(3) by (simp add: message_payload_conv)
  then obtain s' where "receive_frame max_payload s = (Inr (message_payload m), s')" "delivers s' rest"
    using receive_frame_delivers[of s "message_payload m" rest max_payload] assms(1,4) by (auto simp: encode_message_def)
  moreover have "decode_message_payload (message_payload m) max_payload = Inr m"
    using decode_message_body_payload[OF assms(2)] assms(3,4) by (simp add: decode_message_payload_def)
  ultimately show ?thesis by blast
qed

theorem receive_any_segmentation_witness:
  "\<exists>payload s'. receive_frame 64 \<lparr>sk_valid = True, sk_incoming = map (\<lambda>b. RecvData [b])
       (encode_message \<lparr>mg_op = OpPing, mg_request = 7, mg_epoch = 2, mg_body = []\<rparr>), sk_closing = False, sk_waiting = False\<rparr> = (Inr payload, s') \<and>
     decode_message_payload payload 64 = Inr \<lparr>mg_op = OpPing, mg_request = 7, mg_epoch = 2, mg_body = []\<rparr>"
proof -
  let ?m = "\<lparr>mg_op = OpPing, mg_request = 7, mg_epoch = 2, mg_body = []\<rparr>"
  have c: "concat (map (\<lambda>b. [b]) bs) = bs" for bs :: bytes by (induction bs) simp_all
  have "delivers \<lparr>sk_valid = True, sk_incoming = map (\<lambda>b. RecvData [b]) (encode_message ?m), sk_closing = False, sk_waiting = False\<rparr> (encode_message ?m @ [])"
    by (auto simp: delivers_def c comp_def intro!: exI[of _ "map (\<lambda>b. [b]) (encode_message ?m)"])
  from receive_any_segmentation[OF this, of 64] show ?thesis by auto
qed

text \<open>C18: send_all ends and sends everything.  When the send calls are answered with progress or with
  interruptions, as many answers with progress as there are bytes are enough for it to return success; and
  whenever it returns success, with any answers, exactly the given bytes went out.\<close>

theorem send_all_complete:
  assumes "sk_valid s"
  shows "(list_all (\<lambda>a. progresses a \<or> a = SendInterrupted) answers \<longrightarrow> length data \<le> length (filter progresses answers) \<longrightarrow>
      fst (send_all data answers s) = Some (Inr ())) \<and>
    (\<forall>sent. send_all data answers s = (Some (Inr ()), sent) \<longrightarrow> sent = data)"
  using assms send_loop_ends[of answers data "[]"] send_loop_done[of data answers "[]"] by (auto simp: send_all_def)

theorem send_all_complete_witness:
  "fst (send_all [1, 2, 3] [SentBytes 2, SendInterrupted, SentBytes 1, SentBytes 5] \<lparr>sk_valid = True, sk_incoming = [], sk_closing = True, sk_waiting = False\<rparr>) =
     Some (Inr ())"
  using send_all_complete[of "\<lparr>sk_valid = True, sk_incoming = [], sk_closing = True, sk_waiting = False\<rparr>"
      "[SentBytes 2, SendInterrupted, SentBytes 1, SentBytes 5]" "[1, 2, 3]"]
  by (simp add: progresses_def)

text \<open>An interrupted read is reported as the peer having closed the connection, although it is still open
  and the rest of the stream is there.\<close>

theorem interrupted_read_closes:
  assumes "n \<noteq> 0" "sk_valid s" "sk_incoming s = RecvInterrupted # later"
  shows "receive_exact n s = (Inl PeerClosed, s\<lparr>sk_incoming := later\<rparr>)"
  using assms by (simp add: receive_exact_def receive_loop.simps receive_some_def Let_def)

end
