(* ===== verification/Sockets.thy ===== *)
theory Sockets
  imports Process Transport
begin

text \<open>
  Sockets as owners of descriptors: the rest of src/transport.cpp.  Listening, connecting and accepting are sequences of system calls;
  every error return destroys the Socket that holds the new descriptor.  inet_pton is a parameter: whether a text is a dotted quad.
  What is received and sent over a socket is in Transport.
\<close>

subsection \<open>Operations\<close>

record socket_object =
  so_handle :: "nat option"

definition socket_valid :: "socket_object \<Rightarrow> bool" where
  "socket_valid s = (so_handle s \<noteq> None)"

text \<open>A call of the socket interface that succeeds or fails.\<close>

definition net_call :: "system \<Rightarrow> void_result \<times> system" where
  "net_call y = (let (x, y) = system_answer y in (if x = OsFail then Inl TransportError else Inr (), y))"

definition new_descriptor :: "system \<Rightarrow> nat result \<times> system" where
  "new_descriptor y = try_st (net_call y) (\<lambda>_ y.
     (Inr (sy_next y), y\<lparr>sy_open := sy_next y # sy_open y, sy_next := sy_next y + 1\<rparr>))"

definition close_handle :: "nat option \<Rightarrow> system \<Rightarrow> system" where
  "close_handle h y = close_option h y"

definition close_socket :: "socket_object \<Rightarrow> system \<Rightarrow> socket_object \<times> system" where
  "close_socket s y = (s\<lparr>so_handle := None\<rparr>, close_handle (so_handle s) y)"

definition destroy_socket :: "socket_object \<Rightarrow> system \<Rightarrow> system" where
  "destroy_socket s y = snd (close_socket s y)"

definition move_socket :: "socket_object \<Rightarrow> socket_object \<times> socket_object" where
  "move_socket other = (other, other\<lparr>so_handle := None\<rparr>)"

definition shutdown_socket :: "socket_object \<Rightarrow> system \<Rightarrow> system" where
  "shutdown_socket s y = (if \<not> socket_valid s then y else snd (system_answer y))"

definition set_nodelay :: "system \<Rightarrow> void_result \<times> system" where
  "set_nodelay y = net_call y"

text \<open>The local Socket of a function is destroyed by every return before the last one.\<close>

definition guarded :: "nat \<Rightarrow> 'a result \<times> system \<Rightarrow> 'a result \<times> system" where
  "guarded h m = (case m of (Inl e, y) \<Rightarrow> (Inl e, destroy_socket \<lparr>so_handle = Some h\<rparr> y) | (Inr x, y) \<Rightarrow> (Inr x, y))"

definition port_of :: "system \<Rightarrow> u16 result \<times> system" where
  "port_of y = (case system_answer y of (OsPort p, y) \<Rightarrow> (Inr p, y) | (_, y) \<Rightarrow> (Inl TransportError, y))"

text \<open>The outcome of setsockopt for SO_REUSEADDR is not looked at.  The bound port is asked for when the caller wants it.\<close>

definition listen_socket :: "(string \<Rightarrow> bool) \<Rightarrow> string \<Rightarrow> u16 \<Rightarrow> bool \<Rightarrow> system \<Rightarrow> (socket_object \<times> u16 option) result \<times> system" where
  "listen_socket pton address port want_port y =
     (case ensure_sockets_initialised of Inl e \<Rightarrow> (Inl e, y)
      | Inr _ \<Rightarrow>
        if address = [] then (Inl InvalidArgument, y)
        else try_st (new_descriptor y) (\<lambda>h y. guarded h (
          let y = snd (system_answer y) in
          if \<not> pton address then (Inl InvalidArgument, y)
          else try_st (net_call y) (\<lambda>_ y. try_st (net_call y) (\<lambda>_ y.
            if want_port then try_st (port_of y) (\<lambda>p y. (Inr (\<lparr>so_handle = Some h\<rparr>, Some p), y))
            else (Inr (\<lparr>so_handle = Some h\<rparr>, None), y))))))"

definition connect_to :: "(string \<Rightarrow> bool) \<Rightarrow> string \<Rightarrow> u16 \<Rightarrow> system \<Rightarrow> socket_object result \<times> system" where
  "connect_to pton address port y =
     (case ensure_sockets_initialised of Inl e \<Rightarrow> (Inl e, y)
      | Inr _ \<Rightarrow>
        if address = [] then (Inl InvalidArgument, y)
        else if port = 0 then (Inl InvalidArgument, y)
        else try_st (new_descriptor y) (\<lambda>h y. guarded h (
          try_st (set_nodelay y) (\<lambda>_ y.
            if \<not> pton address then (Inl InvalidArgument, y)
            else try_st (net_call y) (\<lambda>_ y. (Inr \<lparr>so_handle = Some h\<rparr>, y))))))"

definition socket_accept :: "socket_object \<Rightarrow> system \<Rightarrow> socket_object result \<times> system" where
  "socket_accept s y =
     (if \<not> socket_valid s then (Inl LifecycleViolation, y)
      else try_st (new_descriptor y) (\<lambda>h y. guarded h (
        try_st (set_nodelay y) (\<lambda>_ y. (Inr \<lparr>so_handle = Some h\<rparr>, y)))))"

definition local_port :: "socket_object \<Rightarrow> system \<Rightarrow> u16 \<times> system" where
  "local_port s y =
     (if \<not> socket_valid s then (0, y)
      else case port_of y of (Inl _, y) \<Rightarrow> (0, y) | (Inr p, y) \<Rightarrow> (p, y))"

subsection \<open>Ownership\<close>

definition socket_handles :: "socket_object \<Rightarrow> nat multiset" where
  "socket_handles s = (case so_handle s of None \<Rightarrow> {#} | Some k \<Rightarrow> {#k#})"

inductive socket_step :: "socket_object list \<times> system \<Rightarrow> socket_object list \<times> system \<Rightarrow> bool" where
  step_listen: "listen_socket pton address port want y = (Inr (s, p), y') \<Longrightarrow> socket_step (ss, y) (ss @ [s], y')"
| step_listen_fails: "listen_socket pton address port want y = (Inl e, y') \<Longrightarrow> socket_step (ss, y) (ss, y')"
| step_connect: "connect_to pton address port y = (Inr s, y') \<Longrightarrow> socket_step (ss, y) (ss @ [s], y')"
| step_connect_fails: "connect_to pton address port y = (Inl e, y') \<Longrightarrow> socket_step (ss, y) (ss, y')"
| step_accept: "i < length ss \<Longrightarrow> socket_accept (ss ! i) y = (Inr s, y') \<Longrightarrow> socket_step (ss, y) (ss @ [s], y')"
| step_accept_fails: "i < length ss \<Longrightarrow> socket_accept (ss ! i) y = (Inl e, y') \<Longrightarrow> socket_step (ss, y) (ss, y')"
| step_close: "i < length ss \<Longrightarrow> close_socket (ss ! i) y = (s, y') \<Longrightarrow> socket_step (ss, y) (ss[i := s], y')"
| step_shutdown: "i < length ss \<Longrightarrow> socket_step (ss, y) (ss, shutdown_socket (ss ! i) y)"
| step_port: "i < length ss \<Longrightarrow> local_port (ss ! i) y = (p, y') \<Longrightarrow> socket_step (ss, y) (ss, y')"
| step_move: "i < length ss \<Longrightarrow> move_socket (ss ! i) = (s, left) \<Longrightarrow> socket_step (ss, y) (ss[i := left] @ [s], y)"
| step_assign: "i < length ss \<Longrightarrow> j < length ss \<Longrightarrow> i \<noteq> j \<Longrightarrow> move_socket (ss ! j) = (s, left) \<Longrightarrow>
    socket_step (ss, y) (ss[i := s, j := left], destroy_socket (ss ! i) y)"
| step_destroy: "socket_step (ss @ s # ts, y) (ss @ ts, destroy_socket s y)"

lemma net_call_sound: "net_call y = (r, y') \<Longrightarrow> sound_table tab bad y \<Longrightarrow> sound_table tab bad y'"
  using sound_table_answer[of tab bad y] by (auto simp: net_call_def simp del: sound_table_answer split: prod.splits)

lemma port_of_sound: "port_of y = (r, y') \<Longrightarrow> sound_table tab bad y \<Longrightarrow> sound_table tab bad y'"
  using sound_table_answer[of tab bad y] by (auto simp: port_of_def simp del: sound_table_answer split: prod.splits os_answer.splits)

lemma new_descriptor_sound:
  assumes "new_descriptor y = (r, y')" "sound_table tab bad y"
  shows "case r of Inl e \<Rightarrow> sound_table tab bad y' | Inr h \<Rightarrow> sound_table (add_mset h tab) bad y'"
proof -
  obtain x y1 where x: "net_call y = (x, y1)" by fastforce
  have s: "sound_table tab bad y1" by (rule net_call_sound[OF x assms(2)])
  have "k \<notin> set (sy_open y1)" if "k \<ge> sy_next y1" for k using s that by (auto simp: sound_table_def)
  then show ?thesis using assms(1) x s by (cases x) (auto simp: new_descriptor_def try_st_def sound_table_def less_Suc_eq)
qed

text \<open>A guarded block that keeps the table gives up its descriptor exactly when it fails.\<close>

definition keeps_table :: "nat multiset \<Rightarrow> nat \<Rightarrow> 'a result \<times> system \<Rightarrow> bool" where
  "keeps_table tab bad m \<longleftrightarrow> sound_table tab bad (snd m)"

lemma destroy_socket_sound: "sound_table (tab + socket_handles s) bad y \<Longrightarrow> sound_table tab bad (destroy_socket s y)"
  unfolding destroy_socket_def close_socket_def close_handle_def socket_handles_def snd_conv by (rule close_option_sound)

lemma guarded_sound:
  assumes "keeps_table (add_mset h tab) bad m" "guarded h m = (r, y')"
  shows "case r of Inl e \<Rightarrow> sound_table tab bad y' | Inr x \<Rightarrow> sound_table (add_mset h tab) bad y'"
  using assms destroy_socket_sound[of tab "\<lparr>so_handle = Some h\<rparr>" bad "snd m"]
  by (auto simp: guarded_def keeps_table_def socket_handles_def split: prod.splits sum.splits)

lemma keeps_table_try:
  assumes "keeps_table tab bad m" "\<And>x y. sound_table tab bad y \<Longrightarrow> keeps_table tab bad (f x y)"
  shows "keeps_table tab bad (try_st m f)"
  using assms by (auto simp: keeps_table_def try_st_def split: prod.splits sum.splits)

lemma keeps_table_calls:
  "sound_table tab bad y \<Longrightarrow> keeps_table tab bad (net_call y)" "sound_table tab bad y \<Longrightarrow> keeps_table tab bad (port_of y)"
  "sound_table tab bad y \<Longrightarrow> keeps_table tab bad (set_nodelay y)" "sound_table tab bad y \<Longrightarrow> keeps_table tab bad (r, y)"
  unfolding keeps_table_def set_nodelay_def
  by (metis net_call_sound prod.collapse, metis port_of_sound prod.collapse, metis net_call_sound prod.collapse, simp)

lemmas keeps_table_intros = keeps_table_try keeps_table_calls

lemma opened_sound:
  assumes "try_st (new_descriptor y) (\<lambda>h y. guarded h (f h y)) = (r, y')" "sound_table tab bad y"
    "\<And>h y. sound_table (add_mset h tab) bad y \<Longrightarrow> keeps_table (add_mset h tab) bad (f h y)"
    "\<And>h y x. f h y = (Inr x, y') \<Longrightarrow> socket_handles (project x) = {#h#}"
  shows "case r of Inl e \<Rightarrow> sound_table tab bad y' | Inr x \<Rightarrow> sound_table (tab + socket_handles (project x)) bad y'"
proof -
  obtain d y1 where d: "new_descriptor y = (d, y1)" by fastforce
  note ds = new_descriptor_sound[OF d assms(2)]
  show ?thesis
  proof (cases d)
    case (Inl e)
    then show ?thesis using assms(1) d ds by (auto simp: try_st_def)
  next
    case (Inr h)
    then have g: "guarded h (f h y1) = (r, y')" using assms(1) d by (simp add: try_st_def)
    have "keeps_table (add_mset h tab) bad (f h y1)" using assms(3) ds Inr by simp
    from guarded_sound[OF this g] show ?thesis
    proof (cases r)
      case (Inr x)
      then have "f h y1 = (Inr x, y')" using g by (auto simp: guarded_def split: prod.splits sum.splits)
      then show ?thesis using guarded_sound[OF \<open>keeps_table (add_mset h tab) bad (f h y1)\<close> g] assms(4) Inr by simp
    qed simp
  qed
qed

lemma listen_sound:
  assumes "listen_socket pton address port want y = (r, y')" "sound_table tab bad y"
  shows "case r of Inl e \<Rightarrow> sound_table tab bad y' | Inr x \<Rightarrow> sound_table (tab + socket_handles (fst x)) bad y'"
proof (cases "address = []")
  case True
  then show ?thesis using assms by (auto simp: listen_socket_def)
next
  case False
  show ?thesis
  proof (rule opened_sound[OF _ assms(2)])
    show "try_st (new_descriptor y) (\<lambda>h y. guarded h (
          let y = snd (system_answer y) in
          if \<not> pton address then (Inl InvalidArgument, y)
          else try_st (net_call y) (\<lambda>_ y. try_st (net_call y) (\<lambda>_ y.
            if want then try_st (port_of y) (\<lambda>p y. (Inr (\<lparr>so_handle = Some h\<rparr>, Some p), y))
            else (Inr (\<lparr>so_handle = Some h\<rparr>, None), y))))) = (r, y')"
      using assms(1) False by (simp add: listen_socket_def)
  qed (auto simp: Let_def socket_handles_def try_st_eq_Inr intro!: keeps_table_intros split: if_splits)
qed

lemma connect_sound:
  assumes "connect_to pton address port y = (r, y')" "sound_table tab bad y"
  shows "case r of Inl e \<Rightarrow> sound_table tab bad y' | Inr s \<Rightarrow> sound_table (tab + socket_handles s) bad y'"
proof (cases "address = [] \<or> port = 0")
  case True
  then show ?thesis using assms by (auto simp: connect_to_def split: if_splits)
next
  case False
  have "case r of Inl e \<Rightarrow> sound_table tab bad y' | Inr s \<Rightarrow> sound_table (tab + socket_handles (id s)) bad y'"
  proof (rule opened_sound[OF _ assms(2)])
    show "try_st (new_descriptor y) (\<lambda>h y. guarded h (
          try_st (set_nodelay y) (\<lambda>_ y.
            if \<not> pton address then (Inl InvalidArgument, y)
            else try_st (net_call y) (\<lambda>_ y. (Inr \<lparr>so_handle = Some h\<rparr>, y))))) = (r, y')"
      using assms(1) False by (simp add: connect_to_def)
  qed (auto simp: socket_handles_def try_st_eq_Inr intro!: keeps_table_intros split: if_splits)
  then show ?thesis unfolding id_apply .
qed

lemma accept_sound:
  assumes "socket_accept s y = (r, y')" "sound_table tab bad y"
  shows "case r of Inl e \<Rightarrow> sound_table tab bad y' | Inr s \<Rightarrow> sound_table (tab + socket_handles s) bad y'"
proof (cases "socket_valid s")
  case False
  then show ?thesis using assms by (auto simp: socket_accept_def)
next
  case True
  have "case r of Inl e \<Rightarrow> sound_table tab bad y' | Inr s \<Rightarrow> sound_table (tab + socket_handles (id s)) bad y'"
  proof (rule opened_sound[OF _ assms(2)])
    show "try_st (new_descriptor y) (\<lambda>h y. guarded h (try_st (set_nodelay y) (\<lambda>_ y. (Inr \<lparr>so_handle = Some h\<rparr>, y)))) = (r, y')"
      using assms(1) True by (simp add: socket_accept_def)
  qed (auto simp: socket_handles_def try_st_eq_Inr intro!: keeps_table_intros)
  then show ?thesis unfolding id_apply .
qed

lemma move_socket_handles: "move_socket s = (t, left) \<Longrightarrow> socket_handles t = socket_handles s \<and> socket_handles left = {#}"
  by (auto simp: move_socket_def socket_handles_def)

lemma close_socket_sound:
  assumes "close_socket s y = (t, y')" "sound_table (tab + socket_handles s) bad y"
  shows "socket_handles t = {#} \<and> sound_table tab bad y'"
  using assms destroy_socket_sound[OF assms(2)] by (auto simp: close_socket_def destroy_socket_def socket_handles_def)

lemma socket_step_accounts:
  assumes "socket_step (ss, y) (ss', y')" "sound_table (others + owned_by socket_handles ss) bad y"
  shows "sound_table (others + owned_by socket_handles ss') bad y'"
  using assms
proof (cases rule: socket_step.cases)
  case (step_listen pton address port want s p)
  then show ?thesis using listen_sound[OF step_listen(2) assms(2)] by (simp add: ac_simps)
next
  case (step_listen_fails pton address port want e)
  then show ?thesis using listen_sound[OF step_listen_fails(2) assms(2)] by simp
next
  case (step_connect pton address port s)
  then show ?thesis using connect_sound[OF step_connect(2) assms(2)] by (simp add: ac_simps)
next
  case (step_connect_fails pton address port e)
  then show ?thesis using connect_sound[OF step_connect_fails(2) assms(2)] by simp
next
  case (step_accept i s)
  then show ?thesis using accept_sound[OF step_accept(3) assms(2)] by (simp add: ac_simps)
next
  case (step_accept_fails i e)
  then show ?thesis using accept_sound[OF step_accept_fails(3) assms(2)] by simp
next
  case (step_close i s)
  have "owned_by socket_handles (ss[i := s]) + socket_handles (ss ! i) = owned_by socket_handles ss"
    using owned_update[OF step_close(2), of socket_handles s] step_close(3) by (simp add: close_socket_def socket_handles_def[of s]) (auto simp: close_socket_def)
  then show ?thesis using close_socket_sound[OF step_close(3), of "others + owned_by socket_handles (ss[i := s])" bad] assms(2) step_close(1)
    by (simp add: add.assoc)
next
  case (step_shutdown i)
  then show ?thesis using assms(2) by (simp add: shutdown_socket_def)
next
  case (step_port i p)
  then show ?thesis using assms(2) port_of_sound[of y] by (fastforce simp: local_port_def split: if_splits prod.splits sum.splits)
next
  case (step_move i s left)
  then show ?thesis using owned_moved[of i ss socket_handles left s] move_socket_handles assms(2) by auto
next
  case (step_assign i j s left)
  then show ?thesis
    using owned_assigned[of i ss j socket_handles left s] move_socket_handles[OF step_assign(6)] assms(2)
      destroy_socket_sound[of "others + owned_by socket_handles ss'" "ss ! i" bad y] by (simp add: add.assoc)
next
  case (step_destroy ss s ts)
  then show ?thesis using assms(2) destroy_socket_sound[of "others + owned_by socket_handles ss'" s bad y] by (simp add: ac_simps)
qed

interpretation sockets: descriptor_owners socket_handles socket_step
  by unfold_locales (rule socket_step_accounts)

text \<open>Sockets leak no descriptor and close none twice, on the error returns of listen, connect_to and accept_peer too.\<close>

lemma socket_descriptors_accounted:
  assumes "socket_step\<^sup>*\<^sup>* ([], y) (ss, y')" "distinct (sy_open y)" "\<forall>k \<in> set (sy_open y). k < sy_next y"
  shows "mset (sy_open y') = mset (sy_open y) + owned_by socket_handles ss" "sy_bad_closes y' = sy_bad_closes y"
    "ss = [] \<Longrightarrow> set (sy_open y') = set (sy_open y)"
  using sockets.nothing_leaks[OF assms] by simp_all

end
