(* ===== verification/Durability.thy ===== *)
theory Durability
  imports Guarantees
begin

text \<open>
  What is acknowledged is durable.  A journaled operation that succeeds has appended the whole record to the
  journal and synced it, so that no crash takes it back, and replaying that record in recovery restores what the operation stored.  It restores the
  record but not the identity counter, which the last part shows.
\<close>

subsection \<open>Journaling\<close>

definition journal_record :: "journal_op \<Rightarrow> bytes \<Rightarrow> bytes" where
  "journal_record opc payload = journal_op_raw opc # payload"

lemma append_record_fits: "fst (append_record p s) = Inr () \<Longrightarrow> record_fits p"
  by (auto simp: append_record_def journal_append_def record_fits_def try_st_def split: prod.splits sum.splits if_splits)

lemma append_record_done:
  assumes "append_record p s = (Inr (), s')"
  shows "journal_content s' = journal_content s @ journal_frame p" "disk_snapshot s' = disk_snapshot s" "record_fits p"
  using append_record_extends_frame[of p s] append_record_fits[of p s] assms by (auto simp: extends_def)

lemma journal_append_config: "journal_append p s = (r, s') \<Longrightarrow> st_config s' = st_config s"
  by (auto simp: journal_append_def next_io_def Let_def split: if_splits io.splits list.splits)

text \<open>An acknowledged record is on the medium with all that precedes it.\<close>

lemma append_record_synced:
  assumes "append_record p s = (Inr (), s')" "pc_mode (st_config s) \<noteq> DurNone"
  shows "disk_synced s' = journal_content s'"
proof -
  have m: "pc_mode (st_config s) = JournalSync" using assms(2) by (cases "pc_mode (st_config s)") simp_all
  have o: "st_config t = st_config s" if "(if st_writable s then (Inr (), s) else try_st (open_append (max_journal_bytes (st_config s)) s)
      (\<lambda>_ s. (Inr (), s\<lparr>st_journal_bytes := st_bytes_written s\<rparr>))) = (Inr u, t)" for u t
    using that open_append_content[of "max_journal_bytes (st_config s)" s] by (auto simp: try_st_eq_Inr split: if_splits)
  have c: "st_configured s" using assms(1) by (auto simp: append_record_def split: if_splits)
  have st: "try_st (if st_writable s then (Inr (), s) else try_st (open_append (max_journal_bytes (st_config s)) s)
      (\<lambda>_ s. (Inr (), s\<lparr>st_journal_bytes := st_bytes_written s\<rparr>))) (\<lambda>_ s. try_st (journal_append p s) (\<lambda>_ s.
        try_st (if pc_mode (st_config s) = JournalSync then journal_sync s else (Inr (), s))
          (\<lambda>_ s. (Inr (), s\<lparr>st_journal_bytes := st_bytes_written s\<rparr>)))) = (Inr (), s')"
    using assms(1) c unfolding append_record_def by (simp only: simp_thms if_False)
  from iffD1[OF try_st_eq_Inr st] obtain u t1 where t1: "st_config t1 = st_config s"
    "try_st (journal_append p t1) (\<lambda>_ s. try_st (if pc_mode (st_config s) = JournalSync then journal_sync s else (Inr (), s))
      (\<lambda>_ s. (Inr (), s\<lparr>st_journal_bytes := st_bytes_written s\<rparr>))) = (Inr (), s')"
    using o by blast
  from iffD1[OF try_st_eq_Inr t1(2)] obtain v t2 where t2: "journal_append p t1 = (Inr v, t2)"
    "try_st (if pc_mode (st_config t2) = JournalSync then journal_sync t2 else (Inr (), t2))
      (\<lambda>_ s. (Inr (), s\<lparr>st_journal_bytes := st_bytes_written s\<rparr>)) = (Inr (), s')" by blast
  have "pc_mode (st_config t2) = JournalSync" using journal_append_config[OF t2(1)] t1(1) m by simp
  then obtain x t3 where t: "journal_sync t2 = (Inr x, t3)" "s' = t3\<lparr>st_journal_bytes := st_bytes_written t3\<rparr>"
    using iffD1[OF try_st_eq_Inr t2(2)] by auto
  then have "disk_synced t3 = journal_content t3"
    by (auto simp: journal_sync_def journal_content_def try_st_eq_Inr split: if_splits)
  then show ?thesis by (simp add: t(2) journal_content_def)
qed

lemma crash_leaves_synced:
  assumes "disk_synced s = journal_content s"
  shows "crash_leaves s file \<longleftrightarrow> file = journal_content s"
proof -
  have "length (take k (journal_content s)) \<noteq> length (journal_content s)" if "k < length (journal_content s)" for k
    using that by simp
  then have "take (length (journal_content s)) (take k (journal_content s)) \<noteq> journal_content s" if "k < length (journal_content s)" for k
    using that by (metis length_take min.absorb2 min.commute take_all_iff less_imp_le_nat)
  then show ?thesis using assms by (auto simp: crash_leaves_def)
qed

lemma journal_done:
  assumes "journal opc payload f = (Inr (), g)" "pc_mode (st_config (fb_store f)) \<noteq> DurNone" "\<not> needs_compaction (fb_store f)"
  shows "journal_content (fb_store g) = journal_content (fb_store f) @ journal_frame (journal_record opc payload)"
    "disk_snapshot (fb_store g) = disk_snapshot (fb_store f)" "record_fits (journal_record opc payload)"
    "disk_synced (fb_store g) = journal_content (fb_store g)"
proof -
  have w: "writes [put_u8 (journal_op_raw opc), put_bytes payload] writer0 = writer0\<lparr>buffer := journal_record opc payload\<rparr>"
    using appendsD[of "writes [put_u8 (journal_op_raw opc), put_bytes payload]" writer0]
    by (simp add: journal_record_def writer0_def)
  obtain s where "append_record (journal_record opc payload) (fb_store f) = (Inr (), s)" "fb_store g = s"
    using assms
    by (auto simp: journal_def w on_store_def Let_def try_st_def split: prod.splits sum.splits if_splits)
  then show "journal_content (fb_store g) = journal_content (fb_store f) @ journal_frame (journal_record opc payload)"
    "disk_snapshot (fb_store g) = disk_snapshot (fb_store f)" "record_fits (journal_record opc payload)"
    "disk_synced (fb_store g) = journal_content (fb_store g)"
    using append_record_done append_record_synced[OF _ assms(2)] by auto
qed

lemma journal_allocation_done:
  assumes "journal_allocation opc a f = (Inr (), g)" "pc_mode (st_config (fb_store f)) \<noteq> DurNone" "\<not> needs_compaction (fb_store f)"
  shows "journal_content (fb_store g) = journal_content (fb_store f) @ journal_frame (journal_record opc (enc (encode_allocation a)))"
    "disk_snapshot (fb_store g) = disk_snapshot (fb_store f)" "record_fits (journal_record opc (enc (encode_allocation a)))"
    "disk_synced (fb_store g) = journal_content (fb_store g)"
proof -
  have "journal opc (enc (encode_allocation a)) f = (Inr (), g)"
    using assms(1) by (auto simp: journal_allocation_def journal_writer_def Let_def enc_def split: if_splits)
  from journal_done[OF this assms(2,3)]
  show "journal_content (fb_store g) = journal_content (fb_store f) @ journal_frame (journal_record opc (enc (encode_allocation a)))"
    "disk_snapshot (fb_store g) = disk_snapshot (fb_store f)" "record_fits (journal_record opc (enc (encode_allocation a)))"
    "disk_synced (fb_store g) = journal_content (fb_store g)"
    by simp_all
qed

text \<open>Replaying the record of an allocation stores exactly that allocation.\<close>

lemma replay_journaled_allocation:
  assumes "opc \<in> {JAllocationReserved, JAllocationCommitted, JAllocationReleased, JAllocationReclaimed, JAllocationFenced,
      JAllocationRevalidated, JAllocationExpired}" "al_units a \<le> kMaxUnitsPerPool"
  shows "apply_journal_payload (journal_record opc (enc (encode_allocation a))) h = (Inr (), put_allocation a h)"
proof -
  have d: "decode_allocation (enc (encode_allocation a)) = Some (a, [])"
    using allocation_codec.get_put[of a "[]"] by simp
  have g: "get_u8 (journal_record opc r) = Some (journal_op_raw opc, r)" for r
    by (simp add: journal_record_def get_u8_def get_bytes_def)
  have f: "journal_op_of_raw (journal_op_raw opc) = Some opc"
    by (cases opc) (simp_all add: journal_op_of_raw_def all_journal_ops_def)
  have u: "\<not> al_units a > kMaxUnitsPerPool" using assms(2) by simp
  show ?thesis
    using assms(1) by (auto simp: apply_journal_payload_def corrupt_def g f replay_allocation_def d u)
qed

subsection \<open>The rest of allocate leaves the store alone\<close>

lemma store_kept [simp]:
  "fb_store (map_pool p e f) = fb_store f" "fb_store (bump m f) = fb_store f"
  "fb_store (count_grant a f) = fb_store f" "fb_store (put_allocation a f) = fb_store f"
  "fb_store (push_event k oc pl qu al un sq f) = fb_store f" "fb_store (publish f) = fb_store f"
  "fb_store (take_lock t f) = fb_store f" "fb_store (map_runtime p r f) = fb_store f"
  "fb_store (record_decision d f) = fb_store f" "fb_store (advance_sequence f) = fb_store f"
  "fb_store (record_attempt at f) = fb_store f"
  by (simp_all add: map_pool_def bump_def count_grant_def put_allocation_def push_event_def publish_def take_lock_def
      map_runtime_def record_decision_def advance_sequence_def record_attempt_def evict_attempts_def Let_def split: option.split prod.split)

lemma outcome_store [simp]:
  "fb_store (snd (verify_closure p report f)) = fb_store f"
  "fb_store (snd (apply_commit_units p units borrowed lender f)) = fb_store f"
  "fb_store (snd (allocate_finish q queue policy evidence kind code g al binding intent lender f)) = fb_store f"
  subgoal by (simp add: verify_closure_def Let_def split: option.split sum.split)
  subgoal by (simp add: apply_commit_units_def Let_def split: option.split prod.split)
  subgoal by (simp add: allocate_finish_def conclude_def Let_def split: option.split)
  done

lemma view_allocations: "ledger_view g = ledger_view f \<Longrightarrow> fb_allocations g = fb_allocations f"
  by (simp add: ledger_view_def)

lemma granted_allocations:
  "map_of (fb_allocations (count_grant a (put_allocation a f))) (al_id a) = Some a"
  by (simp add: count_grant_def put_allocation_def Let_def update_conv' map_pool_allocations split: option.split)

lemma allocate_apply_done:
  assumes "allocate_apply a policy f = (Inr (), g)"
  shows "\<exists>j. journal_allocation (journal_op_for (al_state a)) a f = (Inr (), j) \<and> fb_store g = fb_store j \<and>
    map_of (fb_allocations g) (al_id a) = Some a"
proof -
  obtain j x h where j: "journal_allocation (journal_op_for (al_state a)) a f = (Inr (), j)"
    and c: "apply_commit_units (al_pool a) (al_units a) (borrow_units a) (al_lender a) j = (Inr x, h)"
    and g: "g = map_pool (al_pool a) (\<lambda>e. e\<lparr>en_runtime := (en_runtime e)\<lparr>
                       grant_count := grant_count (en_runtime e) + 1,
                       peak_committed_units := max (peak_committed_units (en_runtime e))
                                                   (en_committed_units e)\<rparr>\<rparr>)
        (count_grant a (put_allocation a ((map_pool (al_pool a) (credit_holder a) h)\<lparr>next_allocation_id := al_id a + 1\<rparr>)))"
    using assms by (auto simp: allocate_apply_def Let_def try_st_eq_Inr split: option.splits if_splits)
  have "fb_store h = fb_store j" using outcome_store(2)[of "al_pool a" "al_units a" "borrow_units a" "al_lender a" j] c by simp
  moreover have "map_of (fb_allocations g) (al_id a) = Some a"
    unfolding g by (simp add: map_pool_allocations granted_allocations)
  ultimately show ?thesis using j by (simp add: g)
qed

lemma allocate_grant_durable:
  assumes "allocate_grant q e queue policy evidence c grant binding f = (Inr d, g)"
  shows "\<exists>a j. build_record q e queue policy c grant f = Inr a \<and>
    journal_allocation (journal_op_for (al_state a)) a f = (Inr (), j) \<and> fb_store g = fb_store j \<and>
    map_of (fb_allocations g) (al_id a) = Some a \<and> dc_allocation d = al_id a \<and> dc_granted_units d = al_units a \<and>
    dc_kind d \<in> {Grant, GrantPartial}"
proof -
  obtain a where a: "build_record q e queue policy c grant f = Inr a"
    using assms by (auto simp: allocate_grant_def split: sum.splits)
  let ?kind = "if grant = ar_requested_units q then Grant else GrantPartial"
  define rest :: "decision \<Rightarrow> decision op" where "rest = (\<lambda>d f. let f = (if ?kind = Grant then bump mt_grants_update f else bump mt_partial_grants_update f) in
        case map_of (fb_pools f) (al_pool a) of None \<Rightarrow> (Inr d, f)
        | Some e \<Rightarrow>
          (Inr (if rc_enabled (reclaim policy) \<and> en_free_units e = 0
                then d\<lparr>dc_intent := (dc_intent d)\<lparr>reclaim_target_units :=
                       (if reserve_units (reclaim policy) > en_free_units e
                        then reserve_units (reclaim policy) - en_free_units e else 0)\<rparr>\<rparr>
                else d), f))"
  have st: "try_st (allocate_apply a policy f) (\<lambda>_ f. try_st (verify_closure (al_pool a) True f) (\<lambda>_ f.
      try_st (allocate_finish q queue policy evidence ?kind Ok grant (al_id a) binding intent0 (al_lender a) f) rest)) = (Inr d, g)"
    using assms unfolding allocate_grant_def a sum.case Let_def rest_def .
  obtain x f1 where s1: "allocate_apply a policy f = (Inr x, f1)"
    "try_st (verify_closure (al_pool a) True f1) (\<lambda>_ f.
      try_st (allocate_finish q queue policy evidence ?kind Ok grant (al_id a) binding intent0 (al_lender a) f) rest) = (Inr d, g)"
    using st unfolding try_st_eq_Inr[of "allocate_apply a policy f"] by blast
  obtain y f2 where s2: "verify_closure (al_pool a) True f1 = (Inr y, f2)"
    "try_st (allocate_finish q queue policy evidence ?kind Ok grant (al_id a) binding intent0 (al_lender a) f2) rest = (Inr d, g)"
    using s1(2) unfolding try_st_eq_Inr[of "verify_closure (al_pool a) True f1"] by blast
  from iffD1[OF try_st_eq_Inr s2(2)]
  obtain d1 f3 where s3: "allocate_finish q queue policy evidence ?kind Ok grant (al_id a) binding intent0 (al_lender a) f2 = (Inr d1, f3)"
    "rest d1 f3 = (Inr d, g)"
    by blast
  have g: "g = (if ?kind = Grant then bump mt_grants_update f3 else bump mt_partial_grants_update f3)"
    "dc_allocation d = dc_allocation d1" "dc_granted_units d = dc_granted_units d1" "dc_kind d = dc_kind d1"
    using s3(2) by (auto simp: rest_def Let_def split: option.splits)
  have "fb_store f2 = fb_store f1" "fb_allocations f2 = fb_allocations f1"
    using outcome_store(1)[of "al_pool a" True f1] view_allocations[OF outcome_view(1)[of "al_pool a" True f1]] s2(1) by simp_all
  moreover have "fb_store f3 = fb_store f2" "fb_allocations f3 = fb_allocations f2"
    using outcome_store(3)[of q queue policy evidence ?kind Ok grant "al_id a" binding intent0 "al_lender a" f2]
      view_allocations[OF outcome_view(5)[of q queue policy evidence ?kind Ok grant "al_id a" binding intent0 "al_lender a" f2]] s3(1)
    by simp_all
  ultimately have "fb_store g = fb_store f1" "fb_allocations g = fb_allocations f1" using g(1) by (simp_all add: bump_def)
  moreover have "dc_allocation d = al_id a" "dc_granted_units d = al_units a" "dc_kind d \<in> {Grant, GrantPartial}"
    using finish_kind[of q queue policy evidence ?kind Ok grant "al_id a" binding intent0 "al_lender a" f2 d1] s3(1) g(2-4)
      build_record_fields(4)[OF a] by simp_all
  ultimately show ?thesis using a allocate_apply_done[of a policy f f1] s1(1) by auto
qed

subsection \<open>Acknowledged grants\<close>

lemma visit_all_snoc:
  "visit_all visit ps s = (Inr (), t) \<Longrightarrow> visit_all visit (ps @ [p]) s = visit_all visit [p] t"
  by (induction ps arbitrary: s) (auto simp: try_st_eq_Inr)

lemma replay_extended:
  assumes "list_all record_fits ps" "record_fits p" "visit_all visit ps h = (Inr (), h')" "visit p h' = (Inr (), h'')"
  shows "\<exists>reached count. replay visit (journal_image ps @ journal_frame p) 0 0 h = (Inr (False, reached, count), h'')"
proof -
  have "list_all record_fits (ps @ [p])" "journal_image (ps @ [p]) = journal_image ps @ journal_frame p"
    using assms(1,2) by (simp_all add: journal_image_def)
  moreover have "visit_all visit (ps @ [p]) h = (Inr (), h'')" using visit_all_snoc[OF assms(3), of p] assms(4) by simp
  ultimately show ?thesis
    using replay_image[of "ps @ [p]" visit "[]" "[]" False 0 h] replay_end[of visit "journal_image (ps @ [p])"] by simp
qed

lemma allocated_op: "journal_op_for (al_state a) \<in> {JAllocationReserved, JAllocationCommitted, JAllocationReleased,
    JAllocationReclaimed, JAllocationFenced, JAllocationRevalidated, JAllocationExpired}"
  by (cases "al_state a") simp_all

text \<open>What a durable fabric leaves on disk when it answers an allocate request with a new grant.\<close>

lemma grant_journaled:
  assumes "fabric_allocate t q f = (Inr d, g)" "dc_kind d \<noteq> IdempotentReplay" "dc_granted_units d \<noteq> 0"
    and "pc_mode (st_config (fb_store f)) \<noteq> DurNone" "\<not> needs_compaction (fb_store f)"
  obtains a p where "al_id a = dc_allocation d" "al_units a = dc_granted_units d" "al_id a = next_allocation_id f"
    "al_state a = (if ar_commit_immediately q then ACommitted else AReserved)"
    "map_of (fb_allocations g) (dc_allocation d) = Some a" "disk_snapshot (fb_store g) = disk_snapshot (fb_store f)"
    "journal_content (fb_store g) = journal_content (fb_store f) @ journal_frame p" "record_fits p"
    "\<And>h. apply_journal_payload p h = (Inr (), put_allocation a h)" "disk_synced (fb_store g) = journal_content (fb_store g)"
proof -
  let ?f = "(take_lock t f)\<lparr>fb_events := []\<rparr>"
  obtain g' where l: "allocate_locked q ?f = (Inr d, g')" "g = publish g'"
    using assms(1) by (auto simp: fabric_allocate_def locked_def Let_def split: prod.splits)
  have s: "fb_store ?f = fb_store f" "next_allocation_id ?f = next_allocation_id f" by (simp_all add: take_lock_def)
  show thesis
  proof (cases rule: allocate_cases[of q ?f])
    case kept
    then show thesis using assms(2,3) l(1) by fastforce
  next
    case (decided e queue policy n binding)
    have gr: "allocate_grant q e queue policy (resolve_evidence e ?f) (compute_grant e policy ?f) n binding ?f = (Inr d, g')"
      using decided(11) l(1) by simp
    obtain a j where a: "build_record q e queue policy (compute_grant e policy ?f) n ?f = Inr a"
      "journal_allocation (journal_op_for (al_state a)) a ?f = (Inr (), j)" "fb_store g' = fb_store j"
      "map_of (fb_allocations g') (al_id a) = Some a" "dc_allocation d = al_id a" "dc_granted_units d = al_units a"
      using allocate_grant_durable[OF gr] by blast
    have "unat (al_units a) \<le> 2 ^ 60"
      using build_record_fields(4)[OF a(1)] decide_grant_le(1)[OF decided(9)] decided(6) by (simp add: word_le_nat_alt)
    then have u: "al_units a \<le> kMaxUnitsPerPool" by (simp add: kMaxUnitsPerPool_def word_le_nat_alt)
    note jd = journal_allocation_done[OF a(2), unfolded s, OF assms(4,5)]
    show thesis
      by (rule that[OF a(5)[symmetric] a(6)[symmetric] build_record_fields(1)[OF a(1), unfolded s] build_record_fields(8)[OF a(1)] _ _ _ jd(3)])
        (simp_all add: l(2) a(3,4,5) jd replay_journaled_allocation[OF allocated_op u])
  qed
qed


subsection \<open>Recovery and the identity counter\<close>

lemma replay_keeps:
  assumes "\<And>p s. x (snd (visit p s)) = x s"
  shows "x (snd (replay visit data off n s)) = x s"
  using assms
proof (induction visit data off n s rule: replay.induct)
  case (1 visit data off n s)
  have v: "x s' = x s" if "visit p s = (r, s')" for p r s' using that 1(2)[of p s] by simp
  show ?case
    using 1 v by (subst replay.simps) (auto split: sum.split option.split prod.split)
qed

lemma corrupt_counter:
  "(\<And>x. next_allocation_id (snd (k x)) = next_allocation_id f) \<Longrightarrow> next_allocation_id (snd (corrupt r k f)) = next_allocation_id f"
  by (simp add: corrupt_def split: option.split)

lemma restored_counter [simp]:
  "next_allocation_id (restore_policy p f) = next_allocation_id f" "next_allocation_id (restore_entry e f) = next_allocation_id f"
  "next_allocation_id (restore_queue u f) = next_allocation_id f" "next_allocation_id (restore_pressure s f) = next_allocation_id f"
  "next_allocation_id (restore_capacity y f) = next_allocation_id f" "next_allocation_id (put_allocation a f) = next_allocation_id f"
  by (simp_all add: restore_policy_def restore_entry_def restore_queue_def restore_pressure_def restore_capacity_def put_allocation_def Let_def)

lemma replay_parts_counter:
  "next_allocation_id (snd (replay_epoch r f)) = next_allocation_id f"
  "next_allocation_id (snd (replay_pool r f)) = next_allocation_id f"
  "next_allocation_id (snd (replay_pool_removed r f)) = next_allocation_id f"
  "next_allocation_id (snd (replay_queue_retired r f)) = next_allocation_id f"
  "next_allocation_id (snd (replay_pressure r f)) = next_allocation_id f"
  "next_allocation_id (snd (replay_attempt r f)) = next_allocation_id f"
  "next_allocation_id (snd (replay_allocation r f)) = next_allocation_id f"
  subgoal by (auto simp: replay_epoch_def corrupt_def Let_def split: option.split)
  subgoal by (auto simp: replay_pool_def Let_def intro!: corrupt_counter)
  subgoal by (auto simp: replay_pool_removed_def intro!: corrupt_counter split: option.split)
  subgoal by (auto simp: replay_queue_retired_def intro!: corrupt_counter)
  subgoal by (auto simp: replay_pressure_def Let_def intro!: corrupt_counter)
  subgoal by (auto simp: replay_attempt_def intro!: corrupt_counter)
  subgoal by (auto simp: replay_allocation_def intro!: corrupt_counter)
  done

lemma replay_record_counter: "next_allocation_id (snd (apply_journal_payload p f)) = next_allocation_id f"
proof -
  have "next_allocation_id (snd (case opc of
           JEpochAdvance \<Rightarrow> replay_epoch r f
         | JPolicyUpsert \<Rightarrow> corrupt (decode_policy r) (\<lambda>(p, _).
             if policy_validate p \<noteq> Inr () then (Inl CorruptRecord, f)
             else (Inr (), restore_policy p f)) f
         | JPoolUpsert \<Rightarrow> replay_pool r f
         | JPoolRemoved \<Rightarrow> replay_pool_removed r f
         | JQueueUpsert \<Rightarrow> corrupt (decode_queue r) (\<lambda>(q, _). (Inr (), restore_queue q f)) f
         | JQueueRetired \<Rightarrow> replay_queue_retired r f
         | JCapacitySet \<Rightarrow> corrupt (decode_capacity r) (\<lambda>(c, _). (Inr (), restore_capacity c f)) f
         | JPressureObserved \<Rightarrow> replay_pressure r f
         | JAttemptRecorded \<Rightarrow> replay_attempt r f
         | JCheckpoint \<Rightarrow> (Inr (), f)
         | JBackendRegistered \<Rightarrow> (Inr (), f)
         | _ \<Rightarrow> replay_allocation r f)) = next_allocation_id f" for opc r
    by (cases opc) (auto simp: replay_parts_counter intro!: corrupt_counter split: prod.split)
  then show ?thesis
    unfolding apply_journal_payload_def by (intro corrupt_counter) (simp split: prod.split option.split)
qed

lemma load_replays:
  assumes "load_from_store h = (Inr (), h')" "disk_snapshot (fb_store h) = None" "journal_content (fb_store h) \<noteq> []"
  shows "\<exists>r k. replay apply_journal_payload (journal_content (fb_store h)) 0 0 h = (Inr r, k) \<and>
    next_allocation_id h' = next_allocation_id k \<and>
    fb_allocations h' = map (\<lambda>(i, a). (i, expire_lease (fb_tick k) a)) (fb_allocations k)"
proof -
  obtain b bs where j: "disk_journal (fb_store h) = Some (b # bs)" "journal_content (fb_store h) = b # bs"
    using assms(3) by (auto simp: journal_content_def split: option.splits) (metis list.exhaust)
  obtain report st k where k: "recover apply_snapshot_payload apply_journal_payload (fb_store h, h) = (Inr report, st, k)"
    "next_allocation_id h' = next_allocation_id k"
    "fb_allocations h' = map (\<lambda>(i, a). (i, expire_lease (fb_tick k) a)) (fb_allocations k)"
    using assms(1) by (auto simp: load_from_store_def Let_def split: prod.splits sum.splits)
  have io: "disk_snapshot (snd (io_call s)) = disk_snapshot s" "disk_journal (snd (io_call s)) = disk_journal s" for s
    by (simp_all add: io_call_def next_io_def split: list.split)
  obtain u s1 where s1: "io_call (fb_store h) = (Inr u, s1)" using k(1) by (auto simp: recover_def split: prod.splits sum.splits if_splits)
  have d: "disk_snapshot s1 = None" "disk_journal s1 = Some (b # bs)" using io[of "fb_store h"] s1 assms(2) j(1) by simp_all
  have c: "st_configured (fb_store h)" using k(1) by (auto simp: recover_def split: if_splits)
  obtain x s2 where x: "read_file_bounded (Some (b # bs)) (max_journal_bytes (st_config s1)) s1 = (x, s2)" by fastforce
  define rep where "rep = recovery_report0\<lparr>rv_durable_state_present := True\<rparr>"
  obtain y s3 k' where y: "recover_journal apply_journal_payload (b # bs) rep (s2, h) = (y, s3, k')" by (metis surj_pair)
  have "x = Inr (Some (b # bs)) \<or> (\<exists>e. x = Inl e)"
    using x by (auto simp: read_file_bounded_def try_st_def split: prod.splits sum.splits if_splits)
  then have x': "x = Inr (Some (b # bs))" using k(1) c s1 d x by (auto simp: recover_def read_file_bounded_def[of None])
  have "\<exists>res. y = Inr res \<and> k' = k"
    using k(1) c s1 d x y unfolding x' by (cases y) (auto simp: recover_def read_file_bounded_def[of None] rep_def[symmetric] Let_def)
  then obtain res where "recover_journal apply_journal_payload (b # bs) rep (s2, h) = (Inr res, s3, k)" using y by auto
  then have "\<exists>r. replay apply_journal_payload (b # bs) 0 0 h = (Inr r, k)"
    by (auto simp: recover_journal_def Let_def split: prod.splits sum.splits if_splits)
  then show ?thesis using k(2,3) j(2) by auto
qed

text \<open>Replay hands on the records of an intact journal one by one.\<close>

lemma replay_visits:
  assumes "list_all record_fits ps" "record_fits p" "replay visit (journal_image ps @ journal_frame p) 0 0 h = (Inr r, k)"
  shows "\<exists>h'. visit_all visit ps h = (Inr (), h') \<and> visit p h' = (Inr (), k)"
proof -
  have i: "list_all record_fits (ps @ [p])" "journal_image ps @ journal_frame p = journal_image (ps @ [p])"
    using assms(1,2) by (simp_all add: journal_image_def)
  have "fst (visit_all visit (ps @ [p]) h) = Inr () \<and> snd (visit_all visit (ps @ [p]) h) = k"
    using assms(3) replay_image[OF i(1), of visit "[]" "[]" False 0 h] replay_end[of visit "journal_image (ps @ [p])"]
    unfolding i(2) by (auto split: prod.splits sum.splits)
  then have v: "visit_all visit (ps @ [p]) h = (Inr (), k)" by (metis prod.collapse)
  have "\<exists>h'. visit_all visit ps h = (Inr (), h') \<and> visit_all visit [p] h' = (Inr (), k)"
    using v by (induction ps arbitrary: h) (auto simp: try_st_eq_Inr)
  then show ?thesis by (auto simp: try_st_eq_Inr)
qed

text \<open>C8: recovery hands out identities that are in use.  Replaying the journal does not move the identity counters.
  A durable fabric without a snapshot grants an allocation and crashes; a new process that started with the counter as it was
  before the grant loads the store.  It restores the granted allocation, still committed when it was granted as
  committed, and the record it builds for its next grant carries the same identity, so that storing it
  replaces the record of the units that are held.\<close>

theorem recovered_identity_reused:
  assumes "fabric_allocate t q f = (Inr d, g)" "dc_kind d \<noteq> IdempotentReplay" "dc_granted_units d \<noteq> 0"
    and "pc_mode (st_config (fb_store f)) \<noteq> DurNone" "\<not> needs_compaction (fb_store f)"
    and "journal_content (fb_store f) = journal_image ps" "list_all record_fits ps"
    and "disk_snapshot (fb_store h) = None" "disk_journal (fb_store h) = disk_journal (fb_store g)"
    and "next_allocation_id h = next_allocation_id f" "load_from_store h = (Inr (), k)"
    and "build_record q' e queue policy c n k = Inr b"
  shows "al_id b = dc_allocation d \<and> (\<exists>a. map_of (fb_allocations k) (dc_allocation d) = Some a \<and>
    al_units a = dc_granted_units d \<and> (ar_commit_immediately q \<longrightarrow> al_state a = ACommitted)) \<and>
    map_of (fb_allocations (put_allocation b k)) (dc_allocation d) = Some b"
proof -
  obtain a p where a: "al_id a = dc_allocation d" "al_units a = dc_granted_units d" "al_id a = next_allocation_id f"
    "al_state a = (if ar_commit_immediately q then ACommitted else AReserved)"
    and j: "journal_content (fb_store g) = journal_image ps @ journal_frame p" "record_fits p"
    "\<And>h. apply_journal_payload p h = (Inr (), put_allocation a h)"
    using grant_journaled[OF assms(1-5)] unfolding assms(6) by metis
  have c: "journal_content (fb_store h) = journal_image ps @ journal_frame p"
    using j(1) assms(9) by (simp add: journal_content_def)
  have "journal_frame p \<noteq> []" by (metis length_journal_frame list.size(3) add_is_0 zero_neq_numeral)
  then obtain r l where l: "replay apply_journal_payload (journal_image ps @ journal_frame p) 0 0 h = (Inr r, l)"
    "next_allocation_id k = next_allocation_id l"
    "fb_allocations k = map (\<lambda>(i, a). (i, expire_lease (fb_tick l) a)) (fb_allocations l)"
    using load_replays[OF assms(11,8)] unfolding c by auto
  obtain h' where "l = put_allocation a h'" using replay_visits[OF assms(7) j(2) l(1)] j(3) by auto
  then have m: "map_of (fb_allocations k) (al_id a) = Some (expire_lease (fb_tick l) a)"
    by (simp add: l(3) map_of_map_snd put_allocation_def update_conv')
  have "next_allocation_id l = next_allocation_id h"
    using replay_keeps[of next_allocation_id apply_journal_payload, OF replay_record_counter,
        of "journal_image ps @ journal_frame p" 0 0 h] l(1) by simp
  then have "al_id b = dc_allocation d" using build_record_fields(1)[OF assms(12)] l(2) assms(10) a(1,3) by simp
  moreover have "al_units (expire_lease (fb_tick l) a) = dc_granted_units d"
    "ar_commit_immediately q \<Longrightarrow> al_state (expire_lease (fb_tick l) a) = ACommitted"
    using a(2,4) by (simp_all add: expire_lease_def)
  ultimately show ?thesis using m a(1) by (simp add: put_allocation_def update_conv')
qed

subsection \<open>A durable run\<close>

text \<open>The fabric of the worked run over an empty journal.\<close>

definition run_store :: store where
  "run_store = store0\<lparr>st_config := persistence_config0\<lparr>pc_directory := ''state'', pc_mode := JournalSync\<rparr>, st_configured := True\<rparr>"

definition durable :: "fabric \<Rightarrow> fabric" where
  "durable f = f\<lparr>fb_store := run_store\<rparr>"

lemma durable_fields [simp]:
  "fb_pools (durable f) = fb_pools f" "fb_queues (durable f) = fb_queues f" "fb_policies (durable f) = fb_policies f"
  "fb_allocations (durable f) = fb_allocations f" "fb_open (durable f) = fb_open f" "fb_shutting_down (durable f) = fb_shutting_down f"
  "fb_epoch (durable f) = fb_epoch f" "fb_tick (durable f) = fb_tick f" "fb_attempts (durable f) = fb_attempts f"
  "next_allocation_id (durable f) = next_allocation_id f" "fb_config (durable f) = fb_config f" "fb_store (durable f) = run_store"
  "fb_pressure (durable f) = fb_pressure f" "fb_backends (durable f) = fb_backends f" "fb_boot (durable f) = fb_boot f"
  by (simp_all add: durable_def)

lemma durable_policy [simp]: "policy_of e (durable f) = policy_of e f"
  by (simp add: policy_of_def)

lemma durable_observation [simp]: "observation_of e (durable f) = observation_of e f"
  by (simp add: observation_of_def)

lemma durable_unknown [simp]: "unknown_evidence e (durable f) = unknown_evidence e f"
  by (simp add: unknown_evidence_def)

lemma durable_evidence [simp]: "resolve_evidence e (durable f) = resolve_evidence e f"
  unfolding resolve_evidence_def durable_fields durable_unknown durable_observation ..

lemma durable_journals:
  "\<exists>j. journal_allocation opc a (durable f) = (Inr (), j)"
proof -
  have w: "encode_allocation a writer0 = writer0\<lparr>buffer := enc (encode_allocation a)\<rparr>"
    using appendsD[OF allocation_codec.put_appends[of a], of writer0] by (simp add: writer0_def)
  have l: "length (enc (encode_allocation a)) \<le> 400"
    by (simp add: encode_allocation_def encode_lineage_def encode_bound_def)
  have w2: "writes [put_u8 c, put_bytes bs] writer0 = writer0\<lparr>buffer := c # bs\<rparr>" for c bs
    using appendsD[of "writes [put_u8 c, put_bytes bs]" writer0] by (simp add: writer0_def)
  have "fst (append_record (journal_op_raw opc # enc (encode_allocation a)) run_store) = Inr ()"
    using l by (simp add: append_record_def open_append_def journal_append_def journal_close_def store0_def run_store_def
        persistence_config0_def next_io_def Let_def kMaxJournalRecordBytes_def kFrameHeaderBytes_def journal_sync_def io_call_def)
  then obtain s where s: "append_record (journal_op_raw opc # enc (encode_allocation a)) run_store = (Inr (), s)"
    by (metis prod.collapse)
  have "\<not> needs_compaction run_store" by (simp add: needs_compaction_def run_store_def store0_def persistence_config0_def)
  then show ?thesis
    using s by (simp add: journal_allocation_def journal_writer_def w w2 journal_def Let_def on_store_def run_store_def[symmetric])
      (simp add: run_store_def writer0_def)
qed

lemma durable_allocates:
  assumes "11 \<le> t" "t \<le> 1000"
  shows "allocate_locked (run_request 1 40) (durable (ready t m l r)) =
    allocate_grant (run_request 1 40) (entry_of run_descriptor 1) run_queue1 run_policy1
      (resolve_evidence (entry_of run_descriptor 1) (ready t m l r))
      (compute_grant (entry_of run_descriptor 1) run_policy1 (durable (ready t m l r))) 40 BcCapacity (durable (ready t m l r))"
  by (simp add: allocate_locked_def ready_fields run_request_facts valid_def kMaxUnitsPerPool_def
      ensure_alloc_capacity_def kMaxAllocationCount_def lookup_attempt_def require_pool_def require_queue_def
      require_policy_def policy_of_def run_descriptor_facts run_queue1_facts stale_request_def allocate_decide_def Let_def
      ready_evidence[OF assms] evidence_usable_def pressure_is_known_def run_policy1_fields pressure_at_least_def
      ready_decides word_le_nat_alt)

lemma durable_builds:
  "\<exists>a. build_record (run_request 1 40) (entry_of run_descriptor 1) run_queue1 run_policy1
     (compute_grant (entry_of run_descriptor 1) run_policy1 f') 40 (durable (ready t m l r)) = Inr a \<and> run_record t a"
  by (simp add: build_record_def Let_def ready_fields run_request_facts add_overflow_def lineage_for_def valid_def
      borrow_for_def ready_grant run_record_def run_descriptor_facts run_queue1_facts)

lemma durable_grants:
  "\<exists>d g. fabric_allocate 12 (run_request 1 40) (durable s_ready) = (Inr d, g) \<and> dc_granted_units d = 40 \<and> dc_kind d \<noteq> IdempotentReplay"
proof -
  obtain m l r where s: "s_ready = ready 11 m l r" "(take_lock 12 s_ready)\<lparr>fb_events := []\<rparr> = ready 12 m l r" "fabric_inv (ready 12 m l r)"
    using s_ready_is_ready by metis
  let ?f = "durable (ready 12 m l r)" and ?e = "entry_of run_descriptor 1"
  have f: "(take_lock 12 (durable s_ready))\<lparr>fb_events := []\<rparr> = ?f"
    unfolding s(2)[symmetric] by (simp add: durable_def take_lock_def)
  have "ledger_view ?f = ledger_view (ready 12 m l r)" unfolding durable_def by (rule open_view(2))
  then have inv: "fabric_inv ?f" using s(3) fabric_inv_view by blast
  obtain a where a: "build_record (run_request 1 40) ?e run_queue1 run_policy1 (compute_grant ?e run_policy1 ?f) 40 ?f = Inr a"
    using durable_builds by blast
  obtain j where j: "journal_allocation (journal_op_for (al_state a)) a ?f = (Inr (), j)" using durable_journals by blast
  have e: "map_of (fb_pools ?f) (ar_pool (run_request 1 40)) = Some ?e" "policy_of ?e ?f = Some run_policy1" "within_limit ?e run_policy1"
    by (simp_all add: ready_fields run_request_facts policy_of_def run_descriptor_facts within_limit_def)
  have n: "40 \<le> gc_max_grant (compute_grant ?e run_policy1 ?f)" "unat (40 :: u64) \<le> 2 ^ 60" "(40 :: u64) \<noteq> 0"
    by (simp_all add: ready_grant)
  obtain d h where d: "allocate_grant (run_request 1 40) ?e run_queue1 run_policy1 (resolve_evidence ?e (ready 12 m l r))
      (compute_grant ?e run_policy1 ?f) 40 BcCapacity ?f = (Inr d, h)" "dc_granted_units d = 40"
    using allocate_grant_done[OF inv e(1,2) j e(3) a n, of "resolve_evidence ?e (ready 12 m l r)" BcCapacity] by blast
  have "dc_kind d \<noteq> IdempotentReplay" using allocate_grant_durable[OF d(1)] by auto
  moreover have "allocate_locked (run_request 1 40) ?f = (Inr d, h)"
    unfolding durable_allocates[OF run_ticks(2,4), of m l r] by (rule d(1))
  ultimately show ?thesis using d(2) f by (auto simp: fabric_allocate_def locked_def Let_def)
qed

lemma run_store_facts:
  "pc_mode (st_config run_store) \<noteq> DurNone" "\<not> needs_compaction run_store" "journal_content run_store = journal_image []"
  by (simp_all add: run_store_def store0_def persistence_config0_def needs_compaction_def journal_image_def journal_content_def)


text \<open>The process that restarts on what is on disk after that run.\<close>

definition restarted :: "store \<Rightarrow> fabric" where
  "restarted s = fabric0\<lparr>fb_store := run_store\<lparr>disk_journal := disk_journal s\<rparr>\<rparr>"

lemma load_intact:
  assumes "disk_journal s = Some (b # bs)" "length (b # bs) \<le> max_journal_bytes (st_config run_store)"
    and "replay apply_journal_payload (b # bs) 0 0 (restarted s) = (Inr (False, r, n), l)"
  shows "\<exists>k. load_from_store (restarted s) = (Inr (), k)"
proof -
  let ?st = "run_store\<lparr>disk_journal := disk_journal s\<rparr>"
  have st: "fb_store (restarted s) = ?st" "st_configured ?st" "disk_snapshot ?st = None" "io_call ?st = (Inr (), ?st)"
    "disk_journal ?st = Some (b # bs)" "st_config ?st = st_config run_store"
    using assms(1) by (simp_all add: restarted_def run_store_def store0_def)
  have rf: "read_file_bounded None m u = (Inr None, u)" for m u by (simp add: read_file_bounded_def)
  have rj: "read_file_bounded (Some (b # bs)) (max_journal_bytes (st_config run_store)) ?st = (Inr (Some (b # bs)), ?st)"
    unfolding read_file_bounded_def using assms(2) st(4) by (simp add: try_st_def)
  have ic: "io_call (journal_close ?st) = (Inr (), journal_close ?st)" "st_config (journal_close ?st) = st_config run_store"
    by (simp_all add: journal_close_def run_store_def store0_def)
  obtain report x u where rec: "recover_journal apply_journal_payload (b # bs) (recovery_report0\<lparr>rv_durable_state_present := True\<rparr>)
      (?st, restarted s) = (Inr (report, x), u, l)"
    using assms(2,3) ic by (simp add: recover_journal_def Let_def)
  have "recover apply_snapshot_payload apply_journal_payload (?st, restarted s) =
      (Inr report, u\<lparr>st_journal_bytes := x, st_recovery_count := st_recovery_count u + 1\<rparr>, l)"
    unfolding recover_def Let_def by (simp only: prod.case st rf rj rec option.case list.case sum.case simp_thms if_True if_False option.distinct)
  then show ?thesis by (auto simp: load_from_store_def st(1) Let_def)
qed

lemma run_request_builds:
  "next_allocation_id k = 1 \<Longrightarrow> \<exists>b. build_record (run_request 1 40) (entry_of run_descriptor 1) run_queue1 run_policy1
     (compute_grant (entry_of run_descriptor 1) run_policy1 s_ready) 40 k = Inr b"
  by (simp add: build_record_def Let_def run_request_facts add_overflow_def lineage_for_def valid_def)

theorem recovered_identity_reused_witness:
  "\<exists>d g k b a. fabric_allocate 12 (run_request 1 40) (durable s_ready) = (Inr d, g) \<and>
    load_from_store (restarted (fb_store g)) = (Inr (), k) \<and>
    build_record (run_request 1 40) (entry_of run_descriptor 1) run_queue1 run_policy1
      (compute_grant (entry_of run_descriptor 1) run_policy1 s_ready) 40 k = Inr b \<and>
    map_of (fb_allocations k) (al_id b) = Some a \<and> al_units a = 40 \<and> al_state a = ACommitted"
proof -
  obtain d g where d: "fabric_allocate 12 (run_request 1 40) (durable s_ready) = (Inr d, g)" "dc_granted_units d = 40"
    "dc_kind d \<noteq> IdempotentReplay" using durable_grants by blast
  have n: "dc_granted_units d \<noteq> 0" using d(2) by simp
  have m: "pc_mode (st_config (fb_store (durable s_ready))) \<noteq> DurNone" "\<not> needs_compaction (fb_store (durable s_ready))"
    "journal_content (fb_store (durable s_ready)) = journal_image []" "list_all record_fits []" by (simp_all add: run_store_facts)
  obtain a p where j: "journal_content (fb_store g) = journal_frame p" "record_fits p"
    "\<And>h. apply_journal_payload p h = (Inr (), put_allocation a h)"
    using grant_journaled[OF d(1,3) n m(1,2)] unfolding m(3) journal_image_def list.map concat.simps append_Nil by metis
  have "journal_frame p \<noteq> []" by (metis length_journal_frame list.size(3) add_is_0 zero_neq_numeral)
  then obtain b bs where f: "disk_journal (fb_store g) = Some (b # bs)" "b # bs = journal_frame p"
    using j(1) by (auto simp: journal_content_def split: option.splits) (metis list.exhaust)
  have l: "length (b # bs) \<le> max_journal_bytes (st_config run_store)"
    using j(2) by (simp only: f(2) length_journal_frame) (simp add: record_fits_def run_store_def persistence_config0_def kMaxJournalRecordBytes_def)
  obtain reached count where r: "replay apply_journal_payload (b # bs) 0 0 (restarted (fb_store g)) =
      (Inr (False, reached, count), put_allocation a (restarted (fb_store g)))"
    using replay_extended[of "[]" p apply_journal_payload "restarted (fb_store g)" "restarted (fb_store g)", OF _ j(2) _ j(3)]
    unfolding f(2) by (auto simp: journal_image_def)
  obtain k where k: "load_from_store (restarted (fb_store g)) = (Inr (), k)" using load_intact[OF f(1) l r] by blast
  have h: "disk_snapshot (fb_store (restarted (fb_store g))) = None"
    "disk_journal (fb_store (restarted (fb_store g))) = disk_journal (fb_store g)" "next_allocation_id (restarted (fb_store g)) = 1"
    by (simp_all add: restarted_def run_store_def store0_def fabric0_def)
  have c: "journal_content (fb_store (restarted (fb_store g))) = b # bs" using h(2) f(1) by (simp add: journal_content_def)
  have "next_allocation_id k = 1" using load_replays[OF k h(1)] r h(3) unfolding c by auto
  then obtain b' where b: "build_record (run_request 1 40) (entry_of run_descriptor 1) run_queue1 run_policy1
      (compute_grant (entry_of run_descriptor 1) run_policy1 s_ready) 40 k = Inr b'" using run_request_builds by blast
  obtain m0 l0 r0 where s: "s_ready = ready 11 m0 l0 r0" using s_ready_is_ready by metis
  have i: "next_allocation_id (restarted (fb_store g)) = next_allocation_id (durable s_ready)"
    unfolding h(3) durable_fields s ready_fields ..
  show ?thesis
    using recovered_identity_reused[OF d(1,3) n m h(1,2) i k b] d k b by (auto simp: run_request_facts)
qed

end
