(* ===== verification/Protocol.thy ===== *)
theory Protocol
  imports Decision
begin

text \<open>
  The messages between a worker and the coordinator: src/protocol.hpp and src/protocol.cpp.  Each
  pair is an interpretation of wire_codec.  An allocate request does not carry its parent allocation,
  and a pressure snapshot carries neither its identity nor the epoch, generation and boot it was taken
  for (the coordinator fills them in), so these two pairs are codecs for values without those parts.
\<close>

definition kProtocolVersion :: u32 where "kProtocolVersion = 1"

record hello_request =
  hr_protocol_version :: u32
  hr_claimed_epoch :: epoch_id
  hr_client_boot :: boot_incarnation

record hello_response =
  hp_protocol_version :: u32
  hp_coordinator_epoch :: epoch_id
  hp_coordinator_boot :: boot_incarnation
  hp_pool_count :: u64
  hp_queue_count :: u64

text \<open>The fields binding and pressure are raw bytes, as in the code.\<close>

record decision_summary =
  sm_kind :: decision_kind
  sm_status :: error_code
  sm_binding :: u8
  sm_pressure :: u8
  sm_utilization_bp :: u32
  sm_sequence :: u64
  sm_requested_units :: u64
  sm_granted_units :: u64
  sm_pool :: pool_id
  sm_queue :: queue_id
  sm_allocation :: allocation_id
  sm_accounting :: pool_accounting

definition decision_kinds :: "decision_kind list" where
  "decision_kinds = [Grant, GrantPartial, Refuse, Reduce, Fence, Revalidate, Reclaim, NoOp, IdempotentReplay]"

primrec decision_kind_raw :: "decision_kind \<Rightarrow> u8" where
  "decision_kind_raw Grant = 0"
| "decision_kind_raw GrantPartial = 1"
| "decision_kind_raw Refuse = 2"
| "decision_kind_raw Reduce = 3"
| "decision_kind_raw Fence = 4"
| "decision_kind_raw Revalidate = 5"
| "decision_kind_raw Reclaim = 6"
| "decision_kind_raw NoOp = 7"
| "decision_kind_raw IdempotentReplay = 8"

definition decision_kind_of_raw :: "u8 \<Rightarrow> decision_kind" where
  "decision_kind_of_raw v = decision_kinds ! unat v"

primrec binding_constraint_raw :: "binding_constraint \<Rightarrow> u8" where
  "binding_constraint_raw BcNone = 0"
| "binding_constraint_raw BcCapacity = 1"
| "binding_constraint_raw BcProtectedHeadroom = 2"
| "binding_constraint_raw BcOvercommitLimit = 3"
| "binding_constraint_raw BcBorrowLimit = 4"
| "binding_constraint_raw BcPolicyMaxSingleAllocation = 5"
| "binding_constraint_raw BcPolicyMaxSingleRequest = 6"
| "binding_constraint_raw BcPolicySoftLimit = 7"
| "binding_constraint_raw BcQueueMaxCommitted = 8"
| "binding_constraint_raw BcQueueShare = 9"
| "binding_constraint_raw BcPressureRefuse = 10"
| "binding_constraint_raw BcPressureReduce = 11"
| "binding_constraint_raw BcEvidenceUnknown = 12"
| "binding_constraint_raw BcEvidenceStale = 13"
| "binding_constraint_raw BcGenerationMismatch = 14"
| "binding_constraint_raw BcPoolRetired = 15"
| "binding_constraint_raw BcQueueRetired = 16"
| "binding_constraint_raw BcReservationLimit = 17"
| "binding_constraint_raw BcReclaimReserve = 18"
| "binding_constraint_raw BcRequestZero = 19"
| "binding_constraint_raw BcBackendCapacity = 20"
| "binding_constraint_raw BcShutdown = 21"

subsection \<open>Handshake\<close>

definition encode_hello_request :: "hello_request \<Rightarrow> byte_writer \<Rightarrow> byte_writer" where
  "encode_hello_request m = writes [
     put_u32 (hr_protocol_version m),
     put_id (hr_claimed_epoch m),
     put_u64 (bi_hi (hr_client_boot m)),
     put_u64 (bi_lo (hr_client_boot m))]"

definition decode_hello_request :: "hello_request decoder" where
  "decode_hello_request r = do {
     (version, r) \<leftarrow> get_u32 r;
     (ep, r) \<leftarrow> get_id r;
     (hi, r) \<leftarrow> get_u64 r;
     (lo, r) \<leftarrow> get_u64 r;
     Some (\<lparr>hr_protocol_version = version, hr_claimed_epoch = ep, hr_client_boot = \<lparr>bi_hi = hi, bi_lo = lo\<rparr>\<rparr>, r) }"

definition encode_hello_response :: "hello_response \<Rightarrow> byte_writer \<Rightarrow> byte_writer" where
  "encode_hello_response m = writes [
     put_u32 (hp_protocol_version m),
     put_id (hp_coordinator_epoch m),
     put_u64 (bi_hi (hp_coordinator_boot m)),
     put_u64 (bi_lo (hp_coordinator_boot m)),
     put_u64 (hp_pool_count m),
     put_u64 (hp_queue_count m)]"

definition decode_hello_response :: "hello_response decoder" where
  "decode_hello_response r = do {
     (version, r) \<leftarrow> get_u32 r;
     (ep, r) \<leftarrow> get_id r;
     (hi, r) \<leftarrow> get_u64 r;
     (lo, r) \<leftarrow> get_u64 r;
     (pools, r) \<leftarrow> get_u64 r;
     (queues, r) \<leftarrow> get_u64 r;
     Some (\<lparr>hp_protocol_version = version, hp_coordinator_epoch = ep,
       hp_coordinator_boot = \<lparr>bi_hi = hi, bi_lo = lo\<rparr>, hp_pool_count = pools, hp_queue_count = queues\<rparr>, r) }"

subsection \<open>Requests\<close>

text \<open>The field parent_allocation is not sent.\<close>

definition encode_allocate :: "allocate_request \<Rightarrow> byte_writer \<Rightarrow> byte_writer" where
  "encode_allocate q = writes [
     put_id (ar_attempt q),
     put_id (ar_pool q),
     put_id (ar_queue q),
     put_u64 (ar_requested_units q),
     put_u8 (reclaim_class_raw (ar_reclaim_class q)),
     put_u64 (ar_reclaim_priority q),
     put_u64 (ar_ttl_ticks q),
     put_bool (ar_commit_immediately q),
     put_id (ar_provenance q),
     put_id (ar_expected_pool_generation q),
     put_id (ar_expected_policy_generation q),
     put_id (ar_expected_queue_generation q),
     put_id (ar_expected_capacity_generation q),
     put_id (ar_expected_epoch q)]"

definition decode_allocate :: "allocate_request decoder" where
  "decode_allocate r = do {
     (x0, r) \<leftarrow> get_id r;
     (x1, r) \<leftarrow> get_id r;
     (x2, r) \<leftarrow> get_id r;
     (x3, r) \<leftarrow> get_u64 r;
     (klass, r) \<leftarrow> get_u8 r;
     if klass > 1 then None else do {
     (x5, r) \<leftarrow> get_u64 r;
     (x6, r) \<leftarrow> get_u64 r;
     (x7, r) \<leftarrow> get_bool r;
     (x8, r) \<leftarrow> get_id r;
     (x9, r) \<leftarrow> get_id r;
     (x10, r) \<leftarrow> get_id r;
     (x11, r) \<leftarrow> get_id r;
     (x12, r) \<leftarrow> get_id r;
     (x13, r) \<leftarrow> get_id r;
     Some (\<lparr>ar_attempt = x0, ar_pool = x1, ar_queue = x2, ar_requested_units = x3, ar_reclaim_class =
       reclaim_class_of_raw klass, ar_reclaim_priority = x5, ar_ttl_ticks = x6, ar_commit_immediately
       = x7, ar_parent_allocation = 0, ar_provenance = x8, ar_expected_pool_generation = x9,
       ar_expected_policy_generation = x10, ar_expected_queue_generation = x11,
       ar_expected_capacity_generation = x12, ar_expected_epoch = x13\<rparr>, r) } }"

definition encode_release :: "release_request \<Rightarrow> byte_writer \<Rightarrow> byte_writer" where
  "encode_release q = writes [
     put_id (rr_attempt q),
     put_id (rr_allocation q),
     put_bool (rr_release_all q),
     put_u64 (rr_units q),
     put_id (rr_expected_pool_generation q),
     put_id (rr_expected_epoch q)]"

definition decode_release :: "release_request decoder" where
  "decode_release r = do {
     (x0, r) \<leftarrow> get_id r;
     (x1, r) \<leftarrow> get_id r;
     (x2, r) \<leftarrow> get_bool r;
     (x3, r) \<leftarrow> get_u64 r;
     (x4, r) \<leftarrow> get_id r;
     (x5, r) \<leftarrow> get_id r;
     Some (\<lparr>rr_attempt = x0, rr_allocation = x1, rr_units = x3, rr_release_all = x2,
       rr_expected_pool_generation = x4, rr_expected_epoch = x5\<rparr>, r) }"

definition encode_evaluate :: "evaluate_request \<Rightarrow> byte_writer \<Rightarrow> byte_writer" where
  "encode_evaluate q = writes [
     put_id (er_pool q),
     put_id (er_queue q),
     put_u64 (er_requested_units q),
     put_u8 (reclaim_class_raw (er_reclaim_class q)),
     put_id (er_expected_epoch q)]"

definition decode_evaluate :: "evaluate_request decoder" where
  "decode_evaluate r = do {
     (x0, r) \<leftarrow> get_id r;
     (x1, r) \<leftarrow> get_id r;
     (x2, r) \<leftarrow> get_u64 r;
     (klass, r) \<leftarrow> get_u8 r;
     if klass > 1 then None else do {
     (x4, r) \<leftarrow> get_id r;
     Some (\<lparr>er_pool = x0, er_queue = x1, er_requested_units = x2, er_reclaim_class = reclaim_class_of_raw
       klass, er_expected_epoch = x4\<rparr>, r) } }"

definition encode_pressure :: "pressure_snapshot \<Rightarrow> byte_writer \<Rightarrow> byte_writer" where
  "encode_pressure s = writes [
     put_id (ps_pool s),
     put_u64 (ps_observed_at s),
     put_u64 (ps_ttl_ticks s),
     put_u64 (ps_demand_units s),
     put_u64 (ps_committed_units s),
     put_u64 (ps_reclaimable_units s),
     put_id (ps_provenance s),
     put_bool (assert_committed s)]"

definition decode_pressure :: "pressure_snapshot decoder" where
  "decode_pressure r = do {
     (x0, r) \<leftarrow> get_id r;
     (x1, r) \<leftarrow> get_u64 r;
     (x2, r) \<leftarrow> get_u64 r;
     (x3, r) \<leftarrow> get_u64 r;
     (x4, r) \<leftarrow> get_u64 r;
     (x5, r) \<leftarrow> get_u64 r;
     (x6, r) \<leftarrow> get_id r;
     (x7, r) \<leftarrow> get_bool r;
     Some (\<lparr>ps_id = 0, ps_pool = x0, ps_pool_generation = 0, ps_epoch = 0, ps_boot = \<lparr>bi_hi = 0,
       bi_lo = 0\<rparr>, ps_observed_at = x1, ps_ttl_ticks = x2, ps_demand_units = x3,
       ps_committed_units = x4, ps_reclaimable_units = x5, ps_provenance = x6, assert_committed = x7,
       evidence_digest = \<lparr>dg_hi = 0, dg_lo = 0\<rparr>\<rparr>, r) }"

subsection \<open>Responses\<close>

definition encode_accounting :: "pool_accounting \<Rightarrow> byte_writer \<Rightarrow> byte_writer" where
  "encode_accounting a = writes [
     put_id (ac_pool a),
     put_id (ac_pool_generation a),
     put_u64 (ac_raw a),
     put_u64 (ac_protected_units a),
     put_u64 (ac_usable a),
     put_u64 (ac_allocated a),
     put_u64 (ac_reserved a),
     put_u64 (ac_committed a),
     put_u64 (ac_pinned a),
     put_u64 (ac_reclaimable a),
     put_u64 (ac_borrowed_in a),
     put_u64 (ac_lent_out a),
     put_u64 (ac_overcommit_used a),
     put_u64 (ac_overcommit_limit a),
     put_u64 (ac_free a)]"

definition decode_accounting :: "pool_accounting decoder" where
  "decode_accounting r = do {
     (x0, r) \<leftarrow> get_id r;
     (x1, r) \<leftarrow> get_id r;
     (x2, r) \<leftarrow> get_u64 r;
     (x3, r) \<leftarrow> get_u64 r;
     (x4, r) \<leftarrow> get_u64 r;
     (x5, r) \<leftarrow> get_u64 r;
     (x6, r) \<leftarrow> get_u64 r;
     (x7, r) \<leftarrow> get_u64 r;
     (x8, r) \<leftarrow> get_u64 r;
     (x9, r) \<leftarrow> get_u64 r;
     (x10, r) \<leftarrow> get_u64 r;
     (x11, r) \<leftarrow> get_u64 r;
     (x12, r) \<leftarrow> get_u64 r;
     (x13, r) \<leftarrow> get_u64 r;
     (x14, r) \<leftarrow> get_u64 r;
     Some (\<lparr>ac_pool = x0, ac_pool_generation = x1, ac_raw = x2, ac_protected_units = x3, ac_usable = x4,
       ac_allocated = x5, ac_reserved = x6, ac_committed = x7, ac_pinned = x8, ac_reclaimable = x9,
       ac_borrowed_in = x10, ac_lent_out = x11, ac_overcommit_used = x12, ac_overcommit_limit = x13,
       ac_free = x14\<rparr>, r) }"

definition encode_decision_summary :: "decision_summary \<Rightarrow> byte_writer \<Rightarrow> byte_writer" where
  "encode_decision_summary s = writes [
     put_u8 (decision_kind_raw (sm_kind s)),
     put_u16 (error_code_raw (sm_status s)),
     put_u8 (sm_binding s),
     put_u8 (sm_pressure s),
     put_u32 (sm_utilization_bp s),
     put_u64 (sm_sequence s),
     put_u64 (sm_requested_units s),
     put_u64 (sm_granted_units s),
     put_id (sm_pool s),
     put_id (sm_queue s),
     put_id (sm_allocation s),
     encode_accounting (sm_accounting s)]"

definition decode_decision_summary :: "decision_summary decoder" where
  "decode_decision_summary r = do {
     (kind, r) \<leftarrow> get_u8 r;
     if kind > 8 then None else do {
     (status, r) \<leftarrow> get_u16 r;
     if status > 105 then None else do {
     (binding, r) \<leftarrow> get_u8 r;
     if binding > 21 then None else do {
     (press, r) \<leftarrow> get_u8 r;
     if press > 5 then None else do {
     (bp, r) \<leftarrow> get_u32 r;
     (sq, r) \<leftarrow> get_u64 r;
     (req, r) \<leftarrow> get_u64 r;
     (grant, r) \<leftarrow> get_u64 r;
     (pool, r) \<leftarrow> get_id r;
     (queue, r) \<leftarrow> get_id r;
     (allocation, r) \<leftarrow> get_id r;
     (acc, r) \<leftarrow> decode_accounting r;
     Some (\<lparr>sm_kind = decision_kind_of_raw kind, sm_status = error_code_of_raw status, sm_binding = binding,
       sm_pressure = press, sm_utilization_bp = bp, sm_sequence = sq, sm_requested_units = req,
       sm_granted_units = grant, sm_pool = pool, sm_queue = queue, sm_allocation = allocation,
       sm_accounting = acc\<rparr>, r) } } } } }"

text \<open>A response: status, a message cut at 4096 bytes, and the payload of another writer or none.\<close>

definition kMaxResponseMessage :: nat where "kMaxResponseMessage = 4096"

definition encode_response :: "error_code \<Rightarrow> string \<Rightarrow> byte_writer option \<Rightarrow> byte_writer \<Rightarrow> byte_writer" where
  "encode_response status message payload =
     (let len = (if length message > kMaxResponseMessage then kMaxResponseMessage else length message) in
      writes ([put_u16 (error_code_raw status),
               put_u16 (of_nat len),
               put_bytes (map byte_of_char (take len message))] @
              (case payload of
                 Some p \<Rightarrow> [put_u32 (of_nat (length (buffer p))), put_bytes (buffer p)]
               | None \<Rightarrow> [put_u32 0])))"

definition decode_response :: "(error_code \<times> string \<times> bytes) decoder" where
  "decode_response r = do {
     (code, r) \<leftarrow> get_u16 r;
     if code > 105 then None else do {
     (len, r) \<leftarrow> get_u16 r;
     if unat len > kMaxResponseMessage then None else do {
     (text_bytes, r) \<leftarrow> get_bytes (unat len) r;
     (payload_bytes, r) \<leftarrow> get_u32 r;
     if unat payload_bytes > kMaxFrameBytes then None else do {
     (body, r) \<leftarrow> get_bytes (unat payload_bytes) r;
     Some ((error_code_of_raw code, map char_of_byte text_bytes, body), r) } } } }"

subsection \<open>Every pair is a codec\<close>

lemma decision_kind_round_trip [simp]: "decision_kind_of_raw (decision_kind_raw k) = k" "\<not> decision_kind_raw k > 8"
  by (cases k; simp add: decision_kind_of_raw_def decision_kinds_def)+

lemma binding_raw_le: "\<not> binding_constraint_raw b > 21"
  by (cases b) simp_all

interpretation hello_request_codec: wire_codec encode_hello_request decode_hello_request "\<lambda>_. True"
  by unfold_locales (simp_all add: encode_hello_request_def decode_hello_request_def)

interpretation hello_response_codec: wire_codec encode_hello_response decode_hello_response "\<lambda>_. True"
  by unfold_locales (simp_all add: encode_hello_response_def decode_hello_response_def)

interpretation allocate_codec: wire_codec encode_allocate decode_allocate "\<lambda>q. ar_parent_allocation q = 0"
  by unfold_locales (simp_all add: encode_allocate_def decode_allocate_def)

interpretation release_codec: wire_codec encode_release decode_release "\<lambda>_. True"
  by unfold_locales (simp_all add: encode_release_def decode_release_def)

interpretation evaluate_codec: wire_codec encode_evaluate decode_evaluate "\<lambda>_. True"
  by unfold_locales (simp_all add: encode_evaluate_def decode_evaluate_def)

definition observed_only :: "pressure_snapshot \<Rightarrow> pressure_snapshot" where
  "observed_only s = s\<lparr>ps_id := 0, ps_pool_generation := 0, ps_epoch := 0, ps_boot := \<lparr>bi_hi = 0, bi_lo = 0\<rparr>,
     evidence_digest := \<lparr>dg_hi = 0, dg_lo = 0\<rparr>\<rparr>"

lemma encode_pressure_observed: "encode_pressure (observed_only s) = encode_pressure s"
  by (simp add: encode_pressure_def observed_only_def)

interpretation observation_codec: wire_codec encode_pressure decode_pressure "\<lambda>s. observed_only s = s"
proof unfold_locales
  fix s :: pressure_snapshot and r
  assume s: "observed_only s = s"
  show "appends (encode_pressure s)" by (simp add: encode_pressure_def)
  have "decode_pressure (enc (encode_pressure s) @ r) = Some (observed_only s, r)"
    by (simp add: encode_pressure_def decode_pressure_def observed_only_def)
  then show "decode_pressure (enc (encode_pressure s) @ r) = Some (s, r)" by (simp add: s)
qed

interpretation accounting_codec: wire_codec encode_accounting decode_accounting "\<lambda>_. True"
  by unfold_locales (simp_all add: encode_accounting_def decode_accounting_def)

definition summary_fits :: "decision_summary \<Rightarrow> bool" where
  "summary_fits s \<longleftrightarrow> named (sm_status s) \<and> sm_binding s \<le> 21 \<and> sm_pressure s \<le> 5"

interpretation summary_codec: wire_codec encode_decision_summary decode_decision_summary summary_fits
  by unfold_locales
    (simp_all add: encode_decision_summary_def decode_decision_summary_def accounting_codec.put_appends
      accounting_codec.get_put summary_fits_def named_raw_le not_less)

lemma encode_response_appends: "appends (encode_response status message payload)"
  by (simp add: encode_response_def Let_def split: option.split)

lemma decode_encode_response:
  assumes "named status" "\<And>p. payload = Some p \<Longrightarrow> length (buffer p) \<le> kMaxFrameBytes"
  shows "decode_response (enc (encode_response status message payload) @ r) =
    Some ((status, take kMaxResponseMessage message, case payload of None \<Rightarrow> [] | Some p \<Rightarrow> buffer p), r)"
proof -
  have l: "unat (of_nat (length (take kMaxResponseMessage message)) :: u16) = length (take kMaxResponseMessage message)"
    by (simp add: unat_of_nat kMaxResponseMessage_def min_def)
  have p: "unat (of_nat (length (buffer p)) :: u32) = length (buffer p)" if "payload = Some p" for p
    using assms(2)[OF that] by (simp add: unat_of_nat32 kMaxFrameBytes_def)
  have t: "(if length message > kMaxResponseMessage then kMaxResponseMessage else length message) =
      length (take kMaxResponseMessage message)" by simp
  have m: "take (min (length message) kMaxResponseMessage) message = take kMaxResponseMessage message"
    by (simp add: min_def)
  have z: "get_bytes 0 r = Some ([], r)" for r by (simp add: get_bytes_def)
  show ?thesis
    unfolding encode_response_def t Let_def decode_response_def
    using assms l p by (cases payload) (simp_all add: named_raw_le not_less comp_def m z)
qed

lemma allocate_loses_parent:
  "decode_allocate (enc (encode_allocate q) @ r) = Some (q\<lparr>ar_parent_allocation := 0\<rparr>, r)"
  by (simp add: encode_allocate_def decode_allocate_def)

lemma pressure_observed_only: "decode_pressure (enc (encode_pressure s) @ r) = Some (observed_only s, r)"
  using observation_codec.get_put[of "observed_only s" r] encode_pressure_observed[of s]
  by (simp add: observed_only_def)

text \<open>C16: what is sent is what arrives.  Every request and response decodes from its encoding, whatever
  follows it, to the value that was encoded: handshakes, releases and evaluations exactly, decision
  summaries whose status is an error code and whose two raw bytes are enumerators, responses with their
  message cut at 4096 bytes; an allocate request arrives without its parent allocation and a pressure
  snapshot as its observation alone.\<close>

theorem protocol_round_trip:
  "decode_hello_request (enc (encode_hello_request h) @ r) = Some (h, r) \<and>
   decode_hello_response (enc (encode_hello_response k) @ r) = Some (k, r) \<and>
   decode_allocate (enc (encode_allocate a) @ r) = Some (a\<lparr>ar_parent_allocation := 0\<rparr>, r) \<and>
   decode_release (enc (encode_release q) @ r) = Some (q, r) \<and>
   decode_evaluate (enc (encode_evaluate v) @ r) = Some (v, r) \<and>
   decode_pressure (enc (encode_pressure s) @ r) = Some (observed_only s, r) \<and>
   (summary_fits d \<longrightarrow> decode_decision_summary (enc (encode_decision_summary d) @ r) = Some (d, r)) \<and>
   (named c \<longrightarrow> length (buffer p) \<le> kMaxFrameBytes \<longrightarrow>
      decode_response (enc (encode_response c t (Some p)) @ r) = Some ((c, take kMaxResponseMessage t, buffer p), r))"
  using hello_request_codec.get_put[of h r] hello_response_codec.get_put[of k r] allocate_loses_parent[of a r]
    release_codec.get_put[of q r] evaluate_codec.get_put[of v r] pressure_observed_only[of s r]
    summary_codec.get_put[of d r] decode_encode_response[of c "Some p" t r]
  by simp

definition sample_summary :: decision_summary where
  "sample_summary = \<lparr>sm_kind = GrantPartial, sm_status = Ok, sm_binding = 1, sm_pressure = 2, sm_utilization_bp = 7500,
     sm_sequence = 9, sm_requested_units = 64, sm_granted_units = 40, sm_pool = 1, sm_queue = 1, sm_allocation = 3,
     sm_accounting = pool_accounting0\<rparr>"

theorem protocol_round_trip_witness:
  "decode_response (enc (encode_response Ok ''ok'' (Some (encode_decision_summary sample_summary writer0))) @ [5]) =
     Some ((Ok, ''ok'', enc (encode_decision_summary sample_summary)), [5]) \<and>
   decode_decision_summary (enc (encode_decision_summary sample_summary) @ []) = Some (sample_summary, [])"
proof -
  have n: "length (buffer (encode_decision_summary sample_summary writer0)) \<le> kMaxFrameBytes"
    using summary_codec.put_appends[of sample_summary]
    by (simp add: encode_decision_summary_def enc_def[symmetric] accounting_codec.put_appends sample_summary_def
        encode_accounting_def kMaxFrameBytes_def)
  have f: "summary_fits sample_summary" by (simp add: summary_fits_def sample_summary_def)
  note rt = protocol_round_trip[where d = sample_summary and c = Ok and t = "''ok''"
      and p = "encode_decision_summary sample_summary writer0"]
  show ?thesis
    using rt[where r = "[5]"] rt[where r = "[]"] n f by (simp add: kMaxResponseMessage_def enc_def)
qed

end
