(* ===== verification/Json.thy ===== *)
theory Json
  imports Types
begin

text \<open>
  The bounded JSON writer: include/buffer_fabric/json.hpp and src/json.cpp.

  A writer is its output, its byte budget and its flags.  push and comma call each other, as in the code.
  A value of type json stands for the sequence of writer calls that writes it (write_value); show_json is the
  text of a value by the grammar, and the writer is proved to produce it whenever the budget suffices.
\<close>

record json_writer =
  jw_out :: string
  jw_budget :: nat
  jw_truncated :: bool
  jw_need_comma :: bool
  jw_in_object :: "bool list"

definition json_writer0 :: "nat \<Rightarrow> json_writer" where
  "json_writer0 byte_budget = \<lparr>jw_out = [], jw_budget = byte_budget, jw_truncated = False, jw_need_comma = False,
     jw_in_object = []\<rparr>"

subsection \<open>Text\<close>

definition hex_digit :: "nat \<Rightarrow> char" where
  "hex_digit n = ''0123456789abcdef'' ! (n mod 16)"

fun decimal :: "nat \<Rightarrow> string" where
  "decimal n = (if n < 10 then [hex_digit n] else decimal (n div 10) @ [hex_digit (n mod 10)])"

declare decimal.simps [simp del]

definition quote_char :: char where "quote_char = CHR 0x22"

definition backslash :: char where "backslash = CHR 0x5C"

definition escape_char :: "char \<Rightarrow> string" where
  "escape_char c =
     (if c = quote_char then [backslash, quote_char]
      else if c = backslash then [backslash, backslash]
      else if c = CHR 0x0A then [backslash, CHR ''n'']
      else if c = CHR 0x0D then [backslash, CHR ''r'']
      else if c = CHR 0x09 then [backslash, CHR ''t'']
      else if (of_char c :: nat) < 0x20
      then [backslash] @ ''u00'' @ [hex_digit (of_char c div 16), hex_digit (of_char c mod 16)]
      else [c])"

definition append_escaped :: "string \<Rightarrow> string" where
  "append_escaped text = [quote_char] @ concat (map escape_char text) @ [quote_char]"

subsection \<open>The writer\<close>

definition kMarker :: string where
  "kMarker = [quote_char] @ ''__truncated__'' @ [quote_char] @ '':true''"

function push :: "string \<Rightarrow> json_writer \<Rightarrow> json_writer" and comma :: "json_writer \<Rightarrow> json_writer" where
  "push text w =
     (if jw_truncated w then w
      else if length (jw_out w) + length text > jw_budget w
      then let w = w\<lparr>jw_truncated := True\<rparr> in
           if length (jw_out w) + length kMarker \<le> jw_budget w
           then let w = comma w in w\<lparr>jw_out := jw_out w @ kMarker\<rparr>
           else w
      else w\<lparr>jw_out := jw_out w @ text\<rparr>)"
| "comma w = (let w = (if jw_need_comma w then push '','' w else w) in w\<lparr>jw_need_comma := False\<rparr>)"
  by pat_completeness auto

termination
  by (relation "measure (case_sum (\<lambda>(text, w). if jw_truncated w then 0 else 2) (\<lambda>w. if jw_truncated w then 1 else 3))") auto

declare push.simps [simp del] comma.simps [simp del]

definition open_scope :: "string \<Rightarrow> bool \<Rightarrow> json_writer \<Rightarrow> json_writer" where
  "open_scope text is_object w =
     (let w = push text (comma w) in w\<lparr>jw_in_object := is_object # jw_in_object w, jw_need_comma := False\<rparr>)"

definition close_scope :: "string \<Rightarrow> json_writer \<Rightarrow> json_writer" where
  "close_scope text w = (let w = push text w in w\<lparr>jw_in_object := tl (jw_in_object w), jw_need_comma := True\<rparr>)"

definition begin_object :: "json_writer \<Rightarrow> json_writer" where "begin_object = open_scope ''{'' True"

definition end_object :: "json_writer \<Rightarrow> json_writer" where "end_object = close_scope ''}''"

definition begin_array :: "json_writer \<Rightarrow> json_writer" where "begin_array = open_scope ''['' False"

definition end_array :: "json_writer \<Rightarrow> json_writer" where "end_array = close_scope '']''"

definition json_key :: "string \<Rightarrow> json_writer \<Rightarrow> json_writer" where
  "json_key name w = push '':'' (push (append_escaped name) (comma w))"

definition json_raw :: "string \<Rightarrow> json_writer \<Rightarrow> json_writer" where
  "json_raw text w = (push text (comma w))\<lparr>jw_need_comma := True\<rparr>"

definition value_string :: "string \<Rightarrow> json_writer \<Rightarrow> json_writer" where
  "value_string text = json_raw (append_escaped text)"

definition value_u64 :: "u64 \<Rightarrow> json_writer \<Rightarrow> json_writer" where
  "value_u64 v = json_raw (decimal (unat v))"

definition value_i64 :: "u64 \<Rightarrow> json_writer \<Rightarrow> json_writer" where
  "value_i64 v = json_raw (if sint v < 0 then ''-'' @ decimal (nat (- sint v)) else decimal (nat (sint v)))"

definition value_bool :: "bool \<Rightarrow> json_writer \<Rightarrow> json_writer" where
  "value_bool v = json_raw (if v then ''true'' else ''false'')"

definition value_null :: "json_writer \<Rightarrow> json_writer" where
  "value_null = json_raw ''null''"

subsection \<open>Values\<close>

datatype json = JString string | JNumber u64 | JBool bool | JNull | JArray "json list" | JObject "(string \<times> json) list"

fun write_value :: "json \<Rightarrow> json_writer \<Rightarrow> json_writer"
  and write_items :: "json list \<Rightarrow> json_writer \<Rightarrow> json_writer"
  and write_members :: "(string \<times> json) list \<Rightarrow> json_writer \<Rightarrow> json_writer" where
  "write_value (JString s) w = value_string s w"
| "write_value (JNumber n) w = value_u64 n w"
| "write_value (JBool b) w = value_bool b w"
| "write_value JNull w = value_null w"
| "write_value (JArray vs) w = end_array (write_items vs (begin_array w))"
| "write_value (JObject ms) w = end_object (write_members ms (begin_object w))"
| "write_items [] w = w"
| "write_items (v # vs) w = write_items vs (write_value v w)"
| "write_members [] w = w"
| "write_members ((k, v) # ms) w = write_members ms (write_value v (json_key k w))"

text \<open>The text of a value.\<close>

fun show_json :: "json \<Rightarrow> string"
  and show_items :: "bool \<Rightarrow> json list \<Rightarrow> string"
  and show_members :: "bool \<Rightarrow> (string \<times> json) list \<Rightarrow> string" where
  "show_json (JString s) = append_escaped s"
| "show_json (JNumber n) = decimal (unat n)"
| "show_json (JBool b) = (if b then ''true'' else ''false'')"
| "show_json JNull = ''null''"
| "show_json (JArray vs) = ''['' @ show_items False vs @ '']''"
| "show_json (JObject ms) = ''{'' @ show_members False ms @ ''}''"
| "show_items sep [] = []"
| "show_items sep (v # vs) = (if sep then '','' else []) @ show_json v @ show_items True vs"
| "show_members sep [] = []"
| "show_members sep ((k, v) # ms) = (if sep then '','' else []) @ append_escaped k @ '':'' @ show_json v @ show_members True ms"

subsection \<open>Within the budget\<close>

lemma push_fits: "\<not> jw_truncated w \<Longrightarrow> length (jw_out w) + length text \<le> jw_budget w \<Longrightarrow> push text w = w\<lparr>jw_out := jw_out w @ text\<rparr>"
  by (simp add: push.simps)

lemma comma_fits:
  "\<not> jw_truncated w \<Longrightarrow> length (jw_out w) + (if jw_need_comma w then 1 else 0) \<le> jw_budget w \<Longrightarrow>
   comma w = w\<lparr>jw_out := jw_out w @ (if jw_need_comma w then '','' else []), jw_need_comma := False\<rparr>"
  by (cases "jw_need_comma w") (simp_all add: comma.simps push_fits)

definition sep :: "json_writer \<Rightarrow> string" where
  "sep w = (if jw_need_comma w then '','' else [])"

definition room :: "string \<Rightarrow> json_writer \<Rightarrow> bool" where
  "room text w \<longleftrightarrow> \<not> jw_truncated w \<and> length (jw_out w) + length text \<le> jw_budget w"

lemma raw_fits: "room (sep w @ text) w \<Longrightarrow> json_raw text w = w\<lparr>jw_out := jw_out w @ sep w @ text, jw_need_comma := True\<rparr>"
  by (auto simp: json_raw_def room_def sep_def comma_fits push_fits split: if_splits)

lemma key_fits:
  "room (sep w @ append_escaped k @ '':'') w \<Longrightarrow>
     json_key k w = w\<lparr>jw_out := jw_out w @ sep w @ append_escaped k @ '':'', jw_need_comma := False\<rparr>"
  by (auto simp: json_key_def room_def sep_def comma_fits push_fits split: if_splits)

lemma open_fits:
  "room (sep w @ text) w \<Longrightarrow> open_scope text b w =
     w\<lparr>jw_out := jw_out w @ sep w @ text, jw_in_object := b # jw_in_object w, jw_need_comma := False\<rparr>"
  by (auto simp: open_scope_def room_def sep_def comma_fits push_fits Let_def split: if_splits)

lemma close_fits:
  "room text w \<Longrightarrow> close_scope text w =
     w\<lparr>jw_out := jw_out w @ text, jw_in_object := tl (jw_in_object w), jw_need_comma := True\<rparr>"
  by (auto simp: close_scope_def room_def push_fits Let_def)

lemma write_fits:
  "room (sep w @ show_json v) w \<Longrightarrow>
     write_value v w = w\<lparr>jw_out := jw_out w @ sep w @ show_json v, jw_need_comma := True\<rparr>"
  "room (show_items (jw_need_comma w) vs) w \<Longrightarrow>
     write_items vs w = w\<lparr>jw_out := jw_out w @ show_items (jw_need_comma w) vs,
       jw_need_comma := (vs \<noteq> [] \<or> jw_need_comma w)\<rparr>"
  "room (show_members (jw_need_comma w) ms) w \<Longrightarrow>
     write_members ms w = w\<lparr>jw_out := jw_out w @ show_members (jw_need_comma w) ms,
       jw_need_comma := (ms \<noteq> [] \<or> jw_need_comma w)\<rparr>"
proof (induction v w and vs w and ms w rule: write_value_write_items_write_members.induct)
  case (5 vs w)
  let ?w = "w\<lparr>jw_out := jw_out w @ sep w @ ''['', jw_in_object := False # jw_in_object w, jw_need_comma := False\<rparr>"
  have o: "begin_array w = ?w" using 5 by (simp add: begin_array_def open_fits room_def)
  have "write_items vs ?w = ?w\<lparr>jw_out := jw_out ?w @ show_items False vs, jw_need_comma := (vs \<noteq> [])\<rparr>"
    using "5.IH" "5.prems" unfolding o by (simp add: room_def)
  then show ?case using "5.prems" by (simp add: o end_array_def close_fits room_def)
next
  case (6 ms w)
  let ?w = "w\<lparr>jw_out := jw_out w @ sep w @ ''{'', jw_in_object := True # jw_in_object w, jw_need_comma := False\<rparr>"
  have o: "begin_object w = ?w" using 6 by (simp add: begin_object_def open_fits room_def)
  have "write_members ms ?w = ?w\<lparr>jw_out := jw_out ?w @ show_members False ms, jw_need_comma := (ms \<noteq> [])\<rparr>"
    using "6.IH" "6.prems" unfolding o by (simp add: room_def)
  then show ?case using "6.prems" by (simp add: o end_object_def close_fits room_def)
next
  case (8 v vs w)
  have "write_value v w = w\<lparr>jw_out := jw_out w @ sep w @ show_json v, jw_need_comma := True\<rparr>"
    using "8.IH"(1) "8.prems" by (simp add: room_def sep_def)
  then show ?case using "8.IH"(2) "8.prems" by (simp add: room_def sep_def)
next
  case (10 k v ms w)
  let ?w = "w\<lparr>jw_out := jw_out w @ sep w @ append_escaped k @ '':'', jw_need_comma := False\<rparr>"
  have k: "json_key k w = ?w" using "10.prems" by (simp add: key_fits room_def sep_def)
  have "write_value v ?w = ?w\<lparr>jw_out := jw_out ?w @ show_json v, jw_need_comma := True\<rparr>"
    using "10.IH"(1) "10.prems" unfolding k by (simp add: room_def sep_def)
  then have v: "write_value v (json_key k w) =
      w\<lparr>jw_out := jw_out w @ sep w @ append_escaped k @ '':'' @ show_json v, jw_need_comma := True\<rparr>"
    by (simp add: k)
  show ?case using "10.IH"(2) "10.prems" unfolding v by (simp add: v room_def sep_def)
qed (simp_all add: raw_fits value_string_def value_u64_def value_bool_def value_null_def)

subsection \<open>Beyond the budget\<close>

lemma push_latched: "jw_truncated w \<Longrightarrow> push text w = w"
  by (simp add: push.simps)

lemma comma_latched: "jw_truncated w \<Longrightarrow> comma w = w\<lparr>jw_need_comma := False\<rparr>"
  by (simp add: comma.simps push_latched)

definition bounded :: "json_writer \<Rightarrow> bool" where
  "bounded w \<longleftrightarrow> length (jw_out w) \<le> jw_budget w"

lemma push_bounded: "bounded w \<Longrightarrow> bounded (push text w) \<and> jw_budget (push text w) = jw_budget w"
  by (subst push.simps) (auto simp: push.simps bounded_def Let_def comma_latched)

lemma comma_bounded: "bounded w \<Longrightarrow> bounded (comma w) \<and> jw_budget (comma w) = jw_budget w"
  using push_bounded[of w "'',''"] by (simp add: comma.simps Let_def) (simp add: bounded_def)

lemma calls_bounded:
  assumes "bounded w"
  shows "bounded (json_raw t w) \<and> jw_budget (json_raw t w) = jw_budget w"
    "bounded (json_key t w) \<and> jw_budget (json_key t w) = jw_budget w"
    "bounded (open_scope t b w) \<and> jw_budget (open_scope t b w) = jw_budget w"
    "bounded (close_scope t w) \<and> jw_budget (close_scope t w) = jw_budget w"
proof -
  note c = comma_bounded[OF assms]
  note p = push_bounded[of "comma w" t] push_bounded[OF assms, of t]
  show "bounded (json_raw t w) \<and> jw_budget (json_raw t w) = jw_budget w"
    using c p(1) by (simp add: json_raw_def) (simp add: bounded_def)
  show "bounded (json_key t w) \<and> jw_budget (json_key t w) = jw_budget w"
    using c push_bounded[of "comma w" "append_escaped t"] push_bounded[of "push (append_escaped t) (comma w)" "'':''"]
    by (simp add: json_key_def)
  show "bounded (open_scope t b w) \<and> jw_budget (open_scope t b w) = jw_budget w"
    using c p(1) by (simp add: open_scope_def Let_def) (simp add: bounded_def)
  show "bounded (close_scope t w) \<and> jw_budget (close_scope t w) = jw_budget w"
    using p(2) by (simp add: close_scope_def Let_def) (simp add: bounded_def)
qed

lemma write_bounded:
  "bounded w \<Longrightarrow> bounded (write_value v w) \<and> jw_budget (write_value v w) = jw_budget w"
  "bounded w \<Longrightarrow> bounded (write_items vs w) \<and> jw_budget (write_items vs w) = jw_budget w"
  "bounded w \<Longrightarrow> bounded (write_members ms w) \<and> jw_budget (write_members ms w) = jw_budget w"
  by (induction v w and vs w and ms w rule: write_value_write_items_write_members.induct)
    (simp_all add: calls_bounded value_string_def value_u64_def value_bool_def value_null_def
      begin_array_def begin_object_def end_array_def end_object_def)

text \<open>A call that leaves the writer untruncated found it untruncated and had room.\<close>

lemma push_truncates: "\<not> jw_truncated (push text w) \<longleftrightarrow> room text w"
  by (subst push.simps) (auto simp: room_def Let_def comma_latched)

lemma comma_truncates: "\<not> jw_truncated (comma w) \<longleftrightarrow> room (sep w) w \<or> \<not> jw_truncated w \<and> \<not> jw_need_comma w"
  by (auto simp: comma.simps sep_def push_truncates room_def Let_def)

lemma comma_room: "\<not> jw_truncated (comma w) \<Longrightarrow> comma w = w\<lparr>jw_out := jw_out w @ sep w, jw_need_comma := False\<rparr>"
  by (cases "jw_need_comma w") (auto simp: comma.simps push_truncates push_fits sep_def room_def Let_def)

lemma calls_room:
  "\<not> jw_truncated (json_raw t w) \<Longrightarrow> room (sep w @ t) w"
  "\<not> jw_truncated (json_key k w) \<Longrightarrow> room (sep w @ append_escaped k @ '':'') w"
  "\<not> jw_truncated (open_scope t b w) \<Longrightarrow> room (sep w @ t) w"
  "\<not> jw_truncated (close_scope t w) \<Longrightarrow> room t w"
proof -
  have c: "room (sep w @ t) w" if "\<not> jw_truncated (push t (comma w))" for t
  proof -
    have r: "room t (comma w)" using that by (simp add: push_truncates)
    then have "\<not> jw_truncated (comma w)" by (simp add: room_def)
    then show ?thesis using r comma_room by (auto simp: room_def comma_truncates)
  qed
  show "\<not> jw_truncated (json_raw t w) \<Longrightarrow> room (sep w @ t) w" using c by (simp add: json_raw_def)
  show "\<not> jw_truncated (open_scope t b w) \<Longrightarrow> room (sep w @ t) w" using c by (simp add: open_scope_def Let_def)
  show "\<not> jw_truncated (close_scope t w) \<Longrightarrow> room t w" by (simp add: close_scope_def Let_def push_truncates)
  assume "\<not> jw_truncated (json_key k w)"
  then have r: "room '':'' (push (append_escaped k) (comma w))" by (simp add: json_key_def push_truncates)
  then have a: "\<not> jw_truncated (push (append_escaped k) (comma w))" by (simp add: room_def)
  then have n: "\<not> jw_truncated (comma w)" by (simp add: push_truncates) (simp add: room_def)
  show "room (sep w @ append_escaped k @ '':'') w"
    using r a n c[OF a] by (simp add: push_truncates push_fits comma_room room_def)
qed

lemma latched:
  assumes "jw_truncated w"
  shows "jw_truncated (json_raw t w)" "jw_truncated (json_key t w)" "jw_truncated (open_scope t b w)" "jw_truncated (close_scope t w)"
  using assms by (simp_all add: json_raw_def json_key_def open_scope_def close_scope_def Let_def comma_latched push_latched)

lemma write_latched:
  "jw_truncated w \<Longrightarrow> jw_truncated (write_value v w)"
  "jw_truncated w \<Longrightarrow> jw_truncated (write_items vs w)"
  "jw_truncated w \<Longrightarrow> jw_truncated (write_members ms w)"
  by (induction v w and vs w and ms w rule: write_value_write_items_write_members.induct)
    (simp_all add: latched value_string_def value_u64_def value_bool_def value_null_def
      begin_array_def begin_object_def end_array_def end_object_def)

lemma write_room:
  "\<not> jw_truncated (write_value v w) \<Longrightarrow> room (sep w @ show_json v) w"
  "\<not> jw_truncated (write_items vs w) \<Longrightarrow> room (show_items (jw_need_comma w) vs) w \<or> vs = []"
  "\<not> jw_truncated (write_members ms w) \<Longrightarrow> room (show_members (jw_need_comma w) ms) w \<or> ms = []"
proof (induction v w and vs w and ms w rule: write_value_write_items_write_members.induct)
  case (5 vs w)
  have i: "\<not> jw_truncated (write_items vs (begin_array w))"
    using 5 latched(4) by (auto simp: end_array_def)
  then have b: "\<not> jw_truncated (begin_array w)" using write_latched(2) by blast
  then have r: "begin_array w = w\<lparr>jw_out := jw_out w @ sep w @ ''['', jw_in_object := False # jw_in_object w, jw_need_comma := False\<rparr>"
    using open_fits[OF calls_room(3)] by (simp add: begin_array_def)
  have "room (sep w @ ''['') w" using b calls_room(3) by (simp add: begin_array_def)
  then have "room (show_items False vs) (begin_array w)" using "5.IH"[OF i] unfolding r by (auto simp: room_def)
  then show ?case
    using calls_room(4)[of "'']''" "write_items vs (begin_array w)"] "5.prems" write_fits(2)[of "begin_array w" vs]
    by (auto simp: end_array_def r room_def)
next
  case (6 ms w)
  have i: "\<not> jw_truncated (write_members ms (begin_object w))"
    using 6 latched(4) by (auto simp: end_object_def)
  then have b: "\<not> jw_truncated (begin_object w)" using write_latched(3) by blast
  then have r: "begin_object w = w\<lparr>jw_out := jw_out w @ sep w @ ''{'', jw_in_object := True # jw_in_object w, jw_need_comma := False\<rparr>"
    using open_fits[OF calls_room(3)] by (simp add: begin_object_def)
  have "room (sep w @ ''{'') w" using b calls_room(3) by (simp add: begin_object_def)
  then have "room (show_members False ms) (begin_object w)" using "6.IH"[OF i] unfolding r by (auto simp: room_def)
  then show ?case
    using calls_room(4)[of "''}''" "write_members ms (begin_object w)"] "6.prems" write_fits(3)[of "begin_object w" ms]
    by (auto simp: end_object_def r room_def)
next
  case (8 v vs w)
  have v: "\<not> jw_truncated (write_value v w)" using "8.prems" write_latched(2) by auto
  note w = write_fits(1)[OF "8.IH"(1)[OF v]]
  show ?case using "8.IH"(1)[OF v] "8.IH"(2) "8.prems" by (auto simp: w room_def sep_def)
next
  case (10 k v ms w)
  have v: "\<not> jw_truncated (write_value v (json_key k w))" using "10.prems" write_latched(3) by auto
  then have k: "\<not> jw_truncated (json_key k w)" using write_latched(1) by blast
  note kf = key_fits[OF calls_room(2)[OF k]]
  note w = write_fits(1)[OF "10.IH"(1)[OF v], unfolded kf]
  have e: "write_value v (json_key k w) =
      w\<lparr>jw_out := jw_out w @ sep w @ append_escaped k @ '':'' @ show_json v, jw_need_comma := True\<rparr>"
    using w by (simp add: kf sep_def)
  have "room (sep w @ append_escaped k @ '':'' @ show_json v) w"
    using calls_room(2)[OF k] "10.IH"(1)[OF v] by (simp add: kf) (simp add: room_def sep_def)
  then show ?case using "10.IH"(2) "10.prems" by (auto simp: e room_def sep_def)
qed (auto simp: value_string_def value_u64_def value_bool_def value_null_def dest: calls_room(1))

subsection \<open>Strings read back\<close>

text \<open>A reader of JSON strings after their opening quote, by the grammar of RFC 8259 for the escapes the
  writer uses: no control character may stand unescaped.\<close>

definition hex_value :: "char \<Rightarrow> nat option" where
  "hex_value c = (let i = length (takeWhile ((\<noteq>) c) ''0123456789abcdef'') in if i < 16 then Some i else None)"

fun read_chars :: "string \<Rightarrow> (string \<times> string) option" where
  "read_chars [] = None"
| "read_chars (c # cs) =
     (if c = quote_char then Some ([], cs)
      else if c = backslash then
        (case cs of
           [] \<Rightarrow> None
         | e # cs \<Rightarrow>
           if e = CHR ''u'' then
             (case cs of
                z # z' # h # l # rest \<Rightarrow>
                  (case (hex_value h, hex_value l) of
                     (Some x, Some y) \<Rightarrow>
                       if z = CHR ''0'' \<and> z' = CHR ''0''
                       then map_option (apfst ((#) (char_of (16 * x + y)))) (read_chars rest) else None
                   | _ \<Rightarrow> None)
              | _ \<Rightarrow> None)
           else if e = quote_char \<or> e = backslash then map_option (apfst ((#) e)) (read_chars cs)
           else if e = CHR ''n'' then map_option (apfst ((#) (CHR 0x0A))) (read_chars cs)
           else if e = CHR ''r'' then map_option (apfst ((#) (CHR 0x0D))) (read_chars cs)
           else if e = CHR ''t'' then map_option (apfst ((#) (CHR 0x09))) (read_chars cs)
           else None)
      else if (of_char c :: nat) < 0x20 then None
      else map_option (apfst ((#) c)) (read_chars cs))"

definition read_string :: "string \<Rightarrow> (string \<times> string) option" where
  "read_string s = (case s of [] \<Rightarrow> None | c # cs \<Rightarrow> if c = quote_char then read_chars cs else None)"

lemma hex_value_digit [simp]: "n < 16 \<Longrightarrow> hex_value (hex_digit n) = Some n"
proof -
  have "list_all (\<lambda>n. hex_value (hex_digit n) = Some n) [0..<16]" by code_simp
  then show "n < 16 \<Longrightarrow> hex_value (hex_digit n) = Some n" by (simp add: list_all_iff)
qed

lemma escape_control:
  assumes "(of_char c :: nat) < 0x20" "c \<noteq> CHR 0x0A" "c \<noteq> CHR 0x0D" "c \<noteq> CHR 0x09"
  shows "escape_char c = [backslash] @ ''u00'' @ [hex_digit (of_char c div 16), hex_digit (of_char c mod 16)]"
proof -
  have "c \<noteq> quote_char" "c \<noteq> backslash" using assms(1) by (auto simp: quote_char_def backslash_def)
  then show ?thesis using assms by (simp add: escape_char_def)
qed

lemma read_escape: "read_chars (escape_char c @ r) = map_option (apfst ((#) c)) (read_chars r)"
proof (cases "(of_char c :: nat) < 0x20 \<and> c \<noteq> CHR 0x0A \<and> c \<noteq> CHR 0x0D \<and> c \<noteq> CHR 0x09")
  case True
  let ?n = "of_char c :: nat"
  have "?n div 16 < 16" using True by (auto intro: less_mult_imp_div_less)
  moreover have "char_of (16 * (?n div 16) + ?n mod 16) = c" by simp
  moreover note True
  ultimately show ?thesis by (simp add: escape_control) (simp add: backslash_def quote_char_def)
next
  case False
  then consider "c = quote_char" | "c = backslash" | "c = CHR 0x0A" | "c = CHR 0x0D" | "c = CHR 0x09"
    | "c \<noteq> quote_char" "c \<noteq> backslash" "c \<noteq> CHR 0x0A" "c \<noteq> CHR 0x0D" "c \<noteq> CHR 0x09" "\<not> (of_char c :: nat) < 0x20" by blast
  then show ?thesis by cases (simp_all add: escape_char_def quote_char_def backslash_def)
qed

lemma read_append_escaped: "read_string (append_escaped s @ r) = Some (s, r)"
proof -
  have "read_chars (concat (map escape_char s) @ quote_char # r) = Some (s, r)"
    by (induction s) (simp_all add: read_escape)
  then show ?thesis by (simp add: append_escaped_def read_string_def)
qed

text \<open>C23: the writer is bounded and honest.  Writing a value to a fresh writer never produces more bytes than
  its budget; the writer ends untruncated exactly when the text of the value fits, and then its output is that
  text; and strings in it read back as they were, with no control character or quote left unescaped.\<close>

theorem json_writer_honest:
  "length (jw_out (write_value v (json_writer0 n))) \<le> n \<and>
   (jw_truncated (write_value v (json_writer0 n)) \<longleftrightarrow> length (show_json v) > n) \<and>
   (length (show_json v) \<le> n \<longrightarrow> jw_out (write_value v (json_writer0 n)) = show_json v) \<and>
   read_string (show_json (JString s) @ r) = Some (s, r)"
proof -
  let ?w = "json_writer0 n"
  have "bounded ?w" by (simp add: bounded_def json_writer0_def)
  then have b: "length (jw_out (write_value v ?w)) \<le> n"
    using write_bounded(1)[of ?w v] by (simp add: bounded_def) (simp add: json_writer0_def)
  have r: "room (sep ?w @ show_json v) ?w \<longleftrightarrow> length (show_json v) \<le> n"
    by (simp add: room_def sep_def json_writer0_def)
  have "length (show_json v) \<le> n \<Longrightarrow> write_value v ?w = ?w\<lparr>jw_out := show_json v, jw_need_comma := True\<rparr>"
    using write_fits(1)[of ?w v] r by (simp add: sep_def json_writer0_def)
  moreover have "\<not> jw_truncated (write_value v ?w) \<Longrightarrow> length (show_json v) \<le> n" using write_room(1) r by blast
  ultimately show ?thesis using b read_append_escaped[of s r] by (force simp: json_writer0_def)
qed

theorem json_writer_honest_witness:
  "jw_out (write_value (JObject [(''a'', JNumber 7)]) (json_writer0 9)) = show_json (JObject [(''a'', JNumber 7)]) \<and>
   jw_truncated (write_value (JObject [(''a'', JNumber 7)]) (json_writer0 6))"
proof -
  have "length (show_json (JObject [(''a'', JNumber 7)])) = 7"
    by (simp add: append_escaped_def escape_char_def quote_char_def backslash_def decimal.simps)
  then show ?thesis
    using json_writer_honest[of "JObject [(''a'', JNumber 7)]" 9] json_writer_honest[of "JObject [(''a'', JNumber 7)]" 6] by simp
qed

text \<open>What a truncated writer leaves is not JSON: the marker is written without the separator that comma was
  to put before it, and the scopes that were open stay open.\<close>

theorem truncation_marker_unseparated:
  "jw_out (write_value (JArray [JNumber 1, JString ''0123456789abcdefghijklmnopqrstuvwxyz'']) (json_writer0 30)) =
     ''[1,'' @ kMarker \<and>
   jw_out (value_string ''0123456789abcdefghijklmnopqrstuvwxyz'' (json_key ''k'' (json_writer0 30))) =
     append_escaped ''k'' @ '':'' @ kMarker"
  by (simp add: write_value.simps begin_array_def end_array_def open_scope_def close_scope_def value_u64_def value_string_def
      json_raw_def json_key_def json_writer0_def comma.simps push.simps Let_def append_escaped_def escape_char_def
      quote_char_def backslash_def kMarker_def decimal.simps hex_digit_def)

end
