(* ===== verification/Render.thy ===== *)
theory Render
  imports Fabric_Query Json
begin

text \<open>
  Text and JSON of explanations, summaries and the accounting: src/explain.cpp, format_pool_accounting of
  src/accounting.cpp, AuthorityVector::describe, Digest::to_hex, accounting_text and Capabilities of
  src/fabric_query.cpp.  A snprintf into a buffer of n bytes keeps n - 1 characters (clip).  The detail of
  an evidence is diagnostic text the model does not hold and so an argument here.
\<close>

definition clip :: "nat \<Rightarrow> string \<Rightarrow> string" where
  "clip n s = take (n - 1) s"

definition dec :: "u64 \<Rightarrow> string" where
  "dec v = decimal (unat v)"

fun hex_text :: "nat \<Rightarrow> nat \<Rightarrow> string" where
  "hex_text 0 n = []"
| "hex_text (Suc k) n = hex_text k (n div 16) @ [hex_digit (n mod 16)]"

definition to_hex :: "digest \<Rightarrow> string" where
  "to_hex d = clip 33 (hex_text 16 (unat (dg_hi d)) @ hex_text 16 (unat (dg_lo d)))"

definition append_u64 :: "string \<Rightarrow> u64 \<Rightarrow> string \<Rightarrow> string" where
  "append_u64 label v out = (if out \<noteq> [] then out @ '' '' else out) @ clip 64 (label @ ''='' @ dec v)"

definition describe_entry :: "authority_entry \<Rightarrow> string" where
  "describe_entry a = clip 96 (to_string_authority (ae_kind a) @ ''='' @ dec (ae_value a) @ ''@'' @ dec (ae_generation a))"

definition describe :: "authority_vector \<Rightarrow> string" where
  "describe v = fold (\<lambda>a out. (if out \<noteq> [] then out @ '';'' else out) @ describe_entry a) (av_entries v) []"

definition intent_any :: "corrective_intent \<Rightarrow> bool" where
  "intent_any i \<longleftrightarrow> reduce_required i \<or> fence_required i \<or> revalidate_required i \<or> reclaim_target_units i \<noteq> 0"

subsection \<open>Explanation::to\_text\<close>

definition labelled :: "explanation \<Rightarrow> (string \<times> u64) list" where
  "labelled x = (let a = xp_accounting x in
     [(''raw'', ac_raw a), (''protected'', ac_protected_units a), (''usable'', ac_usable a),
      (''allocated'', ac_allocated a), (''reserved'', ac_reserved a), (''committed'', ac_committed a),
      (''pinned'', ac_pinned a), (''reclaimable'', ac_reclaimable a), (''free'', ac_free a),
      (''borrowed_in'', ac_borrowed_in a), (''lent_out'', ac_lent_out a),
      (''overcommit_used'', ac_overcommit_used a), (''overcommit_limit'', ac_overcommit_limit a),
      (''utilization_bp'', ucast (pe_utilization_bp (xp_evidence x))),
      (''binding_bp'', ucast (pe_binding_bp (xp_evidence x)))])"

definition intent_text :: "corrective_intent \<Rightarrow> string \<Rightarrow> string" where
  "intent_text i out =
     (if \<not> intent_any i then out
      else let out = out @ '' intent='';
               out = (if reduce_required i then append_u64 ''reduce_to'' (reduce_to_units i) out else out);
               out = (if fence_required i then out @ '' fence'' else out);
               out = (if revalidate_required i then out @ '' revalidate'' else out)
           in if reclaim_target_units i \<noteq> 0 then append_u64 ''reclaim_target'' (reclaim_target_units i) out else out)"

definition to_text :: "explanation \<Rightarrow> string" where
  "to_text x =
     (let out = clip 160 (''pool='' @ dec (xp_pool x) @ '' gen='' @ dec (xp_pool_generation x) @ '' epoch='' @ dec (xp_epoch x));
          out = fold (\<lambda>(label, v). append_u64 label v) (labelled x) out;
          out = out @ '' pressure='' @ to_string_pressure (pe_state (xp_evidence x)) @
                '' binding='' @ to_string_binding (xp_binding x);
          out = append_u64 ''queues'' (of_nat (length (xp_queues x))) out;
          out = out @ '' closure='' @ (if rp_closed (xp_report x) then ''closed'' else ''VIOLATED'') @
                '' authority='' @ describe (xp_authority x) @ '' digest='' @ to_hex (xp_digest x)
      in intent_text (xp_intent x) out)"

subsection \<open>JSON\<close>

definition capacity_json :: "pool_accounting \<Rightarrow> json" where
  "capacity_json a = JObject [
     (''raw'', JNumber (ac_raw a)), (''protected_headroom'', JNumber (ac_protected_units a)),
     (''usable'', JNumber (ac_usable a)), (''allocated'', JNumber (ac_allocated a)),
     (''reserved'', JNumber (ac_reserved a)), (''committed'', JNumber (ac_committed a)),
     (''pinned'', JNumber (ac_pinned a)), (''reclaimable'', JNumber (ac_reclaimable a)),
     (''free'', JNumber (ac_free a)), (''borrowed_in'', JNumber (ac_borrowed_in a)),
     (''lent_out'', JNumber (ac_lent_out a)), (''overcommit_used'', JNumber (ac_overcommit_used a)),
     (''overcommit_limit'', JNumber (ac_overcommit_limit a))]"

definition pressure_json :: "string \<Rightarrow> thresholds \<Rightarrow> pressure_evidence \<Rightarrow> json" where
  "pressure_json detail t e = JObject [
     (''state'', JString (to_string_pressure (pe_state e))),
     (''utilization_bp'', JNumber (ucast (pe_utilization_bp e))),
     (''binding_bp'', JNumber (ucast (pe_binding_bp e))),
     (''thresholds'', JObject [
        (''elevated_bp'', JNumber (ucast (elevated_bp t))),
        (''high_bp'', JNumber (ucast (high_bp t))),
        (''critical_bp'', JNumber (ucast (critical_bp t)))]),
     (''evidence'', JObject [
        (''snapshot'', JNumber (pe_snapshot e)),
        (''fresh'', JBool (pe_fresh e)),
        (''epoch_match'', JBool (pe_epoch_match e)),
        (''generation_match'', JBool (pe_generation_match e)),
        (''age_ticks'', JNumber (pe_age_ticks e)),
        (''reason'', JString (to_string_error (pe_reason e))),
        (''detail'', JString detail)])]"

definition intent_json :: "corrective_intent \<Rightarrow> json" where
  "intent_json i = JObject [
     (''reduce_required'', JBool (reduce_required i)), (''reduce_to'', JNumber (reduce_to_units i)),
     (''fence_required'', JBool (fence_required i)), (''revalidate_required'', JBool (revalidate_required i)),
     (''reclaim_target'', JNumber (reclaim_target_units i))]"

definition authority_json :: "authority_vector \<Rightarrow> json" where
  "authority_json v = JObject [
     (''digest'', JString (to_hex (av_digest v))),
     (''entries'', JArray (map (\<lambda>a. JObject [
        (''kind'', JString (to_string_authority (ae_kind a))), (''value'', JNumber (ae_value a)),
        (''generation'', JNumber (ae_generation a))]) (av_entries v)))]"

definition usage_json :: "queue_usage \<Rightarrow> json" where
  "usage_json u = JObject [
     (''queue'', JNumber (qu_queue u)), (''generation'', JNumber (qu_generation u)),
     (''committed'', JNumber (qu_committed_units u)), (''reserved'', JNumber (qu_reserved_units u)),
     (''allocations'', JNumber (qu_allocation_count u))]"

definition explanation_json :: "string \<Rightarrow> explanation \<Rightarrow> json" where
  "explanation_json detail x = JObject [
     (''pool'', JNumber (xp_pool x)),
     (''pool_generation'', JNumber (xp_pool_generation x)),
     (''epoch'', JNumber (xp_epoch x)),
     (''boot_hi'', JNumber (bi_hi (xp_boot x))),
     (''boot_lo'', JNumber (bi_lo (xp_boot x))),
     (''sequence'', JNumber (xp_sequence x)),
     (''generated_at'', JNumber (xp_generated_at x)),
     (''capacity'', capacity_json (xp_accounting x)),
     (''pressure'', pressure_json detail (xp_thresholds x) (xp_evidence x)),
     (''binding_constraint'', JString (to_string_binding (xp_binding x))),
     (''corrective_intent'', intent_json (xp_intent x)),
     (''authority'', authority_json (xp_authority x)),
     (''accounting_closed'', JBool (rp_closed (xp_report x))),
     (''accounting_violations'', JNumber (of_nat (length (rp_violations (xp_report x))))),
     (''queues'', JArray (map usage_json (xp_queues x))),
     (''digest'', JString (to_hex (xp_digest x)))]"

definition explanation_to_json :: "string \<Rightarrow> explanation \<Rightarrow> string" where
  "explanation_to_json detail x = jw_out (write_value (explanation_json detail x) (json_writer0 16384))"

definition summary_json :: "fabric_summary \<Rightarrow> json" where
  "summary_json s = JObject [
     (''epoch'', JNumber (su_epoch s)),
     (''boot_hi'', JNumber (bi_hi (su_boot s))),
     (''boot_lo'', JNumber (bi_lo (su_boot s))),
     (''pool_count'', JNumber (su_pool_count s)),
     (''queue_count'', JNumber (su_queue_count s)),
     (''allocation_count'', JNumber (su_allocation_count s)),
     (''live_allocations'', JNumber (su_live_allocations s)),
     (''raw_total'', JNumber (su_raw_total s)),
     (''protected_total'', JNumber (su_protected_total s)),
     (''allocated_total'', JNumber (su_allocated_total s)),
     (''free_total'', JNumber (su_free_total s)),
     (''overcommit_total'', JNumber (su_overcommit_total s)),
     (''borrowed_total'', JNumber (su_borrowed_total s)),
     (''lent_total'', JNumber (su_lent_total s)),
     (''accounting_closed'', JBool (rp_closed (su_accounting s))),
     (''accounting_pools_checked'', JNumber (rp_pools_checked (su_accounting s))),
     (''accounting_violations'', JNumber (of_nat (length (rp_violations (su_accounting s)))))]"

definition summary_to_json :: "fabric_summary \<Rightarrow> string" where
  "summary_to_json s = jw_out (write_value (summary_json s) (json_writer0 4096))"

subsection \<open>Accounting and capabilities\<close>

definition format_pool_accounting :: "pool_accounting \<Rightarrow> string" where
  "format_pool_accounting a = clip 512
     (''pool='' @ dec (ac_pool a) @ '' gen='' @ dec (ac_pool_generation a) @ '' raw='' @ dec (ac_raw a) @
      '' protected='' @ dec (ac_protected_units a) @ '' usable='' @ dec (ac_usable a) @
      '' allocated='' @ dec (ac_allocated a) @ '' reserved='' @ dec (ac_reserved a) @
      '' committed='' @ dec (ac_committed a) @ '' pinned='' @ dec (ac_pinned a) @
      '' reclaimable='' @ dec (ac_reclaimable a) @ '' free='' @ dec (ac_free a) @
      '' borrowed_in='' @ dec (ac_borrowed_in a) @ '' lent_out='' @ dec (ac_lent_out a) @
      '' overcommit='' @ dec (ac_overcommit_used a) @ '' limit='' @ dec (ac_overcommit_limit a))"

definition accounting_text :: "fabric \<Rightarrow> string" where
  "accounting_text f =
     (let ids = sort (map fst (fb_pools f));
          report = deep_verify f
      in concat (map (\<lambda>e. format_pool_accounting (accounting_of e f) @ [CHR 0x0A])
           (List.map_filter (map_of (fb_pools f)) ids)) @
         ''closure='' @ (if rp_closed report then ''closed'' else ''VIOLATED'') @
         '' pools='' @ dec (rp_pools_checked report) @ [CHR 0x0A])"

record capabilities =
  cb_durability :: bool
  cb_multiprocess_transport :: bool
  cb_address_sanitizer :: bool
  cb_physical_device_backend :: bool
  cb_distributed_consensus :: bool
  cb_build_type :: string
  cb_compiler :: string

definition build_id :: string where "build_id = ''1.0.0''"

definition capabilities_json :: "capabilities \<Rightarrow> json" where
  "capabilities_json c = JObject [
     (''durability'', JBool (cb_durability c)),
     (''multiprocess_transport'', JBool (cb_multiprocess_transport c)),
     (''address_sanitizer'', JBool (cb_address_sanitizer c)),
     (''physical_device_backend'', JBool (cb_physical_device_backend c)),
     (''distributed_consensus'', JBool (cb_distributed_consensus c)),
     (''build_type'', JString (cb_build_type c)),
     (''compiler'', JString (cb_compiler c)),
     (''version'', JString build_id)]"

definition capabilities_to_json :: "capabilities \<Rightarrow> string" where
  "capabilities_to_json c = jw_out (write_value (capabilities_json c) (json_writer0 1024))"

text \<open>What the build defines: the sanitizer, the compiler and the build type.\<close>

datatype compiler_kind = Msvc | Clang | Gcc | OtherCompiler

definition capabilities_of :: "bool \<Rightarrow> compiler_kind \<Rightarrow> bool \<Rightarrow> capabilities" where
  "capabilities_of sanitized compiler release_build =
     \<lparr>cb_durability = True, cb_multiprocess_transport = True, cb_address_sanitizer = sanitized,
      cb_physical_device_backend = False, cb_distributed_consensus = False,
      cb_build_type = (if release_build then ''release'' else ''debug''),
      cb_compiler = (case compiler of Msvc \<Rightarrow> ''msvc'' | Clang \<Rightarrow> ''clang'' | Gcc \<Rightarrow> ''gcc'' | OtherCompiler \<Rightarrow> ''unknown'')\<rparr>"

subsection \<open>Nothing is cut off\<close>

lemma length_decimal: "n < 10 ^ Suc k \<Longrightarrow> length (decimal n) \<le> Suc k"
proof (induction k arbitrary: n)
  case 0
  then show ?case by (simp add: decimal.simps)
next
  case (Suc k)
  have "n div 10 < 10 ^ Suc k" using Suc.prems by (intro less_mult_imp_div_less) simp
  then show ?case using Suc.IH[of "n div 10"] by (simp add: decimal.simps[of n])
qed

lemma length_dec: "length (dec v) \<le> 20"
proof -
  have "unat v < 2 ^ 64" using unsigned_less[of v] by simp
  also have "\<dots> < (10 :: nat) ^ Suc 19" by simp
  finally show ?thesis using length_decimal[of "unat v" 19] by (simp add: dec_def)
qed

lemma length_escaped_plain:
  "list_all (\<lambda>c. escape_char c = [c]) s \<Longrightarrow> length (append_escaped s) = length s + 2"
  by (induction s) (simp_all add: append_escaped_def)

lemma plain_chars [simp]: "escape_char c = [c] \<longleftrightarrow> c \<noteq> quote_char \<and> c \<noteq> backslash \<and> 32 \<le> (of_char c :: nat)"
  by (auto simp: escape_char_def quote_char_def backslash_def)

text \<open>A pool's accounting line and the summary of the fabric fit their buffers with every value.\<close>

lemma format_pool_accounting_whole:
  "\<exists>line. format_pool_accounting a = line @ '' limit='' @ dec (ac_overcommit_limit a)"
proof -
  let ?v = "\<lambda>x. length (dec x)"
  note d = length_dec[of "ac_pool a"] length_dec[of "ac_pool_generation a"] length_dec[of "ac_raw a"]
    length_dec[of "ac_protected_units a"] length_dec[of "ac_usable a"] length_dec[of "ac_allocated a"]
    length_dec[of "ac_reserved a"] length_dec[of "ac_committed a"] length_dec[of "ac_pinned a"]
    length_dec[of "ac_reclaimable a"] length_dec[of "ac_free a"] length_dec[of "ac_borrowed_in a"]
    length_dec[of "ac_lent_out a"] length_dec[of "ac_overcommit_used a"] length_dec[of "ac_overcommit_limit a"]
  have whole: "clip 512 s = s" if "length s \<le> 511" for s using that by (simp add: clip_def)
  show ?thesis
    unfolding format_pool_accounting_def
    apply (subst whole)
    subgoal using d by simp
    subgoal by (simp only: append_assoc[symmetric]) (rule exI, rule refl)
    done
qed

lemma summary_to_json_whole: "summary_to_json s = show_json (summary_json s)"
proof -
  note d = length_dec[of "su_epoch s"] length_dec[of "bi_hi (su_boot s)"] length_dec[of "bi_lo (su_boot s)"]
    length_dec[of "su_pool_count s"] length_dec[of "su_queue_count s"] length_dec[of "su_allocation_count s"]
    length_dec[of "su_live_allocations s"] length_dec[of "su_raw_total s"] length_dec[of "su_protected_total s"]
    length_dec[of "su_allocated_total s"] length_dec[of "su_free_total s"] length_dec[of "su_overcommit_total s"]
    length_dec[of "su_borrowed_total s"] length_dec[of "su_lent_total s"] length_dec[of "rp_pools_checked (su_accounting s)"]
    length_dec[of "of_nat (length (rp_violations (su_accounting s)))"]
  have "length (show_json (summary_json s)) \<le> 4096"
    using d by (simp add: summary_json_def length_escaped_plain dec_def[symmetric] quote_char_def backslash_def)
  then show ?thesis
    using write_fits(1)[of "json_writer0 4096" "summary_json s"]
    by (simp add: summary_to_json_def room_def sep_def json_writer0_def)
qed

end
