(* ===== verification/Coordinator.thy ===== *)
theory Coordinator
  imports Runtime Transport Protocol Render
begin

text \<open>
  The coordinator: include/buffer_fabric/coordinator.hpp and src/coordinator.cpp.

  Sessions run on their own threads and interleave at the locked sections of the fabric.  A handler
  therefore runs in surroundings that say, for each of its locked sections in order, what the other threads
  did to the fabric before it (sg_others) and which clock reading its lock sampled (sg_tick); the message of a failing
  status is diagnostic text the model does not hold (sg_detail), and sg_send answers the send calls that
  carry the reply.  The coordinator's counters are atomics and changed by one step each.
\<close>

record surroundings =
  sg_tick :: "nat \<Rightarrow> tick"
  sg_others :: "nat \<Rightarrow> fabric \<Rightarrow> fabric"
  sg_detail :: string
  sg_send :: "send_answer list"

record coordinator_config =
  cc_state_directory :: string
  cc_durability :: durability_mode
  max_clients :: u64
  max_frame_bytes :: u64
  cc_decision_history_capacity :: u64
  cc_bootstrap_topology :: bool
  bootstrap_backend_id :: u64
  bootstrap_resource_id :: u64
  bootstrap_pool_id :: u64
  bootstrap_queue_id :: u64
  bootstrap_policy_id :: u64
  bootstrap_resource_units :: u64
  bootstrap_pool_units :: u64
  bootstrap_protected_units :: u64
  bootstrap_queue_demand_units :: u64
  cc_evidence_ttl_ticks :: u64

definition coordinator_config0 :: coordinator_config where
  "coordinator_config0 = \<lparr>cc_state_directory = [], cc_durability = JournalSync, max_clients = 32,
     max_frame_bytes = of_nat kMaxFrameBytes, cc_decision_history_capacity = 4096, cc_bootstrap_topology = True,
     bootstrap_backend_id = 1, bootstrap_resource_id = 1, bootstrap_pool_id = 1, bootstrap_queue_id = 1,
     bootstrap_policy_id = 1, bootstrap_resource_units = 2 ^ 20, bootstrap_pool_units = 2 ^ 19,
     bootstrap_protected_units = 2 ^ 12, bootstrap_queue_demand_units = 2 ^ 17,
     cc_evidence_ttl_ticks = 3600000000000\<rparr>"

text \<open>The listener is valid or not; of the client sockets only their number matters here.\<close>

record coordinator =
  co_config :: coordinator_config
  co_fabric :: fabric
  co_backend :: synthetic_backend
  co_listening :: bool
  co_shutdown_requested :: bool
  co_started :: bool
  co_served :: u64
  co_rejected :: u64
  co_clients :: nat

definition coordinator0 :: coordinator where
  "coordinator0 = \<lparr>co_config = coordinator_config0, co_fabric = fabric0,
     co_backend = synthetic_new 1 1 ''coordinator'', co_listening = False, co_shutdown_requested = False,
     co_started = False, co_served = 0, co_rejected = 0, co_clients = 0\<rparr>"

subsection \<open>Bootstrap\<close>

definition bootstrap_policy :: "coordinator_config \<Rightarrow> pool_policy" where
  "bootstrap_policy c = pool_policy0\<lparr>pol_id := bootstrap_policy_id c, pol_name := ''bootstrap'',
     overcommit := (overcommit pool_policy0)\<lparr>oc_mode := OcForbid\<rparr>,
     borrow := (borrow pool_policy0)\<lparr>bw_mode := BwForbid\<rparr>,
     pressure := (pressure pool_policy0)\<lparr>evidence_ttl_ticks := cc_evidence_ttl_ticks c, pr_thresholds := thresholds0\<rparr>,
     reclaim := (reclaim pool_policy0)\<lparr>rc_enabled := True\<rparr>\<rparr>"

definition bootstrap_pool :: "coordinator_config \<Rightarrow> backend_id \<Rightarrow> pool_registration" where
  "bootstrap_pool c backend = \<lparr>pg_id = bootstrap_pool_id c, pg_name = ''bootstrap-pool'',
     pg_resource = bootstrap_resource_id c, pg_backend = backend, pg_raw_units = bootstrap_pool_units c,
     pg_protected_units = bootstrap_protected_units c, pg_parent = 0, pg_policy = bootstrap_policy_id c,
     pg_tenant = 0, pg_provenance = 0\<rparr>"

definition bootstrap_queue :: "coordinator_config \<Rightarrow> queue_registration" where
  "bootstrap_queue c = \<lparr>qg_id = bootstrap_queue_id c, qg_name = ''bootstrap-queue'', qg_pool = bootstrap_pool_id c,
     qg_tenant = 0, qg_traffic_class = 0, qg_demand_units = bootstrap_queue_demand_units c, qg_weight = 1,
     qg_max_committed_units = 0\<rparr>"

definition bootstrap_snapshot :: "coordinator_config \<Rightarrow> generation \<Rightarrow> epoch_id \<Rightarrow> boot_incarnation \<Rightarrow> pressure_snapshot" where
  "bootstrap_snapshot c g e b = \<lparr>ps_id = 0, ps_pool = bootstrap_pool_id c, ps_pool_generation = g, ps_epoch = e,
     ps_boot = b, ps_observed_at = 0, ps_ttl_ticks = cc_evidence_ttl_ticks c,
     ps_demand_units = bootstrap_queue_demand_units c, ps_committed_units = 0, ps_reclaimable_units = 0,
     ps_provenance = 0, assert_committed = False, evidence_digest = \<lparr>dg_hi = 0, dg_lo = 0\<rparr>\<rparr>"

definition bootstrap_evidence :: "(nat \<Rightarrow> tick) \<Rightarrow> coordinator_config \<Rightarrow> unit op" where
  "bootstrap_evidence t c f =
     (let f = take_lock (t 9) f in
      case pool_generation_status_of (bootstrap_pool_id c) f of Inl e \<Rightarrow> (Inl e, f)
      | Inr status \<Rightarrow>
        let f = take_lock (t 10) f; current = fb_epoch f;
            f = take_lock (t 11) f; boot = fb_boot f;
            (observed, f) = fabric_observe_pressure (t 12)
              (bootstrap_snapshot c (pgs_pool_generation status) current boot) f
        in (Inr (), f))"

definition bootstrap_register :: "(nat \<Rightarrow> tick) \<Rightarrow> coordinator_config \<Rightarrow> backend_id \<Rightarrow> unit op" where
  "bootstrap_register t c backend f =
     (let f = take_lock (t 6) f in
      try_st (case pool_view_of (bootstrap_pool_id c) f of
                Inr _ \<Rightarrow> (Inr (), f)
              | Inl e \<Rightarrow>
                  if e \<noteq> UnknownPool then (Inl e, f)
                  else try_st (fabric_register_pool (t 7) (bootstrap_pool c backend) f) (\<lambda>_ f. (Inr (), f)))
        (\<lambda>_ f.
      case fabric_register_queue (t 8) (bootstrap_queue c) f of
        (Inl e, f) \<Rightarrow> if e \<noteq> DuplicateQueue \<and> e \<noteq> DuplicateName then (Inl e, f) else bootstrap_evidence t c f
      | (Inr _, f) \<Rightarrow> bootstrap_evidence t c f))"

definition bootstrap_topology :: "(nat \<Rightarrow> tick) \<Rightarrow> coordinator_config \<Rightarrow> synthetic_backend \<times> fabric \<Rightarrow>
    void_result \<times> synthetic_backend \<times> fabric" where
  "bootstrap_topology t c = (\<lambda>(b, f).
     let resource = bootstrap_resource_id c;
         b = set_resource resource (bootstrap_resource_units c) 1 b
     in case attach_backend (t 0) (sb_id b)
          \<lparr>be_kind = SyntheticKind, be_generation = sb_generation b, be_ready = sb_ready b\<rparr> f of
        (Inl e, f) \<Rightarrow> (Inl e, b, f)
      | (Inr _, f) \<Rightarrow>
        case set_capacity sb_ready synthetic_query_capacity synthetic_program_reservation (t 1, t 2, t 3, t 4)
               resource (sb_id b) (bootstrap_resource_units c) 0 (b, f) of
          (Inl e, b, f) \<Rightarrow> (Inl e, b, f)
        | (Inr _, b, f) \<Rightarrow>
          let (r, f) = try_st (fabric_publish_policy (t 5) (bootstrap_policy c) f)
                         (\<lambda>_ f. bootstrap_register t c (sb_id b) f)
          in (r, b, f))"

subsection \<open>Start, accept and stop\<close>

definition coordinator_fabric_config :: "coordinator_config \<Rightarrow> fabric_config" where
  "coordinator_fabric_config c =
     (let fc = fabric_config0\<lparr>decision_history_capacity := unat (cc_decision_history_capacity c)\<rparr> in
      if cc_state_directory c \<noteq> []
      then fc\<lparr>cf_persistence := (cf_persistence fc)\<lparr>pc_directory := cc_state_directory c, pc_mode := cc_durability c\<rparr>\<rparr>
      else fc)"

text \<open>The arguments listened and boot are the answers of the operating system: whether the address could be
  bound, and the incarnation minted for this run.  The clock readings of open, of the bootstrap and of a
  closing are t 0, t 1 onwards and last.\<close>

definition coordinator_start :: "(nat \<Rightarrow> tick) \<Rightarrow> tick \<Rightarrow> boot_incarnation \<Rightarrow> void_result \<Rightarrow> coordinator_config \<Rightarrow>
    coordinator \<Rightarrow> void_result \<times> coordinator" where
  "coordinator_start t last_tick boot listened config c =
     (if co_started c then (Inl LifecycleViolation, c)
      else let c = c\<lparr>co_config := config\<rparr> in
      case ensure_sockets_initialised of Inl e \<Rightarrow> (Inl e, c) | Inr _ \<Rightarrow>
      case fabric_open (t 0) boot (coordinator_fabric_config config) (co_fabric c) of
        (Inl e, f) \<Rightarrow> (Inl e, c\<lparr>co_fabric := f\<rparr>)
      | (Inr _, f) \<Rightarrow>
        let (r, b, f) = (if cc_bootstrap_topology config
                         then bootstrap_topology (\<lambda>k. t (Suc k)) config (co_backend c, f)
                         else (Inr (), co_backend c, f));
            c = c\<lparr>co_backend := b\<rparr>
        in case r of
          Inl e \<Rightarrow> (Inl e, c\<lparr>co_fabric := snd (fabric_close last_tick f)\<rparr>)
        | Inr _ \<Rightarrow>
          case listened of
            Inl e \<Rightarrow> (Inl e, c\<lparr>co_fabric := snd (fabric_close last_tick f)\<rparr>)
          | Inr _ \<Rightarrow> (Inr (), c\<lparr>co_fabric := f, co_listening := True, co_shutdown_requested := False, co_started := True\<rparr>))"

definition refusal_frame :: bytes where
  "refusal_frame = encode_message \<lparr>mg_op = OpHelloAck, mg_request = 0, mg_epoch = 0,
     mg_body = buffer (encode_response BoundedResourceExhausted ''coordinator client capacity reached'' None writer0)\<rparr>"

text \<open>One turn of the accept loop with a connected peer: what is sent to a refused one, None for a served one.\<close>

definition accept_peer :: "coordinator \<Rightarrow> bytes option \<times> coordinator" where
  "accept_peer c =
     (if co_clients c \<ge> unat (max_clients (co_config c))
      then (Some refusal_frame, c\<lparr>co_rejected := co_rejected c + 1\<rparr>)
      else (None, c\<lparr>co_clients := Suc (co_clients c)\<rparr>))"

text \<open>The answers of accept: a peer or a failure, after which the loop tries again.\<close>

fun accept_loop :: "bool list \<Rightarrow> coordinator \<Rightarrow> bytes option list \<times> coordinator" where
  "accept_loop [] c = ([], c)"
| "accept_loop (accepted # later) c =
     (if co_shutdown_requested c then ([], c)
      else if \<not> accepted then accept_loop later c
      else let (sent, c) = accept_peer c; (rest, c) = accept_loop later c in (sent # rest, c))"

definition request_shutdown :: "coordinator \<Rightarrow> coordinator" where
  "request_shutdown c = c\<lparr>co_shutdown_requested := True, co_listening := False\<rparr>"

text \<open>The state given is the one after the joined threads have ended.\<close>

definition coordinator_stop :: "tick \<Rightarrow> coordinator \<Rightarrow> void_result \<times> coordinator" where
  "coordinator_stop t c =
     (if \<not> co_started c then (Inr (), c)
      else let c = request_shutdown c; (r, f) = fabric_close t (co_fabric c)
           in (r, c\<lparr>co_clients := 0, co_started := False, co_fabric := f\<rparr>))"

subsection \<open>Dispatch\<close>

text \<open>The k-th locked section of a handler: other threads first, then the lock with its clock reading.\<close>

definition others_first :: "surroundings \<Rightarrow> nat \<Rightarrow> coordinator \<Rightarrow> coordinator" where
  "others_first w k c = c\<lparr>co_fabric := sg_others w k (co_fabric c)\<rparr>"

definition enter :: "surroundings \<Rightarrow> nat \<Rightarrow> coordinator \<Rightarrow> coordinator" where
  "enter w k c = c\<lparr>co_fabric := take_lock (sg_tick w k) (sg_others w k (co_fabric c))\<rparr>"

definition rejected_one :: "coordinator \<Rightarrow> coordinator" where
  "rejected_one c = c\<lparr>co_rejected := co_rejected c + 1\<rparr>"

definition served_one :: "coordinator \<Rightarrow> coordinator" where
  "served_one c = c\<lparr>co_served := co_served c + 1\<rparr>"

text \<open>What a handler hands to the reply: opcode, response and whether the connection is closed after it.\<close>

record answer =
  an_op :: message_op
  an_code :: error_code
  an_text :: string
  an_payload :: "byte_writer option"
  an_close :: bool

definition respond :: "message_op \<Rightarrow> error_code \<Rightarrow> string \<Rightarrow> byte_writer option \<Rightarrow> answer" where
  "respond p code text payload = \<lparr>an_op = p, an_code = code, an_text = text, an_payload = payload, an_close = False\<rparr>"

definition respond_closing :: "message_op \<Rightarrow> error_code \<Rightarrow> string \<Rightarrow> answer" where
  "respond_closing p code text = (respond p code text None)\<lparr>an_close := True\<rparr>"

definition response_body :: "answer \<Rightarrow> bytes" where
  "response_body a = buffer (encode_response (an_code a) (an_text a) (an_payload a) writer0)"

text \<open>A request body is accepted when it decodes and nothing follows.\<close>

definition whole :: "'a decoder \<Rightarrow> bytes \<Rightarrow> 'a option" where
  "whole decode body = (case decode body of Some (x, []) \<Rightarrow> Some x | _ \<Rightarrow> None)"

definition summary_of_decision :: "decision \<Rightarrow> decision_summary" where
  "summary_of_decision d = \<lparr>sm_kind = dc_kind d, sm_status = dc_status d, sm_binding = binding_constraint_raw (dc_binding d),
     sm_pressure = pressure_state_raw (dc_pressure d), sm_utilization_bp = dc_utilization_bp d,
     sm_sequence = dc_sequence d, sm_requested_units = dc_requested_units d, sm_granted_units = dc_granted_units d,
     sm_pool = dc_pool d, sm_queue = dc_queue d, sm_allocation = dc_allocation d, sm_accounting = dc_accounting d\<rparr>"

definition dispatch_hello :: "surroundings \<Rightarrow> message \<Rightarrow> coordinator \<Rightarrow> answer \<times> coordinator" where
  "dispatch_hello w m c =
     (case whole decode_hello_request (mg_body m) of
        None \<Rightarrow> (respond_closing OpHello ProtocolViolation ''malformed hello'', rejected_one c)
      | Some hello \<Rightarrow>
        if hr_protocol_version hello \<noteq> kProtocolVersion
        then (respond_closing OpHello ProtocolVersionMismatch
                (''wire protocol version '' @ decimal (unat (hr_protocol_version hello)) @ '' is not supported''),
              rejected_one c)
        else let c = enter w 1 c; current = fb_epoch (co_fabric c) in
        if valid (hr_claimed_epoch hello) \<and> hr_claimed_epoch hello \<noteq> current
        then (respond_closing OpHello StaleEpoch
                (''claimed epoch '' @ dec (hr_claimed_epoch hello) @ '' is not the current epoch '' @ dec current),
              rejected_one c)
        else let c = enter w 2 c; s = summary (co_fabric c);
                 c = enter w 3 c; boot = fb_boot (co_fabric c);
                 ack = \<lparr>hp_protocol_version = kProtocolVersion, hp_coordinator_epoch = current,
                   hp_coordinator_boot = boot, hp_pool_count = su_pool_count s, hp_queue_count = su_queue_count s\<rparr>
             in (respond OpHelloAck Ok ''hello accepted'' (Some (encode_hello_response ack writer0)), c))"

definition dispatch_allocate :: "surroundings \<Rightarrow> message \<Rightarrow> coordinator \<Rightarrow> answer \<times> coordinator" where
  "dispatch_allocate w m c =
     (case whole decode_allocate (mg_body m) of
        None \<Rightarrow> (respond OpAllocate ProtocolViolation ''malformed allocate request'' None, rejected_one c)
      | Some q \<Rightarrow>
        let c = others_first w 2 c;
            (outcome, f) = fabric_allocate (sg_tick w 2) q (co_fabric c);
            c = c\<lparr>co_fabric := f\<rparr>
        in case outcome of
          Inl code \<Rightarrow> (respond OpAllocate code (sg_detail w) None, c)
        | Inr d \<Rightarrow> (respond OpAllocate Ok ''allocate accepted''
                     (Some (encode_decision_summary (summary_of_decision d) writer0)), served_one c))"

definition dispatch_release :: "surroundings \<Rightarrow> message \<Rightarrow> coordinator \<Rightarrow> answer \<times> coordinator" where
  "dispatch_release w m c =
     (case whole decode_release (mg_body m) of
        None \<Rightarrow> (respond OpRelease ProtocolViolation ''malformed release request'' None, rejected_one c)
      | Some q \<Rightarrow>
        let c = others_first w 2 c;
            (outcome, f) = fabric_release (sg_tick w 2) q (co_fabric c);
            c = c\<lparr>co_fabric := f\<rparr>
        in case outcome of
          Inl code \<Rightarrow> (respond OpRelease code (sg_detail w) None, c)
        | Inr d \<Rightarrow> (respond OpRelease Ok ''release accepted''
                     (Some (encode_decision_summary (summary_of_decision d) writer0)), served_one c))"

text \<open>The allocation of the summary keeps its default, and the accounting is the evaluation's.\<close>

definition summary_of_evaluation :: "evaluation_result \<Rightarrow> decision_summary" where
  "summary_of_evaluation v = (summary_of_decision (vl_decision v))\<lparr>sm_allocation := 0, sm_accounting := vl_accounting v\<rparr>"

definition dispatch_evaluate :: "surroundings \<Rightarrow> message \<Rightarrow> coordinator \<Rightarrow> answer \<times> coordinator" where
  "dispatch_evaluate w m c =
     (case whole decode_evaluate (mg_body m) of
        None \<Rightarrow> (respond OpEvaluate ProtocolViolation ''malformed evaluate request'' None, rejected_one c)
      | Some q \<Rightarrow>
        let c = enter w 2 c in
        case evaluate q (co_fabric c) of
          Inl code \<Rightarrow> (respond OpEvaluate code (sg_detail w) None, c)
        | Inr v \<Rightarrow> (respond OpEvaluate Ok ''evaluation complete''
                     (Some (encode_decision_summary (summary_of_evaluation v) writer0)), served_one c))"

text \<open>The snapshot is completed with the current epoch, boot and pool generation before it is offered.\<close>

definition dispatch_pressure :: "surroundings \<Rightarrow> message \<Rightarrow> coordinator \<Rightarrow> answer \<times> coordinator" where
  "dispatch_pressure w m c =
     (case whole decode_pressure (mg_body m) of
        None \<Rightarrow> (respond OpObservePressure ProtocolViolation ''malformed pressure request'' None, rejected_one c)
      | Some s \<Rightarrow>
        let c = enter w 2 c; s = s\<lparr>ps_epoch := fb_epoch (co_fabric c)\<rparr>;
            c = enter w 3 c; s = s\<lparr>ps_boot := fb_boot (co_fabric c)\<rparr>;
            s = (if ps_ttl_ticks s = 0 then s\<lparr>ps_ttl_ticks := cc_evidence_ttl_ticks (co_config c)\<rparr> else s);
            s = (if ps_observed_at s = 0 then s\<lparr>ps_observed_at := 1\<rparr> else s);
            c = enter w 4 c
        in case pool_generation_status_of (ps_pool s) (co_fabric c) of
          Inl code \<Rightarrow> (respond OpObservePressure code (sg_detail w) None, c)
        | Inr status \<Rightarrow>
          let s = s\<lparr>ps_pool_generation := pgs_pool_generation status\<rparr>;
              c = others_first w 5 c;
              (r, f) = fabric_observe_pressure (sg_tick w 5) s (co_fabric c);
              c = served_one (c\<lparr>co_fabric := f\<rparr>)
          in case r of
            Inl code \<Rightarrow> (respond OpObservePressure code (sg_detail w) None, c)
          | Inr _ \<Rightarrow> (respond OpObservePressure Ok ''pressure observed'' None, c))"

definition metrics_json :: "fabric_metrics \<Rightarrow> json" where
  "metrics_json s = JObject [
     (''decisions'', JNumber (mt_decisions s)), (''grants'', JNumber (mt_grants s)),
     (''refusals'', JNumber (mt_refusals s)), (''live_allocations'', JNumber (mt_live_allocations s)),
     (''live_committed_units'', JNumber (mt_live_committed_units s))]"

definition ledger_json :: "pool_accounting list \<Rightarrow> json" where
  "ledger_json rows = JArray (map (\<lambda>a. JObject [
     (''pool'', JNumber (ac_pool a)), (''raw'', JNumber (ac_raw a)), (''protected'', JNumber (ac_protected_units a)),
     (''allocated'', JNumber (ac_allocated a)), (''free'', JNumber (ac_free a))]) rows)"

definition text_payload :: "string \<Rightarrow> byte_writer" where
  "text_payload text =
     (let text = (if length text > kMaxFrameBytes - 64 then take (kMaxFrameBytes - 64) text else text)
      in writes [put_u32 (of_nat (length text)), put_bytes (map byte_of_char text)] writer0)"

definition dispatch_inspect :: "surroundings \<Rightarrow> message \<Rightarrow> coordinator \<Rightarrow> answer \<times> coordinator" where
  "dispatch_inspect w m c =
     (let p = mg_op m; accepted = (\<lambda>text c. (respond p Ok ''ok'' (Some (text_payload text)), served_one c)) in
      if p = OpSummary then
        let c = enter w 2 c in accepted (summary_to_json (summary (co_fabric c))) c
      else if p = OpMetrics then
        let c = enter w 2 c in accepted (jw_out (write_value (metrics_json (metrics (co_fabric c))) (json_writer0 1024))) c
      else if p = OpLedger then
        let c = enter w 2 c in accepted (jw_out (write_value (ledger_json (ledger (co_fabric c))) (json_writer0 8192))) c
      else case whole get_u64 (mg_body m) of
          None \<Rightarrow> (respond p ProtocolViolation ''malformed explain request'' None, rejected_one c)
        | Some pool \<Rightarrow>
            let c = enter w 2 c in
            case explain pool (co_fabric c) of
              Inl code \<Rightarrow> (respond p code (sg_detail w) None, c)
            | Inr x \<Rightarrow> accepted (to_text x) c)"

definition dispatch_shutdown :: "coordinator \<Rightarrow> answer \<times> coordinator" where
  "dispatch_shutdown c =
     (respond_closing OpShutdown Ok ''shutdown requested'',
      (served_one c)\<lparr>co_shutdown_requested := True, co_listening := False\<rparr>)"

definition dispatch_fenced :: "surroundings \<Rightarrow> message \<Rightarrow> coordinator \<Rightarrow> answer \<times> coordinator" where
  "dispatch_fenced w m c =
     (case mg_op m of
        OpAllocate \<Rightarrow> dispatch_allocate w m c
      | OpRelease \<Rightarrow> dispatch_release w m c
      | OpEvaluate \<Rightarrow> dispatch_evaluate w m c
      | OpObservePressure \<Rightarrow> dispatch_pressure w m c
      | OpExplain \<Rightarrow> dispatch_inspect w m c
      | OpSummary \<Rightarrow> dispatch_inspect w m c
      | OpLedger \<Rightarrow> dispatch_inspect w m c
      | OpMetrics \<Rightarrow> dispatch_inspect w m c
      | OpShutdown \<Rightarrow> dispatch_shutdown c
      | _ \<Rightarrow> (respond (mg_op m) ProtocolViolation ''unsupported operation'' None, rejected_one c))"

definition dispatch_answer :: "surroundings \<Rightarrow> message \<Rightarrow> coordinator \<Rightarrow> answer \<times> coordinator" where
  "dispatch_answer w m c =
     (if mg_op m = OpHello then dispatch_hello w m c
      else if mg_op m = OpPing then (respond OpPing Ok ''pong'' None, c)
      else let c1 = (if \<not> valid (mg_epoch m) then c else enter w 1 c) in
      if \<not> valid (mg_epoch m) \<or> mg_epoch m \<noteq> fb_epoch (co_fabric c1)
      then (respond_closing (mg_op m) StaleEpoch ''request epoch is not the current fabric epoch'', rejected_one c1)
      else dispatch_fenced w m c1)"

definition dispatch :: "surroundings \<Rightarrow> message \<Rightarrow> coordinator \<Rightarrow> message \<times> bool \<times> coordinator" where
  "dispatch w m c =
     (let c = enter w 0 c; current = fb_epoch (co_fabric c);
          (a, c) = dispatch_answer w m c
      in (\<lparr>mg_op = an_op a, mg_request = mg_request m, mg_epoch = current, mg_body = response_body a\<rparr>, an_close a, c))"

subsection \<open>A session\<close>

datatype turn_end = Again | Ended | Blocked

text \<open>One turn of a session, with the bytes that went out: it goes on, ends, or is still receiving or sending.\<close>

definition session_end :: "void_result option \<Rightarrow> bool \<Rightarrow> turn_end" where
  "session_end sent closing =
     (case sent of None \<Rightarrow> Blocked | Some (Inl _) \<Rightarrow> Ended | Some (Inr _) \<Rightarrow> if closing then Ended else Again)"

definition serve_turn :: "surroundings \<Rightarrow> socket \<Rightarrow> coordinator \<Rightarrow> turn_end \<times> bytes \<times> socket \<times> coordinator" where
  "serve_turn w peer c =
     (if co_shutdown_requested c then (Ended, [], peer, c)
      else let n = unat (max_frame_bytes (co_config c)) in
      case receive_frame n peer of
        (Inl _, peer) \<Rightarrow> (if sk_waiting peer then Blocked else Ended, [], peer, c)
      | (Inr frame, peer) \<Rightarrow>
        case decode_message_payload frame n of
          Inl code \<Rightarrow>
            let c = enter w 0 c;
                reply = \<lparr>mg_op = OpPong, mg_request = 0, mg_epoch = fb_epoch (co_fabric c),
                  mg_body = response_body (respond OpPong code (sg_detail w) None)\<rparr>;
                (sent, out) = send_all (encode_message reply) (sg_send w) peer
            in (case sent of None \<Rightarrow> (Blocked, out, peer, c) | Some _ \<Rightarrow> (Ended, out, peer, rejected_one c))
        | Inr m \<Rightarrow>
            let (reply, closing, c) = dispatch w m c;
                (sent, out) = send_all (encode_message reply) (sg_send w) peer
            in (session_end sent closing, out, peer, c))"


text \<open>A successful receive uses up the bytes it returns, so a session has finitely many turns.\<close>

definition pending :: "socket \<Rightarrow> nat" where
  "pending s = sum_list (map (\<lambda>a. case a of RecvData bs \<Rightarrow> length bs | _ \<Rightarrow> 0) (sk_incoming s))"

lemma receive_some_pending: "receive_some n s = (Inr bs, s') \<Longrightarrow> pending s' + length bs = pending s"
  by (cases "(n, sk_incoming s)" rule: recv_call.cases)
    (auto simp: receive_some_def pending_def Let_def split: if_splits)

lemma receive_loop_pending: "receive_loop n got s = (Inr bs, s') \<Longrightarrow> pending s' + n = pending s"
proof (induction n got s rule: receive_loop.induct)
  case (1 remaining got s)
  show ?case
  proof (cases "remaining = 0")
    case True
    then show ?thesis using "1.prems" by (simp add: receive_loop.simps)
  next
    case False
    then obtain b later s1 where r: "receive_some remaining s = (Inr (b # later), s1)"
      "receive_loop (remaining - length (b # later)) (got @ b # later) s1 = (Inr bs, s')"
      using "1.prems" by (subst (asm) receive_loop.simps) (auto split: prod.splits sum.splits list.splits)
    have "length (b # later) \<le> remaining" using receive_some_length[OF r(1)] .
    moreover have "pending s' + (remaining - length (b # later)) = pending s1"
      using "1.IH"[OF False r(1)[symmetric] refl refl] r(2) by auto
    ultimately show ?thesis using receive_some_pending[OF r(1)] by simp
  qed
qed

lemma receive_payload_pending: "receive_payload n crc s = (Inr payload, s') \<Longrightarrow> pending s' \<le> pending s"
  using receive_loop_pending[of n "[]" s _ s']
  by (fastforce simp: receive_payload_def receive_exact_def Let_def split: prod.splits sum.splits if_splits)

lemma receive_frame_pending:
  assumes "receive_frame n s = (Inr frame, s')"
  shows "pending s' < pending s"
proof -
  obtain header s1 where h: "receive_exact kFrameHeaderBytes s = (Inr header, s1)"
    using assms by (auto simp: receive_frame_def split: prod.splits sum.splits)
  have "pending s1 + kFrameHeaderBytes = pending s"
    using h receive_loop_pending by (simp add: receive_exact_def)
  moreover have "pending s' \<le> pending s1"
    using assms h by (auto simp: receive_frame_def dest: receive_payload_pending split: if_splits option.splits)
  ultimately show ?thesis by (simp add: kFrameHeaderBytes_def)
qed

lemma serve_turn_pending:
  assumes "serve_turn w peer c = (Again, out, peer', c')"
  shows "pending peer' < pending peer"
proof -
  obtain frame where "receive_frame (unat (max_frame_bytes (co_config c))) peer = (Inr frame, peer')"
    using assms by (auto simp: serve_turn_def Let_def split: prod.splits sum.splits if_splits option.splits)
  then show ?thesis by (rule receive_frame_pending)
qed

text \<open>The session: the i-th turn runs in the i-th surroundings.  The result says whether it has ended (else its last
  request is still being received or its last reply sent), and holds everything that went out.\<close>

function serve :: "(nat \<Rightarrow> surroundings) \<Rightarrow> nat \<Rightarrow> bytes \<Rightarrow> socket \<Rightarrow> coordinator \<Rightarrow> bool \<times> bytes \<times> socket \<times> coordinator" where
  "serve w i out peer c =
     (case serve_turn (w i) peer c of
        (Again, more_out, peer, c) \<Rightarrow> serve w (Suc i) (out @ more_out) peer c
      | (Ended, more_out, peer, c) \<Rightarrow> (True, out @ more_out, socket_close peer, c)
      | (Blocked, more_out, peer, c) \<Rightarrow> (False, out @ more_out, peer, c))"
  by pat_completeness auto

termination serve
  by (relation "measure (\<lambda>(w, i, out, peer, c). pending peer)") (auto dest: serve_turn_pending[OF sym])

declare serve.simps [simp del]

end
