(* ===== verification/Sessions.thy ===== *)
theory Sessions
  imports Coordinator Worked_Run
begin

text \<open>
  What a session does to the fabric.  The locale fabric_moves is the contract between the coordinator and
  the fabric: a preorder on fabrics that every operation a session calls respects, releases when they are
  admitted.  Requests move the fabric within it whatever the other threads do, as long as these do too.
\<close>

locale fabric_moves =
  fixes R :: "fabric \<Rightarrow> fabric \<Rightarrow> bool"
    and admits :: "tick \<Rightarrow> release_request \<Rightarrow> fabric \<Rightarrow> bool"
  assumes stays: "R f f"
    and moves_on: "R f g \<Longrightarrow> R g h \<Longrightarrow> R f h"
    and query_moves: "R f (take_lock t f)"
    and allocate_moves: "R f (snd (fabric_allocate t q f))"
    and release_moves: "admits t rq f \<Longrightarrow> R f (snd (fabric_release t rq f))"
    and observe_moves: "R f (snd (fabric_observe_pressure t s f))"
begin

definition settled :: "surroundings \<Rightarrow> bool" where
  "settled w \<longleftrightarrow> (\<forall>k f. R f (sg_others w k f))"

text \<open>The state in which a release is carried out.\<close>

definition admitted :: "surroundings \<Rightarrow> message \<Rightarrow> coordinator \<Rightarrow> bool" where
  "admitted w m c \<longleftrightarrow> (mg_op m = OpRelease \<longrightarrow> (\<forall>q. whole decode_release (mg_body m) = Some q \<longrightarrow>
     admits (sg_tick w 2) q (sg_others w 2 (co_fabric c))))"

lemma others_move: "settled w \<Longrightarrow> R f (sg_others w k f)"
  by (simp add: settled_def)

lemma enter_moves: "settled w \<Longrightarrow> R f (co_fabric c) \<Longrightarrow> R f (co_fabric (enter w k c))"
  using moves_on[OF moves_on[OF _ others_move] query_moves] by (simp add: enter_def)

lemma others_first_moves: "settled w \<Longrightarrow> R f (co_fabric c) \<Longrightarrow> R f (co_fabric (others_first w k c))"
  by (auto simp: others_first_def intro: moves_on others_move)

lemma counted_fabric [simp]: "co_fabric (served_one c) = co_fabric c" "co_fabric (rejected_one c) = co_fabric c"
  by (simp_all add: served_one_def rejected_one_def)

lemma hello_moves: "settled w \<Longrightarrow> R (co_fabric c) (co_fabric (snd (dispatch_hello w m c)))"
  by (auto simp: dispatch_hello_def Let_def intro!: enter_moves stays split: option.split)

lemma allocate_handler_moves: "settled w \<Longrightarrow> R (co_fabric c) (co_fabric (snd (dispatch_allocate w m c)))"
  using moves_on[OF others_move allocate_moves]
  by (auto simp: dispatch_allocate_def Let_def others_first_def stays split: option.split prod.split sum.split)
    (metis snd_conv)+

lemma release_handler_moves:
  assumes "settled w" "mg_op m = OpRelease" "admitted w m c"
  shows "R (co_fabric c) (co_fabric (snd (dispatch_release w m c)))"
proof (cases "whole decode_release (mg_body m)")
  case None
  then show ?thesis by (simp add: dispatch_release_def stays)
next
  case (Some q)
  then have "R (co_fabric c) (snd (fabric_release (sg_tick w 2) q (sg_others w 2 (co_fabric c))))"
    using moves_on[OF others_move[OF assms(1)] release_moves] assms(2,3) by (auto simp: admitted_def)
  then show ?thesis
    using Some by (auto simp: dispatch_release_def Let_def others_first_def split: prod.split sum.split)
qed

lemma evaluate_handler_moves: "settled w \<Longrightarrow> R (co_fabric c) (co_fabric (snd (dispatch_evaluate w m c)))"
  by (auto simp: dispatch_evaluate_def Let_def intro!: enter_moves stays split: option.split sum.split)

lemma pressure_handler_moves:
  assumes "settled w"
  shows "R (co_fabric c) (co_fabric (snd (dispatch_pressure w m c)))"
proof -
  let ?c = "enter w 4 (enter w 3 (enter w 2 c))"
  have c: "R (co_fabric c) (co_fabric ?c)" by (intro enter_moves assms stays)
  have o: "R (co_fabric c) (snd (fabric_observe_pressure (sg_tick w 5) s (sg_others w 5 (co_fabric ?c))))" for s
    using moves_on[OF c moves_on[OF others_move[OF assms] observe_moves]] .
  then have "R (co_fabric c) g" if "fabric_observe_pressure (sg_tick w 5) s (sg_others w 5 (co_fabric ?c)) = (r, g)" for s r g
    using that by (metis snd_conv)
  with c show ?thesis
    by (auto simp: dispatch_pressure_def Let_def others_first_def stays split: option.split sum.split prod.split)
qed

lemma inspect_handler_moves: "settled w \<Longrightarrow> R (co_fabric c) (co_fabric (snd (dispatch_inspect w m c)))"
  by (auto simp: dispatch_inspect_def Let_def intro!: enter_moves stays split: option.split sum.split)

lemma fenced_moves:
  assumes "settled w" "admitted w m c"
  shows "R (co_fabric c) (co_fabric (snd (dispatch_fenced w m c)))"
  using assms allocate_handler_moves[OF assms(1)] release_handler_moves[OF assms(1) _ assms(2)]
    evaluate_handler_moves[OF assms(1)] pressure_handler_moves[OF assms(1)] inspect_handler_moves[OF assms(1)]
  by (cases "mg_op m") (simp_all add: dispatch_fenced_def stays dispatch_shutdown_def)

lemma answer_moves:
  assumes "settled w" "admitted w m (enter w 1 c)"
  shows "R (co_fabric c) (co_fabric (snd (dispatch_answer w m c)))"
proof -
  have e: "R (co_fabric c) (co_fabric (enter w 1 c))" by (intro enter_moves assms(1) stays)
  show ?thesis
    using e hello_moves[OF assms(1)] moves_on[OF e fenced_moves[OF assms]]
    by (auto simp: dispatch_answer_def Let_def stays)
qed

lemma dispatch_moves:
  assumes "settled w" "admitted w m (enter w 1 (enter w 0 c))"
  shows "R (co_fabric c) (co_fabric (snd (snd (dispatch w m c))))"
  using moves_on[OF enter_moves[OF assms(1) stays] answer_moves[OF assms]]
  by (simp add: dispatch_def Let_def split: prod.split) (metis snd_conv)

lemma turn_moves:
  assumes "settled w" "\<And>m d. admitted w m d"
  shows "R (co_fabric c) (co_fabric (snd (snd (snd (serve_turn w peer c)))))"
proof -
  have d: "R (co_fabric c) (co_fabric c')" if "dispatch w m c = (reply, closing, c')" for m reply closing c'
    using dispatch_moves[OF assms(1) assms(2)] that by (metis snd_conv)
  show ?thesis
    using d enter_moves[OF assms(1) stays]
    by (auto simp: serve_turn_def Let_def stays split: sum.split prod.split option.split)
qed

lemma serve_moves:
  assumes "\<And>i. settled (w i)" "\<And>i m d. admitted (w i) m d"
  shows "R (co_fabric c) (co_fabric (snd (snd (snd (serve w i out peer c)))))"
  using assms
proof (induction w i out peer c rule: serve.induct)
  case (1 w i out peer c)
  obtain e o' peer' c' where t: "serve_turn (w i) peer c = (e, o', peer', c')" by (metis prod_cases4)
  have m: "R (co_fabric c) (co_fabric c')" using turn_moves[OF "1.prems"(1)[of i] "1.prems"(2)[of i], where c = c and peer = peer] t by simp
  show ?case
  proof (cases e)
    case Again
    have "R (co_fabric c') (co_fabric (snd (snd (snd (serve w (Suc i) (out @ o') peer' c')))))"
      using "1.IH"[OF t[unfolded Again, symmetric] refl refl refl "1.prems"] by auto
    then show ?thesis using moves_on[OF m] t Again by (subst serve.simps) simp
  qed (use m t in \<open>simp_all add: serve.simps[of w i]\<close>)
qed

end

text \<open>Every public operation, releases without a condition.\<close>

inductive public_step :: "fabric \<Rightarrow> fabric \<Rightarrow> bool" where
  public_fabric_step: "fabric_step f g \<Longrightarrow> public_step f g"
| public_release: "public_step f (snd (fabric_release t rq f))"

interpretation any_run: fabric_moves "rtranclp public_step" "\<lambda>_ _ _. True"
  by unfold_locales
    (auto intro: r_into_rtranclp public_step.intros step_query step_allocate step_observe)

definition release_guarded :: "tick \<Rightarrow> release_request \<Rightarrow> fabric \<Rightarrow> bool" where
  "release_guarded t rq f \<longleftrightarrow> release_fits_request rq f \<and> (keeps_in_memory f \<or> (\<exists>d. fst (fabric_release t rq f) = Inr d))"

interpretation books: fabric_moves "\<lambda>f g. reachable f \<longrightarrow> reachable g" release_guarded
  by unfold_locales
    (auto simp: release_guarded_def intro: reach_step step_query step_allocate step_release step_observe)

subsection \<open>Responses\<close>

lemma response_body_enc: "response_body a = enc (encode_response (an_code a) (an_text a) (an_payload a))"
  by (simp add: response_body_def enc_def)

lemma decode_respond:
  assumes "named (an_code a)" "\<And>p. an_payload a = Some p \<Longrightarrow> length (buffer p) \<le> kMaxFrameBytes"
  shows "decode_response (response_body a) =
    Some ((an_code a, take kMaxResponseMessage (an_text a), case an_payload a of None \<Rightarrow> [] | Some p \<Rightarrow> buffer p), [])"
  using decode_encode_response[OF assms, where message = "an_text a" and r = "[]"] by (simp add: response_body_enc)

lemma summary_length: "length (buffer (encode_decision_summary s writer0)) \<le> kMaxFrameBytes"
proof -
  have "length (enc (encode_decision_summary s)) \<le> 300"
    by (simp add: encode_decision_summary_def encode_accounting_def)
  then show ?thesis by (simp add: enc_def kMaxFrameBytes_def)
qed

subsection \<open>Fencing by epoch\<close>

text \<open>C13: an old epoch never reaches the fabric.  A request other than a greeting or a ping that presents no
  epoch, or one that is not the epoch the coordinator reads, is answered with StaleEpoch and the connection
  is closed; a greeting that claims another epoch likewise.  Nothing but the clock reading of the
  coordinator's own queries, between whatever the other threads do, has touched the fabric, and the request
  counts as rejected and not as served.\<close>

theorem coordinator_fences_epoch:
  assumes "(mg_op m \<noteq> OpHello \<and> mg_op m \<noteq> OpPing \<and>
      (\<not> valid (mg_epoch m) \<or> mg_epoch m \<noteq> fb_epoch (co_fabric (enter w 1 (enter w 0 c))))) \<or>
    (mg_op m = OpHello \<and> (\<exists>hello. whole decode_hello_request (mg_body m) = Some hello \<and>
      hr_protocol_version hello = kProtocolVersion \<and> valid (hr_claimed_epoch hello) \<and>
      hr_claimed_epoch hello \<noteq> fb_epoch (co_fabric (enter w 1 (enter w 0 c)))))"
  shows "\<exists>reply words c'. dispatch w m c = (reply, True, c') \<and>
    decode_response (mg_body reply) = Some ((StaleEpoch, words, []), []) \<and>
    co_fabric c' \<in> {co_fabric (enter w 0 c), co_fabric (enter w 1 (enter w 0 c))} \<and>
    co_served c' = co_served c \<and> co_rejected c' = co_rejected c + 1"
proof -
  have n: "named StaleEpoch" by (simp add: named_def all_error_codes_def)
  have r: "decode_response (response_body (respond_closing p StaleEpoch words)) =
      Some ((StaleEpoch, take kMaxResponseMessage words, []), [])" for p words
    using decode_respond[of "respond_closing p StaleEpoch words"] n by (simp add: respond_closing_def respond_def)
  have k: "co_served (enter w k c) = co_served c" "co_rejected (enter w k c) = co_rejected c" for k and c :: coordinator
    by (simp_all add: enter_def)
  obtain p words d where a: "dispatch_answer w m (enter w 0 c) = (respond_closing p StaleEpoch words, rejected_one d)"
    "d = enter w 0 c \<or> d = enter w 1 (enter w 0 c)"
    using assms by (elim disjE conjE exE) (auto simp: dispatch_answer_def dispatch_hello_def Let_def)
  show ?thesis
    using a r[of p words] by (auto simp: dispatch_def Let_def respond_closing_def k rejected_one_def)
qed

definition quiet :: surroundings where
  "quiet = \<lparr>sg_tick = \<lambda>k. of_nat k, sg_others = \<lambda>k f. f, sg_detail = [], sg_send = []\<rparr>"

definition ready_coordinator :: coordinator where
  "ready_coordinator = coordinator0\<lparr>co_fabric := s_ready\<rparr>"

theorem coordinator_fences_epoch_witness:
  "\<exists>reply text c'. dispatch quiet \<lparr>mg_op = OpAllocate, mg_request = 9, mg_epoch = 0, mg_body = []\<rparr> ready_coordinator =
       (reply, True, c') \<and> decode_response (mg_body reply) = Some ((StaleEpoch, text, []), []) \<and> co_rejected c' = 1"
proof -
  have "co_rejected ready_coordinator = 0" by (simp add: ready_coordinator_def coordinator0_def)
  then show ?thesis
    using coordinator_fences_epoch[of "\<lparr>mg_op = OpAllocate, mg_request = 9, mg_epoch = 0, mg_body = []\<rparr>" quiet ready_coordinator]
    by (auto simp: valid_def)
qed

subsection \<open>Requests keep the books\<close>


subsection \<open>A session ends\<close>

text \<open>Every reply is bounded.\<close>

definition reply_bound :: nat where
  "reply_bound = kMaxFrameBytes + 4141"

definition payload_fits :: "answer \<Rightarrow> bool" where
  "payload_fits a \<longleftrightarrow> (\<forall>p. an_payload a = Some p \<longrightarrow> length (buffer p) \<le> kMaxFrameBytes)"

lemma payload_fits_respond [simp]:
  "payload_fits (respond p code words None)" "payload_fits (respond_closing p code words)"
  "payload_fits (respond p code words (Some b)) \<longleftrightarrow> length (buffer b) \<le> kMaxFrameBytes"
  by (simp_all add: payload_fits_def respond_def respond_closing_def)

lemma text_payload_length: "length (buffer (text_payload words)) \<le> kMaxFrameBytes"
proof -
  let ?t = "if length words > kMaxFrameBytes - 64 then take (kMaxFrameBytes - 64) words else words"
  have "length (enc (writes [put_u32 (of_nat (length ?t)), put_bytes (map byte_of_char ?t)])) \<le> kMaxFrameBytes"
    by (simp add: kMaxFrameBytes_def)
  then show ?thesis unfolding text_payload_def Let_def enc_def .
qed

lemma hello_length: "length (buffer (encode_hello_response ack writer0)) \<le> kMaxFrameBytes"
proof -
  have "length (enc (encode_hello_response ack)) \<le> 100" by (simp add: encode_hello_response_def)
  then show ?thesis by (simp add: enc_def kMaxFrameBytes_def)
qed

lemma answers_fit:
  "payload_fits (fst (dispatch_hello w m c))" "payload_fits (fst (dispatch_allocate w m c))"
  "payload_fits (fst (dispatch_release w m c))" "payload_fits (fst (dispatch_evaluate w m c))"
  "payload_fits (fst (dispatch_pressure w m c))" "payload_fits (fst (dispatch_inspect w m c))"
  "payload_fits (fst (dispatch_shutdown c))"
  subgoal by (simp add: dispatch_hello_def Let_def hello_length split: option.split)
  subgoal by (simp add: dispatch_allocate_def Let_def summary_length split: option.split prod.split sum.split)
  subgoal by (simp add: dispatch_release_def Let_def summary_length split: option.split prod.split sum.split)
  subgoal by (simp add: dispatch_evaluate_def Let_def summary_length split: option.split prod.split sum.split)
  subgoal by (simp add: dispatch_pressure_def Let_def split: option.split prod.split sum.split)
  subgoal by (simp add: dispatch_inspect_def Let_def text_payload_length split: option.split sum.split)
  subgoal by (simp add: dispatch_shutdown_def)
  done

lemma answer_fits: "payload_fits (fst (dispatch_answer w m c))"
  by (cases "mg_op m") (simp_all add: dispatch_answer_def dispatch_fenced_def Let_def answers_fit)

lemma reply_length:
  assumes "payload_fits a"
  shows "length (encode_message \<lparr>mg_op = p, mg_request = r, mg_epoch = e, mg_body = response_body a\<rparr>) \<le> reply_bound"
proof -
  have "length (response_body a) \<le> 4104 + kMaxFrameBytes"
    using assms
    by (auto simp: response_body_enc encode_response_def Let_def payload_fits_def kMaxResponseMessage_def split: option.split)
  then show ?thesis
    by (simp add: encode_message_def encode_frame_conv message_payload_conv reply_bound_def)
qed

lemma dispatch_reply_length:
  assumes "dispatch w m c = (reply, closing, c')"
  shows "length (encode_message reply) \<le> reply_bound"
proof -
  obtain a d where a: "dispatch_answer w m (enter w 0 c) = (a, d)" by fastforce
  then have "payload_fits a" using answer_fits[of w m "enter w 0 c"] by simp
  then show ?thesis using assms reply_length[OF \<open>payload_fits a\<close>] by (auto simp: dispatch_def Let_def a)
qed

definition sends_through :: "surroundings \<Rightarrow> bool" where
  "sends_through w \<longleftrightarrow> list_all (\<lambda>a. progresses a \<or> a = SendInterrupted) (sg_send w) \<and>
     reply_bound \<le> length (filter progresses (sg_send w))"

lemma send_through:
  assumes "sends_through w" "length data \<le> reply_bound"
  shows "fst (send_all data (sg_send w) s) \<noteq> None"
  using assms send_loop_ends[of "sg_send w" data "[]"] by (auto simp: send_all_def sends_through_def)

text \<open>A turn that does not end although the socket takes its reply is waiting for the client, which the connection's close would end.\<close>

lemma turn_blocked:
  assumes "sends_through w" "serve_turn w peer c = (Blocked, sent, peer', c')"
  shows "sk_waiting peer'"
proof -
  have d: "fst (send_all (encode_message reply) (sg_send w) s) \<noteq> None" if "dispatch w m c = (reply, closing, c')" for m reply closing c' s
    by (rule send_through[OF assms(1) dispatch_reply_length[OF that]])
  have p: "fst (send_all (encode_message \<lparr>mg_op = OpPong, mg_request = r, mg_epoch = e,
      mg_body = response_body (respond OpPong code words None)\<rparr>) (sg_send w) s) \<noteq> None" for r e code words s
    by (rule send_through[OF assms(1) reply_length]) simp
  show ?thesis
    using assms(2) d p
    by (auto simp: serve_turn_def Let_def session_end_def split: sum.splits prod.splits option.splits if_splits)
      (metis fst_conv option.distinct(1))+
qed

lemma turn_waits:
  assumes "serve_turn w peer c = (e, sent, peer', c')"
  shows "sk_closing peer' = sk_closing peer \<and> (sk_waiting peer' \<longrightarrow> sk_waiting peer \<or> \<not> sk_closing peer)"
proof -
  obtain x t where x: "receive_frame (unat (max_frame_bytes (co_config c))) peer = (x, t)" by fastforce
  then have "peer' = peer \<or> peer' = t"
    using assms by (auto simp: serve_turn_def Let_def split: sum.splits prod.splits option.splits if_splits)
  then show ?thesis using receive_frame_waits[OF x] by auto
qed

text \<open>C15: sessions end when the connection closes.  Whatever a client sends and however its bytes arrive, provided the socket takes
  the replies (each send call is answered with progress or with an interruption, and often enough with progress for the largest
  reply), a session either returns with the connection closed, or has served what was sent and waits in recv for a client that stays connected and
  silent; once the connection closes, by the client or by the shutdown of its socket, the session returns.\<close>

theorem session_ends:
  assumes "\<forall>i. sends_through (w i)" "sk_closing peer \<longrightarrow> \<not> sk_waiting peer"
  shows "\<exists>ended sent peer' c'. serve w i out peer c = (ended, out @ sent, peer', c') \<and>
    (if ended then \<not> sk_valid peer' else sk_waiting peer') \<and> (sk_closing peer \<longrightarrow> ended)"
  using assms
proof (induction w i out peer c rule: serve.induct)
  case (1 w i out peer c)
  obtain e o' peer' c' where t: "serve_turn (w i) peer c = (e, o', peer', c')" by (metis prod_cases4)
  note k = turn_waits[OF t]
  show ?case
  proof (cases e)
    case Again
    have "sk_closing peer' \<longrightarrow> \<not> sk_waiting peer'" using k "1.prems"(2) by auto
    then show ?thesis
      using "1.IH"[OF t[unfolded Again, symmetric] refl refl refl "1.prems"(1)] t Again k
      by (fastforce simp: serve.simps[of w i])
  next
    case Ended
    then show ?thesis using t by (intro exI[of _ True]) (simp add: serve.simps[of w i] socket_close_def)
  next
    case Blocked
    then have "sk_waiting peer'" using turn_blocked[of "w i"] "1.prems"(1) t by blast
    then show ?thesis using t Blocked k "1.prems"(2) by (auto simp: serve.simps[of w i])
  qed
qed

theorem session_ends_witness:
  "\<exists>sent peer' c'. serve (\<lambda>i. quiet\<lparr>sg_send := replicate reply_bound (SentBytes 1)\<rparr>) 0 []
     \<lparr>sk_valid = True, sk_incoming = [RecvData [1, 2], RecvData [3]], sk_closing = True, sk_waiting = False\<rparr> ready_coordinator =
     (True, sent, peer', c') \<and> \<not> sk_valid peer'"
  using session_ends[of "\<lambda>i. quiet\<lparr>sg_send := replicate reply_bound (SentBytes 1)\<rparr>"
      "\<lparr>sk_valid = True, sk_incoming = [RecvData [1, 2], RecvData [3]], sk_closing = True, sk_waiting = False\<rparr>" 0 "[]" ready_coordinator]
  by (fastforce simp: sends_through_def progresses_def list_all_iff)

text \<open>A client that connects and stays silent holds its session: there is no timeout on recv.\<close>

lemma silent_client_holds_session:
  assumes "\<not> co_shutdown_requested c"
  shows "serve w i out \<lparr>sk_valid = True, sk_incoming = [], sk_closing = False, sk_waiting = False\<rparr> c =
    (False, out, \<lparr>sk_valid = True, sk_incoming = [], sk_closing = False, sk_waiting = True\<rparr>, c)"
  using assms
  by (subst serve.simps) (simp add: serve_turn_def Let_def receive_frame_def receive_exact_def receive_loop.simps receive_some_def kFrameHeaderBytes_def)

text \<open>All that happens to the fabric in a session is a sequence of public operations, however it interleaves with
  other threads that call public operations too.\<close>

lemma session_refines_public_runs:
  assumes "\<forall>i k f. rtranclp public_step f (sg_others (w i) k f)"
  shows "rtranclp public_step (co_fabric c) (co_fabric (snd (snd (snd (serve w i out peer c)))))"
  by (rule any_run.serve_moves) (use assms in \<open>simp_all add: any_run.settled_def any_run.admitted_def\<close>)

subsection \<open>A remote request is the local operation\<close>

lemma fabric_ops_relock [simp]:
  "fabric_allocate t q (take_lock t' f) = fabric_allocate t q f"
  "fabric_release t rq (take_lock t' f) = fabric_release t rq f"
  by (simp_all add: fabric_allocate_def fabric_release_def locked_def take_lock_def)

lemma whole_enc:
  assumes "decode (enc e @ []) = Some (x, [])"
  shows "whole decode (enc e) = Some x"
  using assms by (simp add: whole_def)

lemma decode_summary_of_decision:
  assumes "named (dc_status d)"
  shows "decode_decision_summary (buffer (encode_decision_summary (summary_of_decision d) writer0)) = Some (summary_of_decision d, [])"
proof -
  have "pressure_state_raw p \<le> 5" for p by (cases p) simp_all
  moreover have "binding_constraint_raw b \<le> 21" for b using binding_raw_le[of b] by simp
  ultimately have "summary_fits (summary_of_decision d)"
    using assms by (simp add: summary_fits_def summary_of_decision_def)
  from summary_codec.get_put[OF this, of "[]"] show ?thesis by (simp add: enc_def)
qed

text \<open>What a client reads from the response to an allocate or a release: the decision in short, or the error.\<close>

definition read_decision :: "bytes \<Rightarrow> decision_summary result option" where
  "read_decision body =
     (case decode_response body of
        None \<Rightarrow> None
      | Some ((code, _, payload), _) \<Rightarrow>
          if code \<noteq> Ok then Some (Inl code)
          else map_option (\<lambda>(s, _). Inr s) (decode_decision_summary payload))"

lemma read_decision_error:
  "named code \<Longrightarrow> code \<noteq> Ok \<Longrightarrow> read_decision (response_body (respond p code words None)) = Some (Inl code)"
  using decode_respond[of "respond p code words None"] by (simp add: read_decision_def respond_def)

lemma read_decision_summary:
  "named (dc_status d) \<Longrightarrow>
   read_decision (response_body (respond p Ok words (Some (encode_decision_summary (summary_of_decision d) writer0)))) =
     Some (Inr (summary_of_decision d))"
  using decode_respond[of "respond p Ok words (Some (encode_decision_summary (summary_of_decision d) writer0))"]
  by (simp add: read_decision_def respond_def summary_length decode_summary_of_decision)

definition outcome_named :: "decision result \<Rightarrow> bool" where
  "outcome_named r \<longleftrightarrow> (case r of Inl code \<Rightarrow> named code \<and> code \<noteq> Ok | Inr d \<Rightarrow> named (dc_status d))"

text \<open>The fabric as the handler finds it when it takes the lock for the operation, after its own queries and whatever the other threads did.\<close>

definition found_by_handler :: "surroundings \<Rightarrow> coordinator \<Rightarrow> fabric" where
  "found_by_handler w c = sg_others w 2 (co_fabric (enter w 1 (enter w 0 c)))"

lemma dispatch_allocate_remote:
  assumes "mg_op m = OpAllocate" "mg_body m = enc (encode_allocate q)"
    and "valid (mg_epoch m)" "mg_epoch m = fb_epoch (co_fabric (enter w 1 (enter w 0 c)))"
    and "fabric_allocate (sg_tick w 2) (q\<lparr>ar_parent_allocation := 0\<rparr>) (found_by_handler w c) = (r, g)" "outcome_named r"
  shows "\<exists>reply c'. dispatch w m c = (reply, False, c') \<and> mg_request reply = mg_request m \<and> co_fabric c' = g \<and>
    read_decision (mg_body reply) = Some (map_sum id summary_of_decision r)"
proof -
  have b: "whole decode_allocate (mg_body m) = Some (q\<lparr>ar_parent_allocation := 0\<rparr>)"
    unfolding assms(2) by (rule whole_enc) (rule allocate_loses_parent)
  have a: "fst (dispatch_answer w m (enter w 0 c)) = (case r of
        Inl code \<Rightarrow> respond OpAllocate code (sg_detail w) None
      | Inr d \<Rightarrow> respond OpAllocate Ok ''allocate accepted'' (Some (encode_decision_summary (summary_of_decision d) writer0)))"
    "co_fabric (snd (dispatch_answer w m (enter w 0 c))) = g"
    using assms(1,3,4,5) b
    by (auto simp: dispatch_answer_def dispatch_fenced_def dispatch_allocate_def Let_def others_first_def found_by_handler_def
        served_one_def split: sum.split)
  show ?thesis
  proof (cases r)
    case (Inl code)
    then have "named code" "code \<noteq> Ok" using assms(6) by (simp_all add: outcome_named_def)
    then show ?thesis using a Inl read_decision_error
      by (auto simp: dispatch_def Let_def respond_def split: prod.split)
  next
    case (Inr d)
    then have "named (dc_status d)" using assms(6) by (simp add: outcome_named_def)
    then show ?thesis using a Inr read_decision_summary[of d OpAllocate "''allocate accepted''"]
      by (auto simp: dispatch_def Let_def respond_def split: prod.split)
  qed
qed

text \<open>C14: a remote allocation is the local one.  A client that sends an allocate request with the current
  epoch over its connection, in whatever segments the network makes of it, causes exactly one allocate of the fabric, in the
  state that the other threads have left when the handler takes the lock, whatever they did; the request is the one that was sent but for
  its parent allocation, which the wire does not carry.  The reply carries the request's identity, and what the client reads from
  it is the decision the fabric made, or the error it returned; the connection stays open for what follows.\<close>

theorem remote_allocate_faithful:
  assumes "delivers peer (encode_message m @ rest)" "\<not> co_shutdown_requested c"
    and "mg_op m = OpAllocate" "mg_body m = enc (encode_allocate q)"
    and "valid (mg_epoch m)" "mg_epoch m = fb_epoch (co_fabric (enter w 1 (enter w 0 c)))"
    and "fabric_allocate (sg_tick w 2) (q\<lparr>ar_parent_allocation := 0\<rparr>) (found_by_handler w c) = (r, g)" "outcome_named r"
    and "128 \<le> max_frame_bytes (co_config c)" "max_frame_bytes (co_config c) \<le> 0xFFFFFFFF" "sends_through w"
  shows "\<exists>reply peer' c'. serve_turn w peer c = (Again, encode_message reply, peer', c') \<and> delivers peer' rest \<and>
    co_fabric c' = g \<and> mg_request reply = mg_request m \<and>
    read_decision (mg_body reply) = Some (map_sum id summary_of_decision r)"
proof -
  let ?n = "unat (max_frame_bytes (co_config c))"
  have "length (mg_body m) \<le> 107" by (simp add: assms(4) encode_allocate_def)
  moreover have "128 \<le> ?n" "?n \<le> 0xFFFFFFFF" using assms(9,10) by (simp_all add: word_le_nat_alt)
  ultimately have n: "length (message_payload m) \<le> ?n" "length (mg_body m) \<le> ?n" "length (message_payload m) \<le> 0xFFFFFFFF"
    by (simp_all add: message_payload_conv)
  obtain peer' where f: "receive_frame ?n peer = (Inr (message_payload m), peer')" "delivers peer' rest"
    using receive_frame_delivers[OF _ n(1,3), of peer rest] assms(1) by (auto simp: encode_message_def)
  have d: "decode_message_payload (message_payload m) ?n = Inr m"
    using decode_message_body_payload[of m ?n] n assms(3) by (simp add: decode_message_payload_def message_payload_conv)
  obtain reply c' where a: "dispatch w m c = (reply, False, c')" "mg_request reply = mg_request m" "co_fabric c' = g"
    "read_decision (mg_body reply) = Some (map_sum id summary_of_decision r)"
    using dispatch_allocate_remote[OF assms(3-8)] by blast
  have "send_all (encode_message reply) (sg_send w) peer' = (Some (Inr ()), encode_message reply)"
    using send_loop_ends[of "sg_send w" "encode_message reply" "[]"] dispatch_reply_length[OF a(1)] assms(11) f(2)
    by (simp add: send_all_def sends_through_def delivers_def)
  then have "serve_turn w peer c = (Again, encode_message reply, peer', c')"
    using f(1) d a(1) assms(2) by (simp add: serve_turn_def Let_def session_end_def)
  then show ?thesis using f(2) a by blast
qed

text \<open>A request over the wire while other threads query the fabric in between: the grant of the worked run.\<close>

definition busy :: surroundings where
  "busy = \<lparr>sg_tick = \<lambda>k. of_nat k + 10, sg_others = \<lambda>k. take_lock 10, sg_detail = [], sg_send = replicate reply_bound (SentBytes 1)\<rparr>"

definition run_message :: message where
  "run_message = \<lparr>mg_op = OpAllocate, mg_request = 9, mg_epoch = 1, mg_body = enc (encode_allocate (run_request 1 40))\<rparr>"

lemma run_message_epoch: "valid (mg_epoch run_message)" "mg_epoch run_message = fb_epoch (co_fabric (enter busy 1 (enter busy 0 ready_coordinator)))"
proof -
  obtain m l r where r: "s_ready = ready 11 m l r" using s_ready_is_ready by metis
  show "valid (mg_epoch run_message)" by (simp add: run_message_def valid_def)
  show "mg_epoch run_message = fb_epoch (co_fabric (enter busy 1 (enter busy 0 ready_coordinator)))"
    by (simp add: run_message_def enter_def busy_def ready_coordinator_def r take_lock_def ready_simps)
qed

lemma busy_allocates:
  obtains d where "fabric_allocate (sg_tick busy 2) ((run_request 1 40)\<lparr>ar_parent_allocation := 0\<rparr>) (found_by_handler busy ready_coordinator) =
    (Inr d, s_granted)" "dc_granted_units d = 40" "dc_status d = Ok"
proof -
  obtain d where d: "fst (fabric_allocate 12 (run_request 1 40) s_ready) = Inr d" "dc_granted_units d = 40" "dc_status d = Ok"
    using s_granted by metis
  have q: "(run_request 1 40)\<lparr>ar_parent_allocation := 0\<rparr> = run_request 1 40" by (simp add: run_request_def)
  have "fabric_allocate (sg_tick busy 2) ((run_request 1 40)\<lparr>ar_parent_allocation := 0\<rparr>) (found_by_handler busy ready_coordinator) =
      (Inr d, s_granted)"
    unfolding q using d(1) by (simp add: busy_def found_by_handler_def enter_def ready_coordinator_def s_granted_def prod_eq_iff)
  with that d(2,3) show thesis by blast
qed

theorem remote_allocate_faithful_witness:
  "\<exists>reply peer' c' s. serve_turn busy \<lparr>sk_valid = True, sk_incoming = [RecvData (encode_message run_message)], sk_closing = False,
       sk_waiting = False\<rparr> ready_coordinator = (Again, encode_message reply, peer', c') \<and>
     co_fabric c' = s_granted \<and> read_decision (mg_body reply) = Some (Inr s) \<and> sm_granted_units s = 40"
proof -
  let ?peer = "\<lparr>sk_valid = True, sk_incoming = [RecvData (encode_message run_message)], sk_closing = False, sk_waiting = False\<rparr>"
  obtain d where d: "fabric_allocate (sg_tick busy 2) ((run_request 1 40)\<lparr>ar_parent_allocation := 0\<rparr>) (found_by_handler busy ready_coordinator) =
    (Inr d, s_granted)" "dc_granted_units d = 40" "dc_status d = Ok" by (rule busy_allocates)
  have "0 < length (encode_message run_message)" by (simp add: encode_message_def encode_frame_conv)
  then have de: "delivers ?peer (encode_message run_message @ [])"
    by (auto simp: delivers_def intro!: exI[of _ "[encode_message run_message]"])
  have c: "\<not> co_shutdown_requested ready_coordinator" "128 \<le> max_frame_bytes (co_config ready_coordinator)"
    "max_frame_bytes (co_config ready_coordinator) \<le> 0xFFFFFFFF"
    by (simp_all add: ready_coordinator_def coordinator0_def coordinator_config0_def kMaxFrameBytes_def word_le_nat_alt)
  have o: "sends_through busy" by (simp add: busy_def sends_through_def progresses_def list_all_iff)
  have m: "mg_op run_message = OpAllocate" "mg_body run_message = enc (encode_allocate (run_request 1 40))" by (simp_all add: run_message_def)
  have n: "outcome_named (Inr d)" by (simp add: outcome_named_def d(3))
  have "\<exists>reply peer' c'. serve_turn busy ?peer ready_coordinator = (Again, encode_message reply, peer', c') \<and> delivers peer' [] \<and>
      co_fabric c' = s_granted \<and> mg_request reply = mg_request run_message \<and>
      read_decision (mg_body reply) = Some (map_sum id summary_of_decision (Inr d))"
    by (rule remote_allocate_faithful[OF de c(1) m run_message_epoch d(1) n c(2,3) o])
  moreover have "sm_granted_units (summary_of_decision d) = 40" by (simp add: summary_of_decision_def d(2))
  ultimately show ?thesis by fastforce
qed

subsection \<open>Client slots\<close>

definition slots :: "coordinator \<Rightarrow> nat \<times> coordinator_config" where
  "slots c = (co_clients c, co_config c)"

lemma slots_kept [simp]:
  "slots (enter w k c) = slots c" "slots (others_first w k c) = slots c" "slots (served_one c) = slots c"
  "slots (rejected_one c) = slots c" "slots (c\<lparr>co_fabric := f\<rparr>) = slots c"
  "slots (c\<lparr>co_shutdown_requested := b, co_listening := b'\<rparr>) = slots c"
  by (simp_all add: slots_def enter_def others_first_def served_one_def rejected_one_def)

lemma handlers_keep_slots:
  "slots (snd (dispatch_hello w m c)) = slots c" "slots (snd (dispatch_allocate w m c)) = slots c"
  "slots (snd (dispatch_release w m c)) = slots c" "slots (snd (dispatch_evaluate w m c)) = slots c"
  "slots (snd (dispatch_pressure w m c)) = slots c" "slots (snd (dispatch_inspect w m c)) = slots c"
  "slots (snd (dispatch_shutdown c)) = slots c"
  subgoal by (simp add: dispatch_hello_def Let_def split: option.split)
  subgoal by (simp add: dispatch_allocate_def Let_def split: option.split prod.split sum.split)
  subgoal by (simp add: dispatch_release_def Let_def split: option.split prod.split sum.split)
  subgoal by (simp add: dispatch_evaluate_def Let_def split: option.split prod.split sum.split)
  subgoal by (simp add: dispatch_pressure_def Let_def split: option.split prod.split sum.split)
  subgoal by (simp add: dispatch_inspect_def Let_def split: option.split sum.split)
  subgoal by (simp add: dispatch_shutdown_def)
  done

lemma answer_keeps_slots: "slots (snd (dispatch_answer w m c)) = slots c"
  by (cases "mg_op m") (simp_all add: dispatch_answer_def dispatch_fenced_def Let_def handlers_keep_slots)

lemma dispatch_keeps_slots: "dispatch w m c = (reply, closing, c') \<Longrightarrow> slots c' = slots c"
  using answer_keeps_slots[of w m "enter w 0 c"] by (auto simp: dispatch_def Let_def split: prod.splits)

lemma turn_keeps_slots: "slots (snd (snd (snd (serve_turn w peer c)))) = slots c"
  using dispatch_keeps_slots[of w _ c]
  by (auto simp: serve_turn_def Let_def split: sum.split prod.split option.split)

lemma serve_keeps_slots: "slots (snd (snd (snd (serve w i out peer c)))) = slots c"
proof (induction w i out peer c rule: serve.induct)
  case (1 w i out peer c)
  obtain e o' peer' c' where t: "serve_turn (w i) peer c = (e, o', peer', c')" by (metis prod_cases4)
  then have "slots c' = slots c" using turn_keeps_slots[of "w i" peer c] by simp
  then show ?case using t "1.IH"[OF _ refl refl refl] by (cases e) (simp_all add: serve.simps[of w i])
qed

lemma full_refuses:
  assumes "unat (max_clients (co_config c)) \<le> co_clients c"
  shows "set (fst (accept_loop peers c)) \<subseteq> {Some refusal_frame}"
  using assms
proof (induction peers arbitrary: c)
  case (Cons a peers)
  have "set (fst (accept_loop peers (c\<lparr>co_rejected := co_rejected c + 1\<rparr>))) \<subseteq> {Some refusal_frame}"
    by (rule Cons.IH) (use Cons.prems in simp)
  then show ?case using Cons.IH[OF Cons.prems] Cons.prems
    by (auto simp: accept_peer_def split: prod.splits)
qed simp

text \<open>A client slot is never freed: when a session ends, its slot stays taken, so once max_clients connections have been
  accepted in all, every further one is refused although none may be open any more.\<close>

theorem client_slots_never_freed:
  assumes "unat (max_clients (co_config c)) \<le> co_clients c" "serve w i out peer c = (True, sent, peer', c')"
  shows "set (fst (accept_loop peers c')) \<subseteq> {Some refusal_frame}"
proof -
  have "slots c' = slots c" using serve_keeps_slots[of w i out peer c] assms(2) by simp
  then show ?thesis using assms(1) by (intro full_refuses) (simp add: slots_def)
qed

subsection \<open>Starting\<close>

text \<open>What every step of the runtime keeps, every program made of its operations keeps: reachability, and the invariant itself
  for a process that starts on a disk of unknown history.\<close>

locale kept_by_steps =
  fixes P :: "fabric \<Rightarrow> bool"
  assumes step: "P f \<Longrightarrow> fabric_step f g \<Longrightarrow> P g"
begin

lemmas ops =
  step[OF _ step_query] step[OF _ step_close] step[OF _ step_attach] step[OF _ step_effect]
  step[OF _ step_unsupported] step[OF _ step_capacity] step[OF _ step_policy]
  step[OF _ step_register_pool] step[OF _ step_register_queue] step[OF _ step_observe]

lemma try_st_keeps:
  assumes "P (snd m)" "\<And>x s. P s \<Longrightarrow> P (snd (k x s))"
  shows "P (snd (try_st m k))"
  using assms by (cases m) (auto simp: try_st_def split: sum.split)

lemma set_capacity_keeps:
  assumes "P f"
  shows "P (snd (snd (set_capacity ok query program ticks r i raw g (b, f))))"
proof -
  obtain t1 t2 t3 t4 where t: "ticks = (t1, t2, t3, t4)" by (metis prod_cases4)
  let ?e = "snd (capacity_count_effect (take_lock t2 (take_lock t1 f)))"
  have f1: "P (take_lock t1 f)" by (rule ops(1)[OF assms])
  have f2: "P ?e" by (rule ops(4)[OF f1])
  have f4: "P (snd (locked_scope t4 (capacity_publish r i raw g a) h))" if "P h" for h a
    by (rule ops(6)[OF that])
  have f3: "P (bump mt_backend_effects_unsupported_update (take_lock t3 ?e))" by (rule ops(5)[OF f2])
  have e: "capacity_count_effect (take_lock t2 (take_lock t1 f)) = (x, h) \<Longrightarrow> ?e = h" for x h by simp
  have p: "P k" if "locked_scope t4 (capacity_publish r i raw g a) h = (x, k)" "P h" for a h x k
    using f4[OF that(2), of a] that(1) by simp
  show ?thesis
    using assms f1 f2 f3
    by (auto simp: set_capacity_def t capacity_find_def Let_def intro: p
        split: sum.splits prod.splits if_splits dest!: e)
qed

end

interpretation reach: kept_by_steps reachable
  by unfold_locales (rule reach_step)

interpretation sound: kept_by_steps fabric_inv
  by unfold_locales (rule step_inv)

lemmas reach_ops = reach.ops
lemmas set_capacity_reachable = reach.set_capacity_keeps
lemmas try_st_reachable = reach.try_st_keeps

lemma bootstrap_evidence_reachable: "reachable f \<Longrightarrow> reachable (snd (bootstrap_evidence t c f))"
  by (auto simp: bootstrap_evidence_def Let_def intro!: reach_ops split: sum.split prod.split)
    (metis reach_ops(1) reach_ops(10) snd_conv)

lemma bootstrap_register_reachable:
  assumes "reachable f"
  shows "reachable (snd (bootstrap_register t c backend f))"
proof -
  have q: "reachable (snd (case fabric_register_queue (t 8) (bootstrap_queue c) g of
      (Inl e, f) \<Rightarrow> if e \<noteq> DuplicateQueue \<and> e \<noteq> DuplicateName then (Inl e, f) else bootstrap_evidence t c f
    | (Inr _, f) \<Rightarrow> bootstrap_evidence t c f))" if "reachable g" for g
    using reach_ops(9)[OF that, of "t 8" "bootstrap_queue c"]
    by (auto simp: bootstrap_evidence_reachable split: sum.split prod.split)
  have p: "reachable (take_lock (t 6) f)" by (rule reach_ops(1)[OF assms])
  show ?thesis
    unfolding bootstrap_register_def Let_def
    by (rule try_st_reachable[OF _ q]) (auto intro!: p try_st_reachable[OF reach_ops(8)] split: sum.split)
qed

lemma bootstrap_reachable:
  assumes "reachable f"
  shows "reachable (snd (snd (bootstrap_topology t c (b, f))))"
proof -
  let ?b = "set_resource (bootstrap_resource_id c) (bootstrap_resource_units c) 1 b"
  have a: "reachable (snd (attach_backend (t 0) i e f))" for i e by (rule reach_ops(3)[OF assms])
  have s: "reachable g'" if "set_capacity ok query program ticks r i raw g (b1, f1) = (x, b2, g')" "reachable f1"
    for ok query program ticks r i raw g b1 f1 x b2 g'
    using set_capacity_reachable[OF that(2), of ok query program ticks r i raw g b1] that(1) by simp
  have p: "reachable (snd (try_st (fabric_publish_policy (t 5) (bootstrap_policy c) g) (\<lambda>_ f. bootstrap_register t c j f)))"
    if "reachable g" for g j
    by (rule try_st_reachable[OF reach_ops(7)[OF that]]) (rule bootstrap_register_reachable)
  obtain x g where g: "attach_backend (t 0) (sb_id ?b) \<lparr>be_kind = SyntheticKind, be_generation = sb_generation ?b,
      be_ready = sb_ready ?b\<rparr> f = (x, g)" "reachable g"
    using a by (metis prod.collapse)
  obtain y b' h where h: "set_capacity sb_ready synthetic_query_capacity synthetic_program_reservation (t 1, t 2, t 3, t 4)
      (bootstrap_resource_id c) (sb_id ?b) (bootstrap_resource_units c) 0 (?b, g) = (y, b', h)" "reachable h"
    using s[OF _ g(2)] by (metis prod_cases3)
  show ?thesis
    using g h p[OF h(2), of "sb_id b'"]
    by (auto simp: bootstrap_topology_def Let_def split: sum.split prod.split)
qed

text \<open>C21: a coordinator starts sound.  Started without a state directory, with any configuration, clock, listener and
  bootstrap outcome, its fabric is one that public operations reach, so its ledger is exact; it is started and
  listening exactly when start reports success, which needs the address to be bound; starting a started
  coordinator changes nothing.\<close>

theorem coordinator_starts_sound:
  assumes "reachable (co_fabric c)" "cc_state_directory config = []" "\<not> co_listening c"
    and "coordinator_start t last_tick boot listened config c = (r, c')"
  shows "reachable (co_fabric c') \<and> ledger_inv (co_fabric c') \<and>
    (if co_started c then r = Inl LifecycleViolation \<and> c' = c
     else (co_started c' \<longleftrightarrow> r = Inr ()) \<and> (co_listening c' \<longleftrightarrow> r = Inr ()) \<and> (r = Inr () \<longrightarrow> listened = Inr ()))"
proof -
  have m: "pc_mode (cf_persistence (coordinator_fabric_config config)) = DurNone"
    using assms(2) by (simp add: coordinator_fabric_config_def Let_def fabric_config0_def persistence_config0_def)
  obtain x f where f: "fabric_open (t 0) boot (coordinator_fabric_config config) (co_fabric c) = (x, f)" by fastforce
  then have fr: "reachable f" using reach_step[OF assms(1) step_open[OF m, of "co_fabric c" "t 0" boot]] by simp
  obtain y b g where g: "(if cc_bootstrap_topology config then bootstrap_topology (\<lambda>k. t (Suc k)) config (co_backend c, f)
      else (Inr (), co_backend c, f)) = (y, b, g)" by (metis prod_cases3)
  then have gr: "reachable g" using fr bootstrap_reachable[OF fr, of "\<lambda>k. t (Suc k)" config "co_backend c"]
    by (auto split: if_splits)
  have cl: "reachable (snd (fabric_close last_tick g))" by (rule reach_ops(2)[OF gr])
  have s: "coordinator_start t last_tick boot listened config c = (case x of
      Inl e \<Rightarrow> (Inl e, c\<lparr>co_config := config, co_fabric := f\<rparr>)
    | Inr _ \<Rightarrow> case y of
        Inl e \<Rightarrow> (Inl e, c\<lparr>co_config := config, co_backend := b, co_fabric := snd (fabric_close last_tick g)\<rparr>)
      | Inr _ \<Rightarrow> case listened of
          Inl e \<Rightarrow> (Inl e, c\<lparr>co_config := config, co_backend := b, co_fabric := snd (fabric_close last_tick g)\<rparr>)
        | Inr _ \<Rightarrow> (Inr (), c\<lparr>co_config := config, co_backend := b, co_fabric := g, co_listening := True,
            co_shutdown_requested := False, co_started := True\<rparr>))" if "\<not> co_started c"
    using that g by (cases x; cases "cc_bootstrap_topology config") (auto simp: coordinator_start_def Let_def f)
  have "reachable (co_fabric c') \<and> (if co_started c then r = Inl LifecycleViolation \<and> c' = c
     else (co_started c' \<longleftrightarrow> r = Inr ()) \<and> (co_listening c' \<longleftrightarrow> r = Inr ()) \<and> (r = Inr () \<longrightarrow> listened = Inr ()))"
  proof (cases "co_started c")
    case True
    then show ?thesis using assms(1,4) by (auto simp: coordinator_start_def)
  next
    case False
    have "if co_started c then True else reachable (co_fabric c') \<and> (co_started c' \<longleftrightarrow> r = Inr ()) \<and>
        (co_listening c' \<longleftrightarrow> r = Inr ()) \<and> (r = Inr () \<longrightarrow> listened = Inr ())"
      using s[OF False, unfolded assms(4)] False assms(3) fr gr cl
      by (simp split: sum.splits)
    with False show ?thesis by simp
  qed
  then show ?thesis using reachable_inv[of "co_fabric c'"] by (simp add: fabric_inv_def)
qed

theorem coordinator_starts_sound_witness:
  "reachable (co_fabric (snd (coordinator_start (\<lambda>k. of_nat k) 50 run_boot (Inr ()) coordinator_config0 coordinator0)))"
proof -
  have "reachable (co_fabric coordinator0)" by (simp add: coordinator0_def reach_start)
  moreover have "cc_state_directory coordinator_config0 = []" "\<not> co_listening coordinator0"
    by (simp_all add: coordinator_config0_def coordinator0_def)
  ultimately show ?thesis
    using coordinator_starts_sound[of coordinator0 coordinator_config0 "\<lambda>k. of_nat k" 50 run_boot "Inr ()"]
    by (metis prod.collapse)
qed

end
