(* ===== verification/Memory_Mode.thy ===== *)
theory Memory_Mode
  imports Durability Sessions
begin

text \<open>
  A fabric without durability.  When the store of a fabric is in the mode None, no public operation touches it: nothing is written to the journal or
  the snapshot, whatever the operation does and however it ends.
\<close>

definition store_mode :: "store \<Rightarrow> durability_mode" where
  "store_mode s = pc_mode (st_config s)"

lemma keeps_in_memory_mode: "keeps_in_memory f \<longleftrightarrow> store_mode (fb_store f) = DurNone"
  by (simp add: keeps_in_memory_def store_mode_def)

text \<open>The rule of the proofs below: a step that keeps the store, followed by steps that do.\<close>

lemma store_try_st:
  assumes "fb_store (snd m) = s" "\<And>x g. m = (Inr x, g) \<Longrightarrow> fb_store g = s \<Longrightarrow> fb_store (snd (k x g)) = s"
  shows "fb_store (snd (try_st m k)) = s"
  using assms by (cases m; cases "fst m") auto

lemma store_sum: "(\<And>e. fb_store (snd (l e)) = s) \<Longrightarrow> (\<And>x. fb_store (snd (r x)) = s) \<Longrightarrow>
    fb_store (snd (case v of Inl e \<Rightarrow> l e | Inr x \<Rightarrow> r x)) = s"
  by (cases v) simp_all

lemma store_option: "fb_store (snd n) = s \<Longrightarrow> (\<And>x. fb_store (snd (r x)) = s) \<Longrightarrow>
    fb_store (snd (case v of None \<Rightarrow> n | Some x \<Rightarrow> r x)) = s"
  by (cases v) simp_all

lemma store_prod: "(\<And>x y. fb_store (snd (r x y)) = s) \<Longrightarrow> fb_store (snd (case v of (x, y) \<Rightarrow> r x y)) = s"
  by (cases v) simp

lemma store_if: "fb_store (snd a) = s \<Longrightarrow> fb_store (snd b) = s \<Longrightarrow> fb_store (snd (if c then a else b)) = s"
  by simp

lemmas store_rules = store_try_st store_sum store_option store_prod store_if

lemma journal_idle:
  assumes "keeps_in_memory f"
  shows "snd (journal opc payload f) = f" "snd (journal_writer opc put f) = f" "snd (write_full_snapshot f) = f"
  using assms by (simp_all add: journal_def journal_writer_def keeps_in_memory_def write_full_snapshot_def Let_def)

lemmas journals_defs = journal_policy_def journal_pool_def journal_queue_def journal_allocation_def journal_capacity_def
  journal_attempt_def journal_pressure_def

lemma journal_store:
  assumes "store_mode (fb_store f) = DurNone"
  shows "fb_store (snd (journal opc payload f)) = fb_store f" "fb_store (snd (journal_writer opc put f)) = fb_store f"
    "fb_store (snd (write_full_snapshot f)) = fb_store f" "fb_store (snd (journal_allocation opc a f)) = fb_store f"
  using journal_idle[of f] assms by (simp_all add: keeps_in_memory_mode journals_defs)

lemma more_store_kept [simp]:
  "fb_store (set_record i a f) = fb_store f" "fb_store (count_fence st p f) = fb_store f"
  "fb_store (conclude kind attempt d dd f) = fb_store f" "fb_store (set_queue i q f) = fb_store f"
  "fb_store (drop_queues p f) = fb_store f" "fb_store (keep_snapshot sn f) = fb_store f"
  by (simp_all add: set_record_def count_fence_def conclude_def set_queue_def drop_queues_def keep_snapshot_def map_runtime_def Let_def bump_def
      split: option.split allocation_state.split)

lemma debits_store [simp]:
  "fb_store (snd (debit_state p n b f)) = fb_store f" "fb_store (snd (debit_class p n b f)) = fb_store f"
  "fb_store (snd (debit_lender n l f)) = fb_store f"
  by (simp_all add: debit_state_def debit_class_def debit_lender_def split: option.split)

lemma release_units_store [simp]: "fb_store (snd (apply_release_units p a f)) = fb_store f"
  unfolding apply_release_units_def Let_def
  by (simp split: option.split) (intro impI allI store_try_st; simp)

lemma fence_store:
  assumes "store_mode (fb_store f) = DurNone"
  shows "fb_store (snd (fence_allocation_locked i a st f)) = fb_store f"
  unfolding fence_allocation_locked_def Let_def
  by (simp split: option.split) (intro impI allI store_try_st; simp add: assms journal_store)

lemma fence_members_store:
  assumes "store_mode (fb_store f) = DurNone"
  shows "fb_store (snd (fence_members due st ids n units f)) = fb_store f"
  using assms
proof (induction ids arbitrary: n units f)
  case (Cons i ids)
  have "fb_store (snd (try_st (fence_allocation_locked i a st f) (\<lambda>_. fence_members due st ids (n + 1) (units + al_units a)))) = fb_store f" for a
    by (intro store_try_st) (simp_all add: fence_store Cons)
  then show ?case using Cons by (simp split: option.split)
qed simp

lemma outcomes_store [simp]:
  "fb_store (snd (record_outcome kind attempt d a policy queue evidence req gn f)) = fb_store f"
  "fb_store (snd (pool_outcome dk units binding fence p policy evidence f)) = fb_store f"
  "fb_store (snd (replay_decision previous at e qi ru ai f)) = fb_store f"
  by (simp_all add: record_outcome_def pool_outcome_def replay_decision_def Let_def split: option.split)

lemma allocate_apply_store:
  assumes "store_mode (fb_store f) = DurNone"
  shows "fb_store (snd (allocate_apply a policy f)) = fb_store f"
  unfolding allocate_apply_def Let_def
  by (simp split: option.split) (intro impI allI store_try_st; simp add: assms journal_store)

lemma allocate_grant_store:
  assumes "store_mode (fb_store f) = DurNone"
  shows "fb_store (snd (allocate_grant q e queue policy evidence c grant binding f)) = fb_store f"
proof (cases "build_record q e queue policy c grant f")
  case (Inr a)
  show ?thesis
    unfolding allocate_grant_def Let_def Inr sum.case
    by (intro store_try_st; simp add: assms allocate_apply_store split: option.split)
qed (simp add: allocate_grant_def)

lemma allocate_store:
  assumes "store_mode (fb_store f) = DurNone"
  shows "fb_store (snd (allocate_locked q f)) = fb_store f"
proof -
  have "fb_store (snd (allocate_decide q e queue policy f)) = fb_store f" for e queue policy
    using assms by (simp add: allocate_decide_def Let_def allocate_grant_store split: prod.split)
  then show ?thesis by (simp add: allocate_locked_def split: sum.split prod.split option.split)
qed

lemma commit_store:
  assumes "store_mode (fb_store f) = DurNone"
  shows "fb_store (snd (commit_locked q f)) = fb_store f"
proof -
  have "fb_store (snd (commit_apply q a policy queue evidence f)) = fb_store f" for a policy queue evidence
    unfolding commit_apply_def Let_def by (intro store_try_st; simp add: assms journal_store)
  then show ?thesis by (simp add: commit_locked_def split: sum.split prod.split option.split)
qed

lemma release_store:
  assumes "store_mode (fb_store f) = DurNone"
  shows "fb_store (snd (release_locked q f)) = fb_store f"
proof -
  have "fb_store (snd (release_apply q a policy queue evidence r f)) = fb_store f" for a policy queue evidence r
    unfolding release_apply_def Let_def by (intro store_try_st; simp add: assms journal_store)
  then show ?thesis by (simp add: release_locked_def split: sum.split prod.split option.split)
qed

lemma revalidate_store:
  assumes "store_mode (fb_store f) = DurNone"
  shows "fb_store (snd (revalidate_locked q f)) = fb_store f"
proof -
  have "fb_store (snd (try_st (journal_allocation JAllocationRevalidated n f) (\<lambda>_ f. record_outcome k at d n policy queue ev u v
      (push_event EvAllocationRevalidated Ok p qu al un 0 (bump mt_revalidations_update (set_record i n f)))))) = fb_store f"
    for n k at d policy queue ev u v p qu al un i
    by (intro store_try_st; simp add: assms journal_store)
  then show ?thesis by (simp add: revalidate_locked_def Let_def split: sum.split prod.split option.split)
qed

lemma whole_pool_store:
  assumes "store_mode (fb_store f) = DurNone"
  shows "fb_store (snd (fence_stale_locked p f)) = fb_store f" "fb_store (snd (expire_reservations_locked p f)) = fb_store f"
proof -
  have k: "fb_store (snd (try_st (fence_members due st ids 0 0 f) (\<lambda>(n, units) f. k n units f))) = fb_store f"
    if "\<And>n units g. fb_store (snd (k n units g)) = fb_store g" for due st ids k
    by (intro store_try_st; simp add: assms fence_members_store that split: prod.split)
  show "fb_store (snd (fence_stale_locked p f)) = fb_store f" "fb_store (snd (expire_reservations_locked p f)) = fb_store f"
    by (auto simp: fence_stale_locked_def expire_reservations_locked_def Let_def split: sum.split intro!: k)
qed

subsection \<open>Topology\<close>

lemma journals_store:
  assumes "store_mode (fb_store f) = DurNone"
  shows "fb_store (snd (journal_policy p f)) = fb_store f" "fb_store (snd (journal_pool e f)) = fb_store f"
    "fb_store (snd (journal_queue q f)) = fb_store f" "fb_store (snd (journal_capacity c f)) = fb_store f"
    "fb_store (snd (journal_pressure sn f)) = fb_store f"
  using assms by (simp_all add: journals_defs journal_store)

lemma restores_store [simp]:
  "fb_store (restore_policy p f) = fb_store f" "fb_store (restore_entry e f) = fb_store f" "fb_store (restore_queue q f) = fb_store f"
  by (simp_all add: restore_policy_def restore_entry_def restore_queue_def Let_def)

lemma scoped_store [simp]:
  "(\<And>f. store_mode (fb_store f) = DurNone \<Longrightarrow> fb_store (snd (m f)) = fb_store f) \<Longrightarrow> store_mode (fb_store f) = DurNone \<Longrightarrow>
     fb_store (snd (locked_scope t m f)) = fb_store f"
  "(\<And>f. store_mode (fb_store f) = DurNone \<Longrightarrow> fb_store (snd (m f)) = fb_store f) \<Longrightarrow> store_mode (fb_store f) = DurNone \<Longrightarrow>
     fb_store (snd (locked t m f)) = fb_store f"
  "(\<And>f. store_mode (fb_store f) = DurNone \<Longrightarrow> fb_store (snd (m f)) = fb_store f) \<Longrightarrow> store_mode (fb_store f) = DurNone \<Longrightarrow>
     fb_store (snd (when_open m f)) = fb_store f"
  "(\<And>f. store_mode (fb_store f) = DurNone \<Longrightarrow> fb_store (snd (m f)) = fb_store f) \<Longrightarrow> store_mode (fb_store f) = DurNone \<Longrightarrow>
     fb_store (snd (unless_shutdown m f)) = fb_store f"
proof -
  assume m: "\<And>f. store_mode (fb_store f) = DurNone \<Longrightarrow> fb_store (snd (m f)) = fb_store f" and f: "store_mode (fb_store f) = DurNone"
  let ?g = "(take_lock t f)\<lparr>fb_events := []\<rparr>"
  have g: "fb_store (snd (m ?g)) = fb_store f" using m[of ?g] f by simp
  show "fb_store (snd (locked_scope t m f)) = fb_store f"
    using g by (cases "m ?g"; cases "fst (m ?g)") (auto simp: locked_scope_def)
  show "fb_store (snd (locked t m f)) = fb_store f"
    using g by (cases "m ?g") (simp add: locked_def Let_def)
  show "fb_store (snd (when_open m f)) = fb_store f" "fb_store (snd (unless_shutdown m f)) = fb_store f"
    using m f by (simp_all add: when_open_def unless_shutdown_def)
qed

lemma capacity_store:
  assumes "store_mode (fb_store f) = DurNone"
  shows "fb_store (snd (capacity_publish r b raw g authority f)) = fb_store f"
  unfolding capacity_publish_def Let_def
  by (intro store_rules; simp add: assms journals_store)

lemma policy_pools_store:
  assumes "store_mode (fb_store f) = DurNone"
  shows "fb_store (snd (fence_policy_pools p g ps f)) = fb_store f"
  using assms
proof (induction ps arbitrary: f)
  case (Cons i ps)
  have "fb_store (snd (try_st (fence_members due st ids 0 0 f) (\<lambda>_. fence_policy_pools p g ps))) = fb_store f" for due st ids
    by (intro store_try_st) (simp_all add: fence_members_store Cons)
  then show ?case using Cons by (simp split: option.split)
qed simp

lemma policy_store_store:
  assumes "store_mode (fb_store f) = DurNone"
  shows "fb_store (snd (policy_store policy f)) = fb_store f"
proof (cases "policy_validate policy")
  case (Inr u)
  have t: "fb_store (snd (try_st (fence_policy_pools p g ps h) (\<lambda>_ f. (Inr x, f)))) = fb_store h" if "fb_store h = fb_store f" for p g ps h x
    by (intro store_try_st) (simp_all add: policy_pools_store that assms)
  show ?thesis
    unfolding policy_store_def Let_def Inr sum.case
    by (intro store_try_st) (simp_all add: assms journals_store t)
qed (simp add: policy_store_def)

lemma publish_policy_store:
  assumes "store_mode (fb_store f) = DurNone"
  shows "fb_store (snd (publish_policy_locked request f)) = fb_store f"
  unfolding publish_policy_locked_def Let_def
  by (intro scoped_store assms store_rules; simp add: policy_store_store)

lemma register_store:
  assumes "store_mode (fb_store f) = DurNone"
  shows "fb_store (snd (register_pool_locked pg f)) = fb_store f" "fb_store (snd (register_queue_locked qg f)) = fb_store f"
  unfolding register_pool_locked_def register_queue_locked_def Let_def
  by (intro scoped_store assms store_rules; simp add: journals_store)+

lemma remove_store:
  assumes "store_mode (fb_store f) = DurNone"
  shows "fb_store (snd (remove_pool_locked p g f)) = fb_store f"
  unfolding remove_pool_locked_def Let_def
  by (intro scoped_store assms store_rules; simp add: journal_store)

lemma fence_until_store:
  assumes "store_mode (fb_store f) = DurNone"
  shows "fb_store (snd (fence_until stop tally ids acc f)) = fb_store f"
  using assms
proof (induction ids arbitrary: acc f)
  case (Cons i ids)
  show ?case unfolding fence_until.simps by (intro store_rules; simp add: fence_store Cons)
qed simp

lemma enforce_store:
  assumes "store_mode (fb_store f) = DurNone"
  shows "fb_store (snd (enforce_capacity p b f)) = fb_store f"
  unfolding enforce_capacity_def Let_def
  by (intro store_rules; simp add: assms fence_until_store)

lemma resize_store:
  assumes "store_mode (fb_store f) = DurNone"
  shows "fb_store (snd (resize_pool_locked p raw prot g f)) = fb_store f"
  unfolding resize_pool_locked_def Let_def
  by (intro scoped_store assms store_rules; simp add: journals_store enforce_store)

lemma queue_ops_store:
  assumes "store_mode (fb_store f) = DurNone"
  shows "fb_store (snd (update_queue_demand_locked i demand g f)) = fb_store f"
    "fb_store (snd (retire_queue_locked i g f)) = fb_store f" "fb_store (snd (retarget_queue_locked i p g f)) = fb_store f"
  unfolding update_queue_demand_locked_def retire_queue_locked_def retarget_queue_locked_def Let_def
  by (intro scoped_store assms store_rules; simp add: journals_store fence_members_store)+

lemma observe_store:
  assumes "store_mode (fb_store f) = DurNone"
  shows "fb_store (snd (observe_pressure_locked sn f)) = fb_store f"
  unfolding observe_pressure_locked_def Let_def reject_pressure_def
  by (intro scoped_store assms store_rules; simp add: journals_store)

lemma revoke_store:
  assumes "store_mode (fb_store f) = DurNone"
  shows "fb_store (snd (revoke ids acc f)) = fb_store f"
  using assms
proof (induction ids arbitrary: acc f)
  case (Cons i ids)
  show ?case unfolding revoke.simps by (intro store_rules; simp add: fence_store Cons)
qed simp

lemma reclaim_store:
  assumes "store_mode (fb_store f) = DurNone"
  shows "fb_store (snd (apply_reclaim_locked q f)) = fb_store f"
  unfolding apply_reclaim_locked_def Let_def
  by (intro store_rules; simp add: assms revoke_store)

subsection \<open>Runs\<close>

text \<open>What a fabric has on disk, and the mode of its store.\<close>

definition on_disk :: "store \<Rightarrow> bytes option \<times> bytes \<times> bytes option \<times> durability_mode" where
  "on_disk s = (disk_journal s, disk_synced s, disk_snapshot s, store_mode s)"

lemma on_disk_close [simp]: "on_disk (store_close s) = on_disk s"
  by (simp add: on_disk_def store_close_def journal_close_def store_mode_def)

lemma open_memory_disk:
  assumes "pc_mode (cf_persistence c) = DurNone"
  shows "on_disk (fb_store (snd (fabric_open t boot c f))) = on_disk (fb_store f)"
  using assms by (auto simp: fabric_open_def open_durable_def open_epoch_def Let_def try_st_def split: sum.split prod.split)

lemma close_disk: "on_disk (fb_store (snd (fabric_close t f))) = on_disk (fb_store f)"
  by (simp add: fabric_close_def Let_def)

definition durable_open :: "fabric \<Rightarrow> fabric \<Rightarrow> bool" where
  "durable_open f g \<longleftrightarrow> (\<exists>t boot c. pc_mode (cf_persistence c) \<noteq> DurNone \<and> fabric_open t boot c f = (Inr (), g))"

lemma memory_step_disk:
  assumes "public_step f g" "\<not> durable_open f g" "keeps_in_memory f"
  shows "on_disk (fb_store g) = on_disk (fb_store f)"
  using assms(1)
proof cases
  case public_fabric_step
  have m: "store_mode (fb_store f) = DurNone" using assms(3) by (simp add: keeps_in_memory_mode)
  from public_fabric_step show ?thesis
  proof cases
    case (step_recover c t boot)
    then show ?thesis using assms(2) by (auto simp: durable_open_def)
  next
    case step_operation
    then show ?thesis
  proof cases
    case (op_open c t boot)
    then show ?thesis using open_memory_disk by simp
  next
    case (op_checkpoint t)
    then show ?thesis
      using m by (auto simp: fabric_checkpoint_def checkpoint_locked_def Let_def journal_store split: sum.split)
  qed (simp_all add: m close_disk begin_shutdown_def set_event_sink_def attach_backend_def capacity_count_effect_def Let_def
      fabric_publish_policy_def fabric_register_pool_def fabric_remove_pool_def fabric_resize_pool_def fabric_register_queue_def
      fabric_update_queue_demand_def fabric_retire_queue_def fabric_retarget_queue_def fabric_observe_pressure_def
      fabric_allocate_def fabric_commit_def fabric_release_def fabric_revalidate_def fabric_fence_stale_def fabric_expire_reservations_def fabric_apply_reclaim_def
      capacity_store publish_policy_store register_store remove_store resize_store queue_ops_store observe_store
      allocate_store commit_store release_store revalidate_store whole_pool_store reclaim_store)
  qed
next
  case (public_release t rq)
  then show ?thesis using assms(3) by (simp add: fabric_release_def keeps_in_memory_mode release_store)
qed

text \<open>C9: a fabric without durability writes nothing.  Along any sequence of public operations, in any order and with any outcome,
  in which the fabric is not opened with a state directory, a fabric that keeps its state in memory leaves the journal and
  the snapshot on disk as they were and stays in that mode.\<close>

theorem memory_fabric_writes_nothing:
  assumes "(\<lambda>f g. public_step f g \<and> \<not> durable_open f g)\<^sup>*\<^sup>* f g" "keeps_in_memory f"
  shows "disk_journal (fb_store g) = disk_journal (fb_store f) \<and> disk_synced (fb_store g) = disk_synced (fb_store f) \<and>
    disk_snapshot (fb_store g) = disk_snapshot (fb_store f) \<and> keeps_in_memory g"
proof -
  have "on_disk (fb_store g) = on_disk (fb_store f)"
    using assms(1)
  proof induction
    case (step g h)
    then have "keeps_in_memory g" using assms(2) by (simp add: keeps_in_memory_mode on_disk_def)
    then show ?case using memory_step_disk[of g h] step by simp
  qed simp
  then show ?thesis using assms(2) by (simp add: on_disk_def keeps_in_memory_mode)
qed

lemmas s_ready_simps = observed_def queued_def pooled_def governed_def capped_def opened_def fabric0_def store0_def persistence_config0_def

theorem memory_fabric_writes_nothing_witness:
  "disk_journal (fb_store s_granted) = None \<and> disk_snapshot (fb_store s_granted) = None \<and> keeps_in_memory s_granted"
proof -
  let ?R = "\<lambda>f g. public_step f g \<and> \<not> durable_open f g"
  obtain mt l r where s: "s_ready = observed (queued (pooled (governed (capped (opened 11 mt l r)))))" using s_ready by blast
  have m: "keeps_in_memory s_ready" "disk_journal (fb_store s_ready) = None" "disk_snapshot (fb_store s_ready) = None"
    by (simp_all add: s keeps_in_memory_def s_ready_simps)
  have "fst (fabric_open t boot c s_ready) = Inl LifecycleViolation" for t boot c
    by (simp add: s fabric_open_def take_lock_def s_ready_simps)
  then have "\<not> durable_open s_ready g" for g by (metis durable_open_def fst_conv Inl_Inr_False)
  then have "?R s_ready s_granted"
    unfolding s_granted_def by (blast intro: public_fabric_step step_allocate)
  then have "?R\<^sup>*\<^sup>* s_ready s_granted" by (rule r_into_rtranclp)
  then show ?thesis using memory_fabric_writes_nothing[of s_ready s_granted] m by simp
qed

text \<open>A fabric object that was durable, closed and then opened without durability still journals: its store keeps the
  old mode but is closed, so every operation that journals fails.\<close>

lemma reopened_in_memory_refuses:
  assumes "store_mode (fb_store f) = JournalSync" "fabric_open t boot c (snd (fabric_close s f)) = (Inr (), g)"
    and "pc_mode (cf_persistence c) = DurNone" "fb_open f"
  shows "\<exists>e. fst (journal opc payload g) = Inl e"
proof -
  have "fb_store g = fb_store (snd (fabric_close s f))"
    using assms(2,3) by (auto simp: fabric_open_def open_durable_def open_epoch_def Let_def try_st_def split: sum.splits prod.splits if_splits)
  then have g: "store_mode (fb_store g) = JournalSync" "\<not> st_configured (fb_store g)"
    using assms(1,4) by (simp_all add: fabric_close_def take_lock_def Let_def store_close_def journal_close_def store_mode_def)
  have a: "append_record p (fb_store g) = (Inl LifecycleViolation, fb_store g)" "write_snapshot h p (fb_store g) = (Inl LifecycleViolation, fb_store g)" for p h
    using g(2) by (simp_all add: append_record_def write_snapshot_def)
  show ?thesis
    using g(1) a by (auto simp: journal_def store_mode_def write_full_snapshot_def on_store_def Let_def try_st_def split: prod.split)
qed

subsection \<open>Requests to a fabric in memory\<close>

lemma granted_in_memory: "keeps_in_memory s_granted"
proof -
  obtain mt l r where s: "s_ready = ready 11 mt l r" using s_ready_is_ready by metis
  have "store_mode (fb_store s_ready) = DurNone" by (simp add: s store_mode_def ready_fields store0_def persistence_config0_def)
  then show ?thesis
    unfolding s_granted_def keeps_in_memory_mode by (simp add: fabric_allocate_def allocate_store)
qed

text \<open>The grant of the worked run and its release, both over the wire, while other threads query the fabric.\<close>

definition run_release :: message where
  "run_release = \<lparr>mg_op = OpRelease, mg_request = 10, mg_epoch = 1, mg_body = enc (encode_release
     \<lparr>rr_attempt = 2, rr_allocation = 1, rr_units = 0, rr_release_all = True, rr_expected_pool_generation = 0, rr_expected_epoch = 0\<rparr>)\<rparr>"


end
