(* ===== verification/Worker.thy ===== *)
theory Worker
  imports Transport Protocol
begin

text \<open>
  The worker: include/buffer_fabric/worker.hpp and src/worker.cpp.  The connection holds the socket with what the
  coordinator will answer, the answers of the send calls of each exchange and what went out.  A step
  that is still sending, or waits for an answer that does not come, has no result (None); an error return keeps the report so far, which the caller of
  run_worker does not see.
\<close>

record accounting_report_like =
  rl_closed :: bool
  rl_raw_total :: u64
  rl_protected_total :: u64
  rl_allocated_total :: u64
  rl_free_total :: u64
  rl_borrowed_total :: u64
  rl_lent_total :: u64
  rl_overcommit_total :: u64
  rl_pools_observed :: u64

record worker_config =
  wc_port :: u16
  wc_pool :: pool_id
  wc_queue :: queue_id
  wc_units :: u64
  wc_operations :: u64
  wc_claim_epoch :: epoch_id
  wc_expected_epoch :: epoch_id
  wc_attempt_base :: u64

record worker_report =
  wr_connected :: bool
  wr_handshake_ok :: bool
  wr_stale_epoch_rejected :: bool
  wr_protocol_error :: bool
  wr_operations_attempted :: u64
  wr_grants :: u64
  wr_partial_grants :: u64
  wr_refusals :: u64
  wr_release_ok :: u64
  wr_error_responses :: u64
  wr_granted_units :: u64
  wr_released_units :: u64
  wr_bytes_sent :: u64
  wr_bytes_received :: u64
  wr_coordinator_epoch :: epoch_id
  wr_coordinator_boot :: boot_incarnation
  wr_accounting :: accounting_report_like

definition worker_report0 :: worker_report where
  "worker_report0 = \<lparr>wr_connected = False, wr_handshake_ok = False, wr_stale_epoch_rejected = False,
     wr_protocol_error = False, wr_operations_attempted = 0, wr_grants = 0, wr_partial_grants = 0, wr_refusals = 0,
     wr_release_ok = 0, wr_error_responses = 0, wr_granted_units = 0, wr_released_units = 0, wr_bytes_sent = 0,
     wr_bytes_received = 0, wr_coordinator_epoch = 0, wr_coordinator_boot = \<lparr>bi_hi = 0, bi_lo = 0\<rparr>,
     wr_accounting = \<lparr>rl_closed = False, rl_raw_total = 0, rl_protected_total = 0, rl_allocated_total = 0,
       rl_free_total = 0, rl_borrowed_total = 0, rl_lent_total = 0, rl_overcommit_total = 0, rl_pools_observed = 0\<rparr>\<rparr>"

record link =
  lk_socket :: socket
  lk_sends :: "nat \<Rightarrow> send_answer list"
  lk_turn :: nat
  lk_out :: bytes

type_synonym 'a step = "link \<times> worker_report \<Rightarrow> 'a result option \<times> link \<times> worker_report"

definition then_step :: "'a result option \<times> 's \<Rightarrow> ('a \<Rightarrow> 's \<Rightarrow> 'b result option \<times> 's) \<Rightarrow> 'b result option \<times> 's" where
  "then_step m k =
     (case m of (None, s) \<Rightarrow> (None, s) | (Some (Inl e), s) \<Rightarrow> (Some (Inl e), s) | (Some (Inr x), s) \<Rightarrow> k x s)"

definition fail :: "error_code \<Rightarrow> (worker_report \<Rightarrow> worker_report) \<Rightarrow> 'a step" where
  "fail code note_it = (\<lambda>(l, r). (Some (Inl code), l, note_it r))"

definition protocol_error :: "worker_report \<Rightarrow> worker_report" where
  "protocol_error r = r\<lparr>wr_protocol_error := True\<rparr>"

definition exchange :: "message \<Rightarrow> message step" where
  "exchange request = (\<lambda>(l, r).
     (let frame = encode_message request;
          r = r\<lparr>wr_bytes_sent := wr_bytes_sent r + of_nat (length frame)\<rparr>;
          (sent, out) = send_all frame (lk_sends l (lk_turn l)) (lk_socket l);
          l = l\<lparr>lk_turn := Suc (lk_turn l), lk_out := lk_out l @ out\<rparr>
      in case sent of None \<Rightarrow> (None, l, r)
      | Some (Inl code) \<Rightarrow> (Some (Inl code), l, r)
      | Some (Inr _) \<Rightarrow>
        case receive_frame kMaxFrameBytes (lk_socket l) of
          (Inl code, s) \<Rightarrow> (if sk_waiting s then None else Some (Inl code), l\<lparr>lk_socket := s\<rparr>, r)
        | (Inr incoming, s) \<Rightarrow>
          (Some (decode_message_payload incoming kMaxFrameBytes), l\<lparr>lk_socket := s\<rparr>,
           r\<lparr>wr_bytes_received := wr_bytes_received r + of_nat (length incoming)\<rparr>)))"

definition hello_message :: "worker_config \<Rightarrow> message" where
  "hello_message c = \<lparr>mg_op = OpHello, mg_request = 1, mg_epoch = wc_claim_epoch c,
     mg_body = buffer (encode_hello_request \<lparr>hr_protocol_version = kProtocolVersion, hr_claimed_epoch = wc_claim_epoch c,
       hr_client_boot = \<lparr>bi_hi = 0, bi_lo = 0\<rparr>\<rparr> writer0)\<rparr>"

text \<open>False when the coordinator refused the claimed epoch; the report is then returned as it is.\<close>

definition accept_hello :: "message \<Rightarrow> bool step" where
  "accept_hello reply = (\<lambda>(l, r).
     case decode_response (mg_body reply) of
       None \<Rightarrow> fail ProtocolViolation protocol_error (l, r)
     | Some ((status, words, payload), _) \<Rightarrow>
       if status = StaleEpoch then (Some (Inr False), l, r\<lparr>wr_stale_epoch_rejected := True\<rparr>)
       else if status \<noteq> Ok then fail status protocol_error (l, r)
       else if mg_op reply \<noteq> OpHelloAck then fail ProtocolViolation protocol_error (l, r)
       else case decode_hello_response payload of
           None \<Rightarrow> fail ProtocolViolation protocol_error (l, r)
         | Some (ack, _) \<Rightarrow>
             if hp_protocol_version ack \<noteq> kProtocolVersion then fail ProtocolVersionMismatch protocol_error (l, r)
             else (Some (Inr True), l, r\<lparr>wr_coordinator_epoch := hp_coordinator_epoch ack,
                     wr_coordinator_boot := hp_coordinator_boot ack, wr_handshake_ok := True\<rparr>))"

definition handshake :: "worker_config \<Rightarrow> bool step" where
  "handshake c s = then_step (exchange (hello_message c) s) accept_hello"

definition report_accounting :: "pool_accounting \<Rightarrow> worker_report \<Rightarrow> worker_report" where
  "report_accounting a r = r\<lparr>wr_accounting := \<lparr>rl_closed = True, rl_raw_total = ac_raw a,
     rl_protected_total = ac_protected_units a, rl_allocated_total = ac_allocated a, rl_free_total = ac_free a,
     rl_borrowed_total = ac_borrowed_in a, rl_lent_total = ac_lent_out a, rl_overcommit_total = ac_overcommit_used a,
     rl_pools_observed = 1\<rparr>\<rparr>"

definition worker_allocate :: "worker_config \<Rightarrow> epoch_id \<Rightarrow> attempt_id \<Rightarrow> request_id \<Rightarrow> message" where
  "worker_allocate c e attempt request = \<lparr>mg_op = OpAllocate, mg_request = request, mg_epoch = e,
     mg_body = buffer (encode_allocate \<lparr>ar_attempt = attempt, ar_pool = wc_pool c, ar_queue = wc_queue c,
       ar_requested_units = wc_units c, ar_reclaim_class = Reclaimable, ar_reclaim_priority = 0, ar_ttl_ticks = 0,
       ar_commit_immediately = True, ar_parent_allocation = 0, ar_provenance = 0, ar_expected_pool_generation = 0,
       ar_expected_policy_generation = 0, ar_expected_queue_generation = 0, ar_expected_capacity_generation = 0,
       ar_expected_epoch = e\<rparr> writer0)\<rparr>"

definition worker_release :: "epoch_id \<Rightarrow> attempt_id \<Rightarrow> request_id \<Rightarrow> allocation_id \<Rightarrow> message" where
  "worker_release e attempt request allocation = \<lparr>mg_op = OpRelease, mg_request = request, mg_epoch = e,
     mg_body = buffer (encode_release \<lparr>rr_attempt = attempt, rr_allocation = allocation, rr_units = 0,
       rr_release_all = True, rr_expected_pool_generation = 0, rr_expected_epoch = e\<rparr> writer0)\<rparr>"

text \<open>The decision of a response, with the two ways an allocate response and a release response end early;
  None in the result when the epoch was refused.\<close>

definition count_attempt :: "worker_report \<Rightarrow> worker_report" where
  "count_attempt r = r\<lparr>wr_operations_attempted := wr_operations_attempted r + 1\<rparr>"

definition count_error :: "worker_report \<Rightarrow> worker_report" where
  "count_error r = r\<lparr>wr_error_responses := wr_error_responses r + 1\<rparr>"

definition accept_allocate :: "message \<Rightarrow> decision_summary option step" where
  "accept_allocate reply = (\<lambda>(l, r).
     case decode_response (mg_body reply) of
       None \<Rightarrow> fail ProtocolViolation protocol_error (l, r)
     | Some ((status, words, payload), _) \<Rightarrow>
       let r = count_attempt r in
       if status = StaleEpoch then (Some (Inr None), l, r\<lparr>wr_stale_epoch_rejected := True\<rparr>)
       else if status \<noteq> Ok then fail status count_error (l, r)
       else case decode_decision_summary payload of
           None \<Rightarrow> fail ProtocolViolation protocol_error (l, r)
         | Some (s, _) \<Rightarrow> (Some (Inr (Some s)), l, report_accounting (sm_accounting s) r))"

definition accept_release :: "message \<Rightarrow> unit step" where
  "accept_release reply = (\<lambda>(l, r).
     case decode_response (mg_body reply) of
       None \<Rightarrow> fail ProtocolViolation protocol_error (l, r)
     | Some ((status, words, payload), _) \<Rightarrow>
       if status \<noteq> Ok then fail status count_error (l, r)
       else case decode_decision_summary payload of
           None \<Rightarrow> fail ProtocolViolation protocol_error (l, r)
         | Some (s, _) \<Rightarrow> (Some (Inr ()), l, r\<lparr>wr_release_ok := wr_release_ok r + 1,
             wr_released_units := wr_released_units r + sm_granted_units s\<rparr>))"

definition refused :: "decision_summary \<Rightarrow> bool" where
  "refused s \<longleftrightarrow> sm_granted_units s = 0 \<or> sm_status s \<noteq> Ok"

definition count_refusal :: "worker_report \<Rightarrow> worker_report" where
  "count_refusal r = r\<lparr>wr_refusals := wr_refusals r + 1\<rparr>"

definition count_granted :: "decision_summary \<Rightarrow> worker_report \<Rightarrow> worker_report" where
  "count_granted s r =
     (let r = (if sm_kind s = Grant then r\<lparr>wr_grants := wr_grants r + 1\<rparr>
               else if sm_kind s = GrantPartial then r\<lparr>wr_partial_grants := wr_partial_grants r + 1\<rparr> else r)
      in r\<lparr>wr_granted_units := wr_granted_units r + sm_granted_units s\<rparr>)"

text \<open>The loop over the operations; the result is False when the epoch was refused on the way.\<close>

fun worker_loop :: "nat \<Rightarrow> worker_config \<Rightarrow> epoch_id \<Rightarrow> u64 \<Rightarrow> bool step" where
  "worker_loop 0 c e attempt s = (Some (Inr True), s)"
| "worker_loop (Suc n) c e attempt s =
     then_step (then_step (exchange (worker_allocate c e attempt (attempt + 1)) s) accept_allocate) (\<lambda>answer (l, r).
       case answer of
         None \<Rightarrow> (Some (Inr False), l, r)
       | Some d \<Rightarrow>
         if refused d then worker_loop n c e (attempt + 1) (l, count_refusal r)
         else then_step (then_step (exchange (worker_release e (attempt + 1) (attempt + 2) (sm_allocation d))
                 (l, count_granted d r)) accept_release)
                (\<lambda>_ s. worker_loop n c e (attempt + 2) s))"

definition kMaxWorkerOperations :: u64 where "kMaxWorkerOperations = 2 ^ 24"

definition worker_session :: "worker_config \<Rightarrow> bool step" where
  "worker_session c s = then_step (handshake c s) (\<lambda>accepted (l, r).
     if \<not> accepted then (Some (Inr False), l, r)
     else let e = (if valid (wc_expected_epoch c) then wc_expected_epoch c else wr_coordinator_epoch r)
          in worker_loop (unat (wc_operations c)) c e (wc_attempt_base c + 1) (l, r))"

text \<open>The argument connected is the answer of connect.\<close>

definition run_worker :: "worker_config \<Rightarrow> void_result \<Rightarrow> link \<Rightarrow> worker_report result option \<times> link" where
  "run_worker c connected l =
     (if wc_port c = 0 then (Some (Inl InvalidArgument), l)
      else if wc_operations c > kMaxWorkerOperations then (Some (Inl BoundedResourceExhausted), l)
      else case ensure_sockets_initialised of Inl code \<Rightarrow> (Some (Inl code), l) | Inr _ \<Rightarrow>
      case connected of Inl code \<Rightarrow> (Some (Inl code), l)
      | Inr _ \<Rightarrow>
        let (outcome, l, r) = worker_session c (l, worker_report0\<lparr>wr_connected := True\<rparr>)
        in case outcome of
          None \<Rightarrow> (None, l)
        | Some (Inl code) \<Rightarrow> (Some (Inl code), l\<lparr>lk_socket := socket_close (lk_socket l)\<rparr>)
        | Some (Inr _) \<Rightarrow> (Some (Inr r), l\<lparr>lk_socket := socket_close (lk_socket l)\<rparr>))"

subsection \<open>The report\<close>

definition counts :: "worker_report \<Rightarrow> worker_report" where
  "counts r = r\<lparr>wr_bytes_sent := 0, wr_bytes_received := 0\<rparr>"

lemma exchange_counts: "exchange m (l, r) = (x, l', r') \<Longrightarrow> counts r' = counts r"
  by (auto simp: exchange_def counts_def Let_def split: prod.splits option.splits sum.splits)

text \<open>What holds of the report between operations, with the number of them done.\<close>

definition tallies :: "nat \<Rightarrow> worker_report \<Rightarrow> bool" where
  "tallies n r \<longleftrightarrow> wr_connected r \<and> wr_handshake_ok r \<and> \<not> wr_stale_epoch_rejected r \<and> \<not> wr_protocol_error r \<and>
     wr_error_responses r = 0 \<and> unat (wr_operations_attempted r) = n \<and>
     unat (wr_refusals r) + unat (wr_release_ok r) = n \<and>
     unat (wr_grants r) + unat (wr_partial_grants r) \<le> unat (wr_release_ok r)"

lemma tallies_counts: "counts r' = counts r \<Longrightarrow> tallies n r' = tallies n r"
  by (cases r; cases r') (simp add: counts_def tallies_def)

lemma then_step_Inr:
  "then_step m k = (Some (Inr y), s) \<longleftrightarrow> (\<exists>x t. m = (Some (Inr x), t) \<and> k x t = (Some (Inr y), s))"
  by (auto simp: then_step_def split: prod.splits option.splits sum.splits)

lemma unat_next: "unat (v :: u64) < 2 ^ 32 \<Longrightarrow> unat (v + 1) = Suc (unat v)"
  by (simp add: unat_word_ariths)

text \<open>One operation: ended by a refused epoch, refused, or granted and released.\<close>

definition interrupted :: "nat \<Rightarrow> worker_report \<Rightarrow> bool" where
  "interrupted n r \<longleftrightarrow> wr_connected r \<and> wr_handshake_ok r \<and> wr_stale_epoch_rejected r \<and> \<not> wr_protocol_error r \<and>
     wr_error_responses r = 0 \<and> unat (wr_operations_attempted r) = Suc n \<and>
     unat (wr_refusals r) + unat (wr_release_ok r) = n \<and>
     unat (wr_grants r) + unat (wr_partial_grants r) \<le> unat (wr_release_ok r)"

lemma accept_allocate_cases:
  assumes "accept_allocate reply (l, r) = (Some (Inr answer), s')"
  shows "(answer = None \<and> s' = (l, (count_attempt r)\<lparr>wr_stale_epoch_rejected := True\<rparr>)) \<or>
    (\<exists>d. answer = Some d \<and> s' = (l, report_accounting (sm_accounting d) (count_attempt r)))"
  using assms by (auto simp: accept_allocate_def fail_def Let_def split: option.splits if_splits)

lemma accept_release_done:
  assumes "accept_release reply (l, r) = (Some (Inr x), s')"
  shows "\<exists>u. s' = (l, r\<lparr>wr_release_ok := wr_release_ok r + 1, wr_released_units := u\<rparr>)"
  using assms by (auto simp: accept_release_def fail_def split: option.splits if_splits)

lemma tallies_interrupted:
  "tallies n r \<Longrightarrow> n < 2 ^ 32 \<Longrightarrow> interrupted n ((count_attempt r)\<lparr>wr_stale_epoch_rejected := True\<rparr>)"
  by (simp add: tallies_def interrupted_def count_attempt_def unat_next)

lemma tallies_refusal:
  assumes "tallies n r" "n < 2 ^ 32"
  shows "tallies (Suc n) (count_refusal (report_accounting a (count_attempt r)))"
  using assms by (simp add: tallies_def count_refusal_def report_accounting_def count_attempt_def unat_next)

lemma tallies_release:
  assumes "tallies n r" "n < 2 ^ 32" "counts r1 = counts (count_granted d (report_accounting a (count_attempt r)))"
  shows "tallies (Suc n) (r1\<lparr>wr_release_ok := wr_release_ok r1 + 1, wr_released_units := u\<rparr>)"
proof -
  have "tallies (Suc n) (r2\<lparr>wr_release_ok := wr_release_ok r2 + 1, wr_released_units := u\<rparr>)"
    if "r2 = count_granted d (report_accounting a (count_attempt r))" for r2
    using assms(1,2) that
    by (auto simp: tallies_def count_granted_def report_accounting_def count_attempt_def unat_next Let_def)
  moreover have "counts (r1\<lparr>wr_release_ok := wr_release_ok r1 + 1, wr_released_units := u\<rparr>) =
      counts (r2\<lparr>wr_release_ok := wr_release_ok r2 + 1, wr_released_units := u\<rparr>)" if "counts r1 = counts r2" for r2
    using that by (cases r1; cases r2) (simp add: counts_def)
  ultimately show ?thesis using assms(3) tallies_counts by blast
qed

lemma worker_loop_report:
  assumes "worker_loop n c e attempt (l, r) = (Some (Inr b), l', r')" "tallies k r" "k + n < 2 ^ 32"
  shows "if b then tallies (k + n) r' else \<exists>j < k + n. interrupted j r'"
  using assms
proof (induction n arbitrary: k attempt l r)
  case (Suc n)
  obtain reply l1 r1 answer l2 r2 where x: "exchange (worker_allocate c e attempt (attempt + 1)) (l, r) = (Some (Inr reply), l1, r1)"
    "accept_allocate reply (l1, r1) = (Some (Inr answer), l2, r2)"
    and go: "(case answer of None \<Rightarrow> (Some (Inr False), l2, r2)
       | Some d \<Rightarrow>
         if refused d then worker_loop n c e (attempt + 1) (l2, count_refusal r2)
         else then_step (then_step (exchange (worker_release e (attempt + 1) (attempt + 2) (sm_allocation d))
                 (l2, count_granted d r2)) accept_release)
                (\<lambda>_ s. worker_loop n c e (attempt + 2) s)) = (Some (Inr b), l', r')"
    using Suc.prems(1) by (auto simp: then_step_Inr)
  have t1: "tallies k r1" using exchange_counts[OF x(1)] tallies_counts Suc.prems(2) by blast
  have k: "k < 2 ^ 32" using Suc.prems(3) by simp
  consider (stale) "answer = None" "r2 = (count_attempt r1)\<lparr>wr_stale_epoch_rejected := True\<rparr>"
    | (decided) d where "answer = Some d" "r2 = report_accounting (sm_accounting d) (count_attempt r1)"
    using accept_allocate_cases[OF x(2)] by auto
  then show ?case
  proof cases
    case stale
    then show ?thesis using go tallies_interrupted[OF t1 k] by (auto intro: exI[of _ k])
  next
    case decided
    have next_ok: "if b then tallies (k + Suc n) r' else \<exists>j < k + Suc n. interrupted j r'"
      if "worker_loop n c e attempt' (l3, r3) = (Some (Inr b), l', r')" "tallies (Suc k) r3" for attempt' l3 r3
      using Suc.IH[OF that] Suc.prems(3) by (simp split: if_splits)
    show ?thesis
    proof (cases "refused d")
      case True
      then have "worker_loop n c e (attempt + 1) (l2, count_refusal r2) = (Some (Inr b), l', r')"
        using go decided(1) by simp
      then show ?thesis using next_ok tallies_refusal[OF t1 k] decided(2) by blast
    next
      case False
      then obtain reply' l3 r3 l4 r4 y where y:
        "exchange (worker_release e (attempt + 1) (attempt + 2) (sm_allocation d)) (l2, count_granted d r2) = (Some (Inr reply'), l3, r3)"
        "accept_release reply' (l3, r3) = (Some (Inr y), l4, r4)"
        "worker_loop n c e (attempt + 2) (l4, r4) = (Some (Inr b), l', r')"
        using go decided(1) by (auto simp: then_step_Inr)
      have "tallies (Suc k) r4"
        using accept_release_done[OF y(2)] tallies_release[OF t1 k, of r3 d "sm_accounting d"] exchange_counts[OF y(1)] decided(2)
        by auto
      then show ?thesis using next_ok[OF y(3)] by blast
    qed
  qed
qed simp

definition exact_report :: "worker_config \<Rightarrow> worker_report \<Rightarrow> bool" where
  "exact_report c r \<longleftrightarrow> wr_connected r \<and> \<not> wr_protocol_error r \<and> wr_error_responses r = 0 \<and>
    (if wr_handshake_ok r then
       unat (wr_operations_attempted r) = unat (wr_refusals r) + unat (wr_release_ok r) + (if wr_stale_epoch_rejected r then 1 else 0) \<and>
       unat (wr_grants r) + unat (wr_partial_grants r) \<le> unat (wr_release_ok r) \<and>
       wr_operations_attempted r \<le> wc_operations c \<and>
       (\<not> wr_stale_epoch_rejected r \<longrightarrow> wr_operations_attempted r = wc_operations c)
     else wr_stale_epoch_rejected r \<and> wr_operations_attempted r = 0 \<and> wr_release_ok r = 0)"

lemma accept_hello_cases:
  assumes "accept_hello reply (l, r) = (Some (Inr accepted), l', r')"
  shows "(\<not> accepted \<and> r' = r\<lparr>wr_stale_epoch_rejected := True\<rparr>) \<or>
    (accepted \<and> (\<exists>e b. r' = r\<lparr>wr_coordinator_epoch := e, wr_coordinator_boot := b, wr_handshake_ok := True\<rparr>))"
  using assms by (auto simp: accept_hello_def fail_def split: option.splits if_splits) blast+

lemma tallies_exact: "tallies (unat (wc_operations c)) r \<Longrightarrow> exact_report c r"
  by (auto simp: tallies_def exact_report_def word_le_nat_alt unsigned_word_eqI)

lemma interrupted_exact: "interrupted j r \<Longrightarrow> j < unat (wc_operations c) \<Longrightarrow> exact_report c r"
  by (auto simp: interrupted_def exact_report_def word_le_nat_alt)

lemma worker_session_exact:
  assumes "worker_session c (l, worker_report0\<lparr>wr_connected := True\<rparr>) = (Some (Inr b), l', r)" "wc_operations c \<le> kMaxWorkerOperations"
  shows "exact_report c r"
proof -
  let ?r0 = "worker_report0\<lparr>wr_connected := True\<rparr>"
  obtain reply l1 r1 accepted l2 r2 where h: "exchange (hello_message c) (l, ?r0) = (Some (Inr reply), l1, r1)"
    "accept_hello reply (l1, r1) = (Some (Inr accepted), l2, r2)"
    and go: "(if \<not> accepted then (Some (Inr False), l2, r2)
       else let e = (if valid (wc_expected_epoch c) then wc_expected_epoch c else wr_coordinator_epoch r2)
          in worker_loop (unat (wc_operations c)) c e (wc_attempt_base c + 1) (l2, r2)) = (Some (Inr b), l', r)"
    using assms(1) by (auto simp: worker_session_def handshake_def then_step_Inr)
  have r1: "counts r1 = counts ?r0" by (rule exchange_counts[OF h(1)])
  show ?thesis
  proof (cases accepted)
    case False
    then have "r = r1\<lparr>wr_stale_epoch_rejected := True\<rparr>" using go accept_hello_cases[OF h(2)] by auto
    then show ?thesis using r1 by (cases r1) (simp add: exact_report_def counts_def worker_report0_def)
  next
    case True
    then obtain e boot where r2: "r2 = r1\<lparr>wr_coordinator_epoch := e, wr_coordinator_boot := boot, wr_handshake_ok := True\<rparr>"
      using accept_hello_cases[OF h(2)] by auto
    have t: "tallies 0 r2" using r1 by (cases r1) (simp add: r2 tallies_def counts_def worker_report0_def)
    have n: "0 + unat (wc_operations c) < 2 ^ 32"
      using assms(2) by (simp add: kMaxWorkerOperations_def word_le_nat_alt)
    show ?thesis
      using worker_loop_report[OF _ t n] go True tallies_exact[of c r] interrupted_exact[of _ r c]
      by (fastforce simp: Let_def split: if_splits)
  qed
qed

text \<open>An exchange over a working connection returns the message the peer sent.\<close>

lemma exchange_delivers:
  assumes "delivers (lk_socket l) (encode_message reply @ rest)" "op_named (mg_op reply)" "length (mg_body reply) + 21 \<le> kMaxFrameBytes"
    and "list_all progresses (lk_sends l (lk_turn l))" "length (encode_message m) \<le> length (lk_sends l (lk_turn l))"
  shows "\<exists>l' r'. exchange m (l, r) = (Some (Inr reply), l', r')"
proof -
  have n: "length (message_payload reply) \<le> kMaxFrameBytes" "length (message_payload reply) \<le> 0xFFFFFFFF"
    "length (mg_body reply) \<le> kMaxFrameBytes" "length (mg_body reply) \<le> 0xFFFFFFFF"
    using assms(3) by (simp_all add: message_payload_conv kMaxFrameBytes_def)
  obtain s where s: "receive_frame kMaxFrameBytes (lk_socket l) = (Inr (message_payload reply), s)"
    using receive_frame_delivers[OF _ n(1,2), of "lk_socket l" rest] assms(1) by (auto simp: encode_message_def)
  have d: "decode_message_payload (message_payload reply) kMaxFrameBytes = Inr reply"
    using decode_message_body_payload[OF assms(2) n(3,4)] by (simp add: decode_message_payload_def)
  have "filter progresses (lk_sends l (lk_turn l)) = lk_sends l (lk_turn l)"
    using assms(4) by (simp add: list_all_iff)
  then have "send_all (encode_message m) (lk_sends l (lk_turn l)) (lk_socket l) = (Some (Inr ()), encode_message m)"
    using send_loop_ends[of "lk_sends l (lk_turn l)" "encode_message m" "[]"] assms(1,4,5)
    by (auto simp: send_all_def delivers_def list_all_iff)
  then show ?thesis using s d by (simp add: exchange_def Let_def)
qed

text \<open>C20: the worker's report is exact.  Whatever the coordinator answers, when run_worker returns a report, then either
  the epoch it claimed was refused at the handshake and no operation was attempted, or the handshake was
  made and every operation attempted was refused or was granted and its allocation released, up to the one
  whose epoch was refused; without such a refusal all the configured operations were attempted.  No report hides a protocol
  error or an error response.\<close>

theorem worker_report_exact:
  assumes "run_worker c connected l = (Some (Inr r), l')"
  shows "exact_report c r \<and> \<not> sk_valid (lk_socket l')"
proof -
  obtain b l1 where s: "worker_session c (l, worker_report0\<lparr>wr_connected := True\<rparr>) = (Some (Inr b), l1, r)"
    "l' = l1\<lparr>lk_socket := socket_close (lk_socket l1)\<rparr>" "wc_operations c \<le> kMaxWorkerOperations"
    using assms by (auto simp: run_worker_def Let_def split: if_splits sum.splits prod.splits option.splits)
  then show ?thesis using worker_session_exact by (simp add: socket_close_def)
qed

definition sample_worker :: worker_config where
  "sample_worker = \<lparr>wc_port = 7000, wc_pool = 1, wc_queue = 1, wc_units = 64, wc_operations = 0, wc_claim_epoch = 3,
     wc_expected_epoch = 0, wc_attempt_base = 0\<rparr>"

text \<open>A coordinator that answers the greeting of a worker from another epoch.\<close>

definition stale_reply :: message where
  "stale_reply = \<lparr>mg_op = OpHello, mg_request = 1, mg_epoch = 4,
     mg_body = enc (encode_response StaleEpoch ''claimed epoch 3 is not the current epoch 4'' None)\<rparr>"

definition sample_link :: link where
  "sample_link = \<lparr>lk_socket = \<lparr>sk_valid = True, sk_incoming = [RecvData (encode_message stale_reply)], sk_closing = False, sk_waiting = False\<rparr>,
     lk_sends = (\<lambda>_. replicate 100 (SentBytes 16)), lk_turn = 0, lk_out = []\<rparr>"

theorem worker_report_exact_witness:
  "\<exists>r l'. run_worker sample_worker (Inr ()) sample_link = (Some (Inr r), l') \<and> exact_report sample_worker r \<and>
     wr_stale_epoch_rejected r"
proof -
  let ?r0 = "worker_report0\<lparr>wr_connected := True\<rparr>"
  have d: "decode_response (mg_body stale_reply) = Some ((StaleEpoch, ''claimed epoch 3 is not the current epoch 4'', []), [])"
    using decode_encode_response[of StaleEpoch None "''claimed epoch 3 is not the current epoch 4''" "[]"]
    by (simp add: stale_reply_def named_def all_error_codes_def kMaxResponseMessage_def)
  have b: "length (mg_body stale_reply) + 21 \<le> kMaxFrameBytes"
    by (simp add: stale_reply_def encode_response_def kMaxResponseMessage_def kMaxFrameBytes_def)
  have "0 < length (encode_message stale_reply)" by (simp add: encode_message_def encode_frame_conv)
  then have de: "delivers (lk_socket sample_link) (encode_message stale_reply @ [])"
    by (auto simp: delivers_def sample_link_def intro!: exI[of _ "[encode_message stale_reply]"])
  have h: "length (encode_message (hello_message sample_worker)) \<le> 100"
  proof -
    have "length (enc (encode_hello_request x)) = 28" for x by (simp add: encode_hello_request_def)
    then show ?thesis by (simp add: encode_message_def encode_frame_conv message_payload_conv hello_message_def flip: enc_def)
  qed
  obtain l1 r1 where e: "exchange (hello_message sample_worker) (sample_link, ?r0) = (Some (Inr stale_reply), l1, r1)"
    using exchange_delivers[OF de _ b, of "hello_message sample_worker" ?r0] h
    by (auto simp: sample_link_def stale_reply_def progresses_def list_all_iff)
  have a: "accept_hello stale_reply (l1, r1) = (Some (Inr False), l1, r1\<lparr>wr_stale_epoch_rejected := True\<rparr>)"
    by (simp add: accept_hello_def d)
  have "run_worker sample_worker (Inr ()) sample_link = (Some (Inr (r1\<lparr>wr_stale_epoch_rejected := True\<rparr>)),
      l1\<lparr>lk_socket := socket_close (lk_socket l1)\<rparr>)"
    by (simp add: run_worker_def sample_worker_def kMaxWorkerOperations_def worker_session_def handshake_def then_step_def
        e[unfolded sample_worker_def] a)
  then show ?thesis using worker_report_exact[of sample_worker "Inr ()" sample_link] by auto
qed

end
