(* ===== verification/Tool_Args.thy ===== *)
theory Tool_Args
  imports Render
begin

text \<open>
  The command line of the tools: src/tools/tool\_args.hpp, with strtoull of the C library as its standard defines it.
  The theory shows which numbers the tools read from which texts.
\<close>

subsection \<open>Arguments\<close>

type_synonym arguments = "string list"

definition parse_arguments :: "string list \<Rightarrow> arguments" where
  "parse_arguments argv = drop 1 argv"

fun has_flag :: "string \<Rightarrow> arguments \<Rightarrow> bool" where
  "has_flag opt [] = False"
| "has_flag opt (token # tokens) = (token = opt \<or> has_flag opt tokens)"

fun flag_value :: "string \<Rightarrow> string \<Rightarrow> arguments \<Rightarrow> string" where
  "flag_value opt fallback (token # next # tokens) =
     (if token = opt then next else flag_value opt fallback (next # tokens))"
| "flag_value opt fallback tokens = fallback"

definition c_space :: "char \<Rightarrow> bool" where
  "c_space c \<longleftrightarrow> c \<in> {CHR '' '', CHR 0x09, CHR 0x0A, CHR 0x0B, CHR 0x0C, CHR 0x0D}"

definition digit_value :: "char \<Rightarrow> nat option" where
  "digit_value c = (let n = of_char c :: nat in if 48 \<le> n \<and> n \<le> 57 then Some (n - 48) else None)"

definition c_digit :: "char \<Rightarrow> bool" where
  "c_digit c \<longleftrightarrow> digit_value c \<noteq> None"

definition digits_value :: "string \<Rightarrow> nat" where
  "digits_value ds = foldl (\<lambda>n c. n * 10 + the (digit_value c)) 0 ds"

text \<open>strtoull in base 10: blanks, a sign, digits.  No digits is no conversion.  A value out of range is the
  largest number, whatever the sign; otherwise a minus negates in the unsigned type.\<close>

definition strtoull :: "string \<Rightarrow> u64 option" where
  "strtoull text =
     (let t = dropWhile c_space text;
          (minus, t) = (case t of c # r \<Rightarrow> if c = CHR ''-'' then (True, r) else if c = CHR ''+'' then (False, r) else (False, t)
                        | [] \<Rightarrow> (False, []));
          ds = takeWhile c_digit t; n = digits_value ds in
      if ds = [] then None
      else if n \<ge> 2 ^ 64 then Some (2 ^ 64 - 1)
      else Some (if minus then - of_nat n else of_nat n))"

definition flag_number :: "string \<Rightarrow> u64 \<Rightarrow> arguments \<Rightarrow> u64" where
  "flag_number opt fallback tokens =
     (let text = flag_value opt [] tokens in
      if text = [] then fallback
      else case strtoull text of None \<Rightarrow> fallback | Some n \<Rightarrow> n)"

definition value_flags :: "string list" where
  "value_flags = [''--state-dir'', ''--capacity'', ''--pool-units'', ''--protected'', ''--queue-id'',
     ''--demand'', ''--pool'', ''--queue'', ''--units'', ''--attempt'',
     ''--allocation'', ''--ttl'', ''--address'', ''--port'', ''--run-seconds'',
     ''--resource-units'', ''--ops'', ''--pools'', ''--queues'', ''--seed'',
     ''--host'', ''--claim-epoch'', ''--expected-epoch'', ''--label'', ''--filter'', ''--command'']"

definition flag_takes_value :: "string \<Rightarrow> bool" where
  "flag_takes_value opt = (opt \<in> set value_flags)"

definition is_option :: "string \<Rightarrow> bool" where
  "is_option token = (length token \<ge> 2 \<and> token ! 0 = CHR ''-'' \<and> token ! 1 = CHR ''-'')"

fun positional_loop :: "bool \<Rightarrow> arguments \<Rightarrow> string" where
  "positional_loop expect_value [] = []"
| "positional_loop expect_value (token # tokens) =
     (if expect_value then positional_loop False tokens
      else if is_option token then positional_loop (flag_takes_value token) tokens
      else token)"

definition first_positional :: "arguments \<Rightarrow> string" where
  "first_positional tokens = positional_loop False tokens"

definition usage_text :: "string \<Rightarrow> string \<Rightarrow> string" where
  "usage_text program words = ''usage: '' @ program @ '' '' @ words @ [CHR 0x0A]"

subsection \<open>Numbers\<close>

lemma digit_hex: "n < 10 \<Longrightarrow> digit_value (hex_digit n) = Some n"
proof -
  assume "n < 10"
  then have "n = 0 \<or> n = 1 \<or> n = 2 \<or> n = 3 \<or> n = 4 \<or> n = 5 \<or> n = 6 \<or> n = 7 \<or> n = 8 \<or> n = 9" by arith
  then show ?thesis by (elim disjE) (simp_all add: digit_value_def hex_digit_def)
qed

lemma digits_snoc: "digits_value (ds @ [c]) = digits_value ds * 10 + the (digit_value c)"
  by (simp add: digits_value_def)

lemma decimal_digits: "list_all c_digit (decimal n) \<and> decimal n \<noteq> [] \<and> digits_value (decimal n) = n"
proof (induction n rule: decimal.induct)
  case (1 n)
  show ?case
  proof (cases "n < 10")
    case True
    then show ?thesis by (simp add: decimal.simps[of n] c_digit_def digit_hex digits_value_def)
  next
    case False
    then have "decimal n = decimal (n div 10) @ [hex_digit (n mod 10)]" by (simp add: decimal.simps[of n])
    then show ?thesis using 1[OF False] by (simp add: c_digit_def digit_hex digits_snoc)
  qed
qed

lemma digit_no_space: "c_digit c \<Longrightarrow> \<not> c_space c \<and> c \<noteq> CHR ''-'' \<and> c \<noteq> CHR ''+''"
  by (auto simp: c_digit_def c_space_def digit_value_def)

lemma strtoull_digits:
  assumes "list_all c_digit ds" "ds \<noteq> []" "rest = [] \<or> \<not> c_digit (hd rest)"
  shows "strtoull (ds @ rest) = Some (if digits_value ds \<ge> 2 ^ 64 then 2 ^ 64 - 1 else of_nat (digits_value ds))"
proof -
  obtain c ds' where ds: "ds = c # ds'" using assms(2) by (cases ds) auto
  have "dropWhile c_space (ds @ rest) = ds @ rest" using digit_no_space assms(1) ds by simp
  moreover have "takeWhile c_digit (ds @ rest) = ds"
    using assms(1,3) by (cases rest) (auto simp: list_all_iff takeWhile_append)
  ultimately show ?thesis using digit_no_space[of c] assms(1) ds by (simp add: strtoull_def Let_def)
qed

lemma flag_value_found: "opt \<notin> set pre \<Longrightarrow> flag_value opt fallback (pre @ opt # v # post) = v"
proof (induction pre)
  case (Cons token pre)
  then show ?case by (cases pre) auto
qed simp

text \<open>The tools read the numbers they are given.  For every number, wherever its flag stands on the command line and whatever
  follows the digits, flag and decimal text give that number, or the largest 64-bit number when it does not fit; the
  fallback is used exactly when the text after the flag has no digits where a number would have them.\<close>

theorem flag_number_exact:
  assumes "opt \<notin> set pre" "rest = [] \<or> \<not> c_digit (hd rest)"
  shows "flag_number opt fallback (pre @ opt # (decimal n @ rest) # post) = (if n < 2 ^ 64 then of_nat n else 2 ^ 64 - 1) \<and>
    (\<forall>v. flag_number opt fallback (pre @ opt # v # post) = (if v = [] then fallback else case strtoull v of None \<Rightarrow> fallback | Some m \<Rightarrow> m)) \<and>
    flag_number opt fallback pre = fallback"
proof -
  have none: "flag_value opt [] pre = []" using assms(1) by (induction pre rule: induct_list012) auto
  note d = decimal_digits[of n]
  have "strtoull (decimal n @ rest) = Some (if n < 2 ^ 64 then of_nat n else 2 ^ 64 - 1)"
    using strtoull_digits[of "decimal n" rest] assms(2) d by (simp add: not_less)
  moreover have "decimal n @ rest \<noteq> []" using d by simp
  ultimately show ?thesis using flag_value_found[OF assms(1)] none by (auto simp: flag_number_def Let_def)
qed

theorem flag_number_exact_witness:
  "flag_number ''--units'' 1 ([''allocate''] @ ''--units'' # (decimal 4096 @ ''k'') # []) = 4096"
  using flag_number_exact[of "''--units''" "[''allocate'']" "''k''" 1 4096 "[]", THEN conjunct1] by (simp add: c_digit_def digit_value_def)

text \<open>A minus sign is accepted and wraps.\<close>

lemma negative_number_wraps: "flag_number ''--units'' 1 [''--units'', ''-1''] = 2 ^ 64 - 1"
  by (simp add: flag_number_def strtoull_def c_space_def c_digit_def digit_value_def digits_value_def)

subsection \<open>Commands\<close>

text \<open>A command is found behind flags and their values.\<close>

lemma first_positional_skips:
  assumes "list_all is_option fs" "list_all (\<lambda>(o', v). is_option o' \<and> flag_takes_value o') vs" "\<not> is_option c"
    "list_all (\<lambda>f. \<not> flag_takes_value f) fs"
  shows "first_positional (fs @ concat (map (\<lambda>(o', v). [o', v]) vs) @ c # later) = c"
proof -
  have v: "positional_loop False (concat (map (\<lambda>(o', v). [o', v]) vs) @ c # later) = c"
    using assms(2,3) by (induction vs) auto
  show ?thesis using assms(1,4) v unfolding first_positional_def by (induction fs) auto
qed

end
