(* ===== verification/Tools.thy ===== *)
theory Tools
  imports Sessions Worker Tool_Args
begin

text \<open>
  The command line tools over the library: src/tools/bfctl.cpp, bf\_coordinator.cpp and bf\_worker.cpp.

  A tool gives its exit code and what it writes to standard output; the text on standard error is diagnostic and
  not part of the model.  The clock readings of the locked sections of a command are t 0, t 1 and so on in their order.
\<close>

subsection \<open>bfctl\<close>

definition kBackendId :: u64 where "kBackendId = 1"
definition kResourceId :: u64 where "kResourceId = 1"
definition kPolicyId :: u64 where "kPolicyId = 1"
definition kPoolId :: u64 where "kPoolId = 1"

definition make_config :: "string \<Rightarrow> bool \<Rightarrow> fabric_config" where
  "make_config directory durable_run =
     (if durable_run \<and> directory \<noteq> []
      then fabric_config0\<lparr>cf_persistence := (cf_persistence fabric_config0)\<lparr>pc_directory := directory, pc_mode := JournalSync\<rparr>\<rparr>
      else fabric_config0)"

definition newline :: string where "newline = [CHR 0x0A]"

text \<open>A command: the exit code, the output, and the backend and fabric it leaves.\<close>

type_synonym command = "synthetic_backend \<times> fabric \<Rightarrow> int \<times> string \<times> synthetic_backend \<times> fabric"

definition init_pool :: "u64 \<Rightarrow> u64 \<Rightarrow> backend_id \<Rightarrow> pool_registration" where
  "init_pool pool_units protect backend = \<lparr>pg_id = kPoolId, pg_name = ''bfctl-pool'', pg_resource = kResourceId,
     pg_backend = backend, pg_raw_units = pool_units, pg_protected_units = protect, pg_parent = 0,
     pg_policy = kPolicyId, pg_tenant = 0, pg_provenance = 0\<rparr>"

definition init_queue :: "u64 \<Rightarrow> u64 \<Rightarrow> queue_registration" where
  "init_queue queue_id demand = \<lparr>qg_id = queue_id, qg_name = ''bfctl-queue'', qg_pool = kPoolId, qg_tenant = 0,
     qg_traffic_class = 0, qg_demand_units = demand, qg_weight = 1, qg_max_committed_units = 0\<rparr>"

text \<open>The part of init after the capacity; a queue that exists already is no error.\<close>

definition init_topology :: "(nat \<Rightarrow> tick) \<Rightarrow> u64 \<Rightarrow> u64 \<Rightarrow> u64 \<Rightarrow> u64 \<Rightarrow> backend_id \<Rightarrow> unit op" where
  "init_topology t pool_units protect queue_id demand backend f =
     try_st (fabric_publish_policy (t 4) (pool_policy0\<lparr>pol_id := kPolicyId, pol_name := ''bfctl''\<rparr>) f) (\<lambda>_ f.
     let f = take_lock (t 5) f in
     try_st (case pool_view_of kPoolId f of
               Inr _ \<Rightarrow> (Inr (), f)
             | Inl _ \<Rightarrow> try_st (fabric_register_pool (t 6) (init_pool pool_units protect backend) f) (\<lambda>_ f. (Inr (), f)))
       (\<lambda>_ f. case fabric_register_queue (t 7) (init_queue queue_id demand) f of
          (Inl e, f) \<Rightarrow> if e \<noteq> DuplicateQueue \<and> e \<noteq> DuplicateName then (Inl e, f) else (Inr (), f)
        | (Inr _, f) \<Rightarrow> (Inr (), f)))"

definition cmd_init :: "(nat \<Rightarrow> tick) \<Rightarrow> arguments \<Rightarrow> command" where
  "cmd_init t a = (\<lambda>(b, f).
     let capacity = flag_number ''--capacity'' (2 ^ 20) a; pool_units = flag_number ''--pool-units'' (2 ^ 19) a;
         protect = flag_number ''--protected'' (2 ^ 12) a; queue_id = flag_number ''--queue-id'' 1 a;
         demand = flag_number ''--demand'' (2 ^ 17) a;
         b = set_resource kResourceId capacity 1 b in
     case set_capacity sb_ready synthetic_query_capacity synthetic_program_reservation (t 0, t 1, t 2, t 3)
            kResourceId (sb_id b) capacity 0 (b, f) of
       (Inl _, b, f) \<Rightarrow> (1, [], b, f)
     | (Inr _, b, f) \<Rightarrow>
       case init_topology t pool_units protect queue_id demand (sb_id b) f of
         (Inl _, f) \<Rightarrow> (1, [], b, f)
       | (Inr _, f) \<Rightarrow> (0, ''initialized capacity='' @ dec capacity @ '' pool='' @ dec pool_units @
             '' protected='' @ dec protect @ '' queue='' @ dec queue_id @ newline, b, f))"

definition cmd_summary :: "(nat \<Rightarrow> tick) \<Rightarrow> command" where
  "cmd_summary t = (\<lambda>(b, f). let f = take_lock (t 0) f; s = summary f in
     (if rp_closed (su_accounting s) then 0 else 1, summary_to_json s @ newline, b, f))"

definition cmd_ledger :: "(nat \<Rightarrow> tick) \<Rightarrow> command" where
  "cmd_ledger t = (\<lambda>(b, f). let f = take_lock (t 0) f in (0, accounting_text f, b, f))"

text \<open>The detail of a violation is text the model does not hold.\<close>

definition cmd_verify :: "(nat \<Rightarrow> tick) \<Rightarrow> (accounting_fault \<times> pool_id \<Rightarrow> string) \<Rightarrow> command" where
  "cmd_verify t detail = (\<lambda>(b, f). let f = take_lock (t 0) f; report = validate_accounting f in
     (if rp_closed report then 0 else 1,
      ''pools='' @ dec (rp_pools_checked report) @ '' closure='' @ (if rp_closed report then ''closed'' else ''VIOLATED'') @ newline @
      concat (map (\<lambda>v. ''  fault='' @ to_string_fault (fst v) @ '' pool='' @ dec (snd v) @ '' '' @ detail v @ newline) (rp_violations report)),
      b, f))"

definition cmd_checkpoint :: "(nat \<Rightarrow> tick) \<Rightarrow> command" where
  "cmd_checkpoint t = (\<lambda>(b, f). case fabric_checkpoint (t 0) f of
     (Inl _, f) \<Rightarrow> (1, [], b, f) | (Inr _, f) \<Rightarrow> (0, ''checkpoint written'' @ newline, b, f))"

definition cmd_explain :: "(nat \<Rightarrow> tick) \<Rightarrow> string \<Rightarrow> arguments \<Rightarrow> command" where
  "cmd_explain t detail a = (\<lambda>(b, f). let f = take_lock (t 0) f in
     case explain (flag_number ''--pool'' kPoolId a) f of
       Inl _ \<Rightarrow> (1, [], b, f) | Inr x \<Rightarrow> (0, explanation_to_json detail x @ newline, b, f))"

definition observed_snapshot :: "arguments \<Rightarrow> pool_id \<Rightarrow> explanation \<Rightarrow> epoch_id \<Rightarrow> boot_incarnation \<Rightarrow> pressure_snapshot" where
  "observed_snapshot a p x e boot = \<lparr>ps_id = 0, ps_pool = p, ps_pool_generation = xp_pool_generation x, ps_epoch = e,
     ps_boot = boot, ps_observed_at = 0, ps_ttl_ticks = flag_number ''--ttl'' 10000000000 a,
     ps_demand_units = flag_number ''--demand'' 0 a,
     ps_committed_units = ac_allocated (xp_accounting x) - ac_borrowed_in (xp_accounting x) + ac_lent_out (xp_accounting x),
     ps_reclaimable_units = 0, ps_provenance = 0, assert_committed = True, evidence_digest = \<lparr>dg_hi = 0, dg_lo = 0\<rparr>\<rparr>"

text \<open>What observe and allocate --observe-first do: evidence from the fabric's own account.\<close>

definition observe_self :: "(nat \<Rightarrow> tick) \<Rightarrow> arguments \<Rightarrow> pressure_snapshot op" where
  "observe_self t a f =
     (let p = flag_number ''--pool'' kPoolId a; f = take_lock (t 0) f in
      case explain p f of Inl e \<Rightarrow> (Inl e, f)
      | Inr x \<Rightarrow>
        let f = take_lock (t 1) f; e = fb_epoch f; f = take_lock (t 2) f; s = observed_snapshot a p x e (fb_boot f) in
        try_st (fabric_observe_pressure (t 3) s f) (\<lambda>_ f. (Inr s, f)))"

definition cmd_observe :: "(nat \<Rightarrow> tick) \<Rightarrow> arguments \<Rightarrow> command" where
  "cmd_observe t a = (\<lambda>(b, f). case observe_self t a f of
     (Inl _, f) \<Rightarrow> (1, [], b, f)
   | (Inr s, f) \<Rightarrow> (0, ''observed pool='' @ dec (ps_pool s) @ '' committed='' @ dec (ps_committed_units s) @ newline, b, f))"

definition allocate_arguments :: "arguments \<Rightarrow> allocate_request" where
  "allocate_arguments a = \<lparr>ar_attempt = flag_number ''--attempt'' 1 a, ar_pool = flag_number ''--pool'' kPoolId a,
     ar_queue = flag_number ''--queue-id'' 1 a, ar_requested_units = flag_number ''--units'' 1 a,
     ar_reclaim_class = (if has_flag ''--pinned'' a then Pinned else Reclaimable), ar_reclaim_priority = 0,
     ar_ttl_ticks = 0, ar_commit_immediately = (\<not> has_flag ''--reserve'' a), ar_parent_allocation = 0,
     ar_provenance = 0, ar_expected_pool_generation = 0, ar_expected_policy_generation = 0,
     ar_expected_queue_generation = 0, ar_expected_capacity_generation = 0, ar_expected_epoch = 0\<rparr>"

definition decision_line :: "allocate_request \<Rightarrow> decision \<Rightarrow> string" where
  "decision_line q d = ''kind='' @ to_string_decision (dc_kind d) @ '' status='' @ to_string_error (dc_status d) @
     '' granted='' @ dec (dc_granted_units d) @ '' requested='' @ dec (ar_requested_units q) @
     '' allocation='' @ dec (dc_allocation d) @ '' binding='' @ to_string_binding (dc_binding d) @
     '' pressure='' @ to_string_pressure (dc_pressure d) @ newline"

definition cmd_allocate :: "(nat \<Rightarrow> tick) \<Rightarrow> arguments \<Rightarrow> command" where
  "cmd_allocate t a = (\<lambda>(b, f).
     case (if has_flag ''--observe-first'' a then try_st (observe_self t a f) (\<lambda>_ f. (Inr (), f)) else (Inr (), f)) of
       (Inl _, f) \<Rightarrow> (1, [], b, f)
     | (Inr _, f) \<Rightarrow>
       case fabric_allocate (t 4) (allocate_arguments a) f of
         (Inl _, f) \<Rightarrow> (1, [], b, f)
       | (Inr d, f) \<Rightarrow> (if dc_status d = Ok then 0 else 1, decision_line (allocate_arguments a) d, b, f))"

definition release_arguments :: "arguments \<Rightarrow> release_request" where
  "release_arguments a = (let units = flag_number ''--units'' 0 a in
     \<lparr>rr_attempt = flag_number ''--attempt'' 1 a, rr_allocation = flag_number ''--allocation'' 0 a, rr_units = units,
      rr_release_all = (units = 0), rr_expected_pool_generation = 0, rr_expected_epoch = 0\<rparr>)"

definition cmd_release :: "(nat \<Rightarrow> tick) \<Rightarrow> arguments \<Rightarrow> command" where
  "cmd_release t a = (\<lambda>(b, f). case fabric_release (t 0) (release_arguments a) f of
     (Inl _, f) \<Rightarrow> (1, [], b, f)
   | (Inr d, f) \<Rightarrow> (0, ''kind='' @ to_string_decision (dc_kind d) @ '' released='' @ dec (dc_granted_units d) @ newline, b, f))"

text \<open>The diagnostic texts a run prints and the model does not hold.\<close>

record tool_texts =
  tt_violation :: "accounting_fault \<times> pool_id \<Rightarrow> string"
  tt_evidence :: string
  tt_capabilities :: capabilities

definition run_command :: "(nat \<Rightarrow> tick) \<Rightarrow> tool_texts \<Rightarrow> string \<Rightarrow> arguments \<Rightarrow> command" where
  "run_command t w name a =
     (if name = ''init'' then cmd_init t a
      else if name = ''summary'' then cmd_summary t
      else if name = ''ledger'' then cmd_ledger t
      else if name = ''verify'' then cmd_verify t (tt_violation w)
      else if name = ''checkpoint'' then cmd_checkpoint t
      else if name = ''explain'' then cmd_explain t (tt_evidence w) a
      else if name = ''observe'' then cmd_observe t a
      else if name = ''allocate'' then cmd_allocate t a
      else if name = ''release'' then cmd_release t a
      else (\<lambda>(b, f). (1, [], b, f)))"

definition bfctl_usage :: string where
  "bfctl_usage = usage_text ''bfctl'' (''--state-dir DIR [--volatile] <command> [args]'' @ newline @
     ''  commands:'' @ newline @ ''    capabilities'' @ newline @
     ''    init --capacity N --pool-units N --protected N --queue-id N [--demand N]'' @ newline @
     ''    summary | ledger | verify | checkpoint'' @ newline @ ''    explain --pool N'' @ newline @
     ''    observe --pool N [--demand N] [--ttl TICKS]'' @ newline @
     ''    allocate --pool N --queue-id N --units N --attempt N [--observe-first]'' @ newline @
     ''             [--reserve] [--pinned]'' @ newline @
     ''    release --allocation N --attempt N [--units N]'')"

text \<open>A run on what the disk holds (f is a new fabric over it): the fabric is opened, one command runs, and it is closed.  The
  code of a command that failed is kept; close itself cannot fail.\<close>

definition bfctl_open :: "tick \<Rightarrow> boot_incarnation \<Rightarrow> arguments \<Rightarrow> unit op" where
  "bfctl_open t boot a =
     (let directory = flag_value ''--state-dir'' [] a
      in fabric_open t boot (make_config directory (\<not> has_flag ''--volatile'' a \<and> directory \<noteq> [])))"

definition bfctl_attach :: "tick \<Rightarrow> synthetic_backend \<Rightarrow> unit op" where
  "bfctl_attach t b =
     attach_backend t (sb_id b) \<lparr>be_kind = SyntheticKind, be_generation = sb_generation b, be_ready = sb_ready b\<rparr>"

definition bfctl_backend :: synthetic_backend where
  "bfctl_backend = synthetic_new kBackendId 1 ''bfctl''"

definition bfctl_main :: "(nat \<Rightarrow> tick) \<Rightarrow> boot_incarnation \<Rightarrow> tool_texts \<Rightarrow> string list \<Rightarrow> fabric \<Rightarrow> int \<times> string \<times> fabric" where
  "bfctl_main t boot w argv f =
     (let a = parse_arguments argv; name = first_positional a in
      if length argv < 2 \<or> has_flag ''--help'' a \<or> name = [] then (if name = [] then 1 else 0, bfctl_usage, f)
      else if name = ''capabilities'' then (0, capabilities_to_json (tt_capabilities w) @ newline, f)
      else case bfctl_open (t 0) boot a f of
        (Inl _, f) \<Rightarrow> (1, [], f)
      | (Inr _, f) \<Rightarrow>
        case bfctl_attach (t 1) bfctl_backend f of
          (Inl _, f) \<Rightarrow> (1, [], f)
        | (Inr _, f) \<Rightarrow>
          let (code, out, b, f) = run_command (\<lambda>k. t (k + 2)) w name a (bfctl_backend, f) in
          case fabric_close (t 12) f of
            (Inl _, f) \<Rightarrow> (if code = 0 then 1 else code, out, f)
          | (Inr _, f) \<Rightarrow> (code, out, f))"


subsection \<open>The coordinator process\<close>

definition coordinator_arguments :: "arguments \<Rightarrow> string \<times> u16 \<times> coordinator_config" where
  "coordinator_arguments a =
     (let c = coordinator_config0;
          c = c\<lparr>cc_state_directory := flag_value ''--state-dir'' [] a\<rparr>;
          c = (if has_flag ''--no-durability'' a then c\<lparr>cc_durability := DurNone\<rparr> else c);
          c = c\<lparr>bootstrap_pool_units := flag_number ''--pool-units'' (bootstrap_pool_units c) a\<rparr>;
          c = c\<lparr>bootstrap_protected_units := flag_number ''--protected-units'' (bootstrap_protected_units c) a\<rparr>;
          c = c\<lparr>bootstrap_resource_units := flag_number ''--resource-units'' (bootstrap_resource_units c) a\<rparr>
      in (flag_value ''--address'' ''127.0.0.1'' a, ucast (flag_number ''--port'' 0 a), c))"

definition coordinator_usage :: string where
  "coordinator_usage = usage_text ''bf_coordinator'' (''[--address A] [--port N] [--state-dir DIR] [--no-durability] '' @
     ''[--run-seconds N] [--pool-units N] [--protected-units N]'')"

definition coordinator_port :: "u16 \<Rightarrow> coordinator \<Rightarrow> u16 result" where
  "coordinator_port answer c = (if \<not> co_listening c then Inl LifecycleViolation else Inr answer)"

text \<open>The process.  The arguments bound and answer are what listening on an address and reading the port back give; meanwhile 0, 1 and 2
  are what the accepting and the serving threads do before the port is read, while the process waits and while it stops.
  The run has no result while nobody asks it to shut down and no time was given.\<close>

definition coordinator_main :: "(nat \<Rightarrow> tick) \<Rightarrow> tick \<Rightarrow> boot_incarnation \<Rightarrow> (string \<Rightarrow> u16 \<Rightarrow> void_result) \<Rightarrow> u16 \<Rightarrow>
    (nat \<Rightarrow> coordinator \<Rightarrow> coordinator) \<Rightarrow> string list \<Rightarrow> coordinator \<Rightarrow> (int \<times> string \<times> coordinator) option" where
  "coordinator_main t last_tick boot bound answer meanwhile argv c =
     (let a = parse_arguments argv in
      if has_flag ''--help'' a then Some (0, coordinator_usage, c)
      else let (address, port, config) = coordinator_arguments a in
      case coordinator_start t last_tick boot (bound address port) config c of
        (Inl _, c) \<Rightarrow> Some (1, [], c)
      | (Inr _, c) \<Rightarrow>
        let c = meanwhile 0 c in
        case coordinator_port answer c of
          Inl _ \<Rightarrow> Some (1, [], c)
        | Inr n \<Rightarrow>
          let out = ''READY '' @ dec (ucast n) @ newline; c = meanwhile 1 c;
              timed = flag_number ''--run-seconds'' 0 a \<noteq> 0;
              c = (if timed then request_shutdown c else c)
          in if \<not> co_shutdown_requested c then None
          else case coordinator_stop last_tick (meanwhile 2 c) of
            (Inl _, c) \<Rightarrow> Some (1, out, c)
          | (Inr _, c) \<Rightarrow> Some (0, out @ ''STOPPED served='' @ dec (co_served c) @ '' rejected='' @ dec (co_rejected c) @ newline, c))"

subsection \<open>The worker process\<close>

definition worker_arguments :: "arguments \<Rightarrow> string \<times> worker_config" where
  "worker_arguments a = (flag_value ''--host'' ''127.0.0.1'' a,
     \<lparr>wc_port = ucast (flag_number ''--port'' 0 a), wc_pool = flag_number ''--pool'' 1 a, wc_queue = flag_number ''--queue'' 1 a,
      wc_units = flag_number ''--units'' 64 a, wc_operations = flag_number ''--ops'' 16 a,
      wc_claim_epoch = flag_number ''--claim-epoch'' 0 a, wc_expected_epoch = flag_number ''--expected-epoch'' 0 a,
      wc_attempt_base = flag_number ''--attempt-base'' 0 a\<rparr>)"

definition worker_usage :: string where
  "worker_usage = usage_text ''bf_worker'' (''--port N --pool N --queue N [--host H] [--units N] [--ops N] '' @
     ''[--claim-epoch N] [--expected-epoch N] [--attempt-base N] '' @ ''[--label TEXT]'')"

definition worker_flag :: "string \<Rightarrow> bool \<Rightarrow> string" where
  "worker_flag name v = name @ ''='' @ (if v then ''true'' else ''false'') @ newline"

definition worker_count :: "string \<Rightarrow> u64 \<Rightarrow> string" where
  "worker_count name v = name @ ''='' @ dec v @ newline"

definition worker_lines :: "string \<Rightarrow> worker_report \<Rightarrow> string" where
  "worker_lines label r = ''label='' @ label @ newline @
     worker_flag ''connected'' (wr_connected r) @ worker_flag ''handshake_ok'' (wr_handshake_ok r) @
     worker_flag ''stale_epoch_rejected'' (wr_stale_epoch_rejected r) @ worker_flag ''protocol_error'' (wr_protocol_error r) @
     worker_count ''operations'' (wr_operations_attempted r) @ worker_count ''grants'' (wr_grants r) @
     worker_count ''partial_grants'' (wr_partial_grants r) @ worker_count ''refusals'' (wr_refusals r) @
     worker_count ''release_ok'' (wr_release_ok r) @ worker_count ''error_responses'' (wr_error_responses r) @
     worker_count ''granted_units'' (wr_granted_units r) @ worker_count ''released_units'' (wr_released_units r) @
     worker_count ''bytes_sent'' (wr_bytes_sent r) @ worker_count ''bytes_received'' (wr_bytes_received r) @
     worker_count ''coordinator_epoch'' (wr_coordinator_epoch r) @
     worker_count ''allocated_total'' (rl_allocated_total (wr_accounting r)) @
     worker_count ''free_total'' (rl_free_total (wr_accounting r)) @ ''worker_report_end'' @ newline"

text \<open>The argument status_text renders a status with its message; connect gives the answer of the connection attempt.\<close>

definition worker_main :: "(string \<Rightarrow> u16 \<Rightarrow> void_result) \<Rightarrow> (error_code \<Rightarrow> string) \<Rightarrow> string list \<Rightarrow> link \<Rightarrow>
    (int \<times> string) option \<times> link" where
  "worker_main connect status_text argv l =
     (let a = parse_arguments argv in
      if has_flag ''--help'' a then (Some (0, worker_usage), l)
      else let (host, config) = worker_arguments a; label = flag_value ''--label'' ''worker'' a in
      case run_worker config (connect host (wc_port config)) l of
        (None, l) \<Rightarrow> (None, l)
      | (Some (Inl e), l) \<Rightarrow> (Some (2, ''label='' @ label @ newline @ ''fatal='' @ status_text e @ newline @
            ''worker_report_end'' @ newline), l)
      | (Some (Inr r), l) \<Rightarrow> (Some (if wr_protocol_error r then 3 else 0, worker_lines label r), l))"


subsection \<open>What the tools keep\<close>

context kept_by_steps
begin

lemma init_topology_keeps:
  assumes "P f"
  shows "P (snd (init_topology t n protect q d backend f))"
proof -
  have queue: "P (snd (case fabric_register_queue (t 7) (init_queue q d) g of
      (Inl e, f) \<Rightarrow> if e \<noteq> DuplicateQueue \<and> e \<noteq> DuplicateName then (Inl e, f) else (Inr (), f)
    | (Inr _, f) \<Rightarrow> (Inr (), f)))" if "P g" for g
    using ops(9)[OF that, of "t 7" "init_queue q d"] by (auto split: sum.split prod.split)
  have pool: "P (snd (case pool_view_of kPoolId (take_lock (t 5) g) of
      Inr _ \<Rightarrow> (Inr (), take_lock (t 5) g)
    | Inl _ \<Rightarrow> try_st (fabric_register_pool (t 6) (init_pool n protect backend) (take_lock (t 5) g)) (\<lambda>_ f. (Inr (), f))))"
    if "P g" for g
    using ops(1)[OF that, of "t 5"] by (auto intro!: try_st_keeps[OF ops(8)] split: sum.split)
  show ?thesis
    unfolding init_topology_def Let_def
    by (intro try_st_keeps[OF ops(7)[OF assms]] try_st_keeps[OF pool] queue)
qed

lemma cmd_init_keeps:
  assumes "P f"
  shows "P (snd (snd (snd (cmd_init t a (b, f)))))"
proof -
  let ?c = "flag_number ''--capacity'' (2 ^ 20) a"
  let ?b = "set_resource kResourceId ?c 1 b"
  obtain r b' g where c: "set_capacity sb_ready synthetic_query_capacity synthetic_program_reservation (t 0, t 1, t 2, t 3)
      kResourceId (sb_id ?b) ?c 0 (?b, f) = (r, b', g)" by (metis prod_cases3)
  then have g: "P g" using set_capacity_keeps[OF assms] by (metis snd_conv)
  obtain r' h where h: "init_topology t (flag_number ''--pool-units'' (2 ^ 19) a) (flag_number ''--protected'' (2 ^ 12) a)
      (flag_number ''--queue-id'' 1 a) (flag_number ''--demand'' (2 ^ 17) a) (sb_id b') g = (r', h)" by fastforce
  then have "P h" using init_topology_keeps[OF g] by (metis snd_conv)
  with g show ?thesis using c h by (cases r; cases r') (simp_all add: cmd_init_def Let_def)
qed

lemma observe_self_keeps: "P f \<Longrightarrow> P (snd (observe_self t a f))"
  by (auto simp: observe_self_def Let_def split: sum.split intro!: try_st_keeps[OF ops(10)] ops(1))

lemma cmd_allocate_keeps:
  assumes "P f"
  shows "P (snd (snd (snd (cmd_allocate t a (b, f)))))"
proof -
  obtain r g where g: "(if has_flag ''--observe-first'' a then try_st (observe_self t a f) (\<lambda>_ f. (Inr (), f)) else (Inr (), f)) = (r, g)"
    by fastforce
  have "P (snd (try_st (observe_self t a f) (\<lambda>_ f. (Inr (), f))))"
    by (rule try_st_keeps[OF observe_self_keeps[OF assms]]) simp
  then have "P g" using g assms by (auto split: if_splits)
  then show ?thesis
    using step[OF _ step_allocate, of g "t 4" "allocate_arguments a"]
    by (auto simp: cmd_allocate_def g split: sum.split prod.split)
qed

lemma run_command_keeps:
  assumes "P f" "name = ''release'' \<Longrightarrow> release_guarded (t 0) (release_arguments a) f"
  shows "P (snd (snd (snd (run_command t w name a (b, f)))))"
proof -
  have q: "P (take_lock (t 0) f)" by (rule ops(1)[OF assms(1)])
  have c: "P (snd (snd (snd (cmd_checkpoint t (b, f)))))"
    using step[OF assms(1) step_checkpoint, of "t 0"] by (auto simp: cmd_checkpoint_def split: sum.split prod.split)
  have o: "P (snd (snd (snd (cmd_observe t a (b, f)))))"
    using observe_self_keeps[OF assms(1), of t a] by (auto simp: cmd_observe_def split: sum.split prod.split)
  have r: "P (snd (snd (snd (cmd_release t a (b, f)))))" if "name = ''release''"
    using step[OF assms(1) step_release, of "release_arguments a" "t 0"] assms(2)[OF that]
    by (auto simp: cmd_release_def release_guarded_def split: sum.split prod.split)
  show ?thesis
    using assms(1) q c o r cmd_init_keeps[OF assms(1)] cmd_allocate_keeps[OF assms(1)]
    by (auto simp: run_command_def cmd_summary_def cmd_ledger_def cmd_verify_def cmd_explain_def Let_def split: sum.split)
qed

end

text \<open>What the fabric holds for its users, and the commands that only report it.\<close>

definition holdings where
  "holdings f = (fb_capacities f, fb_policies f, fb_pools f, fb_queues f, fb_allocations f, fb_epoch f)"

definition reporting :: "string list" where
  "reporting = [''summary'', ''ledger'', ''verify'', ''explain'']"

lemma reporting_only_locks:
  assumes "name \<in> set reporting" "run_command t w name a (b, f) = (code, out, b', g)"
  shows "g = take_lock (t 0) f"
  using assms by (auto simp: reporting_def run_command_def cmd_summary_def cmd_ledger_def cmd_verify_def cmd_explain_def
      Let_def split: sum.splits)

lemma close_keeps_holdings:
  "holdings (snd (fabric_close t f)) = holdings f" "fb_store (snd (fabric_close t f)) = (if fb_open f then store_close (fb_store f) else fb_store f)"
  by (simp_all add: fabric_close_def take_lock_def holdings_def push_event_def publish_def Let_def)

lemma attach_keeps_holdings:
  "holdings (snd (attach_backend t i entry f)) = holdings f" "fb_store (snd (attach_backend t i entry f)) = fb_store f"
  "fb_open (snd (attach_backend t i entry f)) = fb_open f"
  by (simp_all add: attach_backend_def take_lock_def holdings_def Let_def)

lemma take_lock_keeps_holdings:
  "holdings (take_lock t f) = holdings f" "fb_store (take_lock t f) = fb_store f" "fb_open (take_lock t f) = fb_open f"
  by (simp_all add: take_lock_def holdings_def)

lemma fabric_close_never_fails: "fst (fabric_close t f) = Inr ()"
  by (simp add: fabric_close_def Let_def)

definition bfctl_durable :: "arguments \<Rightarrow> bool" where
  "bfctl_durable a \<longleftrightarrow> \<not> has_flag ''--volatile'' a \<and> flag_value ''--state-dir'' [] a \<noteq> []"

text \<open>A new process over what a store has on disk.\<close>

definition new_process :: "store \<Rightarrow> fabric" where
  "new_process s = fabric0\<lparr>fb_store := s\<rparr>"

definition empty_directory :: "store \<Rightarrow> bool" where
  "empty_directory s \<longleftrightarrow> disk_journal s = None \<and> disk_snapshot s = None"

lemma new_process_inv: "fabric_inv (new_process s)"
  unfolding new_process_def using fabric_inv_view[OF open_view(2)] fabric_inv_fabric0 by blast

text \<open>In an empty directory there is nothing to recover, so a durable open finds a sound image.\<close>

lemma load_empty:
  assumes "load_from_store f = (Inr (), g)" "empty_directory (fb_store f)" "fb_allocations f = []"
  shows "\<exists>h. g = rebuild_aggregates h \<and> ledger_view h = ledger_view f"
proof -
  let ?st = "fb_store f"
  have rf: "read_file_bounded None m u = (Inr None, u)" for m u by (simp add: read_file_bounded_def)
  have d: "disk_snapshot st = None" "disk_journal st = None" if "io_call ?st = (r, st)" for r st
    using that assms(2) by (auto simp: io_call_def next_io_def Let_def empty_directory_def split: list.splits)
  show ?thesis
    using assms(1,3) d
    by (auto simp: load_from_store_def recover_def Let_def rf ledger_view_def split: prod.splits sum.splits if_splits)
qed

lemma empty_directory_sound:
  assumes "fabric_open t boot c (new_process s) = (Inr (), g)" "pc_mode (cf_persistence c) \<noteq> DurNone" "empty_directory s"
  shows "sound_image g"
proof -
  let ?f = "((take_lock t (new_process s))\<lparr>fb_events := []\<rparr>)\<lparr>fb_config := c\<rparr>"
  obtain e f1 where o: "open_durable c ?f = (Inr e, f1)" and v: "ledger_view g = ledger_view f1"
    using open_durable_opens[OF assms(1,2)] by blast
  obtain f0 where c: "on_store (configure (cf_persistence c)) ?f = (Inr (), f0)"
    using o assms(2) by (auto simp: open_durable_def try_st_eq_Inr)
  obtain f2 where l: "load_from_store f0 = (Inr (), f2)" "ledger_view f1 = ledger_view f2"
    using o c assms(2) by (auto simp: open_durable_def open_view split: prod.splits sum.splits)
  have f0: "ledger_view f0 = ledger_view fabric0" "empty_directory (fb_store f0)" "fb_allocations f0 = []"
    using c assms(3)
    by (auto simp: on_store_def configure_def new_process_def take_lock_def ledger_view_def fabric0_def empty_directory_def split: sum.splits)
  obtain h where "f2 = rebuild_aggregates h" "ledger_view h = ledger_view fabric0"
    using load_empty[OF l(1) f0(2,3)] f0(1) by auto
  then have "sound_image g = sound_image fabric0"
    using v l(2) sound_image_view sound_image_rebuild by metis
  moreover have "tree_ok fabric0" using ledger_inv_fabric0 by (simp add: ledger_inv_def)
  then have "sound_image fabric0" by (simp add: sound_image_def ids_fresh_def) (simp add: fabric0_def)
  ultimately show ?thesis by blast
qed

lemma bfctl_open_inv:
  assumes "bfctl_open t boot a (new_process s) = (Inr (), g)" "bfctl_durable a \<Longrightarrow> empty_directory s \<or> sound_image g"
  shows "fabric_inv g"
proof (cases "bfctl_durable a")
  case True
  have "fabric_inv g" if "bfctl_open t boot a (new_process s) = fabric_open t boot c (new_process s)" "pc_mode (cf_persistence c) \<noteq> DurNone" for c
    using open_durable_inv[of t boot c "new_process s" g] empty_directory_sound[of t boot c s g] that assms True by auto
  then show ?thesis using True by (auto simp: bfctl_open_def make_config_def Let_def bfctl_durable_def)
next
  case False
  have "fabric_inv g" if "bfctl_open t boot a (new_process s) = fabric_open t boot c (new_process s)" "pc_mode (cf_persistence c) = DurNone" for c
    using open_in_memory_inv[OF new_process_inv that(2), of t boot s] that(1) assms(1) by (metis snd_conv)
  then show ?thesis
    using False by (auto simp: bfctl_open_def make_config_def Let_def bfctl_durable_def fabric_config0_def persistence_config0_def)
qed

text \<open>The three steps of a run that opens the fabric.\<close>

lemma bfctl_main_steps:
  assumes "bfctl_main t boot w argv f = (code, out, g)" "bfctl_open (t 0) boot (parse_arguments argv) f = (Inr (), f1)"
    and "\<not> has_flag ''--help'' (parse_arguments argv)" "first_positional (parse_arguments argv) \<notin> {[], ''capabilities''}"
  obtains "g = snd (bfctl_attach (t 1) bfctl_backend f1)"
  | code' b h where "run_command (\<lambda>k. t (k + 2)) w (first_positional (parse_arguments argv)) (parse_arguments argv)
        (bfctl_backend, snd (bfctl_attach (t 1) bfctl_backend f1)) = (code', out, b, h)" "g = snd (fabric_close (t 12) h)" "code = code'"
proof -
  let ?a = "parse_arguments argv"
  have l: "\<not> length argv < 2" using assms(4) by (cases argv; cases "tl argv") (auto simp: parse_arguments_def first_positional_def)
  obtain r f2 where f2: "bfctl_attach (t 1) bfctl_backend f1 = (r, f2)" by fastforce
  obtain code' out' b h where h: "run_command (\<lambda>k. t (k + 2)) w (first_positional ?a) ?a (bfctl_backend, f2) = (code', out', b, h)"
    by (metis prod_cases4)
  obtain h' where h': "fabric_close (t 12) h = (Inr (), h')" using fabric_close_never_fails by (metis prod.collapse)
  show ?thesis
    using assms l f2 h h' that by (cases r) (auto simp: bfctl_main_def Let_def)
qed

lemma epoch_record_appended:
  assumes "disk_journal s = None" "io_script s = []" "st_configured s" "\<not> st_writable s" "pc_mode (st_config s) = JournalSync"
    and "max_journal_bytes (st_config s) = 2 ^ 29" "\<not> needs_compaction s" "length payload = 24"
    and "fb_store f = s"
  shows "\<exists>k. journal JEpochAdvance payload f = (Inr (), k)"
proof -
  have w: "writes [put_u8 c, put_bytes bs] writer0 = writer0\<lparr>buffer := c # bs\<rparr>" for c bs
    using appendsD[of "writes [put_u8 c, put_bytes bs]" writer0] by (simp add: writer0_def)
  have "fst (append_record (journal_op_raw JEpochAdvance # payload) s) = Inr ()"
    using assms by (simp add: append_record_def open_append_def journal_append_def journal_close_def
        next_io_def Let_def kMaxJournalRecordBytes_def kFrameHeaderBytes_def journal_sync_def io_call_def)
  then obtain s' where "append_record (journal_op_raw JEpochAdvance # payload) s = (Inr (), s')" by (metis prod.collapse)
  then show ?thesis using assms(5,7,9) by (simp add: journal_def w on_store_def Let_def) (simp add: writer0_def)
qed

text \<open>The first command of a user: init in a new state directory.\<close>

definition init_argv :: "string list" where
  "init_argv = [''bfctl'', ''--state-dir'', ''state'', ''init'']"

lemma init_opens: "fst (bfctl_open 0 run_boot (parse_arguments init_argv) (new_process store0)) = Inr ()"
proof -
  let ?c = "make_config ''state'' True"
  let ?f = "((take_lock 0 (new_process store0))\<lparr>fb_events := []\<rparr>)\<lparr>fb_config := ?c\<rparr>"
  have o: "bfctl_open 0 run_boot (parse_arguments init_argv) = fabric_open 0 run_boot ?c"
    by (simp add: bfctl_open_def init_argv_def parse_arguments_def)
  have c: "config_validate ?c = Inr ()" "pc_mode (cf_persistence ?c) = JournalSync" "persistence_validate (cf_persistence ?c) = Inr ()"
    by (simp_all add: make_config_def config_validate_def fabric_config0_def persistence_config0_def kMaxAttemptMemory_def
      kMaxSnapshotCount_def kMaxAllocationCount_def kMaxSnapshotBytes_def persistence_validate_def)
  let ?s = "store0\<lparr>st_config := cf_persistence ?c, st_configured := True\<rparr>"
  have l: "\<exists>g. load_from_store (?f\<lparr>fb_store := ?s\<rparr>) = (Inr (), g) \<and> fb_epoch g = 0 \<and> fb_store g = ?s\<lparr>st_recovery_count := 1\<rparr>"
    by (simp add: load_from_store_def recover_def io_call_def next_io_def read_file_bounded_def store0_def Let_def
        new_process_def rebuild_aggregates_def fabric0_def take_lock_def)
  then obtain g where g: "load_from_store (?f\<lparr>fb_store := ?s\<rparr>) = (Inr (), g)" "fb_epoch g = 0" "fb_store g = ?s\<lparr>st_recovery_count := 1\<rparr>" by blast
  have "\<exists>h. open_durable ?c ?f = (Inr 0, h) \<and> fb_store h = ?s\<lparr>st_recovery_count := 1\<rparr>"
    using g c by (simp add: open_durable_def on_store_def configure_def new_process_def take_lock_def)
  then obtain h where h: "open_durable ?c ?f = (Inr 0, h)" "fb_store h = ?s\<lparr>st_recovery_count := 1\<rparr>" by blast
  have "\<exists>k. open_epoch 0 run_boot h = (Inr (), k) \<and> fb_store k = fb_store h"
    by (simp add: open_epoch_def add_overflow_def)
  then obtain k where k: "open_epoch 0 run_boot h = (Inr (), k)" "fb_store k = fb_store h" by blast
  have n: "length (buffer (writes [put_u64 x, put_u64 y, put_u64 z] writer0)) = 24" for x y z
    by (simp flip: enc_def)
  obtain j where j: "journal JEpochAdvance (buffer (writes [put_u64 (fb_epoch k), put_u64 (bi_hi (fb_boot k)), put_u64 (bi_lo (fb_boot k))] writer0)) k = (Inr (), j)"
    using epoch_record_appended[OF _ _ _ _ _ _ _ n refl, of k "fb_epoch k" "bi_hi (fb_boot k)" "bi_lo (fb_boot k)"] unfolding k(2) h(2)
    by (auto simp: needs_compaction_def store0_def make_config_def fabric_config0_def persistence_config0_def)
  have "\<not> fb_open ((take_lock 0 (new_process store0))\<lparr>fb_events := []\<rparr>)" by (simp add: new_process_def fabric0_def take_lock_def)
  then show ?thesis
    unfolding o fabric_open_def Let_def using c h(1) k(1) j by (simp add: publish_def)
qed

text \<open>C22: an invocation of bfctl, a new process over whatever a store has on disk, whatever the command, its arguments and the
  clock.  The commands summary, ledger, verify and explain leave every capacity, policy, pool, queue and allocation, the epoch and
  the store as they were opened; this asks nothing of what is on disk.  And any command leaves a fabric with exact books and
  well-formed tables under two conditions.  With a state directory, the directory is empty or the state opened from it is a sound
  image; that includes identity counters beyond every restored allocation, which a restart after journaled grants without a
  checkpoint does not have (recovered\_identity\_reused).  A release returns everything, or its proportional product of borrowed
  and released units fits in 64 bits, and it is journaled or nothing is journaled; otherwise the books may be damaged.\<close>

theorem bfctl_keeps_ledger:
  assumes "bfctl_open (t 0) boot (parse_arguments argv) (new_process s) = (Inr (), f1)"
    and "bfctl_main t boot w argv (new_process s) = (code, out, g)"
  shows "((bfctl_durable (parse_arguments argv) \<longrightarrow> empty_directory s \<or> sound_image f1) \<and>
      (first_positional (parse_arguments argv) = ''release'' \<longrightarrow>
        release_guarded (t 2) (release_arguments (parse_arguments argv)) (snd (bfctl_attach (t 1) bfctl_backend f1))) \<longrightarrow>
      fabric_inv g \<and> ledger_inv g) \<and>
    (first_positional (parse_arguments argv) \<in> set reporting \<and> \<not> has_flag ''--help'' (parse_arguments argv) \<longrightarrow>
      holdings g = holdings f1 \<and> (fb_store g = fb_store f1 \<or> fb_store g = store_close (fb_store f1)))"
proof (cases "has_flag ''--help'' (parse_arguments argv) \<or> first_positional (parse_arguments argv) \<in> {[], ''capabilities''}")
  case True
  then have "g = new_process s" using assms(2) by (auto simp: bfctl_main_def Let_def split: if_splits)
  then show ?thesis using True new_process_inv[of s] by (auto simp: fabric_inv_def reporting_def)
next
  case False
  let ?a = "parse_arguments argv" and ?f2 = "snd (bfctl_attach (t 1) bfctl_backend f1)"
  let ?sound = "(bfctl_durable ?a \<longrightarrow> empty_directory s \<or> sound_image f1) \<and>
      (first_positional ?a = ''release'' \<longrightarrow> release_guarded (t 2) (release_arguments ?a) ?f2)"
  have f2: "fabric_inv ?f2" if ?sound
    unfolding bfctl_attach_def by (rule sound.ops(3)[OF bfctl_open_inv[OF assms(1)]]) (use that in blast)
  have h2: "holdings ?f2 = holdings f1" "fb_store ?f2 = fb_store f1"
    by (simp_all add: bfctl_attach_def attach_keeps_holdings)
  have "(?sound \<longrightarrow> fabric_inv g) \<and> (first_positional ?a \<in> set reporting \<longrightarrow>
      holdings g = holdings f1 \<and> (fb_store g = fb_store f1 \<or> fb_store g = store_close (fb_store f1)))"
    using assms(2,1)
  proof (rule bfctl_main_steps)
    fix code' b h
    assume r: "run_command (\<lambda>k. t (k + 2)) w (first_positional ?a) ?a (bfctl_backend, ?f2) = (code', out, b, h)" "g = snd (fabric_close (t 12) h)"
    have "fabric_inv h" if ?sound
      using sound.run_command_keeps[OF f2[OF that], of "first_positional ?a" "\<lambda>k. t (k + 2)" ?a w bfctl_backend] that r(1)
      by (simp add: numeral_2_eq_2)
    then show ?thesis
      using sound.ops(2)[of h "t 12"] reporting_only_locks[OF _ r(1)] h2
      by (auto simp: r(2) close_keeps_holdings take_lock_keeps_holdings)
  qed (use False f2 h2 in auto)
  then show ?thesis by (auto simp: fabric_inv_def)
qed

theorem bfctl_keeps_ledger_witness:
 "\<forall>w. \<exists>code out g. bfctl_main (\<lambda>k. of_nat k) run_boot w init_argv (new_process store0) = (code, out, g) \<and> fabric_inv g \<and> ledger_inv g"
proof
  fix w
  have a: "first_positional (parse_arguments init_argv) = ''init''" "empty_directory store0"
    by code_simp (simp add: empty_directory_def store0_def)
  obtain f1 where f1: "bfctl_open 0 run_boot (parse_arguments init_argv) (new_process store0) = (Inr (), f1)"
    using init_opens by (metis prod.collapse)
  obtain code out g where g: "bfctl_main (\<lambda>k. of_nat k) run_boot w init_argv (new_process store0) = (code, out, g)" by (metis prod_cases3)
  have "fabric_inv g \<and> ledger_inv g"
    using bfctl_keeps_ledger[of "\<lambda>k. of_nat k" run_boot init_argv store0 f1 w code out g] f1 a g by simp
  with g show "\<exists>code out g. bfctl_main (\<lambda>k. of_nat k) run_boot w init_argv (new_process store0) = (code, out, g) \<and> fabric_inv g \<and> ledger_inv g"
    by blast
qed

text \<open>The exit codes of the worker: 2 with an error, otherwise 0, and then the report is exact.  The code 3 for a protocol error is never
  returned, since a report with one is never returned.\<close>

lemma worker_exit_codes:
  assumes "worker_main connect status_text argv l = (Some (code, out), l')" "\<not> has_flag ''--help'' (parse_arguments argv)"
  shows "code = 2 \<or> (code = 0 \<and> (\<exists>r. exact_report (snd (worker_arguments (parse_arguments argv))) r \<and>
    out = worker_lines (flag_value ''--label'' ''worker'' (parse_arguments argv)) r))"
proof -
  obtain host c where c: "worker_arguments (parse_arguments argv) = (host, c)" by fastforce
  have e: "exact_report c r" if "run_worker c conn l = (Some (Inr r), l'')" for conn r l''
    using that worker_session_exact
    by (auto simp: run_worker_def Let_def split: if_splits sum.splits prod.splits option.splits)
  show ?thesis
    using assms c by (auto simp: worker_main_def Let_def exact_report_def split: prod.splits option.splits sum.splits if_splits dest!: e)
qed

text \<open>A port number is cut to sixteen bits, so 65536 asks the coordinator for any free port.\<close>

lemma coordinator_port_cut:
  "fst (snd (coordinator_arguments [''--port'', ''65536''])) = 0"
  by (simp add: coordinator_arguments_def Let_def flag_number_def strtoull_def digits_value_def c_digit_def digit_value_def c_space_def)

text \<open>The coordinator process ends with 0 only after it announced its port and stopped; the books are then the ones its threads left.\<close>

lemma coordinator_main_ends:
  assumes "coordinator_main t last_tick boot bound answer meanwhile argv c = Some (0, out, c')" "\<not> has_flag ''--help'' (parse_arguments argv)"
  shows "\<exists>rest. out = ''READY '' @ dec (ucast answer) @ newline @ rest \<and> rest \<noteq> []"
  using assms by (auto simp: coordinator_main_def coordinator_port_def Let_def split: prod.splits sum.splits if_splits)

end
