(* ===== verification/Diagnostics.thy ===== *)
theory Diagnostics
  imports Render
begin

text \<open>
  What the library says about itself: Status with its message (src/status.cpp), the names of the durability layer and the
  text of a recovery report (src/persistence.cpp), and the clocks (include/buffer\_fabric/time.hpp, src/time.cpp).
\<close>

subsection \<open>Status\<close>

record status =
  ss_code :: error_code
  ss_message :: string

definition status_success :: status where
  "status_success = \<lparr>ss_code = Ok, ss_message = []\<rparr>"

definition status_with :: "error_code \<Rightarrow> string \<Rightarrow> status" where
  "status_with code message = \<lparr>ss_code = code, ss_message = truncate_to message kMaxStatusMessageBytes\<rparr>"

definition status_plain :: "error_code \<Rightarrow> status" where
  "status_plain code = \<lparr>ss_code = code, ss_message = (if code \<noteq> Ok then to_string_error code else [])\<rparr>"

definition status_ok :: "status \<Rightarrow> bool" where
  "status_ok s = (ss_code s = Ok)"

definition status_to_string :: "status \<Rightarrow> string" where
  "status_to_string s =
     (if ss_code s = Ok then ''Ok''
      else to_string_error (ss_code s) @ (if ss_message s \<noteq> [] then '': '' @ ss_message s else []))"

text \<open>The text of a status is bounded whatever the message was, and names its code.\<close>

lemma status_text_bounded:
  "length (status_to_string (status_with code message)) \<le> length (to_string_error code) + 2 + kMaxStatusMessageBytes"
  by (auto simp: status_to_string_def status_with_def truncate_to_def)

lemma status_text_names_code:
  assumes "\<not> status_ok s"
  shows "\<exists>rest. status_to_string s = to_string_error (ss_code s) @ rest"
  using assms by (auto simp: status_to_string_def status_ok_def)

subsection \<open>Names of the durability layer\<close>

primrec to_string_durability :: "durability_mode \<Rightarrow> string" where
  "to_string_durability DurNone = ''none''"
| "to_string_durability JournalSync = ''journal_sync''"

primrec to_string_journal_op :: "journal_op \<Rightarrow> string" where
  "to_string_journal_op JEpochAdvance = ''epoch_advance''"
| "to_string_journal_op JPoolUpsert = ''pool_upsert''"
| "to_string_journal_op JPoolRemoved = ''pool_removed''"
| "to_string_journal_op JPolicyUpsert = ''policy_upsert''"
| "to_string_journal_op JQueueUpsert = ''queue_upsert''"
| "to_string_journal_op JQueueRetired = ''queue_retired''"
| "to_string_journal_op JCapacitySet = ''capacity_set''"
| "to_string_journal_op JAllocationReserved = ''allocation_reserved''"
| "to_string_journal_op JAllocationCommitted = ''allocation_committed''"
| "to_string_journal_op JAllocationReleased = ''allocation_released''"
| "to_string_journal_op JAllocationReclaimed = ''allocation_reclaimed''"
| "to_string_journal_op JAllocationFenced = ''allocation_fenced''"
| "to_string_journal_op JAllocationRevalidated = ''allocation_revalidated''"
| "to_string_journal_op JAllocationExpired = ''allocation_expired''"
| "to_string_journal_op JPressureObserved = ''pressure_observed''"
| "to_string_journal_op JAttemptRecorded = ''attempt_recorded''"
| "to_string_journal_op JCheckpoint = ''checkpoint''"
| "to_string_journal_op JBackendRegistered = ''backend_registered''"

datatype snapshot_fault =
  SfNone | SfBadMagic | SfBadEndMagic | SfVersionUnsupported | SfHeaderCrcMismatch | SfPayloadCrcMismatch
| SfOversized | SfTruncated | SfHeaderTruncated

primrec to_string_snapshot_fault :: "snapshot_fault \<Rightarrow> string" where
  "to_string_snapshot_fault SfNone = ''none''"
| "to_string_snapshot_fault SfBadMagic = ''bad_magic''"
| "to_string_snapshot_fault SfBadEndMagic = ''bad_end_magic''"
| "to_string_snapshot_fault SfVersionUnsupported = ''version_unsupported''"
| "to_string_snapshot_fault SfHeaderCrcMismatch = ''header_crc_mismatch''"
| "to_string_snapshot_fault SfPayloadCrcMismatch = ''payload_crc_mismatch''"
| "to_string_snapshot_fault SfOversized = ''oversized''"
| "to_string_snapshot_fault SfTruncated = ''truncated''"
| "to_string_snapshot_fault SfHeaderTruncated = ''header_truncated''"

primrec to_string_outcome :: "recovery_outcome \<Rightarrow> string" where
  "to_string_outcome RecCreated = ''created''"
| "to_string_outcome RecSnapshotOnly = ''snapshot_only''"
| "to_string_outcome RecJournalReplayed = ''journal_replayed''"
| "to_string_outcome RecTailTruncated = ''tail_truncated''"
| "to_string_outcome RecJournalOnly = ''journal_only''"

text \<open>Each name stands for one value.\<close>

lemma durability_names_injective: "inj to_string_journal_op" "inj to_string_snapshot_fault" "inj to_string_outcome"
proof -
  show "inj to_string_journal_op"
    by (rule injI) (rename_tac x y, case_tac x; case_tac y; simp)
  show "inj to_string_snapshot_fault"
    by (rule injI) (rename_tac x y, case_tac x; case_tac y; simp)
  show "inj to_string_outcome"
    by (rule injI) (rename_tac x y, case_tac x; case_tac y; simp)
qed

subsection \<open>The recovery report\<close>

text \<open>The kind of every unfinished attempt is RESERVE, the only one rebuild\_aggregates records.  The warnings are texts of the run, which the report
  of the model does not hold; a recovery that rejected a record returned without a report, so the count of them is zero.\<close>

definition unfinished_json :: "attempt_id \<times> allocation_id \<times> u64 \<times> tick \<Rightarrow> json" where
  "unfinished_json = (\<lambda>(attempt, allocation, units, journaled_at). JObject
     [(''attempt'', JNumber attempt), (''kind'', JString (to_string_attempt_kind AtReserve)),
      (''allocation'', JNumber allocation), (''units'', JNumber units)])"

definition recovery_json :: "string list \<Rightarrow> recovery_report \<Rightarrow> json" where
  "recovery_json warnings r = JObject
     [(''outcome'', JString (to_string_outcome (rv_outcome r))),
      (''durable_state_present'', JBool (rv_durable_state_present r)),
      (''snapshot_loaded'', JBool (rv_snapshot_loaded r)),
      (''snapshot_integrity_verified'', JBool (rv_snapshot_integrity_verified r)),
      (''journal_loaded'', JBool (rv_journal_loaded r)),
      (''snapshot_format_version'', JNumber (ucast (rv_snapshot_format_version r))),
      (''journal_format_version'', JNumber (ucast (rv_journal_format_version r))),
      (''snapshot_payload_bytes'', JNumber (of_nat (rv_snapshot_payload_bytes r))),
      (''journal_records_read'', JNumber (of_nat (rv_journal_records_read r))),
      (''journal_records_applied'', JNumber (of_nat (rv_journal_records_applied r))),
      (''journal_records_rejected'', JNumber 0),
      (''journal_bytes_discarded'', JNumber (of_nat (rv_journal_bytes_discarded r))),
      (''journal_records_discarded'', JNumber (of_nat (rv_journal_records_discarded r))),
      (''durable_epoch'', JNumber (rv_durable_epoch r)), (''new_epoch'', JNumber (rv_new_epoch r)),
      (''boot_hi'', JNumber (bi_hi (rv_boot r))), (''boot_lo'', JNumber (bi_lo (rv_boot r))),
      (''previous_boot_hi'', JNumber (bi_hi (rv_previous_boot r))), (''previous_boot_lo'', JNumber (bi_lo (rv_previous_boot r))),
      (''pools_restored'', JNumber (of_nat (rv_pools_restored r))),
      (''policies_restored'', JNumber (of_nat (rv_policies_restored r))),
      (''queues_restored'', JNumber (of_nat (rv_queues_restored r))),
      (''allocations_restored'', JNumber (of_nat (rv_allocations_restored r))),
      (''allocations_restored_as_uncommitted'', JNumber (of_nat (rv_allocations_restored_as_uncommitted r))),
      (''pressure_snapshots_invalidated'', JNumber (of_nat (rv_pressure_snapshots_invalidated r))),
      (''fences_restored'', JNumber (of_nat (rv_fences_restored r))),
      (''unfinished_attempts'', JArray (map unfinished_json (rv_unfinished_attempts r))),
      (''warnings'', JArray (map JString warnings))]"

definition recovery_writer :: "string list \<Rightarrow> recovery_report \<Rightarrow> json_writer" where
  "recovery_writer warnings r = write_value (recovery_json warnings r) (json_writer0 4096)"

definition recovery_to_json :: "string list \<Rightarrow> recovery_report \<Rightarrow> string" where
  "recovery_to_json warnings r = jw_out (recovery_writer warnings r)"

text \<open>The text of a recovery with few unfinished reservations is whole; from 75 on it is always cut.\<close>

lemma length_items:
  assumes "\<And>v. v \<in> set vs \<Longrightarrow> a \<le> length (show_json v) \<and> length (show_json v) \<le> b"
  shows "a * length vs \<le> length (show_items x vs)" "length (show_items x vs) \<le> Suc b * length vs"
proof -
  have "a * length vs \<le> length (show_items x vs) \<and> length (show_items x vs) \<le> Suc b * length vs"
    using assms
  proof (induction vs arbitrary: x)
    case (Cons v vs)
    have i: "a * length vs \<le> length (show_items True vs)" "length (show_items True vs) \<le> Suc b * length vs"
      using Cons.IH[of True] Cons.prems by simp_all
    have v: "a \<le> length (show_json v)" "length (show_json v) \<le> b" using Cons.prems[of v] by simp_all
    show ?case using i v by (auto intro: add_mono)
  qed simp
  then show "a * length vs \<le> length (show_items x vs)" "length (show_items x vs) \<le> Suc b * length vs" by simp_all
qed

lemma length_unfinished:
  "55 \<le> length (show_json (unfinished_json u))" "length (show_json (unfinished_json u)) \<le> 112"
proof -
  obtain a i n t where u: "u = (a, i, n, t)" by (metis prod_cases4)
  have "0 < length (dec v)" for v by (simp add: dec_def decimal.simps[of "unat v"])
  then have p: "Suc 0 \<le> length (dec v)" for v by (simp add: Suc_le_eq)
  have len: "length (show_json (unfinished_json u)) = 52 + length (dec a) + length (dec i) + length (dec n)"
    by (simp add: u unfinished_json_def length_escaped_plain dec_def[symmetric] quote_char_def backslash_def)
  show "55 \<le> length (show_json (unfinished_json u))" using p[of a] p[of i] p[of n] len by linarith
  show "length (show_json (unfinished_json u)) \<le> 112" using length_dec[of a] length_dec[of i] length_dec[of n] len by linarith
qed

lemma recovery_text_whole:
  assumes "length (rv_unfinished_attempts r) \<le> 20"
  shows "recovery_to_json [] r = show_json (recovery_json [] r)"
proof -
  let ?n = "\<lambda>x. of_nat (x r) :: u64"
  have w: "length (decimal (unat (v :: u32))) \<le> 20" for v using length_dec[of "ucast v"] by (simp add: dec_def)
  note d = w[of "rv_snapshot_format_version r"] w[of "rv_journal_format_version r"]
    length_dec[of "?n rv_snapshot_payload_bytes"] length_dec[of "?n rv_journal_records_read"] length_dec[of "?n rv_journal_records_applied"]
    length_dec[of "?n rv_journal_bytes_discarded"] length_dec[of "?n rv_journal_records_discarded"] length_dec[of "rv_durable_epoch r"]
    length_dec[of "rv_new_epoch r"] length_dec[of "bi_hi (rv_boot r)"] length_dec[of "bi_lo (rv_boot r)"]
    length_dec[of "bi_hi (rv_previous_boot r)"] length_dec[of "bi_lo (rv_previous_boot r)"] length_dec[of "?n rv_pools_restored"]
    length_dec[of "?n rv_policies_restored"] length_dec[of "?n rv_queues_restored"] length_dec[of "?n rv_allocations_restored"]
    length_dec[of "?n rv_allocations_restored_as_uncommitted"] length_dec[of "?n rv_pressure_snapshots_invalidated"]
    length_dec[of "?n rv_fences_restored"]
  have i: "length (show_items False (map unfinished_json (rv_unfinished_attempts r))) \<le> 2260"
    using length_items(2)[of "map unfinished_json (rv_unfinished_attempts r)" 55 112 False] length_unfinished assms by fastforce
  have o: "length (append_escaped (to_string_outcome x)) \<le> 18" for x
    by (cases x) (simp_all add: length_escaped_plain quote_char_def backslash_def)
  have "length (show_json (recovery_json [] r)) \<le> 4096"
    using d i o[of "rv_outcome r"] by (simp add: recovery_json_def length_escaped_plain dec_def[symmetric] quote_char_def backslash_def decimal.simps[of 0])
  then show ?thesis
    using write_fits(1)[of "json_writer0 4096" "recovery_json [] r"]
    by (simp add: recovery_to_json_def recovery_writer_def room_def sep_def json_writer0_def)
qed

lemma recovery_text_cut:
  assumes "74 < length (rv_unfinished_attempts r)"
  shows "jw_truncated (recovery_writer warnings r)"
proof (rule ccontr)
  assume "\<not> jw_truncated (recovery_writer warnings r)"
  then have "length (show_json (recovery_json warnings r)) \<le> 4096"
    using write_room(1)[of "recovery_json warnings r" "json_writer0 4096"]
    by (simp add: recovery_writer_def room_def json_writer0_def)
  moreover have "55 * length (rv_unfinished_attempts r) \<le> length (show_items False (map unfinished_json (rv_unfinished_attempts r)))"
    using length_items(1)[of "map unfinished_json (rv_unfinished_attempts r)" 55 112 False] length_unfinished by fastforce
  ultimately show False using assms by (simp add: recovery_json_def)
qed

subsection \<open>Clocks\<close>

text \<open>The reading of the system's steady clock in nanoseconds is an argument, as is that of its wall clock in seconds.\<close>

record steady_clock =
  sc_origin :: tick

definition steady_clock_new :: "tick \<Rightarrow> steady_clock" where
  "steady_clock_new reading = \<lparr>sc_origin = reading\<rparr>"

definition steady_now_ticks :: "tick \<Rightarrow> steady_clock \<Rightarrow> tick" where
  "steady_now_ticks reading c = (if reading \<ge> sc_origin c then reading - sc_origin c else 0)"

definition steady_wall_seconds :: "int \<Rightarrow> u64" where
  "steady_wall_seconds seconds = (if seconds > 0 then of_int seconds else 0)"

record manual_clock =
  mc_now :: tick
  mc_wall :: u64

definition manual_clock_new :: "tick \<Rightarrow> manual_clock" where
  "manual_clock_new start = \<lparr>mc_now = start, mc_wall = 1700000000\<rparr>"

definition manual_now_ticks :: "manual_clock \<Rightarrow> tick" where "manual_now_ticks c = mc_now c"

definition manual_advance :: "tick \<Rightarrow> manual_clock \<Rightarrow> manual_clock" where
  "manual_advance delta c = c\<lparr>mc_now := mc_now c + delta\<rparr>"

definition manual_set :: "tick \<Rightarrow> manual_clock \<Rightarrow> manual_clock" where
  "manual_set value c = c\<lparr>mc_now := value\<rparr>"

definition manual_set_wall :: "u64 \<Rightarrow> manual_clock \<Rightarrow> manual_clock" where
  "manual_set_wall seconds c = c\<lparr>mc_wall := seconds\<rparr>"

text \<open>On a clock that never goes backwards, evidence that was once too old stays so, and the steady clock is one.  The manual clock goes
  backwards when it is set to an earlier tick or advanced past the largest one, and old evidence is then fresh again.\<close>

lemma steady_monotone:
  assumes "reading \<le> reading'"
  shows "steady_now_ticks reading c \<le> steady_now_ticks reading' c"
  using assms by (auto simp: steady_now_ticks_def word_le_nat_alt unat_sub)

lemma expired_stays_expired:
  assumes "observed_at \<le> now" "\<not> is_fresh now observed_at ttl" "now \<le> later"
  shows "\<not> is_fresh later observed_at ttl"
  using assms by (auto simp: is_fresh_def word_le_nat_alt word_less_nat_alt unat_sub split: if_splits)

lemma steady_evidence_expires_once:
  assumes "observed_at \<le> steady_now_ticks reading c" "\<not> is_fresh (steady_now_ticks reading c) observed_at ttl" "reading \<le> reading'"
  shows "\<not> is_fresh (steady_now_ticks reading' c) observed_at ttl"
  using expired_stays_expired[OF assms(1,2) steady_monotone[OF assms(3)]] .

lemma manual_clock_rewinds:
  "\<not> is_fresh (manual_now_ticks (manual_clock_new 1000)) 5 100 \<and>
   is_fresh (manual_now_ticks (manual_advance (2 ^ 64 - 990) (manual_clock_new 1000))) 5 100"
  by (simp add: manual_clock_new_def manual_advance_def manual_now_ticks_def is_fresh_def)

end
