(* ===== verification/Bench.thy ===== *)
theory Bench
  imports Memory_Mode Tools Diagnostics
begin

text \<open>
  The synthetic benchmark src/tools/bfbench.cpp: its random numbers, the topology it builds and its five scenarios over a
  fabric in memory and a manual clock.  The figures it prints hold measured times and are not part of the model; what
  it computes, its exit code and the fabric it leaves are.  The loop that fills the pools ends when no pool grants any more, which the model
  leaves open: a run that does not return is None.
\<close>

unbundle bit_operations_syntax

subsection \<open>Random numbers\<close>

definition random_new :: "u64 \<Rightarrow> u64" where
  "random_new seed = (if seed = 0 then 1 else seed)"

definition random_next :: "u64 \<Rightarrow> u64" where
  "random_next state =
     (let state = state XOR push_bit 13 state; state = state XOR drop_bit 7 state in state XOR push_bit 17 state)"

definition random_below :: "u64 \<Rightarrow> u64 \<Rightarrow> u64 \<times> u64" where
  "random_below limit state = (if limit = 0 then (0, state) else let state = random_next state in (state mod limit, state))"

lemma random_below_less: "limit \<noteq> 0 \<Longrightarrow> fst (random_below limit state) < limit"
  by (simp add: random_below_def Let_def word_mod_less_divisor word_gt_0)

subsection \<open>Topology\<close>

record scenario_result =
  sn_operations :: u64
  sn_units :: u64
  sn_closed :: bool

definition scenario_result0 :: scenario_result where
  "scenario_result0 = \<lparr>sn_operations = 0, sn_units = 0, sn_closed = True\<rparr>"

definition count_operations :: "u64 \<Rightarrow> scenario_result \<Rightarrow> scenario_result" where
  "count_operations n r = r\<lparr>sn_operations := sn_operations r + n\<rparr>"

definition count_units :: "u64 \<Rightarrow> scenario_result \<Rightarrow> scenario_result" where
  "count_units n r = r\<lparr>sn_units := sn_units r + n\<rparr>"

record bench =
  bn_fabric :: fabric
  bn_backend :: synthetic_backend
  bn_clock :: manual_clock
  bn_pools :: "pool_id list"
  bn_queues :: "queue_id list"
  bn_queues_by_pool :: "queue_id list list"

definition bench0 :: bench where
  "bench0 = \<lparr>bn_fabric = fabric0, bn_backend = synthetic_new 1 1 ''bench'', bn_clock = manual_clock_new 1000,
     bn_pools = [], bn_queues = [], bn_queues_by_pool = []\<rparr>"

definition bench_now :: "bench \<Rightarrow> tick" where
  "bench_now b = manual_now_ticks (bn_clock b)"

text \<open>An operation of the fabric under the benchmark's clock.\<close>

definition on_fabric :: "(tick \<Rightarrow> 'a op) \<Rightarrow> bench \<Rightarrow> 'a result \<times> bench" where
  "on_fabric m b = (let (r, f) = m (bench_now b) (bn_fabric b) in (r, b\<lparr>bn_fabric := f\<rparr>))"

definition bench_query :: "(fabric \<Rightarrow> 'a) \<Rightarrow> bench \<Rightarrow> 'a \<times> bench" where
  "bench_query q b = (let f = take_lock (bench_now b) (bn_fabric b) in (q f, b\<lparr>bn_fabric := f\<rparr>))"

definition bench_config :: fabric_config where
  "bench_config = fabric_config0\<lparr>decision_history_capacity := 4096, attempt_memory_capacity := 2 ^ 16\<rparr>"

definition bench_policy :: pool_policy where
  "bench_policy = pool_policy0\<lparr>pol_id := 1, pol_name := ''bench'',
     pressure := (pressure pool_policy0)\<lparr>refuse_increase_on_unknown := False, evidence_ttl_ticks := 2 ^ 62\<rparr>,
     reclaim := (reclaim pool_policy0)\<lparr>max_units_per_operation := kMaxUnitsPerPool\<rparr>\<rparr>"

definition bench_pool_units :: u64 where "bench_pool_units = 2 ^ 22"

definition bench_pool :: "u64 \<Rightarrow> backend_id \<Rightarrow> pool_registration" where
  "bench_pool index backend = \<lparr>pg_id = index + 1, pg_name = ''bench-pool-'' @ dec (index + 1), pg_resource = 1,
     pg_backend = backend, pg_raw_units = bench_pool_units, pg_protected_units = bench_pool_units div 16, pg_parent = 0,
     pg_policy = 1, pg_tenant = 0, pg_provenance = 0\<rparr>"

definition bench_queue :: "u64 \<Rightarrow> u64 \<Rightarrow> u64 \<Rightarrow> pool_id \<Rightarrow> queue_registration" where
  "bench_queue queues_per_pool index queue_index pool = \<lparr>qg_id = index * queues_per_pool + queue_index + 1,
     qg_name = ''bench-queue-'' @ dec index @ ''-'' @ dec queue_index, qg_pool = pool, qg_tenant = 0, qg_traffic_class = 0,
     qg_demand_units = 0, qg_weight = 1, qg_max_committed_units = 0\<rparr>"

definition indices :: "u64 \<Rightarrow> u64 list" where
  "indices n = map of_nat [0..<unat n]"

fun build_queues :: "u64 \<Rightarrow> u64 \<Rightarrow> pool_id \<Rightarrow> u64 list \<Rightarrow> bench \<Rightarrow> void_result \<times> bench" where
  "build_queues per index pool [] b = (Inr (), b)"
| "build_queues per index pool (i # is) b =
     try_st (on_fabric (\<lambda>t. fabric_register_queue t (bench_queue per index i pool)) b) (\<lambda>q b.
       build_queues per index pool is
         (b\<lparr>bn_queues := bn_queues b @ [q],
            bn_queues_by_pool := butlast (bn_queues_by_pool b) @ [last (bn_queues_by_pool b) @ [q]]\<rparr>))"

fun build_pools :: "u64 \<Rightarrow> u64 list \<Rightarrow> bench \<Rightarrow> void_result \<times> bench" where
  "build_pools per [] b = (Inr (), b)"
| "build_pools per (i # is) b =
     try_st (on_fabric (\<lambda>t. fabric_register_pool t (bench_pool i (sb_id (bn_backend b)))) b) (\<lambda>p b.
     try_st (build_queues per i p (indices per)
               (b\<lparr>bn_pools := bn_pools b @ [p], bn_queues_by_pool := bn_queues_by_pool b @ [[]]\<rparr>)) (\<lambda>_ b.
       build_pools per is b))"

definition build_capacity :: "u64 \<Rightarrow> bench \<Rightarrow> void_result \<times> bench" where
  "build_capacity pool_count b =
     (let units = bench_pool_units * pool_count + 2 ^ 20; t = bench_now b;
          backend = set_resource 1 units 1 (bn_backend b);
          (r, backend, f) = set_capacity sb_ready synthetic_query_capacity synthetic_program_reservation (t, t, t, t)
            1 (sb_id backend) units 0 (backend, bn_fabric b)
      in (case r of Inl e \<Rightarrow> Inl e | Inr _ \<Rightarrow> Inr (), b\<lparr>bn_backend := backend, bn_fabric := f\<rparr>))"

definition build_topology :: "boot_incarnation \<Rightarrow> u64 \<Rightarrow> u64 \<Rightarrow> bench \<Rightarrow> void_result \<times> bench" where
  "build_topology boot pool_count per b =
     try_st (on_fabric (\<lambda>t. fabric_open t boot bench_config) b) (\<lambda>_ b.
     try_st (on_fabric (\<lambda>t. bfctl_attach t (bn_backend b)) b) (\<lambda>_ b.
     try_st (build_capacity pool_count b) (\<lambda>_ b.
     try_st (on_fabric (\<lambda>t. fabric_publish_policy t bench_policy) b) (\<lambda>_ b.
       build_pools per (indices pool_count) b))))"

subsection \<open>Requests\<close>

definition bench_allocate :: "attempt_id \<Rightarrow> pool_id \<Rightarrow> queue_id \<Rightarrow> u64 \<Rightarrow> allocate_request" where
  "bench_allocate attempt pool queue units = \<lparr>ar_attempt = attempt, ar_pool = pool, ar_queue = queue,
     ar_requested_units = units, ar_reclaim_class = Reclaimable, ar_reclaim_priority = 0, ar_ttl_ticks = 0,
     ar_commit_immediately = True, ar_parent_allocation = 0, ar_provenance = 0, ar_expected_pool_generation = 0,
     ar_expected_policy_generation = 0, ar_expected_queue_generation = 0, ar_expected_capacity_generation = 0,
     ar_expected_epoch = 0\<rparr>"

definition bench_release :: "attempt_id \<Rightarrow> allocation_id \<Rightarrow> release_request" where
  "bench_release attempt allocation = \<lparr>rr_attempt = attempt, rr_allocation = allocation, rr_units = 0,
     rr_release_all = True, rr_expected_pool_generation = 0, rr_expected_epoch = 0\<rparr>"

definition bench_reclaim :: "attempt_id \<Rightarrow> pool_id \<Rightarrow> reclaim_request" where
  "bench_reclaim attempt pool = \<lparr>cl_attempt = attempt, cl_pool = pool, cl_target_units = 2 ^ 40, cl_dry_run = True,
     cl_expected_pool_generation = 0, cl_expected_epoch = 0\<rparr>"

definition bench_evaluate :: "pool_id \<Rightarrow> queue_id \<Rightarrow> u64 \<Rightarrow> evaluate_request" where
  "bench_evaluate pool queue units = \<lparr>er_pool = pool, er_queue = queue, er_requested_units = units,
     er_reclaim_class = Reclaimable, er_expected_epoch = 0\<rparr>"

definition pool_at :: "u64 \<Rightarrow> bench \<Rightarrow> pool_id" where
  "pool_at i b = bn_pools b ! unat i"

definition queue_at :: "u64 \<Rightarrow> u64 \<Rightarrow> bench \<Rightarrow> queue_id" where
  "queue_at i j b = bn_queues_by_pool b ! unat i ! unat j"

text \<open>The state of a scenario: random numbers, attempts, result and topology.\<close>

type_synonym run = "u64 \<times> u64 \<times> scenario_result \<times> bench"

definition finish_scenario :: "scenario_result \<times> bench \<Rightarrow> scenario_result \<times> bench" where
  "finish_scenario = (\<lambda>(r, b). let (report, b) = bench_query validate_accounting b in (r\<lparr>sn_closed := rp_closed report\<rparr>, b))"

subsection \<open>Scenarios\<close>

text \<open>The draws of a request in their order: the pool, the queue, the units.\<close>

definition draw_request :: "u64 \<Rightarrow> u64 \<Rightarrow> u64 \<Rightarrow> u64 \<times> u64 \<times> u64 \<times> u64" where
  "draw_request pool_count per rnd =
     (let (i, rnd) = random_below pool_count rnd; (j, rnd) = random_below per rnd; (n, rnd) = random_below 4096 rnd
      in (i, j, 1 + n, rnd))"

definition cycle_step :: "u64 \<Rightarrow> u64 \<Rightarrow> run \<Rightarrow> run" where
  "cycle_step pool_count per = (\<lambda>(rnd, attempt, r, b).
     let (i, j, units, rnd) = draw_request pool_count per rnd;
         (decision, b) = on_fabric (\<lambda>t. fabric_allocate t (bench_allocate attempt (pool_at i b) (queue_at i j b) units)) b;
         attempt = attempt + 1
     in case decision of
          Inl _ \<Rightarrow> (rnd, attempt, r, b)
        | Inr d \<Rightarrow>
          if dc_granted_units d = 0 then (rnd, attempt, r, b)
          else let (released, b) = on_fabric (\<lambda>t. fabric_release t (bench_release attempt (dc_allocation d))) b;
                   attempt = attempt + 1
               in case released of
                    Inl _ \<Rightarrow> (rnd, attempt, r, b)
                  | Inr _ \<Rightarrow> (rnd, attempt, count_units (dc_granted_units d) (count_operations 2 r), b))"

definition allocate_release :: "u64 \<Rightarrow> u64 \<Rightarrow> u64 \<Rightarrow> u64 \<times> bench \<Rightarrow> scenario_result \<times> u64 \<times> bench" where
  "allocate_release operations pool_count per = (\<lambda>(rnd, b).
     let (rnd, attempt, r, b) = (cycle_step pool_count per ^^ unat operations) (rnd, 1, scenario_result0, b);
         (r, b) = finish_scenario (r, b)
     in (r, rnd, b))"

fun fill_round :: "u64 list \<Rightarrow> bool \<times> u64 \<times> scenario_result \<times> bench \<Rightarrow> bool \<times> u64 \<times> scenario_result \<times> bench" where
  "fill_round [] s = s"
| "fill_round (i # is) (filled, attempt, r, b) =
     (let (decision, b) = on_fabric (\<lambda>t. fabric_allocate t (bench_allocate attempt (pool_at i b) (queue_at i 0 b) 1024)) b
      in fill_round is (case decision of
           Inr d \<Rightarrow> if dc_granted_units d = 1024
             then (True, attempt + 1, count_units 1024 (count_operations 1 r), b) else (filled, attempt + 1, r, b)
         | Inl _ \<Rightarrow> (filled, attempt + 1, r, b)))"

partial_function (option) fill_pools :: "u64 \<Rightarrow> u64 \<times> scenario_result \<times> bench \<Rightarrow> (u64 \<times> scenario_result \<times> bench) option" where
  "fill_pools pool_count s =
     (let (filled, s) = fill_round (indices pool_count) (False, s)
      in if filled then fill_pools pool_count s else Some s)"

fun reclaim_pools :: "u64 list \<Rightarrow> u64 \<times> scenario_result \<times> bench \<Rightarrow> scenario_result \<times> bench" where
  "reclaim_pools [] (attempt, r, b) = (r, b)"
| "reclaim_pools (i # is) (attempt, r, b) =
     (let (applied, b) = on_fabric (\<lambda>t. fabric_apply_reclaim t (bench_reclaim attempt (pool_at i b))) b
      in reclaim_pools is (attempt + 1,
           (case applied of Inr x \<Rightarrow> count_operations (rr_revoked_allocations x) r | Inl _ \<Rightarrow> r), b))"

definition fill_then_reclaim :: "u64 \<Rightarrow> bench \<Rightarrow> (scenario_result \<times> bench) option" where
  "fill_then_reclaim pool_count b =
     map_option (\<lambda>s. finish_scenario (reclaim_pools (indices pool_count) s)) (fill_pools pool_count (1000000, scenario_result0, b))"

definition block_quantum :: u64 where
  "block_quantum = (if (2 ^ 22 :: u64) - (2 ^ 22 div 16) = 0 then 1 else (2 ^ 22 - (2 ^ 22 div 16)) div 512)"

fun allocate_blocks :: "u64 \<Rightarrow> (u64 \<times> u64) list \<Rightarrow> allocation_id list \<times> u64 \<times> scenario_result \<times> bench \<Rightarrow>
    allocation_id list \<times> u64 \<times> scenario_result \<times> bench" where
  "allocate_blocks per [] s = s"
| "allocate_blocks per ((i, k) # is) (blocks, attempt, r, b) =
     (let (decision, b) = on_fabric (\<lambda>t. fabric_allocate t (bench_allocate attempt (pool_at i b) (queue_at i (k mod per) b)
            (if block_quantum = 0 then 1 else block_quantum))) b
      in allocate_blocks per is (case decision of
           Inr d \<Rightarrow> if dc_granted_units d \<noteq> 0
             then (blocks @ [dc_allocation d], attempt + 1, count_units (dc_granted_units d) (count_operations 1 r), b)
             else (blocks, attempt + 1, r, b)
         | Inl _ \<Rightarrow> (blocks, attempt + 1, r, b)))"

fun release_alternate :: "allocation_id list \<Rightarrow> u64 \<times> scenario_result \<times> bench \<Rightarrow> scenario_result \<times> bench" where
  "release_alternate [] (attempt, r, b) = (r, b)"
| "release_alternate (a # as) (attempt, r, b) =
     (let (released, b) = on_fabric (\<lambda>t. fabric_release t (bench_release attempt a)) b
      in release_alternate (drop 1 as) (attempt + 1, (case released of Inr _ \<Rightarrow> count_operations 1 r | Inl _ \<Rightarrow> r), b))"

definition fragmentation :: "u64 \<Rightarrow> u64 \<Rightarrow> bench \<Rightarrow> scenario_result \<times> bench" where
  "fragmentation pool_count per b =
     (let (blocks, s) = allocate_blocks per (List.product (indices pool_count) (indices 512)) ([], 10000000, scenario_result0, b)
      in finish_scenario (release_alternate blocks s))"

definition evaluate_step :: "u64 \<Rightarrow> u64 \<Rightarrow> u64 \<times> scenario_result \<times> bench \<Rightarrow> u64 \<times> scenario_result \<times> bench" where
  "evaluate_step pool_count per = (\<lambda>(rnd, r, b).
     let (i, j, units, rnd) = draw_request pool_count per rnd;
         (evaluated, b) = bench_query (evaluate (bench_evaluate (pool_at i b) (queue_at i j b) units)) b
     in (rnd, (case evaluated of Inr _ \<Rightarrow> count_operations 1 r | Inl _ \<Rightarrow> r), b))"

definition evaluate_scenario :: "u64 \<Rightarrow> u64 \<Rightarrow> u64 \<Rightarrow> u64 \<times> bench \<Rightarrow> scenario_result \<times> bench" where
  "evaluate_scenario operations pool_count per = (\<lambda>(rnd, b).
     let (rnd, r, b) = (evaluate_step pool_count per ^^ unat operations) (rnd, scenario_result0, b) in finish_scenario (r, b))"

definition bench_snapshot :: "pool_id \<Rightarrow> explanation \<Rightarrow> epoch_id \<Rightarrow> boot_incarnation \<Rightarrow> tick \<Rightarrow> pressure_snapshot" where
  "bench_snapshot target x e boot now = \<lparr>ps_id = 0, ps_pool = target, ps_pool_generation = xp_pool_generation x, ps_epoch = e,
     ps_boot = boot, ps_observed_at = now, ps_ttl_ticks = 2 ^ 62, ps_demand_units = 0, ps_committed_units = 0,
     ps_reclaimable_units = 0, ps_provenance = 0, assert_committed = False, evidence_digest = \<lparr>dg_hi = 0, dg_lo = 0\<rparr>\<rparr>"

definition pressure_allocate :: "pool_id \<Rightarrow> u64 \<Rightarrow> u64 \<Rightarrow> u64 \<times> scenario_result \<times> bench \<Rightarrow> u64 \<times> scenario_result \<times> bench" where
  "pressure_allocate target want used = (\<lambda>(attempt, r, b).
     if want > used then
       let (decision, b) = on_fabric (\<lambda>t. fabric_allocate t (bench_allocate attempt target (queue_at 0 0 b) (want - used))) b
       in (attempt + 1, (case decision of Inr _ \<Rightarrow> count_operations 1 r | Inl _ \<Rightarrow> r), b)
     else (attempt, r, b))"

text \<open>One step of the pressure scenario, with the explanation it starts from and the one it ends with.\<close>

definition pressure_step :: "pool_id \<Rightarrow> u64 \<Rightarrow> u64 \<Rightarrow> explanation \<Rightarrow> u64 \<times> scenario_result \<times> bench \<Rightarrow>
    explanation result \<times> u64 \<times> scenario_result \<times> bench" where
  "pressure_step target usable step x = (\<lambda>(attempt, r, b).
     let want = (usable div 40) * (step + 1); a = xp_accounting x;
         used = ac_allocated a - ac_borrowed_in a + ac_lent_out a;
         (attempt, r, b) = pressure_allocate target want used (attempt, r, b);
         (e, b) = bench_query fb_epoch b; (boot, b) = bench_query fb_boot b;
         (observed_now, b) = on_fabric (\<lambda>t. fabric_observe_pressure t (bench_snapshot target x e boot (bench_now b))) b;
         r = (case observed_now of Inr _ \<Rightarrow> count_operations 1 r | Inl _ \<Rightarrow> r);
         b = b\<lparr>bn_clock := manual_advance 1000 (bn_clock b)\<rparr>;
         (x, b) = bench_query (explain target) b
     in (x, attempt, r, b))"

fun pressure_loop :: "pool_id \<Rightarrow> u64 \<Rightarrow> u64 list \<Rightarrow> explanation \<Rightarrow> u64 \<times> scenario_result \<times> bench \<Rightarrow> scenario_result \<times> bench" where
  "pressure_loop target usable [] x (attempt, r, b) = (r, b)"
| "pressure_loop target usable (step # steps) x s =
     (case pressure_step target usable step x s of
        (Inl _, attempt, r, b) \<Rightarrow> (r, b)
      | (Inr x, s) \<Rightarrow> pressure_loop target usable steps x s)"

definition pressure_transitions :: "bench \<Rightarrow> scenario_result \<times> bench" where
  "pressure_transitions b =
     (let target = pool_at 0 b; (x, b) = bench_query (explain target) b
      in finish_scenario (case x of
           Inl _ \<Rightarrow> (scenario_result0, b)
         | Inr x \<Rightarrow> pressure_loop target (ac_usable (xp_accounting x)) (indices 40) x (20000000, scenario_result0, b)))"

subsection \<open>The program\<close>

definition run_scenarios :: "u64 \<Rightarrow> u64 \<Rightarrow> u64 \<Rightarrow> u64 \<Rightarrow> bench \<Rightarrow> (scenario_result list \<times> bench) option" where
  "run_scenarios operations pool_count per seed b =
     (let (r1, rnd, b) = allocate_release operations pool_count per (random_new seed, b) in
      case fill_then_reclaim pool_count b of
        None \<Rightarrow> None
      | Some (r2, b) \<Rightarrow>
        let (r3, b) = fragmentation pool_count per b; (r4, b) = evaluate_scenario operations pool_count per (rnd, b);
            (r5, b) = pressure_transitions b; (report, b) = bench_query validate_accounting b; (m, b) = bench_query metrics b
        in Some ([r1, r2, r3, r4, r5], b))"

definition bench_counts_ok :: "u64 \<Rightarrow> u64 \<Rightarrow> bool" where
  "bench_counts_ok pool_count per \<longleftrightarrow> \<not> (pool_count = 0 \<or> pool_count > 256 \<or> per = 0 \<or> per > 256)"

definition bench_main :: "boot_incarnation \<Rightarrow> string list \<Rightarrow> bench \<Rightarrow> (int \<times> bench) option" where
  "bench_main boot argv b =
     (let a = parse_arguments argv; pool_count = flag_number ''--pools'' 4 a; per = flag_number ''--queues'' 8 a in
      if has_flag ''--help'' a then Some (0, b)
      else if \<not> bench_counts_ok pool_count per then Some (1, b)
      else case build_topology boot pool_count per b of
        (Inl _, b) \<Rightarrow> Some (1, b)
      | (Inr _, b) \<Rightarrow>
        case run_scenarios (flag_number ''--ops'' 200000 a) pool_count per (flag_number ''--seed'' 0x5EED a) b of
          None \<Rightarrow> None
        | Some (results, b) \<Rightarrow>
          case on_fabric fabric_close b of
            (Inl _, b) \<Rightarrow> Some (1, b)
          | (Inr _, b) \<Rightarrow> Some (if list_all sn_closed results then 0 else 1, b))"

subsection \<open>The benchmark keeps the books\<close>

definition volatile :: "fabric \<Rightarrow> bool" where
  "volatile f \<longleftrightarrow> reachable f \<and> store_mode (fb_store f) = DurNone"

lemma volatile_ops:
  assumes "volatile f"
  shows "volatile (take_lock t f)" "volatile (snd (fabric_allocate t aq f))"
    "rr_release_all rq \<Longrightarrow> volatile (snd (fabric_release t rq f))" "volatile (snd (fabric_apply_reclaim t clq f))"
    "volatile (snd (fabric_observe_pressure t sn f))" "volatile (snd (fabric_publish_policy t policy f))"
    "volatile (snd (fabric_register_pool t pg f))" "volatile (snd (fabric_register_queue t qg f))"
    "volatile (snd (bfctl_attach t b f))" "volatile (snd (fabric_close t f))"
proof -
  have r: "reachable f" and m: "store_mode (fb_store f) = DurNone" "keeps_in_memory f"
    using assms by (simp_all add: volatile_def keeps_in_memory_mode)
  show "volatile (take_lock t f)" using reach_ops(1)[OF r] m by (simp add: volatile_def)
  show "volatile (snd (fabric_allocate t aq f))"
    using reach_step[OF r step_allocate] m by (simp add: volatile_def fabric_allocate_def allocate_store)
  show "volatile (snd (fabric_release t rq f))" if "rr_release_all rq"
    using reach_step[OF r step_release, of rq t] m that
    by (simp add: volatile_def release_fits_request_def) (simp add: fabric_release_def release_store)
  show "volatile (snd (fabric_apply_reclaim t clq f))"
    using reach_step[OF r step_reclaim] m by (simp add: volatile_def fabric_apply_reclaim_def reclaim_store)
  show "volatile (snd (fabric_observe_pressure t sn f))"
    using reach_ops(10)[OF r] m by (simp add: volatile_def fabric_observe_pressure_def observe_store)
  show "volatile (snd (fabric_publish_policy t policy f))"
    using reach_ops(7)[OF r] m by (simp add: volatile_def fabric_publish_policy_def publish_policy_store)
  show "volatile (snd (fabric_register_pool t pg f))" "volatile (snd (fabric_register_queue t qg f))"
    using reach_ops(8,9)[OF r] m by (simp_all add: volatile_def fabric_register_pool_def fabric_register_queue_def register_store)
  show "volatile (snd (bfctl_attach t b f))"
    using reach_ops(3)[OF r] m by (simp add: volatile_def bfctl_attach_def) (simp add: attach_backend_def Let_def)
  show "volatile (snd (fabric_close t f))"
    using reach_ops(2)[OF r] close_disk[of t f] m by (simp add: volatile_def on_disk_def)
qed

lemma volatile_open:
  assumes "reachable f" "store_mode (fb_store f) = DurNone" "pc_mode (cf_persistence c) = DurNone"
  shows "volatile (snd (fabric_open t boot c f))"
  using reach_step[OF assms(1) step_open[OF assms(3)]] open_memory_disk[OF assms(3), of t boot f] assms(2)
  by (simp add: volatile_def on_disk_def)

lemma capacity_scope_store:
  assumes "store_mode (fb_store f) = DurNone"
  shows "fb_store (snd (locked_scope t (capacity_publish r b raw g authority) f)) = fb_store f"
  using assms by (intro scoped_store capacity_store)

lemma set_capacity_store:
  assumes "store_mode (fb_store f) = DurNone" "set_capacity ok query program ticks r i raw g (b, f) = (x, b', h)"
  shows "fb_store h = fb_store f"
proof -
  obtain t1 t2 t3 t4 where t: "ticks = (t1, t2, t3, t4)" by (metis prod_cases4)
  have c: "fb_store g' = fb_store f'" if "locked_scope t4 (capacity_publish r i raw g a) f' = (y, g')" "fb_store f' = fb_store f" for a f' y g'
    using capacity_scope_store[of f' t4 r i raw g a] that assms(1) by simp
  show ?thesis
    using assms(2)
    by (auto simp: set_capacity_def t capacity_find_def capacity_count_effect_def Let_def dest!: c
        split: sum.splits prod.splits if_splits)
qed

text \<open>A step of the benchmark: from a sound fabric to a sound one, with the pools and queues as they were built.\<close>

definition layout :: "bench \<Rightarrow> pool_id list \<times> queue_id list list" where
  "layout b = (bn_pools b, bn_queues_by_pool b)"

definition kept :: "bench \<Rightarrow> bench \<Rightarrow> bool" where
  "kept b b' \<longleftrightarrow> (volatile (bn_fabric b) \<longrightarrow> volatile (bn_fabric b')) \<and> layout b' = layout b"

lemma kept_refl [simp]: "kept b b" by (simp add: kept_def)

lemma kept_trans: "kept a b \<Longrightarrow> kept b c \<Longrightarrow> kept a c" by (simp add: kept_def)

lemma on_fabric_kept:
  assumes "on_fabric m b = (r, b')" "\<And>t f. volatile f \<Longrightarrow> volatile (snd (m t f))"
  shows "kept b b'"
  using assms(1) assms(2)[of "bn_fabric b" "bench_now b"] by (auto simp: on_fabric_def kept_def layout_def split: prod.splits)

lemma query_kept: "bench_query q b = (x, b') \<Longrightarrow> kept b b'"
  by (auto simp: bench_query_def kept_def layout_def Let_def volatile_ops)

lemma requests_kept:
  "on_fabric (\<lambda>t. fabric_allocate t aq) b = (r, b1) \<Longrightarrow> kept b b1"
  "on_fabric (\<lambda>t. fabric_release t (bench_release at i)) b = (r, b1) \<Longrightarrow> kept b b1"
  "on_fabric (\<lambda>t. fabric_apply_reclaim t cq) b = (r', b1) \<Longrightarrow> kept b b1"
  "on_fabric (\<lambda>t. fabric_observe_pressure t sn) b = (u, b1) \<Longrightarrow> kept b b1"
  "on_fabric fabric_close b = (u, b1) \<Longrightarrow> kept b b1"
  by (erule on_fabric_kept, simp add: volatile_ops bench_release_def)+

lemma finish_kept: "kept b (snd (finish_scenario (r, b)))"
  by (auto simp: finish_scenario_def split: prod.split dest: query_kept)

lemma cycle_kept: "kept b (snd (snd (snd (cycle_step n per (rnd, attempt, r, b)))))"
proof -
  obtain i j units rnd' where d: "draw_request n per rnd = (i, j, units, rnd')" by (metis prod_cases4)
  obtain x b1 where x: "on_fabric (\<lambda>t. fabric_allocate t (bench_allocate attempt (pool_at i b) (queue_at i j b) units)) b = (x, b1)" by fastforce
  have k: "kept b b1" by (rule requests_kept(1)[OF x])
  have "kept b b2" if "on_fabric (\<lambda>t. fabric_release t (bench_release at a)) b1 = (y, b2)" for at a y b2
    using kept_trans[OF k requests_kept(2)[OF that]] .
  then show ?thesis using k by (auto simp: cycle_step_def d x Let_def split: sum.split prod.split)
qed

lemma funpow_kept:
  assumes "\<And>s. kept (sel s) (sel (step s))"
  shows "kept (sel s) (sel ((step ^^ n) s))"
  by (induction n) (simp, simp, blast intro: kept_trans assms)

lemma allocate_release_kept: "kept b (snd (snd (allocate_release n m per (rnd, b))))"
proof -
  let ?s = "(rnd, 1, scenario_result0, b)"
  have c: "kept (snd (snd (snd s))) (snd (snd (snd (cycle_step m per s))))" for s
    using cycle_kept by (metis prod_cases4 snd_conv)
  have "kept b (snd (snd (snd ((cycle_step m per ^^ unat n) ?s))))"
    using funpow_kept[of "\<lambda>s. snd (snd (snd s))" "cycle_step m per" ?s "unat n", OF c] by simp
  then show ?thesis
    using finish_kept by (auto simp: allocate_release_def Let_def split: prod.split) (metis kept_trans snd_conv)
qed

lemma fill_round_kept: "kept b (snd (snd (snd (fill_round is (filled, attempt, r, b)))))"
proof (induction "is" arbitrary: filled attempt r b)
  case (Cons i "is")
  obtain x b1 where x: "on_fabric (\<lambda>t. fabric_allocate t (bench_allocate attempt (pool_at i b) (queue_at i 0 b) 1024)) b = (x, b1)" by fastforce
  have "kept b1 (snd (snd (snd (fill_round is (f', a', r', b1)))))" for f' a' r' by (rule Cons)
  then show ?case
    using requests_kept(1)[OF x] by (auto simp: x Let_def intro: kept_trans split: sum.split)
qed simp

lemma fill_pools_kept:
  assumes "fill_pools n s = Some s'"
  shows "kept (snd (snd s)) (snd (snd s'))"
proof (rule fill_pools.raw_induct[where P = "\<lambda>n s s'. kept (snd (snd s)) (snd (snd s'))", OF _ assms])
  fix fp m s s'
  assume IH: "\<And>m s s'. fp m s = Some s' \<Longrightarrow> kept (snd (snd s)) (snd (snd s'))"
    and b: "(let (filled, s) = fill_round (indices m) (False, s) in if filled then fp m s else Some s) = Some s'"
  obtain a r b where s: "s = (a, r, b)" by (metis prod_cases3)
  obtain filled a1 r1 b1 where f: "fill_round (indices m) (False, a, r, b) = (filled, a1, r1, b1)" by (metis prod_cases4)
  have "kept b b1" using fill_round_kept[of b "indices m" False a r] f by simp
  then show "kept (snd (snd s)) (snd (snd s'))"
    using b IH[of m "(a1, r1, b1)" s'] by (auto simp: s f Let_def split: if_splits intro: kept_trans)
qed

lemma reclaim_pools_kept: "kept b (snd (reclaim_pools is (attempt, r, b)))"
proof (induction "is" arbitrary: attempt r b)
  case (Cons i "is")
  obtain x b1 where x: "on_fabric (\<lambda>t. fabric_apply_reclaim t (bench_reclaim attempt (pool_at i b))) b = (x, b1)" by fastforce
  then show ?case using kept_trans[OF requests_kept(3)[OF x] Cons] by (simp add: x Let_def)
qed simp

lemma fill_then_reclaim_kept: "fill_then_reclaim n b = Some (r, b') \<Longrightarrow> kept b b'"
proof -
  assume f: "fill_then_reclaim n b = Some (r, b')"
  then obtain a r1 b1 where b1: "fill_pools n (1000000, scenario_result0, b) = Some (a, r1, b1)"
    "finish_scenario (reclaim_pools (indices n) (a, r1, b1)) = (r, b')"
    by (auto simp: fill_then_reclaim_def)
  obtain r2 b2 where b2: "reclaim_pools (indices n) (a, r1, b1) = (r2, b2)" by fastforce
  have "kept b b1" "kept b1 b2" "kept b2 b'"
    using fill_pools_kept[OF b1(1)] reclaim_pools_kept[of b1 "indices n" a r1] finish_kept[of b2 r2] b1(2) b2 by simp_all
  then show ?thesis by (blast intro: kept_trans)
qed

lemma allocate_blocks_kept: "kept b (snd (snd (snd (allocate_blocks per ks (blocks, attempt, r, b)))))"
proof (induction ks arbitrary: blocks attempt r b)
  case (Cons k ks)
  obtain i j where k: "k = (i, j)" by fastforce
  obtain x b1 where x: "on_fabric (\<lambda>t. fabric_allocate t (bench_allocate attempt (pool_at i b) (queue_at i (j mod per) b)
      (if block_quantum = 0 then 1 else block_quantum))) b = (x, b1)" by fastforce
  have "kept b1 (snd (snd (snd (allocate_blocks per ks (bl', a', r', b1)))))" for bl' a' r' by (rule Cons)
  then show ?case
    using requests_kept(1)[OF x] by (auto simp: k x Let_def intro: kept_trans split: sum.split)
qed simp

lemma release_alternate_kept: "kept b (snd (release_alternate as (attempt, r, b)))"
proof (induction "as" "(attempt, r, b)" arbitrary: attempt r b rule: release_alternate.induct)
  case (2 a "as" attempt r b)
  obtain x b1 where x: "on_fabric (\<lambda>t. fabric_release t (bench_release attempt a)) b = (x, b1)" by fastforce
  then show ?case using kept_trans[OF requests_kept(2)[OF x]] 2 by (simp add: x Let_def)
qed simp

lemma fragmentation_kept: "kept b (snd (fragmentation n per b))"
proof -
  obtain bl a r b1 where b1: "allocate_blocks per (List.product (indices n) (indices 512)) ([], 10000000, scenario_result0, b) = (bl, a, r, b1)"
    by (metis prod_cases4)
  obtain r2 b2 where b2: "release_alternate bl (a, r, b1) = (r2, b2)" by fastforce
  have "kept b b1" "kept b1 b2" "kept b2 (snd (finish_scenario (r2, b2)))"
    using allocate_blocks_kept[of b per "List.product (indices n) (indices 512)" "[]" 10000000 scenario_result0] b1
      release_alternate_kept[of b1 bl a r] b2 finish_kept[of b2 r2] by simp_all
  then show ?thesis by (simp add: fragmentation_def b1 b2) (blast intro: kept_trans)
qed

lemma evaluate_step_kept: "kept b (snd (snd (evaluate_step n per (rnd, r, b))))"
proof -
  obtain i j units rnd' where d: "draw_request n per rnd = (i, j, units, rnd')" by (metis prod_cases4)
  show ?thesis by (auto simp: evaluate_step_def d Let_def split: prod.split dest: query_kept)
qed

lemma evaluate_scenario_kept: "kept b (snd (evaluate_scenario n m per (rnd, b)))"
proof -
  let ?s = "(rnd, scenario_result0, b)"
  have c: "kept (snd (snd s)) (snd (snd (evaluate_step m per s)))" for s
    using evaluate_step_kept by (metis prod_cases3 snd_conv)
  have "kept b (snd (snd ((evaluate_step m per ^^ unat n) ?s)))"
    using funpow_kept[of "\<lambda>s. snd (snd s)" "evaluate_step m per" ?s "unat n", OF c] by simp
  then show ?thesis
    using finish_kept by (auto simp: evaluate_scenario_def Let_def split: prod.split) (metis kept_trans snd_conv)
qed

lemma advance_kept: "kept b (b\<lparr>bn_clock := c\<rparr>)"
  by (simp add: kept_def layout_def)

lemma pressure_step_kept: "kept b (snd (snd (snd (pressure_step target usable k x (attempt, r, b)))))"
proof -
  let ?a = "xp_accounting x"
  let ?want = "(usable div 40) * (k + 1)" and ?used = "ac_allocated ?a - ac_borrowed_in ?a + ac_lent_out ?a"
  obtain attempt1 r1 b1 where s1: "pressure_allocate target ?want ?used (attempt, r, b) = (attempt1, r1, b1)" by (metis prod_cases3)
  have k1: "kept b b1" using s1 by (auto simp: pressure_allocate_def Let_def split: if_splits prod.splits dest: requests_kept(1))
  obtain e b2 where s2: "bench_query fb_epoch b1 = (e, b2)" by fastforce
  obtain boot b3 where s3: "bench_query fb_boot b2 = (boot, b3)" by fastforce
  obtain u b4 where s4: "on_fabric (\<lambda>t. fabric_observe_pressure t (bench_snapshot target x e boot (bench_now b3))) b3 = (u, b4)" by fastforce
  let ?b5 = "b4\<lparr>bn_clock := manual_advance 1000 (bn_clock b4)\<rparr>"
  obtain y b6 where s6: "bench_query (explain target) ?b5 = (y, b6)" by fastforce
  have "kept b b6"
    using k1 query_kept[OF s2] query_kept[OF s3] requests_kept(4)[OF s4] advance_kept[of b4] query_kept[OF s6]
    by (blast intro: kept_trans)
  then show ?thesis by (simp add: pressure_step_def Let_def s1 s2 s3 s4 s6)
qed

lemma pressure_loop_kept: "kept b (snd (pressure_loop target usable ks x (attempt, r, b)))"
proof (induction ks arbitrary: x attempt r b)
  case (Cons k ks)
  obtain y a1 r1 b1 where s: "pressure_step target usable k x (attempt, r, b) = (y, a1, r1, b1)" by (metis prod_cases4)
  then have "kept b b1" using pressure_step_kept[of b target usable k x attempt r] by simp
  then show ?case using Cons by (cases y) (auto simp: s intro: kept_trans)
qed simp

lemma pressure_transitions_kept: "kept b (snd (pressure_transitions b))"
proof -
  let ?t = "pool_at 0 b"
  obtain x b1 where s: "bench_query (explain ?t) b = (x, b1)" by fastforce
  obtain r b2 where p: "(case x of Inl _ \<Rightarrow> (scenario_result0, b1)
      | Inr x \<Rightarrow> pressure_loop ?t (ac_usable (xp_accounting x)) (indices 40) x (20000000, scenario_result0, b1)) = (r, b2)" by fastforce
  have "kept b1 b2" using p pressure_loop_kept[of b1 ?t _ "indices 40" _ 20000000 scenario_result0]
    by (cases x) (auto, metis snd_conv)
  then have "kept b b2" using kept_trans[OF query_kept[OF s]] by blast
  then have "kept b (snd (finish_scenario (r, b2)))" using finish_kept kept_trans by blast
  then show ?thesis by (simp add: pressure_transitions_def Let_def s p)
qed

lemma run_scenarios_kept:
  assumes "run_scenarios operations n per seed b = Some (results, b')"
  shows "kept b b' \<and> length results = 5"
proof -
  obtain r1 rnd b1 where s1: "allocate_release operations n per (random_new seed, b) = (r1, rnd, b1)" by (metis prod_cases3)
  obtain r2 b2 where s2: "fill_then_reclaim n b1 = Some (r2, b2)"
    using assms by (auto simp: run_scenarios_def s1 split: option.splits)
  obtain r3 b3 where s3: "fragmentation n per b2 = (r3, b3)" by fastforce
  obtain r4 b4 where s4: "evaluate_scenario operations n per (rnd, b3) = (r4, b4)" by fastforce
  obtain r5 b5 where s5: "pressure_transitions b4 = (r5, b5)" by fastforce
  obtain x b6 where s6: "bench_query validate_accounting b5 = (x, b6)" by fastforce
  obtain y b7 where s7: "bench_query metrics b6 = (y, b7)" by fastforce
  have r: "results = [r1, r2, r3, r4, r5]" "b' = b7"
    using assms by (simp_all add: run_scenarios_def Let_def s1 s2 s3 s4 s5 s6 s7)
  have "kept b b1" "kept b2 b3" "kept b3 b4" "kept b4 b5"
    using allocate_release_kept[of b operations n per "random_new seed"] s1 fragmentation_kept[of b2 n per] s3
      evaluate_scenario_kept[of b3 operations n per rnd] s4 pressure_transitions_kept[of b4] s5 by simp_all
  then show ?thesis
    using fill_then_reclaim_kept[OF s2] query_kept[OF s6] query_kept[OF s7] by (simp add: r) (blast intro: kept_trans)
qed

subsection \<open>What it builds\<close>

definition shaped :: "nat \<Rightarrow> nat \<Rightarrow> bench \<Rightarrow> bool" where
  "shaped n per b \<longleftrightarrow> length (bn_pools b) = n \<and> length (bn_queues_by_pool b) = n \<and>
     list_all (\<lambda>row. length row = per) (bn_queues_by_pool b)"

lemma length_indices [simp]: "length (indices n) = unat n"
  by (simp add: indices_def)

lemma indices_less: "i \<in> set (indices n) \<Longrightarrow> i < n"
  by (auto simp: indices_def word_less_nat_alt unat_of_nat)

lemma on_fabric_layout:
  assumes "on_fabric m b = (r, b')" "\<And>t f. volatile f \<Longrightarrow> volatile (snd (m t f))" "volatile (bn_fabric b)"
  shows "volatile (bn_fabric b') \<and> bn_pools b' = bn_pools b \<and> bn_queues_by_pool b' = bn_queues_by_pool b"
  using on_fabric_kept[OF assms(1,2)] assms(3) by (simp add: kept_def layout_def)

lemma build_queues_sound:
  assumes "volatile (bn_fabric b)" "bn_queues_by_pool b = rows @ [row]" "build_queues per index pool is b = (r, b')"
  shows "volatile (bn_fabric b') \<and> bn_pools b' = bn_pools b \<and>
    (r = Inr () \<longrightarrow> (\<exists>row'. bn_queues_by_pool b' = rows @ [row'] \<and> length row' = length row + length is))"
  using assms
proof (induction "is" arbitrary: b row)
  case (Cons i "is")
  obtain q b1 where q: "on_fabric (\<lambda>t. fabric_register_queue t (bench_queue per index i pool)) b = (q, b1)" by fastforce
  note k = on_fabric_layout[OF q _ Cons.prems(1)]
  have b1: "volatile (bn_fabric b1)" "bn_pools b1 = bn_pools b" "bn_queues_by_pool b1 = rows @ [row]"
    using k Cons.prems(2) by (simp_all add: volatile_ops)
  show ?case
  proof (cases q)
    case (Inr x)
    let ?b = "b1\<lparr>bn_queues := bn_queues b1 @ [x], bn_queues_by_pool := rows @ [row @ [x]]\<rparr>"
    have "build_queues per index pool is ?b = (r, b')" using Cons.prems(3) Inr b1 by (simp add: q try_st_def)
    then show ?thesis using Cons.IH[of ?b "row @ [x]"] b1 by simp
  qed (use Cons.prems(3) b1 in \<open>auto simp: q try_st_def\<close>)
qed simp

lemma shaped_Suc:
  "shaped n per b \<Longrightarrow> bn_pools b' = bn_pools b @ [p] \<Longrightarrow> bn_queues_by_pool b' = bn_queues_by_pool b @ [row] \<Longrightarrow> length row = per \<Longrightarrow>
     shaped (Suc n) per b'"
  by (simp add: shaped_def)

lemma build_pools_sound:
  assumes "volatile (bn_fabric b)" "shaped n (unat per) b" "build_pools per is b = (r, b')"
  shows "volatile (bn_fabric b') \<and> (r = Inr () \<longrightarrow> shaped (n + length is) (unat per) b')"
  using assms
proof (induction "is" arbitrary: b n)
  case (Cons i "is")
  obtain x b1 where x: "on_fabric (\<lambda>t. fabric_register_pool t (bench_pool i (sb_id (bn_backend b)))) b = (x, b1)" by fastforce
  note k = on_fabric_layout[OF x _ Cons.prems(1)]
  have b1: "volatile (bn_fabric b1)" "bn_pools b1 = bn_pools b" "bn_queues_by_pool b1 = bn_queues_by_pool b"
    using k by (simp_all add: volatile_ops)
  show ?case
  proof (cases x)
    case (Inr p)
    let ?b2 = "b1\<lparr>bn_pools := bn_pools b1 @ [p], bn_queues_by_pool := bn_queues_by_pool b1 @ [[]]\<rparr>"
    obtain y b3 where y: "build_queues per i p (indices per) ?b2 = (y, b3)" by fastforce
    have q: "volatile (bn_fabric b3) \<and> bn_pools b3 = bn_pools b @ [p] \<and>
        (y = Inr () \<longrightarrow> (\<exists>row. bn_queues_by_pool b3 = bn_queues_by_pool b @ [row] \<and> length row = unat per))"
      using build_queues_sound[OF _ _ y, of "bn_queues_by_pool b" "[]"] b1 by simp
    show ?thesis
    proof (cases y)
      case (Inr u)
      then have "shaped (Suc n) (unat per) b3" "volatile (bn_fabric b3)"
        using q shaped_Suc[OF Cons.prems(2)] by auto
      moreover have "build_pools per is b3 = (r, b')" using Cons.prems(3) Inr \<open>x = Inr p\<close> by (simp add: x y try_st_def)
      ultimately show ?thesis using Cons.IH[of b3 "Suc n"] by simp
    qed (use Cons.prems(3) Inr q in \<open>auto simp: x y try_st_def\<close>)
  qed (use Cons.prems(3) b1 in \<open>auto simp: x try_st_def\<close>)
qed simp

lemma build_capacity_sound:
  assumes "volatile (bn_fabric b)" "build_capacity n b = (r, b')"
  shows "volatile (bn_fabric b') \<and> bn_pools b' = bn_pools b \<and> bn_queues_by_pool b' = bn_queues_by_pool b"
proof -
  let ?u = "bench_pool_units * n + 2 ^ 20" and ?t = "bench_now b"
  let ?k = "set_resource 1 ?u 1 (bn_backend b)"
  obtain x k f where s: "set_capacity sb_ready synthetic_query_capacity synthetic_program_reservation (?t, ?t, ?t, ?t)
      1 (sb_id ?k) ?u 0 (?k, bn_fabric b) = (x, k, f)" by (metis prod_cases3)
  have "volatile f"
    using set_capacity_store[OF _ s] set_capacity_reachable[of "bn_fabric b" sb_ready synthetic_query_capacity
        synthetic_program_reservation "(?t, ?t, ?t, ?t)" 1 "sb_id ?k" ?u 0 ?k] s assms(1) by (simp add: volatile_def)
  then show ?thesis using assms(2) s unfolding build_capacity_def Let_def by (auto split: prod.splits)
qed

text \<open>The topology is built whole or the benchmark stops: every pool has its row of queues.\<close>

lemma build_topology_sound:
  assumes "build_topology boot n per bench0 = (r, b)"
  shows "volatile (bn_fabric b) \<and> (r = Inr () \<longrightarrow> shaped (unat n) (unat per) b)"
proof -
  have m: "pc_mode (cf_persistence bench_config) = DurNone"
    by (simp add: bench_config_def fabric_config0_def persistence_config0_def)
  have o: "volatile (snd (fabric_open t boot bench_config fabric0))" for t
    by (rule volatile_open[OF reach_start _ m]) (simp add: store_mode_def fabric0_def store0_def persistence_config0_def)
  obtain x1 b1 where s1: "on_fabric (\<lambda>t. fabric_open t boot bench_config) bench0 = (x1, b1)" by fastforce
  have b1: "volatile (bn_fabric b1)" "bn_pools b1 = []" "bn_queues_by_pool b1 = []"
    using s1 o[of "bench_now bench0"] by (auto simp: on_fabric_def bench0_def bench_now_def split: prod.splits)
  obtain x2 b2 where s2: "on_fabric (\<lambda>t. bfctl_attach t (bn_backend b1)) b1 = (x2, b2)" by fastforce
  note k2 = on_fabric_layout[OF s2 volatile_ops(9) b1(1)]
  obtain x3 b3 where s3: "build_capacity n b2 = (x3, b3)" by fastforce
  have k3: "volatile (bn_fabric b3) \<and> bn_pools b3 = [] \<and> bn_queues_by_pool b3 = []"
    using build_capacity_sound[OF _ s3] k2 b1 by simp
  obtain x4 b4 where s4: "on_fabric (\<lambda>t. fabric_publish_policy t bench_policy) b3 = (x4, b4)" by fastforce
  have k4: "volatile (bn_fabric b4) \<and> bn_pools b4 = [] \<and> bn_queues_by_pool b4 = []"
    using on_fabric_layout[OF s4 volatile_ops(6)] k3 by simp
  obtain x5 b5 where s5: "build_pools per (indices n) b4 = (x5, b5)" by fastforce
  have k5: "volatile (bn_fabric b5) \<and> (x5 = Inr () \<longrightarrow> shaped (unat n) (unat per) b5)"
    using build_pools_sound[OF _ _ s5, of 0] k4 by (simp add: shaped_def)
  have e: "build_topology boot n per bench0 = (case x1 of Inl e \<Rightarrow> (Inl e, b1) | Inr _ \<Rightarrow> case x2 of Inl e \<Rightarrow> (Inl e, b2)
      | Inr _ \<Rightarrow> case x3 of Inl e \<Rightarrow> (Inl e, b3) | Inr _ \<Rightarrow> case x4 of Inl e \<Rightarrow> (Inl e, b4) | Inr _ \<Rightarrow> (x5, b5))"
    by (cases x1; cases x2; cases x3; cases x4) (simp_all add: build_topology_def s1 s2 s3 s4 s5 try_st_def)
  show ?thesis
    using assms b1 k2 k3 k4 k5 unfolding e by (auto split: sum.splits)
qed

text \<open>Every index a scenario uses is within the built topology.\<close>

lemma draw_in_range:
  assumes "n \<noteq> 0" "per \<noteq> 0" "draw_request n per rnd = (i, j, units, rnd')"
  shows "i < n \<and> j < per \<and> 1 \<le> units \<and> units \<le> 4096"
proof -
  obtain i' s1 where 1: "random_below n rnd = (i', s1)" by fastforce
  obtain j' s2 where 2: "random_below per s1 = (j', s2)" by fastforce
  obtain u s3 where 3: "random_below 4096 s2 = (u, s3)" by fastforce
  have "i' < n" "j' < per" "u < 4096"
    using random_below_less[OF assms(1), of rnd] random_below_less[OF assms(2), of s1] random_below_less[of 4096 s2] 1 2 3 by simp_all
  moreover have "i = i'" "j = j'" "units = 1 + u" using assms(3) by (simp_all add: draw_request_def 1 2 3)
  moreover from \<open>u < 4096\<close> have "unat (1 + u) = Suc (unat u)" by (intro unat_next[of u, unfolded add.commute[of u]]) (simp add: word_less_nat_alt)
  ultimately show ?thesis by (simp add: word_le_nat_alt word_less_nat_alt)
qed

lemma index_in_range:
  assumes "shaped (unat n) (unat per) b" "i < n" "j < per"
  shows "unat i < length (bn_pools b) \<and> unat i < length (bn_queues_by_pool b) \<and> unat j < length (bn_queues_by_pool b ! unat i)"
  using assms by (auto simp: shaped_def list_all_length word_less_nat_alt)

lemma bench_keeps_books:
  assumes "bench_main boot argv bench0 = Some (code, b)"
  shows "reachable (bn_fabric b) \<and> ledger_inv (bn_fabric b) \<and> code \<in> {0, 1}"
proof -
  let ?a = "parse_arguments argv"
  let ?n = "flag_number ''--pools'' 4 ?a" and ?per = "flag_number ''--queues'' 8 ?a"
  have z: "reachable (bn_fabric bench0)" by (simp add: bench0_def reach_start)
  obtain x b1 where s1: "build_topology boot ?n ?per bench0 = (x, b1)" by fastforce
  have b1: "volatile (bn_fabric b1)" using build_topology_sound[OF s1] by blast
  have c: "kept b2 b3" if "on_fabric fabric_close b2 = (y, b3)" for b2 y b3 by (rule requests_kept(5)[OF that])
  have "reachable (bn_fabric b) \<and> code \<in> {0, 1}"
    using assms z b1
    by (auto simp: bench_main_def Let_def s1 volatile_def kept_def split: if_splits sum.splits option.splits prod.splits
        dest!: run_scenarios_kept c)
  then show ?thesis using reachable_inv[of "bn_fabric b"] by (simp add: fabric_inv_def)
qed

end
