(* ===== verification/Downstream.thy ===== *)
theory Downstream
  imports Bench
begin

text \<open>
  The downstream consumer src/examples/downstream/main.cpp: one pass over the public interface of a fabric in memory.  A run
  gives whether it ended with 0 and the fabric it leaves; the clock readings of its locked sections are t 0, t 1 and so on.
\<close>

definition then_ok :: "'a result \<times> fabric \<Rightarrow> ('a \<Rightarrow> fabric \<Rightarrow> bool \<times> fabric) \<Rightarrow> bool \<times> fabric" where
  "then_ok m k = (case m of (Inl _, f) \<Rightarrow> (False, f) | (Inr x, f) \<Rightarrow> k x f)"

definition expect :: "bool \<Rightarrow> (fabric \<Rightarrow> bool \<times> fabric) \<Rightarrow> fabric \<Rightarrow> bool \<times> fabric" where
  "expect c k f = (if c then k f else (False, f))"

definition kCapacity :: u64 where "kCapacity = 4000000"
definition kRaw :: u64 where "kRaw = 1000000"
definition kProtected :: u64 where "kProtected = 100000"

definition downstream_policy :: pool_policy where
  "downstream_policy = pool_policy0\<lparr>pol_id := 1, pol_name := ''downstream'',
     pressure := (pressure pool_policy0)\<lparr>evidence_ttl_ticks := 1000000000\<rparr>\<rparr>"

definition downstream_pool :: "backend_id \<Rightarrow> pool_registration" where
  "downstream_pool backend = \<lparr>pg_id = 1, pg_name = ''downstream-pool'', pg_resource = 1, pg_backend = backend,
     pg_raw_units = kRaw, pg_protected_units = kProtected, pg_parent = 0, pg_policy = 1, pg_tenant = 0, pg_provenance = 0\<rparr>"

definition downstream_queue :: queue_registration where
  "downstream_queue = \<lparr>qg_id = 1, qg_name = ''downstream-queue'', qg_pool = 1, qg_tenant = 0, qg_traffic_class = 0,
     qg_demand_units = 400000, qg_weight = 1, qg_max_committed_units = 0\<rparr>"

definition downstream_snapshot :: "explanation \<Rightarrow> epoch_id \<Rightarrow> boot_incarnation \<Rightarrow> pressure_snapshot" where
  "downstream_snapshot x e boot = \<lparr>ps_id = 0, ps_pool = 1, ps_pool_generation = xp_pool_generation x, ps_epoch = e,
     ps_boot = boot, ps_observed_at = 1, ps_ttl_ticks = 1000000000, ps_demand_units = 400000, ps_committed_units = 0,
     ps_reclaimable_units = 0, ps_provenance = 0, assert_committed = False, evidence_digest = \<lparr>dg_hi = 0, dg_lo = 0\<rparr>\<rparr>"

text \<open>The part up to the topology.\<close>

definition downstream_setup :: "(nat \<Rightarrow> tick) \<Rightarrow> boot_incarnation \<Rightarrow> (fabric \<Rightarrow> bool \<times> fabric) \<Rightarrow> fabric \<Rightarrow> bool \<times> fabric" where
  "downstream_setup t boot k f =
     (let backend = synthetic_new 1 1 ''downstream'' in
      then_ok (fabric_open (t 0) boot fabric_config0 f) (\<lambda>_ f.
      then_ok (bfctl_attach (t 1) backend f) (\<lambda>_ f.
      let backend = set_resource 1 kCapacity 1 backend;
          (r, backend, f) = set_capacity sb_ready synthetic_query_capacity synthetic_program_reservation (t 2, t 3, t 4, t 5)
            1 (sb_id backend) kCapacity 0 (backend, f) in
      then_ok (r, f) (\<lambda>_ f.
      then_ok (fabric_publish_policy (t 6) downstream_policy f) (\<lambda>_ f.
      then_ok (fabric_register_pool (t 7) (downstream_pool (sb_id backend)) f) (\<lambda>_ f.
      then_ok (fabric_register_queue (t 8) downstream_queue f) (\<lambda>_ f. k f)))))))"

text \<open>Evidence, the grant with its accounting, the release and the close.\<close>

definition downstream_observe :: "(nat \<Rightarrow> tick) \<Rightarrow> (fabric \<Rightarrow> bool \<times> fabric) \<Rightarrow> fabric \<Rightarrow> bool \<times> fabric" where
  "downstream_observe t k f =
     then_ok (fabric_allocate (t 9) (bench_allocate 1 1 1 1000) f) (\<lambda>cold f.
     expect (dc_granted_units cold = 0 \<and> dc_kind cold = Revalidate) (\<lambda>f.
     let f = take_lock (t 10) f in
     then_ok (explain 1 f, f) (\<lambda>x f.
     let f = take_lock (t 11) f; e = fb_epoch f; f = take_lock (t 12) f in
     then_ok (fabric_observe_pressure (t 13) (downstream_snapshot x e (fb_boot f)) f) (\<lambda>_ f. k f))) f)"

definition downstream_settle :: "(nat \<Rightarrow> tick) \<Rightarrow> allocation_id \<Rightarrow> fabric \<Rightarrow> bool \<times> fabric" where
  "downstream_settle t allocation f =
     then_ok (fabric_release (t 16) (bench_release 3 allocation) f) (\<lambda>_ f.
     let f = take_lock (t 17) f in
     expect (rp_closed (validate_accounting f)) (\<lambda>f.
     let f = take_lock (t 18) f in
     then_ok (explain 1 f, f) (\<lambda>x f.
     expect (ac_allocated (xp_accounting x) = 0) (\<lambda>f.
     then_ok (fabric_close (t 19) f) (\<lambda>_ f. (True, f))) f)) f)"

definition downstream_main :: "(nat \<Rightarrow> tick) \<Rightarrow> boot_incarnation \<Rightarrow> fabric \<Rightarrow> bool \<times> fabric" where
  "downstream_main t boot =
     downstream_setup t boot (downstream_observe t (\<lambda>f.
     then_ok (fabric_allocate (t 14) (bench_allocate 2 1 1 250000) f) (\<lambda>d f.
     expect (dc_granted_units d = 250000) (\<lambda>f.
     let f = take_lock (t 15) f in
     then_ok (explain 1 f, f) (\<lambda>x f.
     expect (rp_closed (xp_report x)) (\<lambda>f.
     expect (ac_allocated (xp_accounting x) = 250000 \<and> ac_free (xp_accounting x) = kRaw - kProtected - 250000) (\<lambda>f.
     downstream_settle t (dc_allocation d) f) f) f)) f)))"

subsection \<open>What it keeps\<close>

lemma then_ok_volatile:
  assumes "volatile (snd m)" "\<And>x g. volatile g \<Longrightarrow> volatile (snd (k x g))"
  shows "volatile (snd (then_ok m k))"
  using assms by (cases m; cases "fst m") (auto simp: then_ok_def)

lemma expect_volatile:
  assumes "volatile f" "volatile (snd (k f))"
  shows "volatile (snd (expect c k f))"
  using assms by (simp add: expect_def)

lemma setup_volatile:
  assumes "\<And>g. volatile g \<Longrightarrow> volatile (snd (k g))" "reachable f" "store_mode (fb_store f) = DurNone"
  shows "volatile (snd (downstream_setup t boot k f))"
proof -
  have m: "pc_mode (cf_persistence fabric_config0) = DurNone" by (simp add: fabric_config0_def persistence_config0_def)
  have s: "volatile h" if "set_capacity ok query program ticks r i raw g (b, f') = (x, b', h)" "volatile f'" for ok query program ticks r i raw g b f' x b' h
    using set_capacity_store[OF _ that(1)] set_capacity_reachable[of f' ok query program ticks r i raw g b] that by (simp add: volatile_def)
  show ?thesis
    unfolding downstream_setup_def Let_def
    by (intro then_ok_volatile volatile_open assms(2,3) m volatile_ops(9))
      (auto split: prod.split dest!: s intro!: then_ok_volatile volatile_ops assms(1))
qed

lemma settle_volatile: "volatile f \<Longrightarrow> volatile (snd (downstream_settle t a f))"
  unfolding downstream_settle_def Let_def
  by (intro then_ok_volatile expect_volatile volatile_ops(3)) (auto intro!: then_ok_volatile expect_volatile volatile_ops simp: bench_release_def)

lemma observe_volatile:
  "volatile f \<Longrightarrow> (\<And>g. volatile g \<Longrightarrow> volatile (snd (k g))) \<Longrightarrow> volatile (snd (downstream_observe t k f))"
  unfolding downstream_observe_def Let_def
  by (intro then_ok_volatile expect_volatile volatile_ops(2,5); simp add: volatile_ops(1))

lemma downstream_keeps_books:
  assumes "downstream_main t boot fabric0 = (ok, f)"
  shows "reachable f \<and> ledger_inv f"
proof -
  have "volatile (snd (downstream_main t boot fabric0))"
    unfolding downstream_main_def Let_def
  proof (rule setup_volatile)
    fix g assume "volatile g"
    then show "volatile (snd (downstream_observe t (\<lambda>f. then_ok (fabric_allocate (t 14) (bench_allocate 2 1 1 250000) f) (\<lambda>d f.
        expect (dc_granted_units d = 250000) (\<lambda>f. then_ok (explain 1 (take_lock (t 15) f), take_lock (t 15) f) (\<lambda>x f.
        expect (rp_closed (xp_report x)) (\<lambda>f. expect (ac_allocated (xp_accounting x) = 250000 \<and>
          ac_free (xp_accounting x) = kRaw - kProtected - 250000) (\<lambda>f. downstream_settle t (dc_allocation d) f) f) f)) f)) g))"
      by (auto intro!: observe_volatile then_ok_volatile expect_volatile volatile_ops settle_volatile)
  qed (rule reach_start, simp add: store_mode_def fabric0_def store0_def persistence_config0_def)
  then have "reachable f" using assms by (simp add: volatile_def)
  then show ?thesis using reachable_inv[of f] by (simp add: fabric_inv_def)
qed

end
