(* ===== verification/Spec2Isabelle.thy ===== *)
theory Spec2Isabelle
  imports Attempts Sockets Downstream
begin

text \<open>
  A verification development of Buffer Fabric: a C++ library that owns the buffer capacity of a
  system and decides, with a complete account, who may hold how much of it; a coordinator that serves it to
  other processes; the worker that uses it; and the command line tools around them.

  \<^bold>\<open>The program and its theories.\<close>  Paths are under src/include/buffer_fabric and src/src
  unless they name another directory.

  \<^item> Prelude: results as sums, try_st for the early return on an error, association lists with the
    invariants of hash maps.
  \<^item> Types (types.hpp, status.hpp, time.hpp, status.cpp), Hash (hash.hpp, status.cpp), Codec (codec.hpp,
    codec.cpp): identities and bounds, checked 64-bit and 128-bit arithmetic, error codes, freshness;
    CRC-32C and FNV-1a over 128 bits; the byte writer with its latched failure, readers as the bytes left,
    frames.
  \<^item> Policy, Topology, Wire, Accounting, Decision (policy.cpp, topology.cpp, wire.hpp, accounting.cpp,
    authority.cpp, decision.cpp and their headers): the domain's records, their validation and encodings, the
    classification of pressure, the accounting checker, authority vectors, requests and their digests.
  \<^item> Observation (observation.cpp), Persistence (persistence.cpp), Backend (backend.cpp): the event ring
    and the counters; journal and snapshot files with a script of outcomes for the operating system
    calls, where the journal that the process has written (disk_journal) is apart from the part that was synced
    (disk_synced) and crash_leaves says what a crash may leave of it; capacity backends.
  \<^item> Fabric_State (fabric_impl.hpp, fabric.cpp): the whole state of a fabric as one record, journaling,
    snapshots, replay, open and close.  Ledger states what the books of a pool are: each aggregate is the
    sum of the charges of the allocations that hold units.
  \<^item> Fabric_Alloc (fabric_alloc.cpp): allocate, commit, release, revalidate, fencing and expiry.
    Alloc_Safety, Alloc_Ops, Alloc_Grant and Alloc_Inv prove that each step keeps the books,
    Alloc_Live that a decided grant is carried out.
  \<^item> Fabric_Topology (fabric_topology.cpp) and Topology_Safety: capacity, policies, pools, queues and
    pressure evidence, and that they keep the books.
  \<^item> Fabric_Query (fabric_query.cpp): evaluation, reclamation, explanation, inspection, checkpoint.
  \<^item> Recovery: a durable open that finds a sound image restores exact books.
  \<^item> Runtime: the fabric as a state machine, one rule per locked section (operation_step), with the durable open
    that finds a sound image (fabric_step), and the invariant of its reachable states.  Worked_Run is a concrete run from an empty fabric to a grant; it
    shows that the hypotheses of the theorems can hold.
  \<^item> Guarantees and Attempts: what callers rely on.  Durability: what is on disk when a grant is answered,
    and what a new process makes of it.  Memory_Mode: that a fabric without durability leaves the disk alone.
  \<^item> Json (json.cpp) and Render (explain.cpp, format_pool_accounting, AuthorityVector::describe,
    Capabilities): the bounded JSON writer and the texts of explanations, summaries and accounts.
  \<^item> Protocol (protocol.hpp, protocol.cpp) and Transport (transport.cpp): the messages between worker and
    coordinator, their frames, and receiving and sending over a stream socket, on which a peer may be closing or silent.
  \<^item> Coordinator and Sessions (coordinator.cpp): bootstrap, start, the accept loop, every operation of
    dispatch, sessions, shutdown, and what a session does to the fabric.
  \<^item> Worker (worker.cpp): run_worker with its report.
  \<^item> Files (fs.cpp and the stdio helpers of persistence.cpp): a disk of inodes and directory entries, what a
    crash may keep of them, and every file operation with a script of answers for its system calls; the order in
    which compaction replaces the snapshot and empties the journal.
  \<^item> Process (process.cpp): child processes over a table of descriptors, reading their output by lines, and the
    Windows command line.  Sockets: the part of transport.cpp that creates, connects, accepts, moves and closes
    sockets, over the same table.
  \<^item> Diagnostics (status.cpp, time.cpp, RecoveryReport::to_json): texts of statuses and recovery reports, the steady
    and the manual clock.
  \<^item> Tool_Args and Tools (src/tools): the parsing of arguments, every command of bfctl, bf_coordinator and bf_worker.
    Bench (src/tools/bfbench.cpp) and Downstream (src/examples/downstream/main.cpp): programs over the
    library, as runs of its public operations.

  \<^bold>\<open>How code becomes definitions.\<close>  A struct is a record, an enum a datatype with its raw values, u8 to
  u64 are words, so that arithmetic wraps where the code's does and overflow checks are proved rather than
  assumed.  Status and Result are sums with the error code on the left; the text of a status is
  diagnostic and not part of the model.  A method under the lock is a function from a fabric to a result
  and the next fabric, so that what a failing call has already changed is visible; take_lock stores the clock reading that
  the lock takes.  Hash maps are association lists with distinct keys, sorted where the code
  sorts.  Interfaces between components are locales (wire_codec for encodings, capacity_source for
  backends, fabric_moves for what a session may do to the fabric, and others; the owners of descriptors
  in Process and Sockets share one), each interpreted on the
  model's own definitions.

  \<^bold>\<open>What the theorems show.\<close>  In every state that the operations reach, in any order, the ledger of
  each pool is exact, and without a recovery the tables are well formed; no allocation takes a pool past its limit; nothing
  is granted without usable evidence; a repeated request takes effect once; a grant of a durable fabric is
  synced when it is answered, and replay of whatever a crash leaves of the journal restores it; a fabric without durability writes nothing.  A file that is
  replaced reads after a crash as the old or the new one, and compaction never gives up the journal before
  the snapshot that replaces it is in place.  The arithmetic, digests,
  encodings, accounting checker and event ring do exactly what their specifications say, corrupted
  frames and torn journals are detected and recovered from.  An allocate request over the wire is the operation on
  the fabric that the other threads have left, but for the parent allocation, which the wire does not carry; a request of another epoch
  never reaches the fabric; a session ends when its connection closes, and waits for a client that is silent;
  the worker's report accounts for every operation; an invocation of
  bfctl on a sound state keeps the books, and its reporting commands change nothing whatever the state is.  Descriptors of child processes and sockets are neither leaked nor closed twice, and arguments
  of well-formed UTF-8 survive the Windows command line.  Where the
  code departs from what it documents, a theorem states the departure, for instance
  recovered_identity_reused, interrupted_read_closes, client_slots_never_freed, truncation_marker_unseparated,
  oversized_snapshot_strands_store and short_write_poisons_journal.

  \<^bold>\<open>Concurrency.\<close>  The fabric's operations are atomic under its lock.  A session is not: between two of
  its locked sections any other thread may run, and the theorems about sessions quantify over what these
  threads do (surroundings).  What a handler does between its locked sections touches only its own reply and atomic counters.

  \<^bold>\<open>Loops and fuel.\<close>  Loops over containers are structural.  receive_exact and a session end
  because each turn uses up bytes of the stream, or they wait for more: a recv with nothing to read from a peer that has
  not closed has no result in the code either (sk_waiting, Blocked); the send loop runs over the answers of its calls, and send_all_complete says how many
  suffice.  The walk over a pool's ancestors stops at kMaxPoolDepth as in the code.  The loop of the benchmark
  that fills the pools (fill_pools) is a partial_function, and nothing is claimed about its return; what is claimed holds of every run that
  returns.

  \<^bold>\<open>Not modelled.\<close>  The operating system itself: the answers of its calls are arguments, and threads are
  interleavings at the fabric's lock.  The Windows branches of fs.cpp, process.cpp and transport.cpp, but for the
  command line, in which the conversion from UTF-8 to UTF-16 is a parameter with its documented behaviour as a hypothesis (converts_utf8).
  Whether the directory entry of a newly created journal survives a crash: the code never syncs the directory after fopen, and
  crash_leaves speaks of the content of the file.  The durations and figures that the benchmark prints, the constants of the build (config.hpp, version.hpp), and the
  tests.  A release whose proportional share
  overflows, or whose journal write fails, is modelled as the code has it, but it is not a step of the
  state machine, because it damages the books; a durable open that fails half way is left out for the same reason.
  A durable open is a step only when its image is sound; recovered_identity_reused shows an image that is not, and the theorems
  that include durable opens say so.
\<close>

end
